(* ===== verification/Prelude.thy ===== *)
theory Prelude
  imports Main "HOL-Library.Word" "HOL-Library.Multiset"
begin

unbundle bit_operations_syntax

text \<open>
  Shared vocabulary of the development.

  The first part fixes how C is read: unsigned machine integers are words of their width, the
  \<^verbatim>\<open>int\<close> quantities of the layer 2 code (sequence numbers, offsets, sizes) are
  mathematical integers, a \<^verbatim>\<open>(char *buffer, int size)\<close> pair is a byte list, and a
  computation that can end the process or touch memory it must not touch returns a value of
  the sum type \<open>'a res\<close>. The second part holds generic facts: ordered insertion into a linked
  list, modular sequence-number windows and bit strings, stated as locales where several
  components rely on the same contract.
\<close>

section \<open>Machine types\<close>

type_synonym u8 = "8 word"
type_synonym u32 = "32 word"
type_synonym u64 = "64 word"
type_synonym bytes = "u8 list"

text \<open>
  What can end an operation abnormally: \<open>Abort\<close> is \<^verbatim>\<open>exit(1)\<close>,
  \<^verbatim>\<open>AssertFatal\<close> and \<^verbatim>\<open>DevAssert\<close>; the next three are undefined
  behaviour of C that the model makes visible; \<open>Hang\<close> is a loop that never ends.
\<close>

datatype fault = Abort | Null_Deref | Use_After_Free | Out_Of_Bounds | Hang

type_synonym 'a res = "fault + 'a"

named_theorems res_simps \<open>equations of the result type\<close>
named_theorems sn_simps \<open>rules on sequence numbers\<close>
named_theorems bits_simps \<open>rules on bit strings\<close>

section \<open>Results\<close>

definition bindR :: "'a res \<Rightarrow> ('a \<Rightarrow> 'b res) \<Rightarrow> 'b res" where
  "bindR m f = (case m of Inl e \<Rightarrow> Inl e | Inr x \<Rightarrow> f x)"

lemma bindR_Inl [simp]: "bindR (Inl e) f = Inl e"
  by (simp add: bindR_def)

lemma bindR_Inr [simp]: "bindR (Inr x) f = f x"
  by (simp add: bindR_def)

lemma bindR_eq_Inr [res_simps]: "bindR m f = Inr y \<longleftrightarrow> (\<exists>x. m = Inr x \<and> f x = Inr y)"
  by (cases m) auto

lemma bindR_eq_Inl [res_simps]: "bindR m f = Inl e \<longleftrightarrow> m = Inl e \<or> (\<exists>x. m = Inr x \<and> f x = Inl e)"
  by (cases m) auto

lemma bindR_InrE [elim]:
  assumes "bindR m f = Inr y"
  obtains x where "m = Inr x" and "f x = Inr y"
  using assms by (auto simp: res_simps)

text \<open>What a computation establishes when it returns.\<close>

definition postR :: "('a \<Rightarrow> bool) \<Rightarrow> 'a res \<Rightarrow> bool" where
  "postR P r \<longleftrightarrow> (\<forall>y. r = Inr y \<longrightarrow> P y)"

lemma postR_intros:
  "P y \<Longrightarrow> postR P (Inr y)" "postR P (Inl err)"
  "(\<And>x. m = Inr x \<Longrightarrow> postR P (f x)) \<Longrightarrow> postR P (bindR m f)"
  "(b \<Longrightarrow> postR P r) \<Longrightarrow> (\<not> b \<Longrightarrow> postR P r') \<Longrightarrow> postR P (if b then r else r')"
  by (auto simp: postR_def bindR_eq_Inr)

lemma postRD: "postR P r \<Longrightarrow> r = Inr y \<Longrightarrow> P y"
  by (simp add: postR_def)

lemma postR_mono: "postR P r \<Longrightarrow> (\<And>x. P x \<Longrightarrow> Q x) \<Longrightarrow> postR Q r"
  by (simp add: postR_def)

lemma bindR_cong [fundef_cong]:
  "m = m' \<Longrightarrow> (\<And>x. m' = Inr x \<Longrightarrow> f x = f' x) \<Longrightarrow> bindR m f = bindR m' f'"
  by (cases m') auto

definition is_ok :: "'a res \<Rightarrow> bool" where
  "is_ok m \<longleftrightarrow> (case m of Inl _ \<Rightarrow> False | Inr _ \<Rightarrow> True)"

lemma is_ok_simps [simp]: "is_ok (Inr x)" "\<not> is_ok (Inl e)"
  by (simp_all add: is_ok_def)

lemma is_ok_iff: "is_ok m \<longleftrightarrow> (\<exists>x. m = Inr x)"
  by (cases m) auto

text \<open>An array read: the element, or a fault where C would read outside the array.\<close>

definition array_get :: "'a list \<Rightarrow> int \<Rightarrow> 'a res" where
  "array_get xs i = (if 0 \<le> i \<and> i < int (length xs) then Inr (xs ! nat i) else Inl Out_Of_Bounds)"

text \<open>
  \<^verbatim>\<open>memcpy(dst, src + from, len)\<close> as the bytes read: a fault when the range is not
  inside the source, and nothing for a length of zero.
\<close>

definition mem_read :: "bytes \<Rightarrow> int \<Rightarrow> int \<Rightarrow> bytes res" where
  "mem_read src from len =
     (if 0 \<le> len \<and> 0 \<le> from \<and> from + len \<le> int (length src)
      then Inr (take (nat len) (drop (nat from) src)) else Inl Out_Of_Bounds)"

lemma length_mem_read: "mem_read src from len = Inr bs \<Longrightarrow> int (length bs) = len"
  by (auto simp: mem_read_def split: if_splits)

lemma mem_read_ok: "0 \<le> from \<Longrightarrow> 0 \<le> len \<Longrightarrow> from + len \<le> int (length src) \<Longrightarrow>
    mem_read src from len = Inr (take (nat len) (drop (nat from) src))"
  by (simp add: mem_read_def)

text \<open>\<^verbatim>\<open>memcpy(dst + to, bs, len)\<close> as the destination after the copy.\<close>

definition mem_write :: "bytes \<Rightarrow> nat \<Rightarrow> bytes \<Rightarrow> bytes res" where
  "mem_write dst to bs =
     (if to + length bs \<le> length dst
      then Inr (take to dst @ bs @ drop (to + length bs) dst) else Inl Out_Of_Bounds)"

lemma length_mem_write: "mem_write dst to bs = Inr dst' \<Longrightarrow> length dst' = length dst"
  by (auto simp: mem_write_def split: if_splits)

text \<open>The remainder of C, whose sign is the sign of the dividend.\<close>

definition crem :: "int \<Rightarrow> int \<Rightarrow> int" where
  "crem a b = sgn a * (\<bar>a\<bar> mod \<bar>b\<bar>)"

lemma crem_mod: "0 \<le> a \<Longrightarrow> 0 < b \<Longrightarrow> crem a b = a mod b"
  by (cases "a = 0") (simp_all add: crem_def)

section \<open>Ordered insertion\<close>

text \<open>
  The linked lists of the layer 2 code are filled by one loop: walk the list until an element
  that comes after the new one, and link the new one there. \<open>after cur new\<close> is the condition
  that ends the walk.
\<close>

fun ordered_add :: "('x \<Rightarrow> 'x \<Rightarrow> bool) \<Rightarrow> 'x list \<Rightarrow> 'x \<Rightarrow> 'x list" where
  "ordered_add after [] p = [p]"
| "ordered_add after (c # cs) p = (if after c p then p # c # cs else c # ordered_add after cs p)"

lemma mset_ordered_add [simp]: "mset (ordered_add after xs p) = add_mset p (mset xs)"
  by (induction xs) auto

lemma set_ordered_add [simp]: "set (ordered_add after xs p) = insert p (set xs)"
  by (induction xs) auto

lemma length_ordered_add [simp]: "length (ordered_add after xs p) = Suc (length xs)"
  by (induction xs) auto

lemma ordered_add_neq_Nil [simp]: "ordered_add after xs p \<noteq> []"
  by (cases xs) auto

lemma ordered_add_split:
  "ordered_add after xs p = takeWhile (\<lambda>c. \<not> after c p) xs @ p # dropWhile (\<lambda>c. \<not> after c p) xs"
  by (induction xs) auto

lemma ordered_add_last: "\<forall>c \<in> set xs. \<not> after c p \<Longrightarrow> ordered_add after xs p = xs @ [p]"
  by (induction xs) auto

lemma sum_list_ordered_add:
  fixes f :: "'x \<Rightarrow> int"
  shows "sum_list (map f (ordered_add after xs p)) = f p + sum_list (map f xs)"
  by (induction xs) auto

lemma ordered_add_cong:
  "(\<And>c. c \<in> set xs \<Longrightarrow> after c p = after' c p) \<Longrightarrow> ordered_add after xs p = ordered_add after' xs p"
  by (induction xs) auto

text \<open>
  The contract of such a list: \<open>after\<close> is a strict weak order on the elements that are valid
  in the state \<open>s\<close> (the order may depend on it: sequence numbers are compared relative to the
  window of the entity).
\<close>

locale ordered_list =
  fixes valid :: "'s \<Rightarrow> 'x \<Rightarrow> bool"
    and after :: "'s \<Rightarrow> 'x \<Rightarrow> 'x \<Rightarrow> bool"
  assumes after_asym: "valid s a \<Longrightarrow> valid s b \<Longrightarrow> after s a b \<Longrightarrow> \<not> after s b a"
    and not_after_trans: "valid s a \<Longrightarrow> valid s b \<Longrightarrow> valid s c \<Longrightarrow>
      \<not> after s a b \<Longrightarrow> \<not> after s b c \<Longrightarrow> \<not> after s a c"
begin

abbreviation ordered :: "'s \<Rightarrow> 'x list \<Rightarrow> bool" where
  "ordered s \<equiv> sorted_wrt (\<lambda>a b. \<not> after s a b)"

lemma ordered_add_ordered:
  assumes "ordered s xs" and "\<forall>x \<in> set xs. valid s x" and "valid s p"
  shows "ordered s (ordered_add (after s) xs p)"
  using assms
proof (induction xs)
  case Nil
  then show ?case by simp
next
  case (Cons c cs)
  show ?case
  proof (cases "after s c p")
    case True
    have pc: "\<not> after s p c"
      using True Cons.prems by (auto dest: after_asym)
    have "\<not> after s p x" if "x \<in> set cs" for x
      using that pc Cons.prems not_after_trans [of s p c x] by auto
    with True pc Cons.prems show ?thesis by simp
  next
    case False
    with Cons show ?thesis by auto
  qed
qed

lemma ordered_remove: "ordered s (xs @ y # ys) \<Longrightarrow> ordered s (xs @ ys)"
  by (simp add: sorted_wrt_append)

end

section \<open>Sequence-number windows\<close>

text \<open>
  Sequence numbers are compared relative to the lower end \<open>base\<close> of a window, modulo \<open>m\<close>.
  The entities compute the offset \<open>md\<close> with a subtraction and a conditional correction; the
  contract says that this is the offset modulo \<open>m\<close> for every sequence number in range.
\<close>

definition is_sn :: "int \<Rightarrow> int \<Rightarrow> bool" where
  "is_sn m a \<longleftrightarrow> 0 \<le> a \<and> a < m"

lemma is_snI [intro]: "0 \<le> a \<Longrightarrow> a < m \<Longrightarrow> is_sn m a"
  by (simp add: is_sn_def)

lemma is_sn_mod [simp, intro]: "0 < m \<Longrightarrow> is_sn m (a mod m)"
  by (simp add: is_sn_def)

lemma mod_sub_cancel: "0 < m \<Longrightarrow> is_sn m a \<Longrightarrow> (b + (a - b) mod m) mod (m::int) = a"
  by (simp add: is_sn_def mod_simps)

lemma mod_succ_int: "0 < m \<Longrightarrow> (a + 1) mod m = (if a mod m = m - 1 then 0 else a mod m + 1)"
  for m :: int
proof -
  assume m: "0 < m"
  have "(a + 1) mod m = (a mod m + 1) mod m" by (simp add: mod_simps)
  also have "\<dots> = (if a mod m = m - 1 then 0 else a mod m + 1)"
  proof (cases "a mod m = m - 1")
    case False
    then have "a mod m + 1 < m" using pos_mod_bound [OF m, of a] by simp
    then show ?thesis using False m by (simp add: mod_pos_pos_trivial del: mod_add_left_eq)
  qed simp
  finally show ?thesis .
qed

lemma sub_correct_mod:
  assumes "0 < m" and "is_sn m a" and "is_sn m (b::int)"
  shows "(if a - b < 0 then a - b + m else a - b) = (a - b) mod m"
proof (cases "a - b < 0")
  case True
  then have "(a - b) mod m = (a - b + m) mod m" by simp
  also have "\<dots> = a - b + m"
    using True assms by (intro mod_pos_pos_trivial) (auto simp: is_sn_def)
  finally show ?thesis using True by simp
next
  case False
  with assms show ?thesis by (simp add: is_sn_def)
qed

locale sn_window =
  fixes ok :: "'s \<Rightarrow> bool"
    and m :: "'s \<Rightarrow> int"
    and base :: "'s \<Rightarrow> int"
    and md :: "'s \<Rightarrow> int \<Rightarrow> int"
  assumes m_pos: "ok s \<Longrightarrow> 0 < m s"
    and md_eq: "ok s \<Longrightarrow> is_sn (m s) a \<Longrightarrow> md s a = (a - base s) mod m s"
begin

lemma md_nonneg [sn_simps]: "ok s \<Longrightarrow> is_sn (m s) a \<Longrightarrow> 0 \<le> md s a"
  by (simp add: md_eq m_pos)

lemma md_less [sn_simps]: "ok s \<Longrightarrow> is_sn (m s) a \<Longrightarrow> md s a < m s"
  by (simp add: md_eq m_pos)

lemma md_inverse: "ok s \<Longrightarrow> is_sn (m s) a \<Longrightarrow> (base s + md s a) mod m s = a"
  by (simp add: md_eq m_pos mod_sub_cancel)

lemma md_inject: "ok s \<Longrightarrow> is_sn (m s) a \<Longrightarrow> is_sn (m s) b \<Longrightarrow> md s a = md s b \<longleftrightarrow> a = b"
  by (metis md_inverse)

lemma md_add:
  assumes "ok s" and "is_sn (m s) a"
  shows "md s ((a + k) mod m s) = (md s a + k) mod m s"
proof -
  have "md s ((a + k) mod m s) = ((a + k) mod m s - base s) mod m s"
    using assms by (simp add: md_eq m_pos)
  also have "\<dots> = ((a - base s) mod m s + k) mod m s"
    by (simp add: mod_simps algebra_simps)
  finally show ?thesis using assms by (simp add: md_eq)
qed

lemma md_succ:
  assumes "ok s" and "is_sn (m s) a"
  shows "md s ((a + 1) mod m s) = (if md s a = m s - 1 then 0 else md s a + 1)"
proof -
  have "md s a mod m s = md s a"
    using assms by (simp add: md_nonneg md_less)
  moreover have "md s ((a + 1) mod m s) = (md s a + 1) mod m s"
    using assms by (rule md_add)
  ultimately show ?thesis
    using assms mod_succ_int [of "m s" "md s a"] by (simp add: m_pos)
qed

lemma md_base: "ok s \<Longrightarrow> is_sn (m s) (base s) \<Longrightarrow> md s (base s) = 0"
  by (simp add: md_eq)

lemma md_base_add: "ok s \<Longrightarrow> 0 \<le> k \<Longrightarrow> k < m s \<Longrightarrow> md s ((base s + k) mod m s) = k"
  by (simp add: md_eq m_pos mod_simps)

end

section \<open>Bit strings\<close>

text \<open>Bits are written most significant first: a byte, the value of a string, a field of \<open>n\<close> bits.\<close>

definition byte_bits :: "u8 \<Rightarrow> bool list" where
  "byte_bits w = map (\<lambda>i. bit w (7 - i)) [0..<8]"

fun bits_val :: "int \<Rightarrow> bool list \<Rightarrow> int" where
  "bits_val r [] = r"
| "bits_val r (b # bs) = bits_val (2 * r + of_bool b) bs"

definition field_bits :: "int \<Rightarrow> nat \<Rightarrow> bool list" where
  "field_bits v n = map (\<lambda>i. bit v (n - 1 - i)) [0..<n]"

lemma length_byte_bits [simp]: "length (byte_bits w) = 8"
  by (simp add: byte_bits_def)

lemma length_field_bits [simp]: "length (field_bits v n) = n"
  by (simp add: field_bits_def)

lemma length_concat_byte_bits [simp]: "length (concat (map byte_bits bs)) = 8 * length bs"
  by (induction bs) auto

lemma field_bits_0 [simp]: "field_bits v 0 = []"
  by (simp add: field_bits_def)

lemma field_bits_Suc: "field_bits v (Suc n) = bit v n # field_bits v n"
  by (rule nth_equalityI) (auto simp: field_bits_def nth_Cons nth_append simp del: upt_Suc split: nat.splits)

lemma bits_val_append: "bits_val r (xs @ ys) = bits_val (bits_val r xs) ys"
  by (induction xs arbitrary: r) auto

lemma bits_val_field_bits: "bits_val r (field_bits v n) = r * 2 ^ n + take_bit n v"
proof (induction n arbitrary: r)
  case 0
  then show ?case by simp
next
  case (Suc n)
  have "take_bit (Suc n) v = of_bool (bit v n) * 2 ^ n + take_bit n v"
    by (subst take_bit_Suc_from_most) (simp add: algebra_simps)
  with Suc show ?case by (simp add: field_bits_Suc algebra_simps)
qed

lemma bits_val_field [bits_simps]: "0 \<le> v \<Longrightarrow> v < 2 ^ n \<Longrightarrow> bits_val 0 (field_bits v n) = v"
  by (simp add: bits_val_field_bits take_bit_int_eq_self)

lemma bits_val_bounds: "0 \<le> bits_val 0 bs \<and> bits_val 0 bs < 2 ^ length bs"
proof -
  have "r * 2 ^ length bs \<le> bits_val r bs \<and> bits_val r bs < (r + 1) * 2 ^ length bs" for r
  proof (induction bs arbitrary: r)
    case (Cons b bs)
    from Cons [of "2 * r + of_bool b"] show ?case
      by (cases b) (auto simp: algebra_simps)
  qed simp
  from this [of 0] show ?thesis by simp
qed

lemma byte_bits_inject: "byte_bits a = byte_bits b \<longleftrightarrow> a = b"
proof
  assume eq: "byte_bits a = byte_bits b"
  show "a = b"
  proof (rule bit_word_eqI)
    fix n assume "n < LENGTH(8)"
    then have "n < 8" by simp
    then have "byte_bits w ! (7 - n) = bit w n" for w
      by (subst byte_bits_def, subst nth_map) (simp_all del: upt_rec_numeral)
    with eq show "bit a n = bit b n" by metis
  qed
qed simp

end
