(* ===== verification/Time_Stat.thy ===== *)
theory Time_Stat
  imports Prelude
begin

text \<open>
  Model of \<^verbatim>\<open>common/utils/time_stat.c\<close>: the sliding-window average the RLC entities
  use for the waiting time of their SDUs. The samples are kept in a ring that doubles when it is
  full; \<open>ring_list\<close> is the queue the ring stands for and the operations are shown to be the
  queue operations on it.

  The part of the buffer that \<^verbatim>\<open>realloc\<close> adds is zero in the model; the refinement
  lemmas show that no element outside the queue is ever read. The final division of
  \<^verbatim>\<open>time_average_get_average\<close> is left as the pair of its operands.
\<close>

record time_value_t =
  tv_time :: u64
  tv_value :: u64

record time_ring_t =
  rg_head :: int
  rg_tail :: nat
  rg_buffer :: "time_value_t list"
  rg_maxsize :: nat
  rg_size :: nat

record time_average_t =
  ta_duration :: int
  ta_r :: time_ring_t
  ta_accumulated_value :: u64

definition zero_tv :: time_value_t where
  "zero_tv = \<lparr> tv_time = 0, tv_value = 0 \<rparr>"

definition time_average_new :: "int \<Rightarrow> int \<Rightarrow> time_average_t res" where
  "time_average_new duration initial_size =
     (if initial_size AND (initial_size - 1) \<noteq> 0 then Inl Abort
      else Inr \<lparr> ta_duration = duration,
                 ta_r = \<lparr> rg_head = initial_size - 1, rg_tail = 0,
                          rg_buffer = replicate (nat initial_size) zero_tv,
                          rg_maxsize = nat initial_size, rg_size = 0 \<rparr>,
                 ta_accumulated_value = 0 \<rparr>)"

definition time_average_reset :: "time_average_t \<Rightarrow> time_average_t" where
  "time_average_reset t =
     t\<lparr>ta_r := (ta_r t)\<lparr>rg_head := int (rg_maxsize (ta_r t)) - 1, rg_tail := 0, rg_size := 0\<rparr>,
       ta_accumulated_value := 0\<rparr>"

function remove_old :: "time_average_t \<Rightarrow> u64 \<Rightarrow> time_average_t" where
  "remove_old t time =
     (if rg_size (ta_r t) \<noteq> 0
         \<and> tv_time (rg_buffer (ta_r t) ! rg_tail (ta_r t)) < time - word_of_int (ta_duration t)
      then remove_old
             (t\<lparr>ta_accumulated_value :=
                  ta_accumulated_value t - tv_value (rg_buffer (ta_r t) ! rg_tail (ta_r t)),
                ta_r := (ta_r t)\<lparr>rg_size := rg_size (ta_r t) - 1,
                                 rg_tail := (rg_tail (ta_r t) + 1) mod rg_maxsize (ta_r t)\<rparr>\<rparr>)
             time
      else t)"
  by pat_completeness auto
termination
  by (relation "measure (\<lambda>(t, _). rg_size (ta_r t))") auto

declare remove_old.simps [simp del]

text \<open>The ring is doubled; the part in front of the tail is moved behind the old end.\<close>

definition grow_ring :: "time_ring_t \<Rightarrow> time_ring_t" where
  "grow_ring r =
     (let n = rg_size r;
          buf = rg_buffer r @ replicate (rg_maxsize r) zero_tv;
          r' = r\<lparr>rg_maxsize := rg_maxsize r * 2, rg_buffer := buf\<rparr>
      in if rg_head r < int (rg_tail r)
         then r'\<lparr>rg_buffer := take n buf @ take (nat (rg_head r + 1)) buf @ drop (n + nat (rg_head r + 1)) buf,
                 rg_head := rg_head r + int n\<rparr>
         else r')"

definition time_average_add :: "time_average_t \<Rightarrow> u64 \<Rightarrow> u64 \<Rightarrow> time_average_t" where
  "time_average_add t0 time val =
     (let t = remove_old t0 time;
          r = (if rg_size (ta_r t) = rg_maxsize (ta_r t) then grow_ring (ta_r t) else ta_r t);
          h = (rg_head r + 1) mod int (rg_maxsize r)
      in t\<lparr>ta_r := r\<lparr>rg_head := h,
                     rg_buffer := (rg_buffer r)[nat h := \<lparr> tv_time = time, tv_value = val \<rparr>],
                     rg_size := rg_size r + 1\<rparr>,
           ta_accumulated_value := ta_accumulated_value t + val\<rparr>)"

definition time_average_get_average ::
    "time_average_t \<Rightarrow> u64 \<Rightarrow> time_average_t \<times> (u64 \<times> nat) option" where
  "time_average_get_average t0 time =
     (let t = remove_old t0 time
      in (t, if rg_size (ta_r t) = 0 then None
             else Some (ta_accumulated_value t, rg_size (ta_r t))))"

section \<open>The ring is a queue\<close>

definition ring_list :: "time_ring_t \<Rightarrow> time_value_t list" where
  "ring_list r = map (\<lambda>i. rg_buffer r ! ((rg_tail r + i) mod rg_maxsize r)) [0..<rg_size r]"

definition ring_ok :: "time_ring_t \<Rightarrow> bool" where
  "ring_ok r \<longleftrightarrow> 0 < rg_maxsize r \<and> length (rg_buffer r) = rg_maxsize r
     \<and> rg_size r \<le> rg_maxsize r \<and> rg_tail r < rg_maxsize r
     \<and> rg_head r = (int (rg_tail r) + int (rg_size r) - 1) mod int (rg_maxsize r)"

definition samples :: "time_average_t \<Rightarrow> time_value_t list" where
  "samples t = ring_list (ta_r t)"

definition time_average_ok :: "time_average_t \<Rightarrow> bool" where
  "time_average_ok t \<longleftrightarrow> ring_ok (ta_r t)
     \<and> ta_accumulated_value t = sum_list (map tv_value (samples t))"

lemma ring_list_Nil [simp]: "rg_size r = 0 \<Longrightarrow> ring_list r = []"
  by (simp add: ring_list_def)

lemma length_ring_list [simp]: "length (ring_list r) = rg_size r"
  by (simp add: ring_list_def)

lemma ring_list_pop:
  assumes "ring_ok r" and "rg_size r \<noteq> 0"
  shows "ring_list r = rg_buffer r ! rg_tail r
           # ring_list (r\<lparr>rg_size := rg_size r - 1, rg_tail := (rg_tail r + 1) mod rg_maxsize r\<rparr>)"
proof (rule nth_equalityI)
  fix i assume "i < length (ring_list r)"
  with assms show "ring_list r ! i = (rg_buffer r ! rg_tail r
      # ring_list (r\<lparr>rg_size := rg_size r - 1, rg_tail := (rg_tail r + 1) mod rg_maxsize r\<rparr>)) ! i"
    by (cases i) (auto simp: ring_list_def ring_ok_def mod_simps)
qed (use assms in simp)

lemma ring_ok_pop:
  assumes "ring_ok r" and "rg_size r \<noteq> 0"
  shows "ring_ok (r\<lparr>rg_size := rg_size r - 1, rg_tail := (rg_tail r + 1) mod rg_maxsize r\<rparr>)"
proof -
  let ?n = "int (rg_maxsize r)" and ?t = "int (rg_tail r)" and ?s = "int (rg_size r)"
  have "((?t + 1) mod ?n + (?s - 1) - 1) mod ?n = ((?t + 1) mod ?n + (?s - 2)) mod ?n"
    by (simp add: algebra_simps)
  also have "\<dots> = (?t + ?s - 1) mod ?n"
    by (subst mod_add_left_eq) (simp add: algebra_simps)
  finally have "(int ((rg_tail r + 1) mod rg_maxsize r) + int (rg_size r - 1) - 1) mod ?n = (?t + ?s - 1) mod ?n"
    using assms(2) by (simp add: of_nat_mod of_nat_diff algebra_simps)
  with assms show ?thesis by (auto simp: ring_ok_def)
qed

lemma remove_old_spec:
  assumes "time_average_ok t"
  shows "time_average_ok (remove_old t time)
    \<and> samples (remove_old t time) = dropWhile (\<lambda>v. tv_time v < time - word_of_int (ta_duration t)) (samples t)
    \<and> ta_duration (remove_old t time) = ta_duration t"
  using assms
proof (induction t time rule: remove_old.induct)
  case (1 t time)
  let ?old = "rg_size (ta_r t) \<noteq> 0
    \<and> tv_time (rg_buffer (ta_r t) ! rg_tail (ta_r t)) < time - word_of_int (ta_duration t)"
  let ?r = "(ta_r t)\<lparr>rg_size := rg_size (ta_r t) - 1, rg_tail := (rg_tail (ta_r t) + 1) mod rg_maxsize (ta_r t)\<rparr>"
  let ?t = "t\<lparr>ta_accumulated_value := ta_accumulated_value t - tv_value (rg_buffer (ta_r t) ! rg_tail (ta_r t)), ta_r := ?r\<rparr>"
  have ok: "ring_ok (ta_r t)" using "1.prems" by (simp add: time_average_ok_def)
  show ?case
  proof (cases ?old)
    case True
    have pop: "samples t = rg_buffer (ta_r t) ! rg_tail (ta_r t) # ring_list ?r"
      using ring_list_pop [OF ok] True by (simp add: samples_def)
    have rest: "samples ?t = ring_list ?r" by (simp add: samples_def)
    have "ta_accumulated_value t = sum_list (map tv_value (samples t))"
      using "1.prems" by (simp add: time_average_ok_def)
    then have acc: "ta_accumulated_value t
        = tv_value (rg_buffer (ta_r t) ! rg_tail (ta_r t)) + sum_list (map tv_value (ring_list ?r))"
      by (simp only: pop list.map sum_list.Cons)
    have "time_average_ok ?t"
      using ring_ok_pop [OF ok] True by (simp add: time_average_ok_def samples_def acc)
    from "1.IH" [OF True this] True pop rest show ?thesis
      by (simp add: remove_old.simps [of t time])
  next
    case False
    have "dropWhile (\<lambda>v. tv_time v < time - word_of_int (ta_duration t)) (samples t) = samples t"
      using False ring_list_pop [OF ok] by (cases "rg_size (ta_r t) = 0") (auto simp: samples_def)
    moreover have "remove_old t time = t"
      using False by (subst remove_old.simps) (simp only: if_False)
    ultimately show ?thesis using "1.prems" by simp
  qed
qed

lemma ring_push:
  fixes v :: time_value_t
  assumes "ring_ok r" and "rg_size r < rg_maxsize r"
  defines "h \<equiv> (rg_head r + 1) mod int (rg_maxsize r)"
  defines "r' \<equiv> r\<lparr>rg_head := h, rg_buffer := (rg_buffer r)[nat h := v], rg_size := rg_size r + 1\<rparr>"
  shows "ring_ok r'" and "ring_list r' = ring_list r @ [v]"
proof -
  let ?n = "rg_maxsize r"
  have n: "0 < ?n" and len: "length (rg_buffer r) = ?n" using assms(1) by (auto simp: ring_ok_def)
  have h: "h = int ((rg_tail r + rg_size r) mod ?n)"
    using assms(1) by (simp add: h_def ring_ok_def mod_simps of_nat_mod algebra_simps)
  then show "ring_ok r'"
    using assms(1,2) by (simp add: r'_def ring_ok_def of_nat_mod algebra_simps)
  have other: False if "i < rg_size r" and "(rg_tail r + i) mod ?n = (rg_tail r + rg_size r) mod ?n" for i
  proof -
    have "?n dvd rg_size r - i"
      using that mod_eq_dvd_iff_nat [of "rg_tail r + i" "rg_tail r + rg_size r" ?n] by simp
    with that assms(2) show False by (auto dest: dvd_imp_le)
  qed
  show "ring_list r' = ring_list r @ [v]"
    using n len h
    by (auto simp: ring_list_def r'_def nth_list_update intro!: map_cong dest: other [OF _ sym])
qed

lemma ring_grow:
  assumes ok: "ring_ok r" and full: "rg_size r = rg_maxsize r"
  shows "ring_ok (grow_ring r)" and "ring_list (grow_ring r) = ring_list r"
    and "rg_size (grow_ring r) < rg_maxsize (grow_ring r)"
proof -
  let ?n = "rg_maxsize r" and ?t = "rg_tail r"
  have n: "0 < ?n" and len: "length (rg_buffer r) = ?n" and t: "?t < ?n"
    using ok by (auto simp: ring_ok_def)
  have head: "rg_head r = (int ?t - 1) mod int ?n"
  proof -
    have "rg_head r = (int ?t - 1 + int ?n) mod int ?n"
      using ok full by (simp add: ring_ok_def algebra_simps)
    then show ?thesis by (simp only: mod_add_self2)
  qed
  show "rg_size (grow_ring r) < rg_maxsize (grow_ring r)"
    using n full by (simp add: grow_ring_def Let_def)
  have "ring_ok (grow_ring r) \<and> ring_list (grow_ring r) = ring_list r"
  proof (cases "?t = 0")
    case True
    have "rg_head r = int ?n - 1"
      using head True n by (simp add: zmod_minus1)
    with True n len full show ?thesis
      by (auto simp: ring_ok_def ring_list_def grow_ring_def Let_def nth_append intro!: map_cong)
  next
    case False
    have hd: "rg_head r = int ?t - 1"
      using head False t by (simp add: mod_pos_pos_trivial)
    then have c: "nat (rg_head r + 1) = ?t" by simp
    let ?b = "take ?n (rg_buffer r @ replicate ?n zero_tv) @ take ?t (rg_buffer r @ replicate ?n zero_tv)
        @ drop (?n + ?t) (rg_buffer r @ replicate ?n zero_tv)"
    have g: "grow_ring r = r\<lparr>rg_maxsize := ?n * 2, rg_buffer := ?b, rg_head := int ?t - 1 + int ?n\<rparr>"
      using hd False full by (simp add: grow_ring_def Let_def)
    have "?b ! (?t + i) = rg_buffer r ! ((?t + i) mod ?n)" if "i < ?n" for i
      using that t len by (auto simp: nth_append mod_if)
    moreover have "(?t + i) mod (?n * 2) = ?t + i" if "i < ?n" for i
      using that t by simp
    ultimately have "ring_list (grow_ring r) = ring_list r"
      using full by (auto simp: g ring_list_def intro!: map_cong)
    moreover have "ring_ok (grow_ring r)"
      using len t full n False by (simp add: g ring_ok_def algebra_simps)
    ultimately show ?thesis by simp
  qed
  then show "ring_ok (grow_ring r)" and "ring_list (grow_ring r) = ring_list r" by auto
qed

text \<open>
  C2. The growing ring implements the sliding window: adding a sample drops exactly the leading
  samples older than the window and appends the new one, whether or not the ring has to be
  doubled, and the accumulated value stays the sum of the samples in the window.
\<close>

theorem time_average_add_refines:
  assumes "time_average_ok t"
  shows "samples (time_average_add t time val)
       = dropWhile (\<lambda>v. tv_time v < time - word_of_int (ta_duration t)) (samples t)
         @ [\<lparr> tv_time = time, tv_value = val \<rparr>]
     \<and> time_average_ok (time_average_add t time val)"
proof
  let ?t = "remove_old t time" and ?v = "\<lparr> tv_time = time, tv_value = val \<rparr>"
  let ?r = "if rg_size (ta_r ?t) = rg_maxsize (ta_r ?t) then grow_ring (ta_r ?t) else ta_r ?t"
  let ?h = "(rg_head ?r + 1) mod int (rg_maxsize ?r)"
  let ?r' = "?r\<lparr>rg_head := ?h, rg_buffer := (rg_buffer ?r)[nat ?h := ?v], rg_size := rg_size ?r + 1\<rparr>"
  note old = remove_old_spec [OF assms, of time]
  then have ok: "ring_ok (ta_r ?t)" by (simp add: time_average_ok_def)
  then have "ring_ok ?r" "rg_size ?r < rg_maxsize ?r" "ring_list ?r = samples ?t"
    using ring_grow [OF ok] by (auto simp: samples_def ring_ok_def)
  with ring_push [of ?r ?v] have push: "ring_ok ?r'" "ring_list ?r' = samples ?t @ [?v]"
    by simp_all
  have add: "time_average_add t time val
      = ?t\<lparr>ta_r := ?r', ta_accumulated_value := ta_accumulated_value ?t + val\<rparr>"
    by (simp add: time_average_add_def Let_def)
  show "samples (time_average_add t time val)
      = dropWhile (\<lambda>v. tv_time v < time - word_of_int (ta_duration t)) (samples t) @ [?v]"
    using push old by (simp only: add samples_def) (simp add: samples_def)
  show "time_average_ok (time_average_add t time val)"
    using push old by (simp only: add time_average_ok_def samples_def) (simp add: samples_def time_average_ok_def)
qed

theorem time_average_add_refines_witness:
  "\<exists>t. time_average_new 100 1 = Inr t \<and> time_average_ok t
     \<and> samples (time_average_add (time_average_add t 1000 5) 1050 7)
       = [\<lparr> tv_time = 1000, tv_value = 5 \<rparr>, \<lparr> tv_time = 1050, tv_value = 7 \<rparr>]"
proof -
  define t where "t = \<lparr> ta_duration = 100,
    ta_r = \<lparr> rg_head = 0, rg_tail = 0, rg_buffer = [zero_tv], rg_maxsize = 1, rg_size = 0 \<rparr>,
    ta_accumulated_value = 0 \<rparr>"
  have new: "time_average_new 100 1 = Inr t"
    by (simp add: time_average_new_def t_def)
  have ok: "time_average_ok t" and empty: "samples t = []" and dur: "ta_duration t = 100"
    by (simp_all add: t_def time_average_ok_def ring_ok_def samples_def)
  have ok1: "time_average_ok (time_average_add t 1000 5)"
    using time_average_add_refines [OF ok] by simp
  have s1: "samples (time_average_add t 1000 5) = [\<lparr> tv_time = 1000, tv_value = 5 \<rparr>]"
    using time_average_add_refines [OF ok, of 1000 5] empty by simp
  have d1: "ta_duration (time_average_add t 1000 5) = 100"
    using remove_old_spec [OF ok, of 1000] dur by (simp add: time_average_add_def Let_def)
  have "samples (time_average_add (time_average_add t 1000 5) 1050 7)
       = [\<lparr> tv_time = 1000, tv_value = 5 \<rparr>, \<lparr> tv_time = 1050, tv_value = 7 \<rparr>]"
    using time_average_add_refines [OF ok1, of 1050 7] s1 d1 by simp
  with new ok show ?thesis by blast
qed

end
