(* ===== verification/Rlc_Pdu.thy ===== *)
theory Rlc_Pdu
  imports Prelude
begin

text \<open>
  Model of \<^verbatim>\<open>openair2/LAYER2/nr_rlc/nr_rlc_pdu.c\<close>: the received PDUs kept by an
  RLC entity, the ordered reception list, and the bit-level decoder and encoder of PDU headers.

  The data of a PDU is \<open>None\<close> once the SDU it belongs to was delivered (the code frees the bytes
  and sets the pointer to NULL, keeping the PDU in the list). The codec is related to bit strings:
  \<open>enc_bits\<close> is what an encoder has written, \<open>dec_bits\<close> what a decoder has left to read.
\<close>

section \<open>Received PDUs\<close>

record nr_rlc_pdu_t =
  pdu_sn :: int
  pdu_data :: "bytes option"
  pdu_size :: int
  pdu_so :: int
  pdu_is_first :: bool
  pdu_is_last :: bool

definition nr_rlc_new_pdu :: "int \<Rightarrow> int \<Rightarrow> bool \<Rightarrow> bool \<Rightarrow> bytes \<Rightarrow> nr_rlc_pdu_t" where
  "nr_rlc_new_pdu sn so is_first is_last data =
     \<lparr> pdu_sn = sn, pdu_data = Some data, pdu_size = int (length data), pdu_so = so,
       pdu_is_first = is_first, pdu_is_last = is_last \<rparr>"

text \<open>
  \<open>sn_compare\<close> is the function the entity passes with itself as the closure argument.
\<close>

fun nr_rlc_pdu_list_add ::
    "(int \<Rightarrow> int \<Rightarrow> int) \<Rightarrow> nr_rlc_pdu_t list \<Rightarrow> nr_rlc_pdu_t \<Rightarrow> nr_rlc_pdu_t list" where
  "nr_rlc_pdu_list_add sn_compare [] pdu = [pdu]"
| "nr_rlc_pdu_list_add sn_compare (cur # l) pdu =
     (if sn_compare (pdu_sn cur) (pdu_sn pdu) > 0
         \<or> (pdu_sn cur = pdu_sn pdu \<and> pdu_so cur > pdu_so pdu)
      then pdu # cur # l
      else cur # nr_rlc_pdu_list_add sn_compare l pdu)"

definition pdu_after :: "(int \<Rightarrow> int \<Rightarrow> int) \<Rightarrow> nr_rlc_pdu_t \<Rightarrow> nr_rlc_pdu_t \<Rightarrow> bool" where
  "pdu_after sn_compare cur pdu \<longleftrightarrow> sn_compare (pdu_sn cur) (pdu_sn pdu) > 0
     \<or> (pdu_sn cur = pdu_sn pdu \<and> pdu_so cur > pdu_so pdu)"

lemma nr_rlc_pdu_list_add_eq:
  "nr_rlc_pdu_list_add cmp l pdu = ordered_add (pdu_after cmp) l pdu"
  by (induction l) (auto simp: pdu_after_def)

section \<open>PDU decoder\<close>

record nr_rlc_pdu_decoder_t =
  dec_error :: bool
  dec_byte :: nat
  dec_bit :: nat
  dec_buffer :: bytes
  dec_size :: nat

definition nr_rlc_pdu_decoder_init :: "bytes \<Rightarrow> nr_rlc_pdu_decoder_t" where
  "nr_rlc_pdu_decoder_init buffer =
     \<lparr> dec_error = False, dec_byte = 0, dec_bit = 0, dec_buffer = buffer, dec_size = length buffer \<rparr>"

text \<open>The buffer holds signed characters: the shift is the arithmetic one.\<close>

definition get_bit :: "nr_rlc_pdu_decoder_t \<Rightarrow> int \<times> nr_rlc_pdu_decoder_t" where
  "get_bit d =
     (if dec_byte d \<ge> dec_size d then (0, d\<lparr>dec_error := True\<rparr>)
      else
        let ret = drop_bit (7 - dec_bit d) (sint (dec_buffer d ! dec_byte d)) AND 1;
            d' = d\<lparr>dec_bit := dec_bit d + 1\<rparr>
        in (ret, if dec_bit d' = 8 then d'\<lparr>dec_bit := 0, dec_byte := dec_byte d' + 1\<rparr> else d'))"

fun get_bits_loop :: "nr_rlc_pdu_decoder_t \<Rightarrow> int \<Rightarrow> nat \<Rightarrow> int \<times> nr_rlc_pdu_decoder_t" where
  "get_bits_loop d ret 0 = (ret, d)"
| "get_bits_loop d ret (Suc n) =
     (let (b, d') = get_bit d; ret' = push_bit 1 ret OR b
      in if dec_error d' then (-1, d') else get_bits_loop d' ret' n)"

definition nr_rlc_pdu_decoder_get_bits ::
    "nr_rlc_pdu_decoder_t \<Rightarrow> nat \<Rightarrow> (int \<times> nr_rlc_pdu_decoder_t) res" where
  "nr_rlc_pdu_decoder_get_bits d n =
     (if n > 31 then Inl Abort else Inr (get_bits_loop d 0 n))"

section \<open>PDU encoder\<close>

record nr_rlc_pdu_encoder_t =
  enc_byte :: nat
  enc_bit :: nat
  enc_buffer :: bytes
  enc_size :: nat

definition nr_rlc_pdu_encoder_init :: "bytes \<Rightarrow> nr_rlc_pdu_encoder_t" where
  "nr_rlc_pdu_encoder_init buffer =
     \<lparr> enc_byte = 0, enc_bit = 0, enc_buffer = buffer, enc_size = length buffer \<rparr>"

definition put_bit :: "nr_rlc_pdu_encoder_t \<Rightarrow> bool \<Rightarrow> nr_rlc_pdu_encoder_t res" where
  "put_bit e b =
     (if enc_byte e = enc_size e then Inl Abort
      else
        let w = push_bit 1 (enc_buffer e ! enc_byte e);
            w' = (if b then w OR 1 else w);
            e' = e\<lparr>enc_buffer := (enc_buffer e)[enc_byte e := w'], enc_bit := enc_bit e + 1\<rparr>
        in Inr (if enc_bit e' = 8 then e'\<lparr>enc_bit := 0, enc_byte := enc_byte e' + 1\<rparr> else e'))"

fun put_bits_loop :: "nr_rlc_pdu_encoder_t \<Rightarrow> int \<Rightarrow> int \<Rightarrow> nat \<Rightarrow> nr_rlc_pdu_encoder_t res" where
  "put_bits_loop e value x 0 = Inr e"
| "put_bits_loop e value x (Suc n) =
     bindR (put_bit e (value AND x \<noteq> 0)) (\<lambda>e'. put_bits_loop e' value (drop_bit 1 x) n)"

definition nr_rlc_pdu_encoder_put_bits ::
    "nr_rlc_pdu_encoder_t \<Rightarrow> int \<Rightarrow> nat \<Rightarrow> nr_rlc_pdu_encoder_t res" where
  "nr_rlc_pdu_encoder_put_bits e value n =
     (if n > 31 then Inl Abort else put_bits_loop e value (push_bit (n - 1) 1) n)"

section \<open>The decoder reads a bit string\<close>

definition dec_ok :: "nr_rlc_pdu_decoder_t \<Rightarrow> bool" where
  "dec_ok d \<longleftrightarrow> \<not> dec_error d \<and> dec_bit d < 8 \<and> dec_size d = length (dec_buffer d)
     \<and> (dec_byte d < dec_size d \<or> dec_byte d = dec_size d \<and> dec_bit d = 0)"

definition dec_bits :: "nr_rlc_pdu_decoder_t \<Rightarrow> bool list" where
  "dec_bits d = drop (8 * dec_byte d + dec_bit d) (concat (map byte_bits (dec_buffer d)))"

lemma nth_concat_byte_bits:
  "i < length bs \<Longrightarrow> k < 8 \<Longrightarrow> concat (map byte_bits bs) ! (8 * i + k) = bit (bs ! i) (7 - k)"
proof (induction bs arbitrary: i)
  case (Cons b bs)
  show ?case
  proof (cases i)
    case 0
    with Cons.prems show ?thesis
      by (simp add: nth_append byte_bits_def del: upt_rec_numeral)
  next
    case (Suc j)
    with Cons show ?thesis by (simp add: nth_append)
  qed
qed simp

lemma signed_shift_bit:
  assumes "k < 8"
  shows "drop_bit (7 - k) (sint (w :: u8)) AND 1 = of_bool (bit w (7 - k))"
proof -
  have "drop_bit (7 - k) (sint w) AND 1 = drop_bit (7 - k) (sint w) mod 2"
    by (simp add: and_one_eq)
  also have "\<dots> = of_bool (bit (sint w) (7 - k))"
    by (simp add: bit_iff_odd_drop_bit mod_2_eq_odd)
  also have "bit (sint w) (7 - k) \<longleftrightarrow> bit w (7 - k)"
    using assms by (auto simp: bit_sint_iff min_def)
  finally show ?thesis .
qed

lemma dec_init [simp]: "dec_ok (nr_rlc_pdu_decoder_init bs)"
  by (auto simp: dec_ok_def nr_rlc_pdu_decoder_init_def)

lemma dec_init_fields [simp]:
  "dec_byte (nr_rlc_pdu_decoder_init bs) = 0" "dec_bit (nr_rlc_pdu_decoder_init bs) = 0"
  "dec_buffer (nr_rlc_pdu_decoder_init bs) = bs" "dec_size (nr_rlc_pdu_decoder_init bs) = length bs"
  by (simp_all add: nr_rlc_pdu_decoder_init_def)

lemma dec_bits_init [simp]: "dec_bits (nr_rlc_pdu_decoder_init bs) = concat (map byte_bits bs)"
  by (simp add: dec_bits_def nr_rlc_pdu_decoder_init_def)

lemma get_bit_Cons:
  assumes "dec_ok d" and "dec_bits d = b # rest"
  shows "\<exists>d'. get_bit d = (of_bool b, d') \<and> dec_ok d' \<and> dec_bits d' = rest
           \<and> dec_buffer d' = dec_buffer d \<and> 8 * dec_byte d' + dec_bit d' = Suc (8 * dec_byte d + dec_bit d)"
proof -
  let ?all = "concat (map byte_bits (dec_buffer d))" and ?p = "8 * dec_byte d + dec_bit d"
  have lt: "dec_byte d < dec_size d"
    using assms by (auto simp: dec_ok_def dec_bits_def)
  then have p: "?p < length ?all"
    using assms(1) by (simp add: dec_ok_def)
  have b: "b = ?all ! ?p" and rest: "rest = drop (Suc ?p) ?all"
    using assms(2) p by (simp_all add: dec_bits_def Cons_nth_drop_Suc [symmetric])
  have "b = bit (dec_buffer d ! dec_byte d) (7 - dec_bit d)"
    using b lt assms(1) by (simp add: nth_concat_byte_bits dec_ok_def)
  then show ?thesis
    using lt assms(1) rest
    by (auto simp: get_bit_def Let_def signed_shift_bit dec_ok_def dec_bits_def)
qed

lemma get_bit_Nil:
  assumes "dec_ok d" and "dec_bits d = []"
  shows "get_bit d = (0, d\<lparr>dec_error := True\<rparr>)"
  using assms by (auto simp: get_bit_def dec_ok_def dec_bits_def)

lemma shift_or_bit: "push_bit 1 r OR of_bool b = 2 * r + (of_bool b :: int)"
proof -
  have "even (push_bit 1 r)" by (simp add: push_bit_eq_mult)
  then have "push_bit 1 r OR of_bool b = push_bit 1 r + (of_bool b :: int)"
    by (cases b) (simp_all add: or_one_eq)
  then show ?thesis by (simp add: push_bit_eq_mult)
qed

lemma get_bits_loop_step:
  assumes "get_bit d = (of_bool b, d')" and "\<not> dec_error d'"
  shows "get_bits_loop d r (Suc n) = get_bits_loop d' (2 * r + of_bool b) n"
  using assms shift_or_bit [of r b] by (simp only: get_bits_loop.simps Let_def split_conv if_False)

lemma get_bits_loop_bits:
  assumes "dec_ok d" and "dec_bits d = bs @ rest"
  shows "\<exists>d'. get_bits_loop d r (length bs) = (bits_val r bs, d') \<and> dec_ok d' \<and> dec_bits d' = rest
           \<and> dec_buffer d' = dec_buffer d
           \<and> 8 * dec_byte d' + dec_bit d' = 8 * dec_byte d + dec_bit d + length bs"
  using assms
proof (induction bs arbitrary: d r)
  case (Cons b bs)
  obtain d1 where d1: "get_bit d = (of_bool b, d1)" "dec_ok d1" "dec_bits d1 = bs @ rest"
      "dec_buffer d1 = dec_buffer d"
      "8 * dec_byte d1 + dec_bit d1 = Suc (8 * dec_byte d + dec_bit d)"
    using get_bit_Cons [OF Cons.prems(1), of b "bs @ rest"] Cons.prems(2) by auto
  have "\<not> dec_error d1" using d1(2) by (simp add: dec_ok_def)
  with Cons.IH [OF d1(2,3), of "2 * r + of_bool b"] d1 show ?case
    by (auto simp: get_bits_loop_step simp del: get_bits_loop.simps(2))
qed auto

lemma get_bits_loop_short:
  assumes "dec_ok d" and "length (dec_bits d) < n"
  shows "\<exists>d'. get_bits_loop d r n = (-1, d') \<and> dec_error d'"
  using assms
proof (induction n arbitrary: d r)
  case (Suc n)
  show ?case
  proof (cases "dec_bits d")
    case Nil
    then show ?thesis using get_bit_Nil [OF Suc.prems(1)] by simp
  next
    case (Cons b rest)
    obtain d1 where d1: "get_bit d = (of_bool b, d1)" "dec_ok d1" "dec_bits d1 = rest"
      using get_bit_Cons [OF Suc.prems(1) Cons] by auto
    have "\<not> dec_error d1" using d1(2) by (simp add: dec_ok_def)
    with Suc.IH [OF d1(2)] d1 Suc.prems(2) Cons show ?thesis
      by (auto simp: get_bits_loop_step simp del: get_bits_loop.simps(2))
  qed
qed simp

section \<open>The encoder writes a bit string\<close>

definition enc_ok :: "nr_rlc_pdu_encoder_t \<Rightarrow> bool" where
  "enc_ok e \<longleftrightarrow> enc_bit e < 8 \<and> enc_size e = length (enc_buffer e)
     \<and> (enc_byte e < enc_size e \<or> enc_byte e = enc_size e \<and> enc_bit e = 0)"

definition enc_pos :: "nr_rlc_pdu_encoder_t \<Rightarrow> nat" where
  "enc_pos e = 8 * enc_byte e + enc_bit e"

text \<open>The bits of the complete bytes, then the low bits of the byte being filled.\<close>

definition enc_bits :: "nr_rlc_pdu_encoder_t \<Rightarrow> bool list" where
  "enc_bits e = concat (map byte_bits (take (enc_byte e) (enc_buffer e)))
     @ map (\<lambda>i. bit (enc_buffer e ! enc_byte e) (enc_bit e - 1 - i)) [0..<enc_bit e]"

lemma enc_init [simp]: "enc_ok (nr_rlc_pdu_encoder_init bs)"
  by (auto simp: enc_ok_def nr_rlc_pdu_encoder_init_def)

lemma enc_bits_init [simp]: "enc_bits (nr_rlc_pdu_encoder_init bs) = []"
  by (simp add: enc_bits_def nr_rlc_pdu_encoder_init_def)

lemma length_enc_bits: "enc_ok e \<Longrightarrow> length (enc_bits e) = enc_pos e"
  by (auto simp: enc_bits_def enc_pos_def enc_ok_def)

lemma bit_shift_in:
  "bit (if b then push_bit 1 w OR 1 else push_bit 1 (w :: u8)) n \<longleftrightarrow>
     (if n = 0 then b else n < 8 \<and> bit w (n - 1))"
proof -
  have "bit (push_bit 1 w) n \<longleftrightarrow> 0 < n \<and> n < 8 \<and> bit w (n - 1)"
    by (subst bit_push_bit_iff) auto
  then show ?thesis by (cases b) (auto simp: bit_or_iff bit_1_iff simp del: push_bit_Suc)
qed

lemma low_bits_shift_in:
  assumes "k < 8"
  shows "map (\<lambda>i. bit (if b then push_bit 1 w OR 1 else push_bit 1 (w :: u8)) (Suc k - 1 - i)) [0..<Suc k]
       = map (\<lambda>i. bit w (k - 1 - i)) [0..<k] @ [b]"
  by (rule nth_equalityI) (use assms in \<open>auto simp: bit_shift_in nth_append simp del: upt_Suc\<close>)

lemma byte_bits_low_bits: "byte_bits w = map (\<lambda>i. bit w (Suc 7 - 1 - i)) [0..<Suc 7]"
  by (simp add: byte_bits_def del: upt_rec_numeral upt_Suc)

lemma put_bit_ok:
  assumes "enc_ok e" and "enc_pos e < 8 * enc_size e"
  shows "\<exists>e'. put_bit e b = Inr e' \<and> enc_ok e' \<and> enc_bits e' = enc_bits e @ [b]
           \<and> enc_size e' = enc_size e \<and> enc_pos e' = Suc (enc_pos e)
           \<and> drop (Suc (enc_byte e)) (enc_buffer e') = drop (Suc (enc_byte e)) (enc_buffer e)"
proof -
  have lt: "enc_byte e < length (enc_buffer e)" and size: "enc_size e = length (enc_buffer e)"
    and bit: "enc_bit e < 8"
    using assms by (auto simp: enc_ok_def enc_pos_def)
  let ?w = "if b then push_bit 1 (enc_buffer e ! enc_byte e) OR 1 else push_bit 1 (enc_buffer e ! enc_byte e)"
  let ?e = "e\<lparr>enc_buffer := (enc_buffer e)[enc_byte e := ?w], enc_bit := enc_bit e + 1\<rparr>"
  have low: "map (\<lambda>i. bit ?w (Suc (enc_bit e) - 1 - i)) [0..<Suc (enc_bit e)]
      = map (\<lambda>i. bit (enc_buffer e ! enc_byte e) (enc_bit e - 1 - i)) [0..<enc_bit e] @ [b]"
    using bit by (rule low_bits_shift_in)
  show ?thesis
  proof (cases "enc_bit e = 7")
    case True
    have "byte_bits ?w = map (\<lambda>i. bit (enc_buffer e ! enc_byte e) (enc_bit e - 1 - i)) [0..<enc_bit e] @ [b]"
      using low True by (simp only: byte_bits_low_bits)
    then have "enc_bits (?e\<lparr>enc_bit := 0, enc_byte := enc_byte e + 1\<rparr>) = enc_bits e @ [b]"
      using lt by (simp add: enc_bits_def take_Suc_conv_app_nth)
    moreover have "put_bit e b = Inr (?e\<lparr>enc_bit := 0, enc_byte := enc_byte e + 1\<rparr>)"
      using lt size True by (simp add: put_bit_def Let_def)
    ultimately show ?thesis
      using lt size True by (auto simp: enc_ok_def enc_pos_def)
  next
    case False
    have "enc_bits ?e = enc_bits e @ [b]"
      using lt low by (simp add: enc_bits_def del: upt_Suc)
    moreover have "put_bit e b = Inr ?e"
      using lt size False by (simp add: put_bit_def Let_def)
    ultimately show ?thesis
      using lt size False bit by (auto simp: enc_ok_def enc_pos_def)
  qed
qed

text \<open>The bytes the encoder has touched: everything behind them is as the caller left it.\<close>

definition enc_used :: "nr_rlc_pdu_encoder_t \<Rightarrow> nat" where
  "enc_used e = (enc_pos e + 7) div 8"

lemma drop_eq_mono: "drop k xs = drop k ys \<Longrightarrow> k \<le> l \<Longrightarrow> drop l xs = drop l ys"
  by (metis drop_drop le_add_diff_inverse2)

lemma drop_bit_push_bit_one: "drop_bit 1 (push_bit (Suc n) 1) = (push_bit n 1 :: int)"
  by (simp add: drop_bit_eq_div push_bit_eq_mult)

lemma put_bits_loop_ok:
  assumes "enc_ok e" and "enc_pos e + n \<le> 8 * enc_size e" and "0 < n \<Longrightarrow> x = push_bit (n - 1) 1"
  shows "\<exists>e'. put_bits_loop e v x n = Inr e' \<and> enc_ok e' \<and> enc_bits e' = enc_bits e @ field_bits v n
           \<and> enc_size e' = enc_size e \<and> enc_pos e' = enc_pos e + n
           \<and> drop (enc_used e') (enc_buffer e') = drop (enc_used e') (enc_buffer e)"
  using assms
proof (induction n arbitrary: e x)
  case (Suc n)
  have x: "x = push_bit n 1" using Suc.prems by simp
  have bit: "v AND x \<noteq> 0 \<longleftrightarrow> bit v n"
    by (simp only: x bit_iff_and_push_bit_not_eq_0)
  obtain e1 where e1: "put_bit e (bit v n) = Inr e1" "enc_ok e1" "enc_bits e1 = enc_bits e @ [bit v n]"
      "enc_size e1 = enc_size e" "enc_pos e1 = Suc (enc_pos e)"
      "drop (Suc (enc_byte e)) (enc_buffer e1) = drop (Suc (enc_byte e)) (enc_buffer e)"
    using put_bit_ok [OF Suc.prems(1), of "bit v n"] Suc.prems(2) by auto
  have "0 < n \<Longrightarrow> drop_bit 1 x = push_bit (n - 1) 1"
    using x drop_bit_push_bit_one [of "n - 1"] by simp
  then obtain e2 where e2: "put_bits_loop e1 v (drop_bit 1 x) n = Inr e2" "enc_ok e2"
      "enc_bits e2 = enc_bits e1 @ field_bits v n" "enc_size e2 = enc_size e1"
      "enc_pos e2 = enc_pos e1 + n"
      "drop (enc_used e2) (enc_buffer e2) = drop (enc_used e2) (enc_buffer e1)"
    using Suc.IH [OF e1(2), of "drop_bit 1 x"] e1 Suc.prems(2) by auto
  have "Suc (enc_byte e) \<le> enc_used e2"
    using e1(5) e2(5) by (simp add: enc_used_def enc_pos_def)
  with e1(6) have "drop (enc_used e2) (enc_buffer e1) = drop (enc_used e2) (enc_buffer e)"
    by (rule drop_eq_mono)
  with e1 e2 bit show ?case by (simp add: field_bits_Suc)
qed auto

section \<open>Sequences of header fields\<close>

text \<open>
  A header is written by a sequence of calls of \<^const>\<open>nr_rlc_pdu_encoder_put_bits\<close> and read by
  a sequence of calls of \<^const>\<open>nr_rlc_pdu_decoder_get_bits\<close>, each followed by the error test
  of the macro \<^verbatim>\<open>R\<close> (\<open>None\<close>: the jump to \<^verbatim>\<open>err\<close>).
\<close>

fun put_fields :: "nr_rlc_pdu_encoder_t \<Rightarrow> (int \<times> nat) list \<Rightarrow> nr_rlc_pdu_encoder_t res" where
  "put_fields e [] = Inr e"
| "put_fields e ((v, n) # fs) = bindR (nr_rlc_pdu_encoder_put_bits e v n) (\<lambda>e'. put_fields e' fs)"

fun get_fields :: "nr_rlc_pdu_decoder_t \<Rightarrow> nat list \<Rightarrow> (int list \<times> nr_rlc_pdu_decoder_t) option res" where
  "get_fields d [] = Inr (Some ([], d))"
| "get_fields d (n # ns) = bindR (nr_rlc_pdu_decoder_get_bits d n)
     (\<lambda>(v, d'). if dec_error d' then Inr None
        else bindR (get_fields d' ns)
               (\<lambda>r. Inr (case r of None \<Rightarrow> None | Some (vs, d'') \<Rightarrow> Some (v # vs, d''))))"

text \<open>One field with its check: \<open>g\<close> is what follows an error.\<close>

definition read_field ::
    "nr_rlc_pdu_decoder_t \<Rightarrow> nat \<Rightarrow> (nr_rlc_pdu_decoder_t \<Rightarrow> 'b res) \<Rightarrow> (int \<Rightarrow> nr_rlc_pdu_decoder_t \<Rightarrow> 'b res) \<Rightarrow> 'b res" where
  "read_field d n g f = bindR (nr_rlc_pdu_decoder_get_bits d n) (\<lambda>(v, d'). if dec_error d' then g d' else f v d')"

definition fields_bits :: "(int \<times> nat) list \<Rightarrow> bool list" where
  "fields_bits fs = concat (map (\<lambda>(v, n). field_bits v n) fs)"

definition fields_width :: "(int \<times> nat) list \<Rightarrow> nat" where
  "fields_width fs = sum_list (map snd fs)"

definition fields_ok :: "(int \<times> nat) list \<Rightarrow> bool" where
  "fields_ok fs \<longleftrightarrow> (\<forall>(v, n) \<in> set fs. n \<le> 31 \<and> 0 \<le> v \<and> v < 2 ^ n)"

lemma fields_simps [simp]:
  "fields_bits [] = []" "fields_bits ((v, n) # fs) = field_bits v n @ fields_bits fs"
  "fields_width [] = 0" "fields_width ((v, n) # fs) = n + fields_width fs"
  "fields_ok []" "fields_ok ((v, n) # fs) \<longleftrightarrow> n \<le> 31 \<and> 0 \<le> v \<and> v < 2 ^ n \<and> fields_ok fs"
  by (auto simp: fields_bits_def fields_width_def fields_ok_def)

lemma length_fields_bits [simp]: "length (fields_bits fs) = fields_width fs"
  by (induction fs) auto

lemma put_bits_ok:
  assumes "enc_ok e" and "n \<le> 31" and "enc_pos e + n \<le> 8 * enc_size e"
  obtains e' where "nr_rlc_pdu_encoder_put_bits e v n = Inr e'" "enc_ok e'"
    "enc_bits e' = enc_bits e @ field_bits v n" "enc_size e' = enc_size e" "enc_pos e' = enc_pos e + n"
    "drop (enc_used e') (enc_buffer e') = drop (enc_used e') (enc_buffer e)"
  using put_bits_loop_ok [OF assms(1,3), of "push_bit (n - 1) 1" v] assms(2)
  by (auto simp: nr_rlc_pdu_encoder_put_bits_def)

lemma put_fields_ok:
  assumes "enc_ok e" and "\<forall>(v, n) \<in> set fs. n \<le> 31" and "enc_pos e + fields_width fs \<le> 8 * enc_size e"
  shows "\<exists>e'. put_fields e fs = Inr e' \<and> enc_ok e' \<and> enc_bits e' = enc_bits e @ fields_bits fs
           \<and> enc_size e' = enc_size e \<and> enc_pos e' = enc_pos e + fields_width fs
           \<and> drop (enc_used e') (enc_buffer e') = drop (enc_used e') (enc_buffer e)"
  using assms
proof (induction fs arbitrary: e)
  case (Cons f fs)
  obtain v n where f: "f = (v, n)" by (cases f)
  obtain e1 where e1: "nr_rlc_pdu_encoder_put_bits e v n = Inr e1" "enc_ok e1"
    "enc_bits e1 = enc_bits e @ field_bits v n" "enc_size e1 = enc_size e" "enc_pos e1 = enc_pos e + n"
    "drop (enc_used e1) (enc_buffer e1) = drop (enc_used e1) (enc_buffer e)"
    using put_bits_ok [of e n v] Cons.prems f by auto
  obtain e2 where e2: "put_fields e1 fs = Inr e2" "enc_ok e2" "enc_bits e2 = enc_bits e1 @ fields_bits fs"
    "enc_size e2 = enc_size e1" "enc_pos e2 = enc_pos e1 + fields_width fs"
    "drop (enc_used e2) (enc_buffer e2) = drop (enc_used e2) (enc_buffer e1)"
    using Cons.IH [OF e1(2)] Cons.prems e1 f by auto
  have "enc_used e1 \<le> enc_used e2" using e2(5) by (simp add: enc_used_def)
  with e1(6) have "drop (enc_used e2) (enc_buffer e1) = drop (enc_used e2) (enc_buffer e)"
    by (rule drop_eq_mono)
  with e1 e2 f show ?case by simp
qed auto

lemma get_bits_ok:
  assumes "dec_ok d" and "n \<le> 31" and "dec_bits d = field_bits v n @ rest" and "0 \<le> v" and "v < 2 ^ n"
  obtains d' where "nr_rlc_pdu_decoder_get_bits d n = Inr (v, d')" "dec_ok d'" "\<not> dec_error d'"
    "dec_bits d' = rest" "dec_buffer d' = dec_buffer d"
    "8 * dec_byte d' + dec_bit d' = 8 * dec_byte d + dec_bit d + n"
proof -
  obtain d' where "get_bits_loop d 0 n = (bits_val 0 (field_bits v n), d')" "dec_ok d'"
    "dec_bits d' = rest" "dec_buffer d' = dec_buffer d"
    "8 * dec_byte d' + dec_bit d' = 8 * dec_byte d + dec_bit d + n"
    using get_bits_loop_bits [OF assms(1,3), of 0] by auto
  with assms that [of d'] show thesis
    by (auto simp: nr_rlc_pdu_decoder_get_bits_def bits_simps dec_ok_def)
qed

lemma get_fields_ok:
  assumes "dec_ok d" and "fields_ok fs" and "dec_bits d = fields_bits fs @ rest"
  shows "\<exists>d'. get_fields d (map snd fs) = Inr (Some (map fst fs, d')) \<and> dec_ok d' \<and> dec_bits d' = rest
           \<and> dec_buffer d' = dec_buffer d
           \<and> 8 * dec_byte d' + dec_bit d' = 8 * dec_byte d + dec_bit d + fields_width fs"
  using assms
proof (induction fs arbitrary: d)
  case (Cons f fs)
  obtain v n where f: "f = (v, n)" by (cases f)
  obtain d1 where d1: "nr_rlc_pdu_decoder_get_bits d n = Inr (v, d1)" "dec_ok d1" "\<not> dec_error d1"
    "dec_bits d1 = fields_bits fs @ rest" "dec_buffer d1 = dec_buffer d"
    "8 * dec_byte d1 + dec_bit d1 = 8 * dec_byte d + dec_bit d + n"
    using get_bits_ok [of d n v "fields_bits fs @ rest"] Cons.prems f by auto
  with Cons.IH [OF d1(2)] Cons.prems f show ?case by auto
qed auto

lemma read_field_ok:
  assumes "dec_ok d" and "n \<le> 31" and "dec_bits d = field_bits v n @ rest" and "0 \<le> v" and "v < 2 ^ n"
  shows "\<exists>d'. (\<forall>g f. read_field d n g f = f v d') \<and> dec_ok d' \<and> dec_bits d' = rest \<and> dec_buffer d' = dec_buffer d
     \<and> 8 * dec_byte d' + dec_bit d' = 8 * dec_byte d + dec_bit d + n"
proof -
  obtain d' where "nr_rlc_pdu_decoder_get_bits d n = Inr (v, d')" "dec_ok d'" "\<not> dec_error d'"
    "dec_bits d' = rest" "dec_buffer d' = dec_buffer d"
    "8 * dec_byte d' + dec_bit d' = 8 * dec_byte d + dec_bit d + n"
    by (rule get_bits_ok [OF assms])
  then show ?thesis by (intro exI [of _ d']) (simp add: read_field_def)
qed

lemma enc_bits_aligned:
  "enc_bit e = 0 \<Longrightarrow> enc_bits e = concat (map byte_bits (take (enc_byte e) (enc_buffer e)))"
  by (simp add: enc_bits_def)

lemma put_fields_aligned:
  assumes "\<forall>(v, n) \<in> set fs. n \<le> 31" and "fields_width fs = 8 * k" and "k \<le> length buffer"
  obtains e where "put_fields (nr_rlc_pdu_encoder_init buffer) fs = Inr e" "enc_byte e = k"
    "length (enc_buffer e) = length buffer" "drop k (enc_buffer e) = drop k buffer"
    "concat (map byte_bits (take k (enc_buffer e))) = fields_bits fs"
proof -
  let ?e0 = "nr_rlc_pdu_encoder_init buffer"
  have pos0: "enc_pos ?e0 = 0" "enc_size ?e0 = length buffer" "enc_buffer ?e0 = buffer"
    by (simp_all add: enc_pos_def nr_rlc_pdu_encoder_init_def)
  obtain e where e: "put_fields ?e0 fs = Inr e" "enc_ok e" "enc_bits e = fields_bits fs"
      "enc_size e = length buffer" "enc_pos e = 8 * k"
      "drop (enc_used e) (enc_buffer e) = drop (enc_used e) buffer"
    using put_fields_ok [of ?e0 fs] assms pos0 by auto
  have "enc_bit e < 8" "8 * enc_byte e + enc_bit e = 8 * k"
    using e(2,5) by (auto simp: enc_ok_def enc_pos_def)
  then have "enc_bit e = 0" "enc_byte e = k" by presburger+
  then have aligned: "enc_bit e = 0" "enc_byte e = k" "enc_used e = k"
    by (auto simp: enc_pos_def enc_used_def)
  moreover have "length (enc_buffer e) = length buffer"
    using e(2,4) by (simp add: enc_ok_def)
  ultimately show thesis
    using that [of e] enc_bits_aligned [of e] e(1,3,6) by simp
qed

text \<open>A PDU on the wire: a header of \<open>k\<close> bytes and the data copied behind it.\<close>

lemma put_fields_wire:
  assumes "\<forall>(v, n) \<in> set fs. n \<le> 31" and "fields_width fs = 8 * k" and "k + length bs \<le> length buffer"
  obtains e buf hdr where "put_fields (nr_rlc_pdu_encoder_init buffer) fs = Inr e" "enc_byte e = k"
    "mem_write (enc_buffer e) k bs = Inr buf" "length buf = length buffer"
    "take (k + length bs) buf = hdr @ bs" "length hdr = k" "concat (map byte_bits hdr) = fields_bits fs"
    "drop (k + length bs) buf = drop (k + length bs) buffer"
proof -
  obtain e where e: "put_fields (nr_rlc_pdu_encoder_init buffer) fs = Inr e" "enc_byte e = k"
    "length (enc_buffer e) = length buffer" "drop k (enc_buffer e) = drop k buffer"
    "concat (map byte_bits (take k (enc_buffer e))) = fields_bits fs"
    by (rule put_fields_aligned [OF assms(1,2)]) (use assms(3) in auto)
  let ?buf = "take k (enc_buffer e) @ bs @ drop (k + length bs) (enc_buffer e)"
  have w: "mem_write (enc_buffer e) k bs = Inr ?buf" using e(3) assms(3) by (simp add: mem_write_def)
  have "drop (k + length bs) (enc_buffer e) = drop (k + length bs) buffer"
    by (rule drop_eq_mono [OF e(4)]) simp
  then show thesis
    using that [OF e(1,2) w, of "take k (enc_buffer e)"] e(3,5) assms(3) by simp
qed

lemma dec_aligned:
  assumes "dec_ok d" and "8 * dec_byte d + dec_bit d = 8 * k"
  shows "dec_byte d = k"
proof -
  have "dec_bit d < 8" using assms(1) by (simp add: dec_ok_def)
  with assms(2) show ?thesis by presburger
qed

lemma put_get_fields:
  assumes "fields_ok fs" and "fields_width fs = 8 * k" and "k \<le> length buffer"
  shows "\<exists>e. put_fields (nr_rlc_pdu_encoder_init buffer) fs = Inr e
           \<and> enc_byte e = k \<and> length (enc_buffer e) = length buffer
           \<and> drop k (enc_buffer e) = drop k buffer
           \<and> (\<exists>d. get_fields (nr_rlc_pdu_decoder_init (enc_buffer e)) (map snd fs) = Inr (Some (map fst fs, d))
                   \<and> dec_byte d = k)"
proof -
  obtain e where e: "put_fields (nr_rlc_pdu_encoder_init buffer) fs = Inr e" "enc_byte e = k"
    "length (enc_buffer e) = length buffer" "drop k (enc_buffer e) = drop k buffer"
    "concat (map byte_bits (take k (enc_buffer e))) = fields_bits fs"
    by (rule put_fields_aligned [OF _ assms(2,3)]) (use assms(1) in \<open>auto simp: fields_ok_def\<close>)
  have "concat (map byte_bits (enc_buffer e))
      = fields_bits fs @ concat (map byte_bits (drop k (enc_buffer e)))"
    using e(5) by (metis append_take_drop_id concat_append map_append)
  then obtain d where "get_fields (nr_rlc_pdu_decoder_init (enc_buffer e)) (map snd fs) = Inr (Some (map fst fs, d))"
      "dec_ok d" "8 * dec_byte d + dec_bit d = 8 * k"
    using get_fields_ok [of "nr_rlc_pdu_decoder_init (enc_buffer e)" fs] assms(1,2) by auto
  with e dec_aligned show ?thesis by auto
qed

text \<open>The two bits of the segmentation info are written one by one and read as one field.\<close>

lemma si_bits:
  "field_bits (1 - of_bool f) 1 @ field_bits (1 - of_bool l) 1 @ bs
   = field_bits (2 * (1 - of_bool f) + (1 - of_bool l)) 2 @ bs"
  by (cases f; cases l; simp add: field_bits_def upt_rec)

lemma si_flags:
  "((2 * (1 - of_bool f) + (1 - of_bool l)) AND 2 = (0::int)) = f"
  "((2 * (1 - of_bool f) + (1 - of_bool l)) AND 1 = (0::int)) = l"
  by (cases f; cases l; simp)+

text \<open>
  C1. Header fields survive the codec: any sequence of fields that fits its widths, fills whole
  bytes and fits in the buffer is written without reaching the fatal "buffer full" branch, leaves
  the rest of the buffer untouched, and is read back with the same values and no decoding error.
\<close>

theorem header_fields_roundtrip:
  assumes "fields_ok fs" and "fields_width fs = 8 * k" and "k \<le> length buffer"
  shows "\<exists>e. put_fields (nr_rlc_pdu_encoder_init buffer) fs = Inr e
           \<and> enc_byte e = k \<and> length (enc_buffer e) = length buffer
           \<and> drop k (enc_buffer e) = drop k buffer
           \<and> (\<exists>d. get_fields (nr_rlc_pdu_decoder_init (enc_buffer e)) (map snd fs) = Inr (Some (map fst fs, d))
                   \<and> dec_byte d = k)"
  using assms by (rule put_get_fields)

theorem header_fields_roundtrip_witness:
  "\<exists>e. put_fields (nr_rlc_pdu_encoder_init [0xAA, 0xBB, 0xCC, 0xDD]) [(1, 1), (0, 1), (2, 2), (0xABC, 12), (300, 16)] = Inr e
      \<and> enc_byte e = 4 \<and> length (enc_buffer e) = 4
      \<and> (\<exists>d. get_fields (nr_rlc_pdu_decoder_init (enc_buffer e)) [1, 1, 2, 12, 16]
              = Inr (Some ([1, 0, 2, 0xABC, 300], d)))"
  using header_fields_roundtrip [of "[(1, 1), (0, 1), (2, 2), (0xABC, 12), (300, 16)]" 4 "[0xAA, 0xBB, 0xCC, 0xDD]"]
  by auto

end
