(* ===== verification/Rlc_Sdu.thy ===== *)
theory Rlc_Sdu
  imports Prelude
begin

text \<open>
  Model of \<^verbatim>\<open>openair2/LAYER2/nr_rlc/nr_rlc_sdu.c\<close>: SDUs waiting for transmission and
  the segments that refer to them.

  Segments of one SDU share it: \<^verbatim>\<open>ref_count\<close>, \<^verbatim>\<open>free_count\<close>,
  \<^verbatim>\<open>retx_count\<close> and \<^verbatim>\<open>sn\<close> are changed through any of them. The SDUs are
  therefore kept in a store indexed by their address, and a segment holds the address. Segments
  have an address too, because the code compares pointers to them (\<^verbatim>\<open>tx_end\<close>,
  \<^verbatim>\<open>wait_end\<close>). Reading an SDU that is not in the store is a use after free.

  \<open>heap_ok\<close> is the reference-counting discipline: an SDU is allocated exactly as long as some
  segment refers to it, and \<^verbatim>\<open>ref_count - free_count\<close> is the number of its segments.
\<close>

record nr_rlc_sdu_t =
  sdu_sn :: int
  sdu_upper_layer_id :: int
  sdu_data :: bytes
  sdu_size :: int
  sdu_retx_count :: int
  sdu_ref_count :: int
  sdu_free_count :: int
  sdu_time_of_arrival :: u64

record nr_rlc_sdu_segment_t =
  seg_addr :: nat
  seg_sdu :: nat
  seg_size :: int
  seg_so :: int
  seg_is_first :: bool
  seg_is_last :: bool

text \<open>The allocator: live SDUs and the next fresh address.\<close>

record sdu_heap =
  hp_sdu :: "nat \<rightharpoonup> nr_rlc_sdu_t"
  hp_brk :: nat

definition empty_heap :: sdu_heap where
  "empty_heap = \<lparr> hp_sdu = Map.empty, hp_brk = 0 \<rparr>"

definition deref :: "sdu_heap \<Rightarrow> nat \<Rightarrow> nr_rlc_sdu_t res" where
  "deref h a = (case hp_sdu h a of None \<Rightarrow> Inl Use_After_Free | Some s \<Rightarrow> Inr s)"

definition store :: "sdu_heap \<Rightarrow> nat \<Rightarrow> nr_rlc_sdu_t \<Rightarrow> sdu_heap" where
  "store h a s = h\<lparr>hp_sdu := (hp_sdu h)(a \<mapsto> s)\<rparr>"

section \<open>Operations\<close>

definition nr_rlc_new_sdu :: "sdu_heap \<Rightarrow> bytes \<Rightarrow> int \<Rightarrow> sdu_heap \<times> nr_rlc_sdu_segment_t" where
  "nr_rlc_new_sdu h buffer upper_layer_id =
     (let a = hp_brk h;
          sdu = \<lparr> sdu_sn = -1, sdu_upper_layer_id = upper_layer_id, sdu_data = buffer,
                  sdu_size = int (length buffer), sdu_retx_count = -1, sdu_ref_count = 1,
                  sdu_free_count = 0, sdu_time_of_arrival = 0 \<rparr>
      in (h\<lparr>hp_sdu := (hp_sdu h)(a \<mapsto> sdu), hp_brk := a + 2\<rparr>,
          \<lparr> seg_addr = a + 1, seg_sdu = a, seg_size = int (length buffer), seg_so = 0,
            seg_is_first = True, seg_is_last = True \<rparr>))"

text \<open>The result tells whether the SDU was freed with its last segment.\<close>

definition nr_rlc_free_sdu_segment :: "sdu_heap \<Rightarrow> nr_rlc_sdu_segment_t \<Rightarrow> (sdu_heap \<times> bool) res" where
  "nr_rlc_free_sdu_segment h seg =
     bindR (deref h (seg_sdu seg)) (\<lambda>sdu.
       let sdu' = sdu\<lparr>sdu_free_count := sdu_free_count sdu + 1\<rparr>
       in Inr (if sdu_free_count sdu' = sdu_ref_count sdu'
               then (h\<lparr>hp_sdu := (hp_sdu h)(seg_sdu seg := None)\<rparr>, True)
               else (store h (seg_sdu seg) sdu', False)))"

text \<open>
  \<^verbatim>\<open>(*end)->next = sdu\<close> links the new segment behind the one at address \<open>a\<close>: what
  followed that segment is cut off, and a list that does not hold it is not changed.
\<close>

definition link_after :: "nat \<Rightarrow> nr_rlc_sdu_segment_t list \<Rightarrow> nr_rlc_sdu_segment_t \<Rightarrow> nr_rlc_sdu_segment_t list" where
  "link_after a l s = (case dropWhile (\<lambda>x. seg_addr x \<noteq> a) l of
       [] \<Rightarrow> l
     | x # _ \<Rightarrow> takeWhile (\<lambda>x. seg_addr x \<noteq> a) l @ [x, s])"

definition nr_rlc_sdu_segment_list_append ::
    "nr_rlc_sdu_segment_t list \<Rightarrow> nat option \<Rightarrow> nr_rlc_sdu_segment_t
       \<Rightarrow> (nr_rlc_sdu_segment_t list \<times> nat option) res" where
  "nr_rlc_sdu_segment_list_append l tail sdu =
     (if l = [] then Inr ([sdu], Some (seg_addr sdu))
      else case tail of None \<Rightarrow> Inl Null_Deref
           | Some a \<Rightarrow> Inr (link_after a l sdu, Some (seg_addr sdu)))"

fun nr_rlc_free_sdu_segment_list :: "sdu_heap \<Rightarrow> nr_rlc_sdu_segment_t list \<Rightarrow> sdu_heap res" where
  "nr_rlc_free_sdu_segment_list h [] = Inr h"
| "nr_rlc_free_sdu_segment_list h (cur # l) =
     bindR (nr_rlc_free_sdu_segment h cur) (\<lambda>(h', _). nr_rlc_free_sdu_segment_list h' l)"

text \<open>
  The search of an SDU by its upper layer id: the segments before it, and the list from it on. The walk
  reads the SDU of every segment it passes.
\<close>

fun find_sdu :: "sdu_heap \<Rightarrow> int \<Rightarrow> nr_rlc_sdu_segment_t list \<Rightarrow>
    (nr_rlc_sdu_segment_t list \<times> nr_rlc_sdu_segment_t list) res" where
  "find_sdu h sdu_id [] = Inr ([], [])"
| "find_sdu h sdu_id (cur # l) =
     bindR (deref h (seg_sdu cur)) (\<lambda>d.
       if sdu_upper_layer_id d \<noteq> sdu_id
       then bindR (find_sdu h sdu_id l) (\<lambda>(before, from). Inr (cur # before, from))
       else Inr ([], cur # l))"

section \<open>Lists with a pointer to their end\<close>

definition ends_ok :: "nr_rlc_sdu_segment_t list \<Rightarrow> nat option \<Rightarrow> bool" where
  "ends_ok l e \<longleftrightarrow> e = (if l = [] then None else Some (seg_addr (last l)))"

lemma ends_ok_Nil [simp]: "ends_ok [] e \<longleftrightarrow> e = None"
  by (simp add: ends_ok_def)

lemma ends_ok_snoc [simp]: "ends_ok (l @ [s]) e \<longleftrightarrow> e = Some (seg_addr s)"
  by (simp add: ends_ok_def)

lemma in_tlD: "x \<in> set (tl l) \<Longrightarrow> x \<in> set l"
  by (cases l) auto

lemma ends_ok_remove:
  assumes "ends_ok (xs @ y # ys) e" and "distinct (map seg_addr (xs @ y # ys))"
  shows "ends_ok (xs @ ys) (if e = Some (seg_addr y) then (if xs = [] then None else Some (seg_addr (last xs))) else e)"
proof (cases "ys = []")
  case True
  then show ?thesis using assms(1) by (simp add: ends_ok_def)
next
  case False
  have "seg_addr y \<notin> seg_addr ` set ys" using assms(2) by simp
  then have "seg_addr (last ys) \<noteq> seg_addr y" using last_in_set [OF False] by (metis imageI)
  then show ?thesis using assms(1) False by (simp add: ends_ok_def)
qed

lemma link_after_last:
  assumes "distinct (map seg_addr l)" and "l \<noteq> []"
  shows "link_after (seg_addr (last l)) l s = l @ [s]"
proof -
  obtain ys y where l: "l = ys @ [y]" using assms(2) by (metis rev_exhaust)
  then have "seg_addr y \<notin> seg_addr ` set ys" using assms(1) by simp
  then have "\<forall>x \<in> set ys. seg_addr x \<noteq> seg_addr y" by (metis image_eqI)
  then show ?thesis by (simp add: link_after_def l dropWhile_append takeWhile_append)
qed

lemma list_append_ok:
  assumes "ends_ok l e" and "distinct (map seg_addr l)"
  shows "nr_rlc_sdu_segment_list_append l e s = Inr (l @ [s], Some (seg_addr s))"
  using assms by (auto simp: nr_rlc_sdu_segment_list_append_def ends_ok_def link_after_last)

section \<open>Reference counting\<close>

definition seg_count :: "nr_rlc_sdu_segment_t list \<Rightarrow> nat \<Rightarrow> int" where
  "seg_count segs a = int (count (image_mset seg_sdu (mset segs)) a)"

definition sdu_ok :: "nr_rlc_sdu_segment_t list \<Rightarrow> nat \<Rightarrow> nr_rlc_sdu_t \<Rightarrow> bool" where
  "sdu_ok segs a s \<longleftrightarrow> 0 < seg_count segs a \<and> sdu_ref_count s - sdu_free_count s = seg_count segs a
     \<and> sdu_size s = int (length (sdu_data s))"

definition seg_in :: "nr_rlc_sdu_t \<Rightarrow> nr_rlc_sdu_segment_t \<Rightarrow> bool" where
  "seg_in sdu s \<longleftrightarrow> 0 \<le> seg_so s \<and> 0 \<le> seg_size s \<and> seg_so s + seg_size s \<le> sdu_size sdu
     \<and> (seg_is_first s \<longleftrightarrow> seg_so s = 0) \<and> (seg_is_last s \<longleftrightarrow> seg_so s + seg_size s = sdu_size sdu)"

definition seg_ok :: "sdu_heap \<Rightarrow> nr_rlc_sdu_segment_t \<Rightarrow> bool" where
  "seg_ok h s \<longleftrightarrow> seg_addr s < hp_brk h
     \<and> (case hp_sdu h (seg_sdu s) of None \<Rightarrow> False | Some sdu \<Rightarrow> seg_in sdu s)"

definition heap_ok :: "sdu_heap \<Rightarrow> nr_rlc_sdu_segment_t list \<Rightarrow> bool" where
  "heap_ok h segs \<longleftrightarrow> (\<forall>a s. hp_sdu h a = Some s \<longrightarrow> a < hp_brk h \<and> sdu_ok segs a s)
     \<and> (\<forall>s \<in> set segs. seg_ok h s) \<and> distinct (map seg_addr segs)"

text \<open>The bytes of the SDUs that are allocated: what the entity accounts as \<^verbatim>\<open>tx_size\<close>.\<close>

definition heap_bytes :: "sdu_heap \<Rightarrow> int" where
  "heap_bytes h = (\<Sum>a \<in> dom (hp_sdu h). sdu_size (the (hp_sdu h a)))"

lemma seg_count_simps [simp]:
  "seg_count [] a = 0"
  "seg_count (s # l) a = seg_count l a + of_bool (seg_sdu s = a)"
  "seg_count (l @ l') a = seg_count l a + seg_count l' a"
  by (auto simp: seg_count_def)

lemma seg_count_nonneg [simp]: "0 \<le> seg_count l a"
  by (simp add: seg_count_def)

lemma seg_count_pos: "s \<in> set l \<Longrightarrow> 0 < seg_count l (seg_sdu s)"
  by (induction l) (auto simp: add_pos_nonneg add_nonneg_pos)

lemma seg_count_zero: "seg_count l a = 0 \<longleftrightarrow> (\<forall>s \<in> set l. seg_sdu s \<noteq> a)"
  by (auto simp: seg_count_def count_eq_zero_iff)

lemma heap_ok_perm:
  assumes "mset segs = mset segs'"
  shows "heap_ok h segs \<longleftrightarrow> heap_ok h segs'"
proof -
  have "seg_count segs = seg_count segs'" by (simp add: fun_eq_iff seg_count_def assms)
  moreover have "set segs = set segs'" using assms by (metis set_mset_mset)
  moreover have "distinct (map seg_addr segs) \<longleftrightarrow> distinct (map seg_addr segs')"
    using assms by (metis mset_eq_imp_distinct_iff mset_map)
  ultimately show ?thesis by (simp add: heap_ok_def sdu_ok_def)
qed

lemma heap_okD: "heap_ok h segs \<Longrightarrow> hp_sdu h a = Some s \<Longrightarrow> a < hp_brk h \<and> sdu_ok segs a s"
  by (simp add: heap_ok_def)

lemma heap_ok_live: "heap_ok h segs \<Longrightarrow> s \<in> set segs \<Longrightarrow>
    \<exists>sdu. hp_sdu h (seg_sdu s) = Some sdu \<and> seg_in sdu s \<and> sdu_ok segs (seg_sdu s) sdu"
  by (fastforce simp: heap_ok_def seg_ok_def split: option.splits)

lemma finite_heap: "heap_ok h segs \<Longrightarrow> finite (dom (hp_sdu h))"
  by (rule finite_subset [of _ "{..<hp_brk h}"]) (auto simp: heap_ok_def)

lemma heap_ok_Nil: "heap_ok h [] \<Longrightarrow> hp_sdu h = Map.empty"
  by (rule ext, rule ccontr) (auto simp: heap_ok_def sdu_ok_def)

lemma heap_ok_empty [simp]: "heap_ok empty_heap []"
  by (simp add: heap_ok_def empty_heap_def)

lemma deref_ok: "heap_ok h segs \<Longrightarrow> s \<in> set segs \<Longrightarrow> \<exists>sdu. deref h (seg_sdu s) = Inr sdu \<and> hp_sdu h (seg_sdu s) = Some sdu"
  by (auto simp: deref_def dest!: heap_ok_live)

lemma heap_ok_new_sdu:
  assumes "heap_ok h segs" and "nr_rlc_new_sdu h buffer i = (h', s)"
  shows "heap_ok h' (s # segs)" and "heap_bytes h' = heap_bytes h + int (length buffer)"
proof -
  let ?a = "hp_brk h"
  have fresh: "hp_sdu h ?a = None"
    using assms(1) by (cases "hp_sdu h ?a") (auto simp: heap_ok_def)
  have none: "seg_sdu x \<noteq> ?a \<and> seg_addr x < ?a" if "x \<in> set segs" for x
    using heap_ok_live [OF assms(1) that] fresh assms(1) that by (auto simp: heap_ok_def seg_ok_def)
  then have zero: "seg_count segs ?a = 0" by (auto simp: seg_count_zero)
  show "heap_ok h' (s # segs)"
    using assms none zero
    by (force simp: nr_rlc_new_sdu_def Let_def heap_ok_def sdu_ok_def seg_ok_def seg_in_def
        split: option.splits)
  show "heap_bytes h' = heap_bytes h + int (length buffer)"
  proof -
    have h': "hp_sdu h' = (hp_sdu h)(?a \<mapsto> the (hp_sdu h' ?a))"
      and size: "sdu_size (the (hp_sdu h' ?a)) = int (length buffer)"
      using assms(2) by (auto simp: nr_rlc_new_sdu_def Let_def)
    have "heap_bytes h' = (\<Sum>a \<in> insert ?a (dom (hp_sdu h)). sdu_size (the (((hp_sdu h)(?a \<mapsto> the (hp_sdu h' ?a))) a)))"
      unfolding heap_bytes_def by (subst (1 2) h') simp
    also have "\<dots> = int (length buffer) + (\<Sum>a \<in> dom (hp_sdu h). sdu_size (the (hp_sdu h a)))"
      using fresh size finite_heap [OF assms(1)]
      by (subst sum.insert) (auto intro!: sum.cong)
    finally show ?thesis by (simp add: heap_bytes_def)
  qed
qed

text \<open>An SDU may be changed in place as long as its counters and its bytes are kept.\<close>

lemma seg_ok_frame:
  assumes "seg_ok h x" and "hp_brk h \<le> hp_brk h'"
    and "hp_sdu h' (seg_sdu x) = hp_sdu h (seg_sdu x)
      \<or> (\<exists>s s'. hp_sdu h (seg_sdu x) = Some s \<and> hp_sdu h' (seg_sdu x) = Some s' \<and> sdu_size s' = sdu_size s)"
  shows "seg_ok h' x"
  using assms by (auto simp: seg_ok_def seg_in_def split: option.splits)

lemma heap_bytes_update:
  assumes "hp_sdu h a = Some sdu" and "hp_sdu h' = (hp_sdu h)(a \<mapsto> sdu')" and "sdu_size sdu' = sdu_size sdu"
  shows "heap_bytes h' = heap_bytes h"
  using assms by (auto simp: heap_bytes_def insert_absorb domI intro!: sum.cong)

lemma heap_ok_store:
  assumes ok: "heap_ok h segs" and a: "hp_sdu h a = Some sdu"
    and "sdu_ref_count sdu' - sdu_free_count sdu' = sdu_ref_count sdu - sdu_free_count sdu"
    and "sdu_size sdu' = sdu_size sdu" and "sdu_data sdu' = sdu_data sdu"
  shows "heap_ok (store h a sdu') segs" and "heap_bytes (store h a sdu') = heap_bytes h"
proof -
  have "seg_ok (store h a sdu') x" if "x \<in> set segs" for x
    by (rule seg_ok_frame [of h]) (use ok that a assms(4) in \<open>simp_all add: heap_ok_def store_def\<close>)
  moreover have "t < hp_brk (store h a sdu') \<and> sdu_ok segs t s" if "hp_sdu (store h a sdu') t = Some s" for t s
    using ok a that assms(3-5) by (cases "t = a") (auto simp: heap_ok_def store_def sdu_ok_def)
  ultimately show "heap_ok (store h a sdu') segs"
    using ok by (simp add: heap_ok_def)
  show "heap_bytes (store h a sdu') = heap_bytes h"
    using a assms(4) by (intro heap_bytes_update [of h a sdu _ sdu']) (simp_all add: store_def)
qed

lemma heap_bytes_remove:
  assumes "finite (dom (hp_sdu h))" and "hp_sdu h a = Some sdu"
  shows "heap_bytes (h\<lparr>hp_sdu := (hp_sdu h)(a := None)\<rparr>) = heap_bytes h - sdu_size sdu"
proof -
  have "heap_bytes h = sdu_size sdu + (\<Sum>x \<in> dom (hp_sdu h) - {a}. sdu_size (the (hp_sdu h x)))"
    using assms by (auto simp: heap_bytes_def domI sum.remove [of _ a])
  moreover have "(\<Sum>x \<in> dom (hp_sdu h) - {a}. sdu_size (the (hp_sdu h x)))
      = heap_bytes (h\<lparr>hp_sdu := (hp_sdu h)(a := None)\<rparr>)"
    by (auto simp: heap_bytes_def intro!: sum.cong)
  ultimately show ?thesis by simp
qed

lemma free_sdu_segment_eq:
  assumes "hp_sdu h (seg_sdu s) = Some sdu"
  shows "nr_rlc_free_sdu_segment h s = Inr
     (if sdu_free_count sdu + 1 = sdu_ref_count sdu then (h\<lparr>hp_sdu := (hp_sdu h)(seg_sdu s := None)\<rparr>, True)
      else (store h (seg_sdu s) (sdu\<lparr>sdu_free_count := sdu_free_count sdu + 1\<rparr>), False))"
  using assms by (simp add: nr_rlc_free_sdu_segment_def deref_def)

lemma heap_ok_drop:
  assumes ok: "heap_ok h (s # segs)" and none: "seg_count segs (seg_sdu s) = 0"
  shows "heap_ok (h\<lparr>hp_sdu := (hp_sdu h)(seg_sdu s := None)\<rparr>) segs" (is "heap_ok ?h segs")
proof -
  have others: "seg_sdu x \<noteq> seg_sdu s" if "x \<in> set segs" for x
    using none that by (simp add: seg_count_zero)
  have "seg_ok ?h x" if "x \<in> set segs" for x
    by (rule seg_ok_frame [of h]) (use ok that others [OF that] in \<open>simp_all add: heap_ok_def\<close>)
  moreover have "t < hp_brk ?h \<and> sdu_ok segs t u" if "hp_sdu ?h t = Some u" for t u
    using that heap_okD [OF ok, of t u] by (cases "t = seg_sdu s") (simp_all add: sdu_ok_def)
  moreover have "distinct (map seg_addr segs)"
    using ok by (simp add: heap_ok_def)
  ultimately show ?thesis by (simp add: heap_ok_def)
qed

lemma heap_ok_free:
  assumes ok: "heap_ok h (s # segs)" and sdu: "hp_sdu h (seg_sdu s) = Some sdu"
  defines "freed \<equiv> seg_count segs (seg_sdu s) = 0"
  shows "\<exists>h'. nr_rlc_free_sdu_segment h s = Inr (h', freed) \<and> heap_ok h' segs \<and> hp_brk h' = hp_brk h
     \<and> heap_bytes h' = heap_bytes h - (if freed then sdu_size sdu else 0)
     \<and> (\<forall>a. a \<noteq> seg_sdu s \<longrightarrow> hp_sdu h' a = hp_sdu h a)
     \<and> hp_sdu h' (seg_sdu s) = (if freed then None else Some (sdu\<lparr>sdu_free_count := sdu_free_count sdu + 1\<rparr>))"
proof -
  let ?sdu = "sdu\<lparr>sdu_free_count := sdu_free_count sdu + 1\<rparr>"
  have cnt: "sdu_ref_count sdu - sdu_free_count sdu = seg_count segs (seg_sdu s) + 1"
    and size: "sdu_size sdu = int (length (sdu_data sdu))"
    using ok sdu by (auto simp: heap_ok_def sdu_ok_def)
  then have freed: "freed \<longleftrightarrow> sdu_free_count sdu + 1 = sdu_ref_count sdu"
    by (auto simp: freed_def)
  show ?thesis
  proof (cases freed)
    case True
    let ?h = "h\<lparr>hp_sdu := (hp_sdu h)(seg_sdu s := None)\<rparr>"
    have "heap_ok ?h segs" using heap_ok_drop [OF ok] True by (simp only: freed_def)
    moreover have "nr_rlc_free_sdu_segment h s = Inr (?h, freed)"
      using True by (simp add: free_sdu_segment_eq [OF sdu] flip: freed)
    moreover note heap_bytes_remove [OF finite_heap [OF ok] sdu]
    ultimately show ?thesis
      using True by (intro exI [of _ ?h]) simp
  next
    case False
    let ?h = "store h (seg_sdu s) ?sdu"
    have pos: "0 < seg_count segs (seg_sdu s)"
      using False seg_count_nonneg [of segs "seg_sdu s"] unfolding freed_def by linarith
    have "seg_ok ?h x" if "x \<in> set segs" for x
    by (rule seg_ok_frame [of h]) (use ok that sdu in \<open>simp_all add: heap_ok_def store_def\<close>)
    moreover have "t < hp_brk ?h \<and> sdu_ok segs t u" if "hp_sdu ?h t = Some u" for t u
      using heap_okD [OF ok, of t] that pos cnt size sdu
      by (cases "t = seg_sdu s") (auto simp: store_def sdu_ok_def)
    ultimately have "heap_ok ?h segs"
      using ok by (simp add: heap_ok_def)
    moreover have "heap_bytes ?h = heap_bytes h"
      using sdu by (intro heap_bytes_update [of h "seg_sdu s" sdu _ ?sdu]) (simp_all add: store_def)
    moreover have "nr_rlc_free_sdu_segment h s = Inr (?h, freed)"
      using False by (simp add: free_sdu_segment_eq [OF sdu] flip: freed)
    ultimately show ?thesis
      using False by (intro exI [of _ ?h]) (simp add: store_def)
  qed
qed

lemma heap_ok_free_list:
  "heap_ok h (l @ segs) \<Longrightarrow> \<exists>h'. nr_rlc_free_sdu_segment_list h l = Inr h' \<and> heap_ok h' segs \<and> hp_brk h' = hp_brk h"
proof (induction l arbitrary: h)
  case (Cons s l)
  obtain sdu where "hp_sdu h (seg_sdu s) = Some sdu"
    using heap_ok_live [of h "(s # l) @ segs" s] Cons.prems by auto
  with heap_ok_free [of h s "l @ segs" sdu] Cons.prems
  obtain h' f where h': "nr_rlc_free_sdu_segment h s = Inr (h', f)" "heap_ok h' (l @ segs)" "hp_brk h' = hp_brk h"
    by auto
  with Cons.IH [OF h'(2)] show ?case by auto
qed auto

text \<open>
  Splitting a segment in two: one more reference, and the two parts cover the bytes of the whole.
\<close>

lemma heap_ok_split:
  assumes ok: "heap_ok h (s # segs)" and sdu: "hp_sdu h (seg_sdu s) = Some sdu"
    and k: "0 < k" "k < seg_size s"
    and h': "hp_sdu h' = (hp_sdu h)(seg_sdu s \<mapsto> sdu\<lparr>sdu_ref_count := sdu_ref_count sdu + 1\<rparr>)"
      "hp_brk h' = hp_brk h + 1"
    and s1: "s1 = s\<lparr>seg_size := k, seg_is_last := False\<rparr>"
    and s2: "s2 = s\<lparr>seg_addr := hp_brk h, seg_size := seg_size s - k, seg_so := seg_so s + k, seg_is_first := False\<rparr>"
  shows "heap_ok h' (s1 # s2 # segs)" and "heap_bytes h' = heap_bytes h"
proof -
  have in_s: "seg_in sdu s" and brk: "seg_addr s < hp_brk h"
    using ok sdu by (auto simp: heap_ok_def seg_ok_def)
  then have "seg_ok h' s1" "seg_ok h' s2"
    using k h' s1 s2 by (auto simp: seg_ok_def seg_in_def)
  moreover have "seg_ok h' x" if "x \<in> set segs" for x
    by (rule seg_ok_frame [of h]) (use ok that sdu h' in \<open>simp_all add: heap_ok_def\<close>)
  moreover have "t < hp_brk h' \<and> sdu_ok (s1 # s2 # segs) t u" if "hp_sdu h' t = Some u" for t u
  proof (cases "t = seg_sdu s")
    case True
    then show ?thesis
      using that h' s1 s2 heap_okD [OF ok sdu] by (auto simp: sdu_ok_def intro: add_pos_nonneg)
  next
    case False
    then have "hp_sdu h t = Some u" using that h' by simp
    then have "t < hp_brk h \<and> sdu_ok (s # segs) t u" by (rule heap_okD [OF ok])
    then show ?thesis using False h' s1 s2 by (simp add: sdu_ok_def)
  qed
  moreover have "distinct (map seg_addr (s1 # s2 # segs))"
  proof -
    have "hp_brk h \<notin> seg_addr ` set segs"
    proof
      assume "hp_brk h \<in> seg_addr ` set segs"
      then obtain x where "x \<in> set segs" "seg_addr x = hp_brk h" by (metis imageE)
      then show False using ok by (fastforce simp: heap_ok_def seg_ok_def)
    qed
    then show ?thesis using ok s1 s2 brk by (simp add: heap_ok_def)
  qed
  ultimately show "heap_ok h' (s1 # s2 # segs)"
    by (simp add: heap_ok_def)
  show "heap_bytes h' = heap_bytes h"
    by (rule heap_bytes_update [OF sdu h'(1)]) simp
qed

section \<open>The bytes of a segment\<close>

definition seg_data :: "sdu_heap \<Rightarrow> nr_rlc_sdu_segment_t \<Rightarrow> bytes" where
  "seg_data h s = (case hp_sdu h (seg_sdu s) of None \<Rightarrow> []
     | Some sdu \<Rightarrow> take (nat (seg_size s)) (drop (nat (seg_so s)) (sdu_data sdu)))"

definition same_data :: "nr_rlc_sdu_segment_t list \<Rightarrow> sdu_heap \<Rightarrow> sdu_heap \<Rightarrow> bool" where
  "same_data segs h h' \<longleftrightarrow> (\<forall>x \<in> set segs.
     map_option sdu_data (hp_sdu h' (seg_sdu x)) = map_option sdu_data (hp_sdu h (seg_sdu x)))"

lemma same_data_trans: "same_data segs h1 h2 \<Longrightarrow> same_data segs h2 h3 \<Longrightarrow> same_data segs h1 h3"
  by (simp add: same_data_def)

lemma same_data_mono: "same_data segs h1 h2 \<Longrightarrow> set segs' \<subseteq> set segs \<Longrightarrow> same_data segs' h1 h2"
  by (auto simp: same_data_def)

lemma same_data_seg_data:
  assumes "same_data segs h h'" and "x \<in> set segs"
  shows "seg_data h' x = seg_data h x"
proof -
  have eq: "map_option sdu_data (hp_sdu h' (seg_sdu x)) = map_option sdu_data (hp_sdu h (seg_sdu x))"
    using assms by (simp add: same_data_def)
  have "seg_data g x = (case map_option sdu_data (hp_sdu g (seg_sdu x)) of None \<Rightarrow> []
      | Some d \<Rightarrow> take (nat (seg_size x)) (drop (nat (seg_so x)) d))" for g
    by (cases "hp_sdu g (seg_sdu x)") (simp_all add: seg_data_def)
  then show ?thesis by (simp only: eq)
qed

lemma map_seg_data: "same_data segs h h' \<Longrightarrow> set l \<subseteq> set segs \<Longrightarrow> map (seg_data h') l = map (seg_data h) l"
  using same_data_seg_data by auto

lemma length_seg_data:
  assumes "heap_ok h segs" and "s \<in> set segs"
  shows "int (length (seg_data h s)) = seg_size s" and "0 \<le> seg_size s"
  using heap_ok_live [OF assms] by (auto simp: seg_data_def seg_in_def sdu_ok_def)

lemma free_same_data:
  assumes "heap_ok h (s # segs)" and "nr_rlc_free_sdu_segment h s = Inr (h', f)"
  shows "same_data segs h h'"
proof -
  obtain sdu where sdu: "hp_sdu h (seg_sdu s) = Some sdu"
    using heap_ok_live [OF assms(1)] by auto
  from heap_ok_free [OF assms(1) sdu] assms(2)
  have h': "\<forall>a. a \<noteq> seg_sdu s \<longrightarrow> hp_sdu h' a = hp_sdu h a"
    "hp_sdu h' (seg_sdu s) = (if seg_count segs (seg_sdu s) = 0 then None
       else Some (sdu\<lparr>sdu_free_count := sdu_free_count sdu + 1\<rparr>))"
    by auto
  have "map_option sdu_data (hp_sdu h' (seg_sdu x)) = map_option sdu_data (hp_sdu h (seg_sdu x))"
    if "x \<in> set segs" for x
  proof (cases "seg_sdu x = seg_sdu s")
    case True
    then have "seg_count segs (seg_sdu s) \<noteq> 0" using that by (auto simp: seg_count_zero)
    then show ?thesis using True sdu h'(2) by simp
  next
    case False
    then show ?thesis using h'(1) by simp
  qed
  then show ?thesis by (simp add: same_data_def)
qed

lemma new_sdu_data:
  assumes "heap_ok h segs" and "nr_rlc_new_sdu h buffer i = (h', s)"
  shows "same_data segs h h'" and "seg_data h' s = buffer"
    and "seg_size s = int (length buffer)" and "seg_is_first s" and "seg_is_last s" and "seg_so s = 0"
    and "hp_sdu h' (seg_sdu s) \<noteq> None"
proof -
  have "seg_sdu x \<noteq> hp_brk h" if "x \<in> set segs" for x
    using heap_ok_live [OF assms(1) that] assms(1) by (auto dest: heap_okD)
  then show "same_data segs h h'"
    using assms(2) by (auto simp: same_data_def nr_rlc_new_sdu_def Let_def)
qed (use assms(2) in \<open>auto simp: nr_rlc_new_sdu_def Let_def seg_data_def\<close>)

lemma split_data:
  assumes "seg_in sdu s" and "sdu_size sdu = int (length (sdu_data sdu))" and "0 < k" and "k < seg_size s"
  shows "take (nat k) (drop (nat (seg_so s)) (sdu_data sdu))
       @ take (nat (seg_size s - k)) (drop (nat (seg_so s + k)) (sdu_data sdu))
     = take (nat (seg_size s)) (drop (nat (seg_so s)) (sdu_data sdu))"
proof -
  have "nat (seg_so s + k) = nat (seg_so s) + nat k" "nat (seg_size s) = nat k + nat (seg_size s - k)"
    using assms by (simp_all add: seg_in_def nat_add_distrib [symmetric])
  then show ?thesis by (simp add: take_add add.commute)
qed

lemma find_sdu_ok:
  assumes "heap_ok h segs" and "set l \<subseteq> set segs"
  shows "\<exists>before from. find_sdu h i l = Inr (before, from) \<and> l = before @ from
     \<and> (\<forall>cur behind. from = cur # behind \<longrightarrow> (\<exists>d. hp_sdu h (seg_sdu cur) = Some d \<and> sdu_upper_layer_id d = i))"
  using assms(2)
proof (induction l)
  case (Cons s l)
  then obtain d where "deref h (seg_sdu s) = Inr d" "hp_sdu h (seg_sdu s) = Some d"
    using deref_ok [OF assms(1), of s] by auto
  with Cons show ?case by auto
qed simp

end
