(* ===== verification/Rlc_Entity.thy ===== *)
theory Rlc_Entity
  imports Time_Stat Rlc_Sdu
begin

text \<open>
  Model of \<^verbatim>\<open>openair2/LAYER2/nr_rlc/nr_rlc_entity.h\<close> and of the part of
  \<^verbatim>\<open>nr_rlc_entity.c\<close> that the three kinds of RLC entities share: statistics, buffer
  status and the common record.

  The callbacks of the upper layer are calls out of the entity; the model records them in
  \<open>ent_events\<close>, in the order of the calls. The function pointers of the record are not data of
  the model: the operations of each mode are in the theory of the mode. \<open>ent_heap\<close> is the memory
  the SDUs of the entity live in. \<^verbatim>\<open>time_average_now()\<close> is an argument \<open>now\<close>.
\<close>

definition NR_SDU_MAX :: int where
  "NR_SDU_MAX = 16000"

datatype nr_rlc_mode_t = NR_RLC_AM | NR_RLC_UM | NR_RLC_TM

record nr_rlc_statistics_t =
  mode :: nr_rlc_mode_t
  txpdu_pkts :: u32
  txpdu_bytes :: u32
  txpdu_wt_ms :: u32
  txpdu_dd_pkts :: u32
  txpdu_dd_bytes :: u32
  txpdu_retx_pkts :: u32
  txpdu_retx_bytes :: u32
  txpdu_segmented :: u32
  txpdu_status_pkts :: u32
  txpdu_status_bytes :: u32
  txbuf_occ_bytes :: u32
  txbuf_occ_pkts :: u32
  rxpdu_pkts :: u32
  rxpdu_bytes :: u32
  rxpdu_dup_pkts :: u32
  rxpdu_dup_bytes :: u32
  rxpdu_dd_pkts :: u32
  rxpdu_dd_bytes :: u32
  rxpdu_ow_pkts :: u32
  rxpdu_ow_bytes :: u32
  rxpdu_status_pkts :: u32
  rxpdu_status_bytes :: u32
  rxbuf_occ_bytes :: u32
  rxbuf_occ_pkts :: u32
  txsdu_pkts :: u32
  txsdu_bytes :: u64
  txsdu_avg_time_to_tx :: "(u64 \<times> nat) option"
  txsdu_wt_us :: u32
  rxsdu_pkts :: u32
  rxsdu_bytes :: u64
  rxsdu_dd_pkts :: u32
  rxsdu_dd_bytes :: u32

record nr_rlc_entity_buffer_status_t =
  bs_status_size :: int
  bs_tx_size :: int
  bs_retx_size :: int

datatype rlc_event =
    Deliver_Sdu bytes
  | Sdu_Successful_Delivery int
  | Max_Retx_Reached

record nr_rlc_entity_t =
  ent_events :: "rlc_event list"
  ent_bstatus :: nr_rlc_entity_buffer_status_t
  ent_stats :: nr_rlc_statistics_t
  ent_txsdu_avg_time_to_tx :: time_average_t
  ent_avg_time_is_on :: bool
  ent_heap :: sdu_heap

text \<open>Updates of the parts of the common record.\<close>

definition with_stats :: "(nr_rlc_statistics_t \<Rightarrow> nr_rlc_statistics_t) \<Rightarrow> nr_rlc_entity_t \<Rightarrow> nr_rlc_entity_t" where
  "with_stats f e = e\<lparr>ent_stats := f (ent_stats e)\<rparr>"

definition with_bstatus ::
    "(nr_rlc_entity_buffer_status_t \<Rightarrow> nr_rlc_entity_buffer_status_t) \<Rightarrow> nr_rlc_entity_t \<Rightarrow> nr_rlc_entity_t" where
  "with_bstatus f e = e\<lparr>ent_bstatus := f (ent_bstatus e)\<rparr>"

definition add_bs_tx :: "int \<Rightarrow> nr_rlc_entity_t \<Rightarrow> nr_rlc_entity_t" where
  "add_bs_tx n = with_bstatus (\<lambda>b. b\<lparr>bs_tx_size := bs_tx_size b + n\<rparr>)"

definition add_bs_retx :: "int \<Rightarrow> nr_rlc_entity_t \<Rightarrow> nr_rlc_entity_t" where
  "add_bs_retx n = with_bstatus (\<lambda>b. b\<lparr>bs_retx_size := bs_retx_size b + n\<rparr>)"

definition emit :: "rlc_event \<Rightarrow> nr_rlc_entity_t \<Rightarrow> nr_rlc_entity_t" where
  "emit ev e = e\<lparr>ent_events := ent_events e @ [ev]\<rparr>"

definition with_heap :: "sdu_heap \<Rightarrow> nr_rlc_entity_t \<Rightarrow> nr_rlc_entity_t" where
  "with_heap h e = e\<lparr>ent_heap := h\<rparr>"

lemmas entity_update_defs = with_stats_def with_bstatus_def add_bs_tx_def add_bs_retx_def emit_def with_heap_def

lemma entity_updates [simp]:
  "ent_heap (with_stats f e) = ent_heap e" "ent_events (with_stats f e) = ent_events e"
  "ent_bstatus (with_stats f e) = ent_bstatus e" "ent_stats (with_stats f e) = f (ent_stats e)"
  "ent_avg_time_is_on (with_stats f e) = ent_avg_time_is_on e"
  "ent_txsdu_avg_time_to_tx (with_stats f e) = ent_txsdu_avg_time_to_tx e"
  "ent_heap (add_bs_tx n e) = ent_heap e" "ent_events (add_bs_tx n e) = ent_events e"
  "bs_tx_size (ent_bstatus (add_bs_tx n e)) = bs_tx_size (ent_bstatus e) + n"
  "bs_retx_size (ent_bstatus (add_bs_tx n e)) = bs_retx_size (ent_bstatus e)"
  "bs_status_size (ent_bstatus (add_bs_tx n e)) = bs_status_size (ent_bstatus e)"
  "ent_stats (add_bs_tx n e) = ent_stats e"
  "ent_avg_time_is_on (add_bs_tx n e) = ent_avg_time_is_on e"
  "ent_txsdu_avg_time_to_tx (add_bs_tx n e) = ent_txsdu_avg_time_to_tx e"
  "ent_heap (add_bs_retx n e) = ent_heap e" "ent_events (add_bs_retx n e) = ent_events e"
  "bs_tx_size (ent_bstatus (add_bs_retx n e)) = bs_tx_size (ent_bstatus e)"
  "bs_retx_size (ent_bstatus (add_bs_retx n e)) = bs_retx_size (ent_bstatus e) + n"
  "bs_status_size (ent_bstatus (add_bs_retx n e)) = bs_status_size (ent_bstatus e)"
  "ent_stats (add_bs_retx n e) = ent_stats e"
  "ent_avg_time_is_on (add_bs_retx n e) = ent_avg_time_is_on e"
  "ent_txsdu_avg_time_to_tx (add_bs_retx n e) = ent_txsdu_avg_time_to_tx e"
  "ent_heap (emit ev e) = ent_heap e" "ent_events (emit ev e) = ent_events e @ [ev]"
  "ent_bstatus (emit ev e) = ent_bstatus e" "ent_stats (emit ev e) = ent_stats e"
  "ent_avg_time_is_on (emit ev e) = ent_avg_time_is_on e"
  "ent_txsdu_avg_time_to_tx (emit ev e) = ent_txsdu_avg_time_to_tx e"
  "ent_heap (with_heap h e) = h" "ent_events (with_heap h e) = ent_events e"
  "ent_bstatus (with_heap h e) = ent_bstatus e" "ent_stats (with_heap h e) = ent_stats e"
  "ent_avg_time_is_on (with_heap h e) = ent_avg_time_is_on e"
  "ent_txsdu_avg_time_to_tx (with_heap h e) = ent_txsdu_avg_time_to_tx e"
  by (simp_all add: entity_update_defs)

section \<open>Construction and statistics\<close>

definition zero_stats :: "nr_rlc_mode_t \<Rightarrow> nr_rlc_statistics_t" where
  "zero_stats md =
     \<lparr> mode = md, txpdu_pkts = 0, txpdu_bytes = 0, txpdu_wt_ms = 0, txpdu_dd_pkts = 0,
       txpdu_dd_bytes = 0, txpdu_retx_pkts = 0, txpdu_retx_bytes = 0, txpdu_segmented = 0,
       txpdu_status_pkts = 0, txpdu_status_bytes = 0, txbuf_occ_bytes = 0, txbuf_occ_pkts = 0,
       rxpdu_pkts = 0, rxpdu_bytes = 0, rxpdu_dup_pkts = 0, rxpdu_dup_bytes = 0,
       rxpdu_dd_pkts = 0, rxpdu_dd_bytes = 0, rxpdu_ow_pkts = 0, rxpdu_ow_bytes = 0,
       rxpdu_status_pkts = 0, rxpdu_status_bytes = 0, rxbuf_occ_bytes = 0, rxbuf_occ_pkts = 0,
       txsdu_pkts = 0, txsdu_bytes = 0, txsdu_avg_time_to_tx = None, txsdu_wt_us = 0,
       rxsdu_pkts = 0, rxsdu_bytes = 0, rxsdu_dd_pkts = 0, rxsdu_dd_bytes = 0 \<rparr>"

definition zero_bstatus :: nr_rlc_entity_buffer_status_t where
  "zero_bstatus = \<lparr> bs_status_size = 0, bs_tx_size = 0, bs_retx_size = 0 \<rparr>"

text \<open>
  What the three constructors set up in the same way: zeroed memory, the mode, and an averaging
  window of 100 ms with room for 1024 samples.
\<close>

definition new_common :: "nr_rlc_mode_t \<Rightarrow> nr_rlc_entity_t res" where
  "new_common md = bindR (time_average_new (100 * 1000) 1024) (\<lambda>ta. Inr
     \<lparr> ent_events = [], ent_bstatus = zero_bstatus, ent_stats = zero_stats md,
       ent_txsdu_avg_time_to_tx = ta, ent_avg_time_is_on = False, ent_heap = empty_heap \<rparr>)"

text \<open>
  \<open>sdu\<close> is the head-of-line segment, chosen by the mode of the entity. The difference of the
  64 bit times is stored into 32 bits. The averaging window drops its old samples.
\<close>

definition nr_rlc_entity_get_stats ::
    "u64 \<Rightarrow> nr_rlc_sdu_segment_t option \<Rightarrow> nr_rlc_entity_t \<Rightarrow> (nr_rlc_entity_t \<times> nr_rlc_statistics_t) res" where
  "nr_rlc_entity_get_stats now sdu entity =
     bindR (case sdu of None \<Rightarrow> Inr 0
            | Some s \<Rightarrow> bindR (deref (ent_heap entity) (seg_sdu s)) (\<lambda>d. Inr (ucast (now - sdu_time_of_arrival d))))
       (\<lambda>wt. let out = (ent_stats entity)\<lparr>txsdu_wt_us := wt\<rparr>
             in Inr (if ent_avg_time_is_on entity
                     then (let (ta, avg) = time_average_get_average (ent_txsdu_avg_time_to_tx entity) now
                           in (entity\<lparr>ent_txsdu_avg_time_to_tx := ta\<rparr>, out\<lparr>txsdu_avg_time_to_tx := avg\<rparr>))
                     else (entity, out\<lparr>txsdu_avg_time_to_tx := None\<rparr>)))"

text \<open>
  The accounting of the waiting time that ends the generation of a PDU, and the time stamp of a
  new SDU; the three modes share both.
\<close>

definition record_waited_time :: "u64 \<Rightarrow> nr_rlc_sdu_t \<Rightarrow> nr_rlc_entity_t \<Rightarrow> nr_rlc_entity_t" where
  "record_waited_time now sdu e =
     (if ent_avg_time_is_on e
      then e\<lparr>ent_txsdu_avg_time_to_tx :=
               time_average_add (ent_txsdu_avg_time_to_tx e) now (now - sdu_time_of_arrival sdu)\<rparr>
      else e)"

definition stamp_arrival :: "u64 \<Rightarrow> nr_rlc_sdu_segment_t \<Rightarrow> nr_rlc_entity_t \<Rightarrow> nr_rlc_entity_t res" where
  "stamp_arrival now seg e =
     (if ent_avg_time_is_on e
      then bindR (deref (ent_heap e) (seg_sdu seg)) (\<lambda>sdu.
             Inr (with_heap (store (ent_heap e) (seg_sdu seg) (sdu\<lparr>sdu_time_of_arrival := now\<rparr>)) e))
      else Inr e)"

lemma record_waited_time_simps [simp]:
  "ent_heap (record_waited_time now sdu e) = ent_heap e"
  "ent_events (record_waited_time now sdu e) = ent_events e"
  "ent_bstatus (record_waited_time now sdu e) = ent_bstatus e"
  "ent_stats (record_waited_time now sdu e) = ent_stats e"
  "ent_avg_time_is_on (record_waited_time now sdu e) = ent_avg_time_is_on e"
  by (simp_all add: record_waited_time_def)

lemma new_common_ok:
  obtains ta where "new_common md = Inr
     \<lparr> ent_events = [], ent_bstatus = zero_bstatus, ent_stats = zero_stats md,
       ent_txsdu_avg_time_to_tx = ta, ent_avg_time_is_on = False, ent_heap = empty_heap \<rparr>"
  by (simp add: new_common_def time_average_new_def)

lemma stamp_arrival_ok:
  assumes ok: "heap_ok (ent_heap e) segs" and s: "s \<in> set segs"
  obtains h where "stamp_arrival now s e = Inr (with_heap h e)"
    and "heap_ok h segs" and "heap_bytes h = heap_bytes (ent_heap e)" and "hp_brk h = hp_brk (ent_heap e)"
    and "\<forall>a. map_option sdu_data (hp_sdu h a) = map_option sdu_data (hp_sdu (ent_heap e) a)"
    and "\<forall>a. map_option sdu_upper_layer_id (hp_sdu h a) = map_option sdu_upper_layer_id (hp_sdu (ent_heap e) a)"
proof (cases "ent_avg_time_is_on e")
  case True
  obtain sdu where sdu: "deref (ent_heap e) (seg_sdu s) = Inr sdu" "hp_sdu (ent_heap e) (seg_sdu s) = Some sdu"
    using deref_ok [OF ok s] by blast
  let ?h = "store (ent_heap e) (seg_sdu s) (sdu\<lparr>sdu_time_of_arrival := now\<rparr>)"
  have "stamp_arrival now s e = Inr (with_heap ?h e)"
    using True sdu by (simp add: stamp_arrival_def)
  moreover have "heap_ok ?h segs" "heap_bytes ?h = heap_bytes (ent_heap e)"
    using heap_ok_store [OF ok sdu(2)] by simp_all
  ultimately show ?thesis
    using that [of ?h] sdu(2) by (simp add: store_def)
next
  case False
  then show ?thesis
    using that [of "ent_heap e"] ok by (simp add: stamp_arrival_def with_heap_def)
qed

end
