(* ===== verification/Rlc_Tm.thy ===== *)
theory Rlc_Tm
  imports Rlc_Entity
begin

text \<open>
  Model of \<^verbatim>\<open>openair2/LAYER2/nr_rlc/nr_rlc_entity_tm.c\<close>: the transparent mode entity.
  SDUs are queued and passed to the MAC one by one, unchanged.

  \<open>tm_queue\<close> is the abstract state, the queued SDUs in order; the lemmas show that the entity with
  its reference-counted store and its two pointers is a bounded FIFO queue of byte strings.
\<close>

record nr_rlc_entity_tm_t =
  tm_common :: nr_rlc_entity_t
  tm_t_current :: u64
  tm_t_log_buffer_full :: u64
  tm_sdu_rejected :: int
  tm_tx_list :: "nr_rlc_sdu_segment_t list"
  tm_tx_end :: "nat option"
  tm_tx_size :: int
  tm_tx_maxsize :: int

definition new_nr_rlc_entity_tm :: "int \<Rightarrow> nr_rlc_entity_tm_t res" where
  "new_nr_rlc_entity_tm tx_maxsize = bindR (new_common NR_RLC_TM) (\<lambda>c. Inr
     \<lparr> tm_common = c, tm_t_current = 0, tm_t_log_buffer_full = 0, tm_sdu_rejected = 0,
       tm_tx_list = [], tm_tx_end = None, tm_tx_size = 0, tm_tx_maxsize = tx_maxsize \<rparr>)"

section \<open>Operations\<close>

definition nr_rlc_entity_tm_recv_pdu :: "nr_rlc_entity_tm_t \<Rightarrow> bytes \<Rightarrow> nr_rlc_entity_tm_t" where
  "nr_rlc_entity_tm_recv_pdu entity buffer =
     (let size = length buffer;
          c1 = with_stats (\<lambda>st. st\<lparr>rxpdu_pkts := rxpdu_pkts st + 1, rxpdu_bytes := rxpdu_bytes st + of_nat size\<rparr>)
                 (tm_common entity);
          c2 = emit (Deliver_Sdu buffer) c1
      in entity\<lparr>tm_common :=
           with_stats (\<lambda>st. st\<lparr>txsdu_pkts := txsdu_pkts st + 1, txsdu_bytes := txsdu_bytes st + of_nat size\<rparr>) c2\<rparr>)"

text \<open>The buffer of \<open>size\<close> bytes is passed in and returned with what was written.\<close>

definition tm_generate_tx_pdu ::
    "u64 \<Rightarrow> nr_rlc_entity_tm_t \<Rightarrow> bytes \<Rightarrow> (int \<times> bytes \<times> nr_rlc_entity_tm_t) res" where
  "tm_generate_tx_pdu now entity buffer =
     (case tm_tx_list entity of
        [] \<Rightarrow> Inr (0, buffer, entity)
      | sdu # rest \<Rightarrow>
          if seg_size sdu > int (length buffer) then Inr (0, buffer, entity)
          else
            bindR (deref (ent_heap (tm_common entity)) (seg_sdu sdu)) (\<lambda>d.
            bindR (mem_read (sdu_data d) 0 (seg_size sdu)) (\<lambda>bs.
            bindR (mem_write buffer 0 bs) (\<lambda>buffer'.
            let e1 = entity\<lparr>tm_tx_list := rest,
                            tm_tx_end := (if rest = [] then None else tm_tx_end entity),
                            tm_tx_size := tm_tx_size entity - seg_size sdu\<rparr>;
                c1 = with_stats (\<lambda>st. st\<lparr>txpdu_pkts := txpdu_pkts st + 1,
                                        txpdu_bytes := txpdu_bytes st + of_nat (length buffer)\<rparr>) (tm_common e1);
                c2 = record_waited_time now d c1;
                c3 = add_bs_tx (- seg_size sdu) c2
            in bindR (nr_rlc_free_sdu_segment (ent_heap c3) sdu) (\<lambda>(h, _).
                 Inr (seg_size sdu, buffer', e1\<lparr>tm_common := with_heap h c3\<rparr>))))))"

definition nr_rlc_entity_tm_buffer_status :: "nr_rlc_entity_tm_t \<Rightarrow> int \<Rightarrow> nr_rlc_entity_buffer_status_t" where
  "nr_rlc_entity_tm_buffer_status entity maxsize =
     \<lparr> bs_status_size = 0, bs_tx_size = bs_tx_size (ent_bstatus (tm_common entity)), bs_retx_size = 0 \<rparr>"

definition nr_rlc_entity_tm_generate_pdu ::
    "u64 \<Rightarrow> nr_rlc_entity_tm_t \<Rightarrow> bytes \<Rightarrow> (int \<times> bytes \<times> nr_rlc_entity_tm_t) res" where
  "nr_rlc_entity_tm_generate_pdu now entity buffer = tm_generate_tx_pdu now entity buffer"

text \<open>Rejected SDUs are logged at most once per second.\<close>

definition tm_log_rejected :: "nr_rlc_entity_tm_t \<Rightarrow> nr_rlc_entity_tm_t" where
  "tm_log_rejected e =
     (if tm_sdu_rejected e \<noteq> 0 \<and> tm_t_current e > tm_t_log_buffer_full e + 1000
      then e\<lparr>tm_sdu_rejected := 0, tm_t_log_buffer_full := tm_t_current e\<rparr> else e)"

definition nr_rlc_entity_tm_recv_sdu ::
    "u64 \<Rightarrow> nr_rlc_entity_tm_t \<Rightarrow> bytes \<Rightarrow> int \<Rightarrow> nr_rlc_entity_tm_t res" where
  "nr_rlc_entity_tm_recv_sdu now entity0 buffer sdu_id =
     (let size = int (length buffer);
          e0 = entity0\<lparr>tm_common :=
                 with_stats (\<lambda>st. st\<lparr>rxsdu_pkts := rxsdu_pkts st + 1,
                                    rxsdu_bytes := rxsdu_bytes st + of_nat (length buffer)\<rparr>) (tm_common entity0)\<rparr>
      in if size > NR_SDU_MAX then Inl Abort
         else
           let entity = tm_log_rejected e0
           in if tm_tx_size entity + size > tm_tx_maxsize entity
              then Inr (entity\<lparr>tm_sdu_rejected := tm_sdu_rejected entity + 1,
                               tm_common :=
                                 with_stats (\<lambda>st. st\<lparr>rxsdu_dd_pkts := rxsdu_dd_pkts st + 1,
                                                    rxsdu_dd_bytes := rxsdu_dd_bytes st + of_nat (length buffer)\<rparr>)
                                   (tm_common entity)\<rparr>)
              else
                let c = tm_common entity;
                    (h, sdu) = nr_rlc_new_sdu (ent_heap c) buffer sdu_id
                in bindR (nr_rlc_sdu_segment_list_append (tm_tx_list entity) (tm_tx_end entity) sdu) (\<lambda>(l, tail).
                   bindR (stamp_arrival now sdu (add_bs_tx (seg_size sdu) (with_heap h c))) (\<lambda>c'.
                     Inr (entity\<lparr>tm_tx_size := tm_tx_size entity + size, tm_tx_list := l,
                                 tm_tx_end := tail, tm_common := c'\<rparr>))))"

definition nr_rlc_entity_tm_set_time :: "nr_rlc_entity_tm_t \<Rightarrow> u64 \<Rightarrow> nr_rlc_entity_tm_t" where
  "nr_rlc_entity_tm_set_time entity now = entity\<lparr>tm_t_current := now\<rparr>"

definition nr_rlc_entity_tm_discard_sdu :: "nr_rlc_entity_tm_t \<Rightarrow> int \<Rightarrow> nr_rlc_entity_tm_t" where
  "nr_rlc_entity_tm_discard_sdu entity sdu_id = entity"

definition tm_clear_entity :: "nr_rlc_entity_tm_t \<Rightarrow> nr_rlc_entity_tm_t res" where
  "tm_clear_entity entity =
     bindR (nr_rlc_free_sdu_segment_list (ent_heap (tm_common entity)) (tm_tx_list entity)) (\<lambda>h.
       Inr (entity\<lparr>tm_t_current := 0, tm_t_log_buffer_full := 0, tm_sdu_rejected := 0,
                   tm_tx_list := [], tm_tx_end := None, tm_tx_size := 0,
                   tm_common := with_bstatus (\<lambda>b. b\<lparr>bs_tx_size := 0\<rparr>) (with_heap h (tm_common entity))\<rparr>))"

definition nr_rlc_entity_tm_reestablishment :: "nr_rlc_entity_tm_t \<Rightarrow> nr_rlc_entity_tm_t res" where
  "nr_rlc_entity_tm_reestablishment entity = tm_clear_entity entity"

text \<open>The deleted entity is given by the memory it leaves behind.\<close>

definition nr_rlc_entity_tm_delete :: "nr_rlc_entity_tm_t \<Rightarrow> sdu_heap res" where
  "nr_rlc_entity_tm_delete entity = bindR (tm_clear_entity entity) (\<lambda>e. Inr (ent_heap (tm_common e)))"

definition nr_rlc_entity_tm_available_tx_space :: "nr_rlc_entity_tm_t \<Rightarrow> int" where
  "nr_rlc_entity_tm_available_tx_space entity = tm_tx_maxsize entity - tm_tx_size entity"

definition nr_rlc_entity_tm_tx_list_occupancy :: "nr_rlc_entity_tm_t \<Rightarrow> int" where
  "nr_rlc_entity_tm_tx_list_occupancy entity = tm_tx_size entity"

section \<open>Invariant\<close>

definition tm_ok :: "nr_rlc_entity_tm_t \<Rightarrow> bool" where
  "tm_ok e \<longleftrightarrow> heap_ok (ent_heap (tm_common e)) (tm_tx_list e) \<and> ends_ok (tm_tx_list e) (tm_tx_end e)
     \<and> (\<forall>s \<in> set (tm_tx_list e). seg_is_first s \<and> seg_is_last s)
     \<and> tm_tx_size e = sum_list (map seg_size (tm_tx_list e))
     \<and> bs_tx_size (ent_bstatus (tm_common e)) = tm_tx_size e \<and> tm_tx_size e \<le> tm_tx_maxsize e"

definition tm_queue :: "nr_rlc_entity_tm_t \<Rightarrow> bytes list" where
  "tm_queue e = map (seg_data (ent_heap (tm_common e))) (tm_tx_list e)"

lemma tm_okD:
  assumes "tm_ok e"
  shows "heap_ok (ent_heap (tm_common e)) (tm_tx_list e)" and "ends_ok (tm_tx_list e) (tm_tx_end e)"
    and "\<forall>s \<in> set (tm_tx_list e). seg_is_first s \<and> seg_is_last s"
    and "tm_tx_size e = sum_list (map seg_size (tm_tx_list e))"
    and "bs_tx_size (ent_bstatus (tm_common e)) = tm_tx_size e" and "tm_tx_size e \<le> tm_tx_maxsize e"
  using assms by (simp_all add: tm_ok_def)

lemma tm_queue_size:
  assumes "tm_ok e"
  shows "sum_list (map (\<lambda>b. int (length b)) (tm_queue e)) = tm_tx_size e"
proof -
  have "map (\<lambda>b. int (length b)) (tm_queue e) = map seg_size (tm_tx_list e)"
    using length_seg_data [OF tm_okD(1) [OF assms]] by (simp add: tm_queue_def)
  then show ?thesis using tm_okD(4) [OF assms] by simp
qed

lemma tm_new_ok:
  assumes "0 \<le> m"
  obtains e where "new_nr_rlc_entity_tm m = Inr e" and "tm_ok e" and "tm_queue e = []" and "tm_tx_maxsize e = m"
    and "ent_events (tm_common e) = []"
  by (rule new_common_ok [of NR_RLC_TM])
    (use that assms in \<open>simp add: new_nr_rlc_entity_tm_def tm_ok_def tm_queue_def zero_bstatus_def\<close>)

lemma tm_log_rejected_simps [simp]:
  "tm_common (tm_log_rejected e) = tm_common e" "tm_tx_list (tm_log_rejected e) = tm_tx_list e"
  "tm_tx_end (tm_log_rejected e) = tm_tx_end e" "tm_tx_size (tm_log_rejected e) = tm_tx_size e"
  "tm_tx_maxsize (tm_log_rejected e) = tm_tx_maxsize e"
  by (simp_all add: tm_log_rejected_def)

section \<open>The abstract queue\<close>

text \<open>A FIFO queue of byte strings that holds at most \<open>m\<close> bytes.\<close>

definition fifo_bytes :: "bytes list \<Rightarrow> int" where
  "fifo_bytes q = sum_list (map (\<lambda>b. int (length b)) q)"

definition fifo_put :: "int \<Rightarrow> bytes list \<Rightarrow> bytes \<Rightarrow> bytes list" where
  "fifo_put m q b = (if fifo_bytes q + int (length b) > m then q else q @ [b])"

fun fifo_get :: "bytes list \<Rightarrow> nat \<Rightarrow> bytes \<times> bytes list" where
  "fifo_get [] n = ([], [])"
| "fifo_get (b # q) n = (if length b > n then ([], b # q) else (b, q))"

lemma tm_recv_sdu_ok:
  assumes ok: "tm_ok e" and size: "int (length b) \<le> NR_SDU_MAX"
  shows "\<exists>e'. nr_rlc_entity_tm_recv_sdu now e b i = Inr e' \<and> tm_ok e'
     \<and> tm_queue e' = fifo_put (tm_tx_maxsize e) (tm_queue e) b \<and> tm_tx_maxsize e' = tm_tx_maxsize e
     \<and> ent_events (tm_common e') = ent_events (tm_common e)"
proof (cases "tm_tx_size e + int (length b) > tm_tx_maxsize e")
  case True
  then have "fifo_put (tm_tx_maxsize e) (tm_queue e) b = tm_queue e"
    using tm_queue_size [OF ok] by (simp add: fifo_put_def fifo_bytes_def)
  with True ok size show ?thesis
    by (simp add: nr_rlc_entity_tm_recv_sdu_def Let_def tm_ok_def tm_queue_def)
next
  case False
  obtain h s where new: "nr_rlc_new_sdu (ent_heap (tm_common e)) b i = (h, s)" by fastforce
  note hok = heap_ok_new_sdu [OF tm_okD(1) [OF ok] new] and dat = new_sdu_data [OF tm_okD(1) [OF ok] new]
  define c where "c = add_bs_tx (seg_size s) (with_heap h
    (with_stats (\<lambda>st. st\<lparr>rxsdu_pkts := rxsdu_pkts st + 1, rxsdu_bytes := rxsdu_bytes st + of_nat (length b)\<rparr>) (tm_common e)))"
  obtain h' where stamp: "stamp_arrival now s c = Inr (with_heap h' c)" and hok': "heap_ok h' (s # tm_tx_list e)"
    and same: "\<forall>a. map_option sdu_data (hp_sdu h' a) = map_option sdu_data (hp_sdu h a)"
    by (rule stamp_arrival_ok [of c "s # tm_tx_list e" s now]) (use hok in \<open>simp_all add: c_def\<close>)
  have same': "same_data (s # tm_tx_list e) h h'"
    using same by (simp add: same_data_def)
  have perm: "heap_ok h' (tm_tx_list e @ [s])"
    using hok' by (subst heap_ok_perm [of _ "s # tm_tx_list e"]) simp_all
  have "map (seg_data h') (tm_tx_list e @ [s]) = tm_queue e @ [b]"
    using dat(2) map_seg_data [OF same', of "tm_tx_list e @ [s]"] map_seg_data [OF dat(1), of "tm_tx_list e"]
    by (simp add: tm_queue_def subset_iff del: map_eq_conv)
  moreover have "distinct (map seg_addr (tm_tx_list e))"
    using tm_okD(1) [OF ok] by (simp add: heap_ok_def)
  then have "nr_rlc_sdu_segment_list_append (tm_tx_list e) (tm_tx_end e) s = Inr (tm_tx_list e @ [s], Some (seg_addr s))"
    by (rule list_append_ok [OF tm_okD(2) [OF ok]])
  moreover have "fifo_put (tm_tx_maxsize e) (tm_queue e) b = tm_queue e @ [b]"
    using False tm_queue_size [OF ok] by (simp add: fifo_put_def fifo_bytes_def)
  ultimately show ?thesis
    using False size new stamp [unfolded c_def] perm dat(3-5) tm_okD [OF ok]
    by (simp add: nr_rlc_entity_tm_recv_sdu_def Let_def tm_ok_def tm_queue_def c_def)
qed

lemma whole_segment_data:
  assumes "heap_ok h segs" and "s \<in> set segs" and "seg_is_first s" and "hp_sdu h (seg_sdu s) = Some d"
  shows "mem_read (sdu_data d) 0 (seg_size s) = Inr (seg_data h s)"
  using heap_ok_live [OF assms(1,2)] assms(3,4)
  by (auto simp: seg_in_def sdu_ok_def mem_read_ok seg_data_def)

lemma tm_generate_pdu_ok:
  assumes ok: "tm_ok e" and get: "fifo_get (tm_queue e) (length buf) = (x, q)"
  shows "\<exists>e'. nr_rlc_entity_tm_generate_pdu now e buf = Inr (int (length x), x @ drop (length x) buf, e')
     \<and> tm_ok e' \<and> tm_queue e' = q \<and> tm_tx_maxsize e' = tm_tx_maxsize e
     \<and> ent_events (tm_common e') = ent_events (tm_common e)"
proof (cases "tm_tx_list e")
  case Nil
  then have "tm_queue e = []" by (simp add: tm_queue_def)
  with get Nil ok show ?thesis
    by (simp add: nr_rlc_entity_tm_generate_pdu_def tm_generate_tx_pdu_def)
next
  case (Cons s rest)
  let ?h = "ent_heap (tm_common e)"
  note hok = tm_okD(1) [OF ok, unfolded Cons]
  have q: "tm_queue e = seg_data ?h s # map (seg_data ?h) rest"
    by (simp add: tm_queue_def Cons)
  have len: "int (length (seg_data ?h s)) = seg_size s" and pos: "0 \<le> seg_size s"
    using length_seg_data [OF hok, of s] by auto
  show ?thesis
  proof (cases "seg_size s > int (length buf)")
    case True
    with get q len Cons ok show ?thesis
      by (simp add: nr_rlc_entity_tm_generate_pdu_def tm_generate_tx_pdu_def tm_queue_def
          split: if_splits)
  next
    case False
    then have xq: "x = seg_data ?h s" "q = map (seg_data ?h) rest"
      using get q len by (simp_all split: if_splits)
    obtain d where d: "hp_sdu ?h (seg_sdu s) = Some d" "deref ?h (seg_sdu s) = Inr d"
      using deref_ok [OF hok, of s] by auto
    obtain h' f where h': "nr_rlc_free_sdu_segment ?h s = Inr (h', f)" "heap_ok h' rest"
      using heap_ok_free [OF hok d(1)] by auto
    have read: "mem_read (sdu_data d) 0 (seg_size s) = Inr x"
      unfolding xq by (rule whole_segment_data [OF hok _ _ d(1)]) (use tm_okD(3) [OF ok] Cons in simp_all)
    have written: "mem_write buf 0 x = Inr (x @ drop (length x) buf)"
      using False len xq by (simp add: mem_write_def)
    have "map (seg_data h') rest = q"
      using map_seg_data [OF free_same_data [OF hok h'(1)], of rest] xq by simp
    moreover have "ends_ok rest (if rest = [] then None else tm_tx_end e)"
      using tm_okD(2) [OF ok] Cons by (simp add: ends_ok_def)
    ultimately show ?thesis
      using False Cons d h' read written len pos xq tm_okD [OF ok]
      by (simp add: nr_rlc_entity_tm_generate_pdu_def tm_generate_tx_pdu_def tm_ok_def tm_queue_def Let_def)
  qed
qed

lemma tm_clear_ok:
  assumes ok: "tm_ok e" and "0 \<le> tm_tx_maxsize e"
  shows "\<exists>e'. tm_clear_entity e = Inr e' \<and> tm_ok e' \<and> tm_queue e' = [] \<and> tm_tx_maxsize e' = tm_tx_maxsize e
     \<and> ent_events (tm_common e') = ent_events (tm_common e) \<and> hp_sdu (ent_heap (tm_common e')) = Map.empty"
proof -
  obtain h where h: "nr_rlc_free_sdu_segment_list (ent_heap (tm_common e)) (tm_tx_list e) = Inr h" "heap_ok h []"
    using heap_ok_free_list [of "ent_heap (tm_common e)" "tm_tx_list e" "[]"] tm_okD(1) [OF ok] by auto
  then show ?thesis
    using heap_ok_Nil [OF h(2)] assms
    by (simp add: tm_clear_entity_def tm_ok_def tm_queue_def with_bstatus_def)
qed

section \<open>Runs of a transparent mode entity\<close>

text \<open>
  What the layers around the entity do with it; a call that hands bytes to the MAC or to the upper
  layer has them as its output.
\<close>

datatype tm_op =
    Tm_Recv_Sdu u64 bytes int
  | Tm_Generate_Pdu u64 bytes
  | Tm_Recv_Pdu bytes
  | Tm_Set_Time u64
  | Tm_Discard_Sdu int
  | Tm_Reestablishment

fun tm_step :: "nr_rlc_entity_tm_t \<Rightarrow> tm_op \<Rightarrow> (bytes list \<times> nr_rlc_entity_tm_t) res" where
  "tm_step e (Tm_Recv_Sdu now b i) = bindR (nr_rlc_entity_tm_recv_sdu now e b i) (\<lambda>e'. Inr ([], e'))"
| "tm_step e (Tm_Generate_Pdu now buf) =
     bindR (nr_rlc_entity_tm_generate_pdu now e buf) (\<lambda>(n, buf', e'). Inr ([take (nat n) buf'], e'))"
| "tm_step e (Tm_Recv_Pdu b) =
     (let e' = nr_rlc_entity_tm_recv_pdu e b
      in Inr (map (\<lambda>ev. case ev of Deliver_Sdu d \<Rightarrow> d | _ \<Rightarrow> [])
                (drop (length (ent_events (tm_common e))) (ent_events (tm_common e'))), e'))"
| "tm_step e (Tm_Set_Time t) = Inr ([], nr_rlc_entity_tm_set_time e t)"
| "tm_step e (Tm_Discard_Sdu i) = Inr ([], nr_rlc_entity_tm_discard_sdu e i)"
| "tm_step e Tm_Reestablishment = bindR (nr_rlc_entity_tm_reestablishment e) (\<lambda>e'. Inr ([], e'))"

fun tm_run :: "nr_rlc_entity_tm_t \<Rightarrow> tm_op list \<Rightarrow> (bytes list \<times> nr_rlc_entity_tm_t) res" where
  "tm_run e [] = Inr ([], e)"
| "tm_run e (a # as) = bindR (tm_step e a) (\<lambda>(o1, e1). bindR (tm_run e1 as) (\<lambda>(o2, e2). Inr (o1 @ o2, e2)))"

fun fifo_step :: "int \<Rightarrow> bytes list \<Rightarrow> tm_op \<Rightarrow> bytes list \<times> bytes list" where
  "fifo_step m q (Tm_Recv_Sdu now b i) = ([], fifo_put m q b)"
| "fifo_step m q (Tm_Generate_Pdu now buf) = (let (x, q') = fifo_get q (length buf) in ([x], q'))"
| "fifo_step m q (Tm_Recv_Pdu b) = ([b], q)"
| "fifo_step m q (Tm_Set_Time t) = ([], q)"
| "fifo_step m q (Tm_Discard_Sdu i) = ([], q)"
| "fifo_step m q Tm_Reestablishment = ([], [])"

fun fifo_run :: "int \<Rightarrow> bytes list \<Rightarrow> tm_op list \<Rightarrow> bytes list \<times> bytes list" where
  "fifo_run m q [] = ([], q)"
| "fifo_run m q (a # as) = (let (o1, q1) = fifo_step m q a; (o2, q2) = fifo_run m q1 as in (o1 @ o2, q2))"

fun tm_op_ok :: "tm_op \<Rightarrow> bool" where
  "tm_op_ok (Tm_Recv_Sdu now b i) = (int (length b) \<le> NR_SDU_MAX)"
| "tm_op_ok _ = True"

lemma tm_step_ok:
  assumes ok: "tm_ok e" and m: "0 \<le> tm_tx_maxsize e" and a: "tm_op_ok a"
    and q: "fifo_step (tm_tx_maxsize e) (tm_queue e) a = (outs, q)"
  shows "\<exists>e'. tm_step e a = Inr (outs, e') \<and> tm_ok e' \<and> tm_queue e' = q \<and> tm_tx_maxsize e' = tm_tx_maxsize e"
proof (cases a)
  case (Tm_Recv_Sdu now b i)
  with tm_recv_sdu_ok [OF ok, of b now i] a q show ?thesis by auto
next
  case (Tm_Generate_Pdu now buf)
  obtain x q' where get: "fifo_get (tm_queue e) (length buf) = (x, q')" by fastforce
  with tm_generate_pdu_ok [OF ok get, of now] Tm_Generate_Pdu q show ?thesis by auto
next
  case (Tm_Recv_Pdu b)
  with ok q show ?thesis
    by (simp add: nr_rlc_entity_tm_recv_pdu_def Let_def tm_ok_def tm_queue_def)
next
  case Tm_Reestablishment
  with tm_clear_ok [OF ok m] q show ?thesis by (auto simp: nr_rlc_entity_tm_reestablishment_def)
qed (use ok q in \<open>simp_all add: nr_rlc_entity_tm_set_time_def nr_rlc_entity_tm_discard_sdu_def tm_ok_def tm_queue_def\<close>)

lemma tm_run_ok:
  assumes "tm_ok e" and "0 \<le> tm_tx_maxsize e" and "list_all tm_op_ok as"
    and "fifo_run (tm_tx_maxsize e) (tm_queue e) as = (outs, q)"
  shows "\<exists>e'. tm_run e as = Inr (outs, e') \<and> tm_ok e' \<and> tm_queue e' = q"
  using assms
proof (induction as arbitrary: e outs)
  case (Cons a as)
  obtain o1 q1 where s: "fifo_step (tm_tx_maxsize e) (tm_queue e) a = (o1, q1)" by fastforce
  obtain o2 q2 where r: "fifo_run (tm_tx_maxsize e) q1 as = (o2, q2)" by fastforce
  have outs: "outs = o1 @ o2" "q = q2" using Cons.prems(4) s r by simp_all
  obtain e1 where e1: "tm_step e a = Inr (o1, e1)" "tm_ok e1" "tm_queue e1 = q1" "tm_tx_maxsize e1 = tm_tx_maxsize e"
    using tm_step_ok [OF Cons.prems(1,2) _ s] Cons.prems(3) by auto
  with Cons.IH [of e1 o2] Cons.prems r outs show ?case by auto
qed auto

text \<open>
  C3. A transparent mode entity behaves like a bounded FIFO queue: for every sequence of calls, with
  SDUs of at most \<^verbatim>\<open>NR_SDU_MAX\<close> bytes, a new entity with room for \<open>m\<close> bytes answers
  without a fault, what it hands out is what the queue hands out (PDUs to the MAC, SDUs to the upper
  layer, each unchanged and in order), the queued SDUs are those of the queue, and the reported
  buffer status is their total size, never more than \<open>m\<close>.
\<close>

theorem tm_is_bounded_fifo:
  assumes "0 \<le> m" and "list_all tm_op_ok ops"
  shows "\<exists>e e'. new_nr_rlc_entity_tm m = Inr e \<and> tm_run e ops = Inr (fst (fifo_run m [] ops), e')
     \<and> tm_queue e' = snd (fifo_run m [] ops)
     \<and> bs_tx_size (nr_rlc_entity_tm_buffer_status e' k) = fifo_bytes (tm_queue e')
     \<and> nr_rlc_entity_tm_tx_list_occupancy e' = fifo_bytes (tm_queue e')
     \<and> 0 \<le> nr_rlc_entity_tm_available_tx_space e'"
proof -
  obtain e where e: "new_nr_rlc_entity_tm m = Inr e" "tm_ok e" "tm_queue e = []" "tm_tx_maxsize e = m"
    by (rule tm_new_ok [OF assms(1)])
  obtain e' where e': "tm_run e ops = Inr (fst (fifo_run m [] ops), e')" "tm_ok e'"
      "tm_queue e' = snd (fifo_run m [] ops)"
    using tm_run_ok [OF e(2) _ assms(2), of "fst (fifo_run m [] ops)" "snd (fifo_run m [] ops)"] e assms(1) by auto
  show ?thesis
    using e(1) e' tm_queue_size [OF e'(2)] tm_okD [OF e'(2)]
    by (simp add: fifo_bytes_def nr_rlc_entity_tm_buffer_status_def nr_rlc_entity_tm_tx_list_occupancy_def
        nr_rlc_entity_tm_available_tx_space_def)
qed

theorem tm_is_bounded_fifo_witness:
  "\<exists>e e'. new_nr_rlc_entity_tm 4 = Inr e
     \<and> tm_run e [Tm_Recv_Sdu 5 [1, 2, 3] 7, Tm_Recv_Sdu 6 [4, 5] 8, Tm_Recv_Pdu [9], Tm_Generate_Pdu 9 [0, 0],
                 Tm_Generate_Pdu 9 [0, 0, 0, 0]] = Inr ([[9], [], [1, 2, 3]], e')
     \<and> tm_queue e' = []"
  using tm_is_bounded_fifo [of 4 "[Tm_Recv_Sdu 5 [1, 2, 3] 7, Tm_Recv_Sdu 6 [4, 5] 8, Tm_Recv_Pdu [9],
      Tm_Generate_Pdu 9 [0, 0], Tm_Generate_Pdu 9 [0, 0, 0, 0]]" 100]
  by (auto simp: NR_SDU_MAX_def fifo_put_def fifo_bytes_def)

end
