(* ===== verification/Rlc_Reassembly.thy ===== *)
theory Rlc_Reassembly
  imports Rlc_Entity Rlc_Pdu
begin

text \<open>
  The loops over the received segments of one SDU, that the acknowledged and the unacknowledged
  entity have in common (\<^verbatim>\<open>sdu_full\<close>, \<^verbatim>\<open>sdu_has_missing_bytes\<close> and
  \<^verbatim>\<open>reassemble_and_deliver\<close> of \<^verbatim>\<open>nr_rlc_entity_am.c\<close> and
  \<^verbatim>\<open>nr_rlc_entity_um.c\<close>), and the search for the first sequence number that is not
  delivered.

  The lemmas relate the loops to the SDU of the sender: for segments of \<open>D\<close> in the order of their
  offsets the first loop answers whether all bytes of \<open>D\<close> are there, the second whether a byte is
  missing in front of a received one, and the third rebuilds \<open>D\<close>.
\<close>

section \<open>Loops\<close>

fun full_loop :: "int \<Rightarrow> nr_rlc_pdu_t list \<Rightarrow> bool" where
  "full_loop last_byte [] = False"
| "full_loop last_byte (l # ls) =
     (if pdu_so l > last_byte + 1 then False
      else if pdu_is_last l then True
      else let new_last_byte = pdu_so l + pdu_size l - 1
           in full_loop (if new_last_byte > last_byte then new_last_byte else last_byte) ls)"

fun missing_loop :: "int \<Rightarrow> nr_rlc_pdu_t list \<Rightarrow> bool" where
  "missing_loop last_byte [] = False"
| "missing_loop last_byte (l # ls) =
     (if pdu_so l > last_byte + 1 then True
      else let new_last_byte = pdu_so l + pdu_size l - 1
           in missing_loop (if new_last_byte > last_byte then new_last_byte else last_byte) ls)"

text \<open>
  \<open>sdu\<close> holds the bytes copied so far, its length is \<^verbatim>\<open>so\<close>. The copy reads from the data of
  the PDU at offset \<open>so - pdu->so\<close>.
\<close>

definition copy_segment :: "bytes \<Rightarrow> int \<Rightarrow> nr_rlc_pdu_t \<Rightarrow> bytes res" where
  "copy_segment sdu len pdu =
     (case pdu_data pdu of None \<Rightarrow> Inl Null_Deref
      | Some d \<Rightarrow> bindR (mem_read d (int (length sdu) - pdu_so pdu) len) (\<lambda>bs. Inr (sdu @ bs)))"

fun reassemble_loop :: "bytes \<Rightarrow> bool \<Rightarrow> nr_rlc_pdu_t list \<Rightarrow> (bytes \<times> bool) res" where
  "reassemble_loop sdu bad_sdu [] = Inr (sdu, bad_sdu)"
| "reassemble_loop sdu bad_sdu (pdu # pdus) =
     (let so = int (length sdu);
          len = pdu_size pdu - (so - pdu_so pdu);
          bad = (bad_sdu \<or> so + len > NR_SDU_MAX)
      in bindR (if \<not> bad \<and> len > 0 then copy_segment sdu len pdu else Inr sdu)
           (\<lambda>sdu'. reassemble_loop sdu' bad pdus))"

text \<open>
  \<^verbatim>\<open>while (sdu_delivered(entity, sn)) sn = (sn + 1) % sn_modulus\<close>: not returning is
  \<open>None\<close> of the loop and the fault \<open>Hang\<close> of the operation.
\<close>

partial_function (option) skip_loop :: "(int \<Rightarrow> bool res) \<Rightarrow> int \<Rightarrow> int \<Rightarrow> int res option" where
  "skip_loop p m sn =
     (case p sn of Inl e \<Rightarrow> Some (Inl e)
      | Inr b \<Rightarrow> if b then skip_loop p m (crem (sn + 1) m) else Some (Inr sn))"

definition skip_delivered :: "(int \<Rightarrow> bool res) \<Rightarrow> int \<Rightarrow> int \<Rightarrow> int res" where
  "skip_delivered p m sn = (case skip_loop p m sn of None \<Rightarrow> Inl Hang | Some r \<Rightarrow> r)"

declare skip_loop.simps [code]

section \<open>Segments of one SDU\<close>

definition slice_of :: "bytes \<Rightarrow> nr_rlc_pdu_t \<Rightarrow> bool" where
  "slice_of D p \<longleftrightarrow> 0 \<le> pdu_so p \<and> 0 < pdu_size p \<and> pdu_so p + pdu_size p \<le> int (length D)
     \<and> pdu_data p = Some (take (nat (pdu_size p)) (drop (nat (pdu_so p)) D))
     \<and> (pdu_is_first p \<longleftrightarrow> pdu_so p = 0) \<and> (pdu_is_last p \<longleftrightarrow> pdu_so p + pdu_size p = int (length D))"

definition covers :: "nr_rlc_pdu_t \<Rightarrow> int \<Rightarrow> bool" where
  "covers p i \<longleftrightarrow> pdu_so p \<le> i \<and> i < pdu_so p + pdu_size p"

definition slices :: "bytes \<Rightarrow> nr_rlc_pdu_t list \<Rightarrow> bool" where
  "slices D l \<longleftrightarrow> (\<forall>p \<in> set l. slice_of D p) \<and> sorted (map pdu_so l)"

lemma slices_simps [simp]:
  "slices D []"
  "slices D (p # l) \<longleftrightarrow> slice_of D p \<and> (\<forall>q \<in> set l. pdu_so p \<le> pdu_so q) \<and> slices D l"
  by (auto simp: slices_def)

lemma covers_from:
  assumes "pdu_so p \<le> n" and "k = max n (pdu_so p + pdu_size p)" and "n \<le> i"
  shows "covers p i \<longleftrightarrow> i < k"
  using assms by (auto simp: covers_def)

lemma full_loop_covered:
  assumes "slices D l" and "0 \<le> n" and "n < int (length D)"
  shows "full_loop (n - 1) l \<longleftrightarrow> (\<forall>i. n \<le> i \<and> i < int (length D) \<longrightarrow> (\<exists>p \<in> set l. covers p i))"
  using assms
proof (induction l arbitrary: n)
  case (Cons p l)
  then have p: "slice_of D p" and le: "\<forall>q \<in> set l. pdu_so p \<le> pdu_so q" by auto
  show ?case
  proof (cases "pdu_so p > n")
    case True
    then have "\<not> (\<exists>q \<in> set (p # l). covers q n)" using le by (auto simp: covers_def)
    then show ?thesis using True Cons.prems by auto
  next
    case False
    show ?thesis
    proof (cases "pdu_is_last p")
      case True
      then show ?thesis using False p by (auto simp: covers_def slice_of_def)
    next
      case nl: False
      define k where "k = max n (pdu_so p + pdu_size p)"
      have k: "0 \<le> k" "k < int (length D)" using Cons.prems p nl by (auto simp: k_def slice_of_def)
      have "full_loop (n - 1) (p # l) \<longleftrightarrow> full_loop (k - 1) l"
        using False nl by (auto simp: k_def max_def Let_def)
      also have "\<dots> \<longleftrightarrow> (\<forall>i. k \<le> i \<and> i < int (length D) \<longrightarrow> (\<exists>p \<in> set l. covers p i))"
        using Cons.IH [of k] Cons.prems k by simp
      also have "\<dots> \<longleftrightarrow> (\<forall>i. n \<le> i \<and> i < int (length D) \<longrightarrow> (\<exists>q \<in> set (p # l). covers q i))"
        using covers_from [of p n k] False k_def by (intro iffI allI impI) force+
      finally show ?thesis .
    qed
  qed
qed auto

lemma missing_loop_gap:
  assumes "slices D l" and "0 \<le> n"
  shows "missing_loop (n - 1) l \<longleftrightarrow>
    (\<exists>i q. n \<le> i \<and> q \<in> set l \<and> i < pdu_so q \<and> (\<forall>p \<in> set l. \<not> covers p i))"
  using assms
proof (induction l arbitrary: n)
  case (Cons p l)
  then have p: "slice_of D p" and le: "\<forall>q \<in> set l. pdu_so p \<le> pdu_so q" by auto
  show ?case
  proof (cases "pdu_so p > n")
    case True
    then have "\<forall>q \<in> set (p # l). \<not> covers q n" using le by (auto simp: covers_def)
    then show ?thesis using True by (auto intro!: exI [of _ n])
  next
    case False
    define k where "k = max n (pdu_so p + pdu_size p)"
    have "missing_loop (n - 1) (p # l) \<longleftrightarrow> missing_loop (k - 1) l"
      using False by (auto simp: k_def max_def Let_def)
    also have "\<dots> \<longleftrightarrow> (\<exists>i q. k \<le> i \<and> q \<in> set l \<and> i < pdu_so q \<and> (\<forall>p \<in> set l. \<not> covers p i))"
      using Cons.IH [of k] Cons.prems by (simp add: k_def)
    also have "\<dots> \<longleftrightarrow> (\<exists>i q. n \<le> i \<and> q \<in> set (p # l) \<and> i < pdu_so q \<and> (\<forall>p \<in> set (p # l). \<not> covers p i))"
    proof (intro iffI; elim exE conjE)
      fix i q assume i: "k \<le> i" "q \<in> set l" "i < pdu_so q" "\<forall>p \<in> set l. \<not> covers p i"
      moreover have "n \<le> i" "\<not> covers p i" using i(1) by (simp_all add: k_def covers_def)
      ultimately show "\<exists>i q. n \<le> i \<and> q \<in> set (p # l) \<and> i < pdu_so q \<and> (\<forall>p \<in> set (p # l). \<not> covers p i)"
        by (intro exI [of _ i] exI [of _ q]) simp
    next
      fix i q assume i: "n \<le> i" "q \<in> set (p # l)" "i < pdu_so q" "\<forall>p \<in> set (p # l). \<not> covers p i"
      moreover have "k \<le> i"
      proof -
        have "\<not> covers p i" using i(4) by simp
        then show ?thesis using covers_from [of p n k i] i(1) False k_def by linarith
      qed
      moreover have "q \<noteq> p" using i(1,3) False by auto
      ultimately show "\<exists>i q. k \<le> i \<and> q \<in> set l \<and> i < pdu_so q \<and> (\<forall>p \<in> set l. \<not> covers p i)"
        by (intro exI [of _ i] exI [of _ q]) simp
    qed
    finally show ?thesis .
  qed
qed auto

lemma copy_slice:
  assumes "slice_of D p" and "sdu = take n D" and "n \<le> length D" and "pdu_so p \<le> int n"
    and "int n < pdu_so p + pdu_size p"
  shows "copy_segment sdu (pdu_so p + pdu_size p - int n) p = Inr (take (nat (pdu_so p + pdu_size p)) D)"
proof -
  let ?k = "nat (pdu_so p + pdu_size p)" and ?s = "nat (pdu_so p)"
  have len: "length sdu = n" using assms by simp
  have d: "pdu_data p = Some (take (?k - ?s) (drop ?s D))" and k: "?k \<le> length D" "?s \<le> n" "n < ?k"
    using assms by (auto simp: slice_of_def nat_diff_distrib [symmetric])
  have "mem_read (take (?k - ?s) (drop ?s D)) (int n - pdu_so p) (pdu_so p + pdu_size p - int n)
      = Inr (take (?k - n) (drop (n - ?s) (take (?k - ?s) (drop ?s D))))"
    using k assms by (subst mem_read_ok) (auto simp: slice_of_def nat_diff_distrib)
  moreover have "drop (n - ?s) (take (?k - ?s) (drop ?s D)) = take (?k - n) (drop n D)"
    using k by (simp add: drop_take)
  moreover have "take n D @ take (?k - n) (drop n D) = take ?k D"
    using k by (metis le_add_diff_inverse less_imp_le take_add)
  ultimately show ?thesis using d len assms(2) by (simp add: copy_segment_def)
qed

lemma reassemble_done:
  assumes "\<forall>p \<in> set l. slice_of D p" and "int (length D) \<le> NR_SDU_MAX"
  shows "reassemble_loop D False l = Inr (D, False)"
  using assms by (induction l) (auto simp: slice_of_def Let_def)

lemma reassemble_full:
  assumes "slices D l" and "full_loop (int n - 1) l" and "n \<le> length D" and "int (length D) \<le> NR_SDU_MAX"
  shows "reassemble_loop (take n D) False l = Inr (D, False)"
  using assms
proof (induction l arbitrary: n)
  case (Cons p l)
  then have p: "slice_of D p" and sl: "\<forall>q \<in> set l. slice_of D q" and so: "pdu_so p \<le> int n"
    by (auto simp: slices_def split: if_splits)
  let ?k = "pdu_so p + pdu_size p"
  define k where "k = max n (nat ?k)"
  have bound: "\<not> int n + (pdu_size p - (int n - pdu_so p)) > NR_SDU_MAX"
    using p Cons.prems by (auto simp: slice_of_def)
  have step: "reassemble_loop (take n D) False (p # l) = reassemble_loop (take k D) False l"
  proof (cases "int n < ?k")
    case True
    then have "nat ?k = k" by (simp add: k_def)
    moreover have "copy_segment (take n D) (pdu_size p - (int n - pdu_so p)) p = Inr (take (nat ?k) D)"
      using copy_slice [OF p refl Cons.prems(3) so True] by (simp add: algebra_simps)
    ultimately show ?thesis using True bound Cons.prems(3) by (simp add: Let_def)
  next
    case False
    then show ?thesis using bound Cons.prems(3) by (simp add: Let_def k_def)
  qed
  show ?case
  proof (cases "pdu_is_last p")
    case True
    then have "take k D = D" using p by (auto simp: slice_of_def k_def)
    then show ?thesis using step reassemble_done [OF sl Cons.prems(4)] by simp
  next
    case False
    then have "full_loop (int k - 1) l"
      using Cons.prems(2) p so by (auto simp: k_def slice_of_def Let_def split: if_splits)
    moreover have "k \<le> length D" using p Cons.prems(3) by (auto simp: k_def slice_of_def)
    ultimately show ?thesis using Cons.IH [of k] Cons.prems step by simp
  qed
qed simp

section \<open>The search for the first undelivered SDU\<close>

lemma crem_succ: "is_sn m sn \<Longrightarrow> crem (sn + 1) m = (sn + 1) mod m"
  by (rule crem_mod) (auto simp: is_sn_def)

lemma crem_succ_sn: "is_sn m a \<Longrightarrow> is_sn m (crem (a + 1) m)"
  by (subst crem_succ) (auto simp: is_sn_def)

lemma skip_loop_found:
  assumes "is_sn m sn" and "\<forall>j < k. p ((sn + int j) mod m) = Inr True" and "p ((sn + int k) mod m) = Inr False"
  shows "skip_loop p m sn = Some (Inr ((sn + int k) mod m))"
  using assms
proof (induction k arbitrary: sn)
  case 0
  then have "sn mod m = sn" by (simp add: is_sn_def)
  with 0 show ?case by (subst skip_loop.simps) simp
next
  case (Suc k)
  let ?n = "(sn + 1) mod m"
  have m: "0 < m" "sn mod m = sn" using Suc.prems(1) by (auto simp: is_sn_def)
  have shift: "(?n + int j) mod m = (sn + int (Suc j)) mod m" for j
    by (simp add: mod_simps algebra_simps)
  have "skip_loop p m ?n = Some (Inr ((?n + int k) mod m))"
    using Suc.prems m by (intro Suc.IH) (auto simp only: shift is_sn_mod)
  moreover have "p sn = Inr True" using Suc.prems(2) m(2) by (auto dest: spec [of _ 0])
  ultimately show ?case
    using Suc.prems(1) shift [of k] by (subst skip_loop.simps) (simp add: crem_succ)
qed

lemma skip_loop_never:
  assumes "skip_loop p m sn = Some r"
  shows "\<not> (is_sn m sn \<and> (\<forall>s. is_sn m s \<longrightarrow> p s = Inr True))"
proof (rule skip_loop.raw_induct [OF _ assms])
  fix loop p m sn r
  assume IH: "\<And>p m sn r. loop p m sn = Some r \<Longrightarrow> \<not> (is_sn m sn \<and> (\<forall>s. is_sn m s \<longrightarrow> p s = Inr True))"
    and r: "(case p sn of Inl e \<Rightarrow> Some (Inl e)
      | Inr b \<Rightarrow> if b then loop p m (crem (sn + 1) m) else Some (Inr sn)) = Some r"
  show "\<not> (is_sn m sn \<and> (\<forall>s. is_sn m s \<longrightarrow> p s = Inr True))"
  proof
    assume all: "is_sn m sn \<and> (\<forall>s. is_sn m s \<longrightarrow> p s = Inr True)"
    then have "loop p m ((sn + 1) mod m) = Some r" using r by (simp add: crem_succ)
    moreover have "is_sn m ((sn + 1) mod m)" using all by (auto simp: is_sn_def)
    ultimately show False using IH all by blast
  qed
qed

lemma skip_delivered_hang:
  assumes "is_sn m sn" and "\<forall>s. is_sn m s \<longrightarrow> p s = Inr True"
  shows "skip_delivered p m sn = Inl Hang"
proof (cases "skip_loop p m sn")
  case (Some r)
  then show ?thesis using skip_loop_never assms by blast
qed (simp add: skip_delivered_def)

lemma sn_offset: "is_sn m a \<Longrightarrow> is_sn m b \<Longrightarrow> \<exists>k < nat m. (a + int k) mod m = b"
  by (rule exI [of _ "nat ((b - a) mod m)"]) (auto simp: is_sn_def mod_sub_cancel)

lemma skip_delivered_first:
  assumes sn: "is_sn m sn" and total: "\<forall>s. is_sn m s \<longrightarrow> (\<exists>b. p s = Inr b)"
    and ex: "is_sn m s" "p s = Inr False"
  obtains k where "skip_delivered p m sn = Inr ((sn + int k) mod m)" and "k < nat m"
    and "p ((sn + int k) mod m) = Inr False" and "\<forall>j < k. p ((sn + int j) mod m) = Inr True"
proof -
  let ?P = "\<lambda>k. p ((sn + int k) mod m) = Inr False"
  obtain k0 where k0: "k0 < nat m" "(sn + int k0) mod m = s" using sn_offset [OF sn ex(1)] by blast
  define k where "k = (LEAST k. ?P k)"
  have P: "?P k" and le: "k \<le> k0"
    using k0 ex(2) by (auto simp: k_def intro: LeastI Least_le)
  have "p ((sn + int j) mod m) = Inr True" if "j < k" for j
  proof -
    have "\<not> ?P j" using not_less_Least that by (simp add: k_def)
    moreover have "is_sn m ((sn + int j) mod m)" using sn by (auto simp: is_sn_def)
    ultimately show ?thesis using total by fastforce
  qed
  then show ?thesis
    using that [of k] skip_loop_found [of m sn k p] sn P le k0(1) by (simp add: skip_delivered_def)
qed

end
