(* ===== verification/Rlc_Um.thy ===== *)
theory Rlc_Um
  imports Rlc_Reassembly
begin

text \<open>
  Model of \<^verbatim>\<open>openair2/LAYER2/nr_rlc/nr_rlc_entity_um.c\<close>: the unacknowledged mode
  entity, with segmentation on the transmitting side and a reassembly window on the receiving side.
\<close>

record nr_rlc_entity_um_t =
  um_common :: nr_rlc_entity_t
  um_t_reassembly :: int
  um_sn_field_length :: nat
  um_sn_modulus :: int
  um_window_size :: int
  um_rx_next_highest :: int
  um_rx_next_reassembly :: int
  um_rx_timer_trigger :: int
  um_tx_next :: int
  um_t_current :: u64
  um_t_log_buffer_full :: u64
  um_sdu_rejected :: int
  um_t_reassembly_start :: u64
  um_rx_list :: "nr_rlc_pdu_t list"
  um_rx_size :: int
  um_rx_maxsize :: int
  um_tx_list :: "nr_rlc_sdu_segment_t list"
  um_tx_end :: "nat option"
  um_tx_size :: int
  um_tx_maxsize :: int

definition new_nr_rlc_entity_um :: "int \<Rightarrow> int \<Rightarrow> int \<Rightarrow> nat \<Rightarrow> nr_rlc_entity_um_t res" where
  "new_nr_rlc_entity_um rx_maxsize tx_maxsize t_reassembly sn_field_length =
     (if sn_field_length \<noteq> 6 \<and> sn_field_length \<noteq> 12 then Inl Abort
      else bindR (new_common NR_RLC_UM) (\<lambda>c.
        let sn_modulus = push_bit sn_field_length 1
        in Inr \<lparr> um_common = c, um_t_reassembly = t_reassembly, um_sn_field_length = sn_field_length,
                 um_sn_modulus = sn_modulus, um_window_size = sn_modulus div 2,
                 um_rx_next_highest = 0, um_rx_next_reassembly = 0, um_rx_timer_trigger = 0,
                 um_tx_next = 0, um_t_current = 0, um_t_log_buffer_full = 0, um_sdu_rejected = 0,
                 um_t_reassembly_start = 0, um_rx_list = [], um_rx_size = 0, um_rx_maxsize = rx_maxsize,
                 um_tx_list = [], um_tx_end = None, um_tx_size = 0, um_tx_maxsize = tx_maxsize \<rparr>))"

definition nr_rlc_entity_um_reconfigure :: "nr_rlc_entity_um_t \<Rightarrow> int \<Rightarrow> nat option \<Rightarrow> nr_rlc_entity_um_t" where
  "nr_rlc_entity_um_reconfigure entity t_reassembly sn_field_length =
     (let e = entity\<lparr>um_t_reassembly := t_reassembly\<rparr>
      in case sn_field_length of None \<Rightarrow> e | Some n \<Rightarrow> e\<lparr>um_sn_field_length := n\<rparr>)"

definition um_compute_pdu_header_size :: "nr_rlc_entity_um_t \<Rightarrow> nr_rlc_sdu_segment_t \<Rightarrow> int" where
  "um_compute_pdu_header_size entity sdu =
     (1::int) + (if \<not> (seg_is_first sdu \<and> seg_is_last sdu) \<and> um_sn_field_length entity = 12 then 1 else 0)
     + (if \<not> seg_is_first sdu then 2 else 0)"

section \<open>Reception\<close>

definition um_modulus_rx :: "nr_rlc_entity_um_t \<Rightarrow> int \<Rightarrow> int" where
  "um_modulus_rx entity a =
     (let r = a - (um_rx_next_highest entity - um_window_size entity);
          r' = (if r < 0 then r + um_sn_modulus entity else r)
      in crem r' (um_sn_modulus entity))"

definition um_sn_compare_rx :: "nr_rlc_entity_um_t \<Rightarrow> int \<Rightarrow> int \<Rightarrow> int" where
  "um_sn_compare_rx entity a b = um_modulus_rx entity a - um_modulus_rx entity b"

text \<open>The walk to the first PDU of \<open>sn\<close>, and the run of its PDUs.\<close>

definition um_find :: "nr_rlc_entity_um_t \<Rightarrow> int \<Rightarrow> nr_rlc_pdu_t list" where
  "um_find entity sn = dropWhile (\<lambda>l. pdu_sn l \<noteq> sn) (um_rx_list entity)"

definition um_run :: "nr_rlc_entity_um_t \<Rightarrow> int \<Rightarrow> nr_rlc_pdu_t list" where
  "um_run entity sn = takeWhile (\<lambda>l. pdu_sn l = sn) (um_find entity sn)"

definition um_sdu_full :: "nr_rlc_entity_um_t \<Rightarrow> int \<Rightarrow> bool" where
  "um_sdu_full entity sn =
     (case um_find entity sn of
        l # _ \<Rightarrow> if pdu_data l = None then False else full_loop (-1) (um_run entity sn)
      | [] \<Rightarrow> False)"

definition um_sdu_delivered :: "nr_rlc_entity_um_t \<Rightarrow> int \<Rightarrow> bool" where
  "um_sdu_delivered entity sn = (case um_find entity sn of [] \<Rightarrow> False | l # _ \<Rightarrow> pdu_data l = None)"

definition um_sdu_has_missing_bytes :: "nr_rlc_entity_um_t \<Rightarrow> int \<Rightarrow> bool" where
  "um_sdu_has_missing_bytes entity sn =
     (case um_find entity sn of
        l # _ \<Rightarrow> if pdu_data l = None then False else missing_loop (-1) (um_run entity sn)
      | [] \<Rightarrow> False)"

definition um_reassemble_and_deliver :: "nr_rlc_entity_um_t \<Rightarrow> int \<Rightarrow> nr_rlc_entity_um_t res" where
  "um_reassemble_and_deliver entity sn =
     (if um_find entity sn = [] then Inl Null_Deref
      else
        let l = um_rx_list entity;
            run = um_run entity sn;
            before = takeWhile (\<lambda>p. pdu_sn p \<noteq> sn) l;
            behind = dropWhile (\<lambda>p. pdu_sn p = sn) (um_find entity sn);
            e = entity\<lparr>um_rx_list := before @ map (\<lambda>p. p\<lparr>pdu_data := None, pdu_size := 0\<rparr>) run @ behind,
                       um_rx_size := um_rx_size entity - sum_list (map pdu_size run)\<rparr>
        in bindR (reassemble_loop [] False run) (\<lambda>(sdu, bad_sdu).
             if bad_sdu then Inr e
             else Inr (e\<lparr>um_common :=
                    with_stats (\<lambda>st. st\<lparr>txsdu_pkts := txsdu_pkts st + 1,
                                       txsdu_bytes := txsdu_bytes st + of_nat (length sdu)\<rparr>)
                      (emit (Deliver_Sdu sdu) (um_common e))\<rparr>)))"

text \<open>The PDUs at the head of the list that are outside of the reassembly window are dropped.\<close>

function um_discard_outside :: "nr_rlc_entity_um_t \<Rightarrow> nr_rlc_entity_um_t" where
  "um_discard_outside entity =
     (case um_rx_list entity of
        [] \<Rightarrow> entity
      | p # next \<Rightarrow>
          if um_sn_compare_rx entity (pdu_sn p) (um_rx_next_highest entity) \<ge> 0
          then um_discard_outside
                 (entity\<lparr>um_rx_size := um_rx_size entity - pdu_size p, um_rx_list := next,
                         um_common := with_stats (\<lambda>st. st\<lparr>rxpdu_dd_pkts := rxpdu_dd_pkts st + 1,
                            rxpdu_dd_bytes := rxpdu_dd_bytes st + word_of_int (pdu_size p),
                            rxpdu_ow_pkts := rxpdu_ow_pkts st + 1,
                            rxpdu_ow_bytes := rxpdu_ow_bytes st + word_of_int (pdu_size p)\<rparr>) (um_common entity)\<rparr>)
          else entity)"
  by pat_completeness auto
termination
  by (relation "measure (\<lambda>e. length (um_rx_list e))") auto

declare um_discard_outside.simps [simp del]

definition um_stop_t_reassembly :: "nr_rlc_entity_um_t \<Rightarrow> nr_rlc_entity_um_t" where
  "um_stop_t_reassembly entity =
     (if um_t_reassembly_start entity \<noteq> 0
         \<and> (um_sn_compare_rx entity (um_rx_timer_trigger entity) (um_rx_next_reassembly entity) \<le> 0
            \<or> um_sn_compare_rx entity (um_rx_timer_trigger entity) (um_rx_next_highest entity) > 0
            \<or> (um_rx_next_highest entity = crem (um_rx_next_reassembly entity + 1) (um_sn_modulus entity)
               \<and> \<not> um_sdu_has_missing_bytes entity (um_rx_next_reassembly entity)))
      then entity\<lparr>um_t_reassembly_start := 0\<rparr> else entity)"

definition um_start_t_reassembly :: "nr_rlc_entity_um_t \<Rightarrow> nr_rlc_entity_um_t" where
  "um_start_t_reassembly entity =
     (if um_t_reassembly_start entity = 0
         \<and> (um_sn_compare_rx entity (um_rx_next_highest entity)
              (crem (um_rx_next_reassembly entity + 1) (um_sn_modulus entity)) > 0
            \<or> (um_rx_next_highest entity = crem (um_rx_next_reassembly entity + 1) (um_sn_modulus entity)
               \<and> um_sdu_has_missing_bytes entity (um_rx_next_reassembly entity)))
      then entity\<lparr>um_t_reassembly_start := um_t_current entity, um_rx_timer_trigger := um_rx_next_highest entity\<rparr>
      else entity)"

definition um_reception_actions :: "nr_rlc_entity_um_t \<Rightarrow> nr_rlc_pdu_t \<Rightarrow> nr_rlc_entity_um_t res" where
  "um_reception_actions entity pdu =
     (let x = pdu_sn pdu
      in bindR
           (if um_sdu_full entity x
            then bindR (um_reassemble_and_deliver entity x) (\<lambda>e.
                   if x = um_rx_next_reassembly e
                   then bindR (skip_delivered (\<lambda>sn. Inr (um_sdu_delivered e sn)) (um_sn_modulus e) (um_rx_next_reassembly e))
                          (\<lambda>n. Inr (e\<lparr>um_rx_next_reassembly := n\<rparr>))
                   else Inr e)
            else if um_sn_compare_rx entity x (um_rx_next_highest entity) \<ge> 0
            then
              let e = um_discard_outside (entity\<lparr>um_rx_next_highest := crem (x + 1) (um_sn_modulus entity)\<rparr>)
              in if um_sn_compare_rx e (um_rx_next_reassembly e) (um_rx_next_highest e) \<ge> 0
                 then bindR (skip_delivered (\<lambda>sn. Inr (um_sdu_delivered e sn)) (um_sn_modulus e)
                              (crem (um_rx_next_highest e - um_window_size e + um_sn_modulus e) (um_sn_modulus e)))
                        (\<lambda>n. Inr (e\<lparr>um_rx_next_reassembly := n\<rparr>))
                 else Inr e
            else Inr entity)
           (\<lambda>e. Inr (um_start_t_reassembly (um_stop_t_reassembly e))))"

text \<open>The header of a PDU: an error or a PDU without data is discarded.\<close>

datatype um_parsed =
    Um_Discard
  | Um_Full bytes
  | Um_Segment int int bool bool bytes

definition um_parse_pdu :: "nr_rlc_entity_um_t \<Rightarrow> bytes \<Rightarrow> um_parsed res" where
  "um_parse_pdu entity buffer =
     (let err = (\<lambda>_. Inr Um_Discard)
      in read_field (nr_rlc_pdu_decoder_init buffer) 2 err (\<lambda>si d1.
         let is_first = (si AND 2 = 0); is_last = (si AND 1 = 0)
         in if is_first \<and> is_last
            then if length buffer < 2 then Inr Um_Discard else Inr (Um_Full (drop 1 buffer))
            else
              (if um_sn_field_length entity = 12 then read_field d1 2 err else (\<lambda>f. f 0 d1)) (\<lambda>_ d2.
              read_field d2 (um_sn_field_length entity) err (\<lambda>sn d3.
              (if \<not> is_first then read_field d3 16 err else (\<lambda>f. f 0 d3)) (\<lambda>so d4.
                if \<not> is_first \<and> so = 0 then Inr Um_Discard
                else if length buffer \<le> dec_byte d4 then Inr Um_Discard
                else Inr (Um_Segment sn so is_first is_last (drop (dec_byte d4) buffer)))))))"

definition um_discard_pdu :: "nr_rlc_entity_um_t \<Rightarrow> nat \<Rightarrow> nr_rlc_entity_um_t" where
  "um_discard_pdu entity n =
     entity\<lparr>um_common := with_stats (\<lambda>st. st\<lparr>rxpdu_dd_pkts := rxpdu_dd_pkts st + 1,
                                            rxpdu_dd_bytes := rxpdu_dd_bytes st + of_nat n\<rparr>) (um_common entity)\<rparr>"

definition nr_rlc_entity_um_recv_pdu :: "nr_rlc_entity_um_t \<Rightarrow> bytes \<Rightarrow> nr_rlc_entity_um_t res" where
  "nr_rlc_entity_um_recv_pdu entity0 buffer =
     (let entity = entity0\<lparr>um_common :=
            with_stats (\<lambda>st. st\<lparr>rxpdu_pkts := rxpdu_pkts st + 1,
                               rxpdu_bytes := rxpdu_bytes st + of_nat (length buffer)\<rparr>) (um_common entity0)\<rparr>
      in bindR (um_parse_pdu entity buffer) (\<lambda>r.
         case r of
           Um_Discard \<Rightarrow> Inr (um_discard_pdu entity (length buffer))
         | Um_Full data \<Rightarrow>
             Inr (entity\<lparr>um_common :=
               with_stats (\<lambda>st. st\<lparr>txsdu_pkts := txsdu_pkts st + 1,
                                  txsdu_bytes := txsdu_bytes st + of_nat (length data)\<rparr>)
                 (emit (Deliver_Sdu data) (um_common entity))\<rparr>)
         | Um_Segment sn so is_first is_last data \<Rightarrow>
             if um_rx_size entity + int (length data) > um_rx_maxsize entity
                \<or> um_sn_compare_rx entity sn (um_rx_next_reassembly entity) < 0
             then Inr (um_discard_pdu entity (length buffer))
             else
               let pdu = nr_rlc_new_pdu sn so is_first is_last data;
                   e = entity\<lparr>um_rx_size := um_rx_size entity + int (length data),
                              um_rx_list := nr_rlc_pdu_list_add (um_sn_compare_rx entity) (um_rx_list entity) pdu\<rparr>
               in um_reception_actions e pdu))"

section \<open>Transmission\<close>

text \<open>The header fields of a PDU for a segment.\<close>

definition um_header_fields :: "nr_rlc_entity_um_t \<Rightarrow> nr_rlc_sdu_segment_t \<Rightarrow> int \<Rightarrow> (int \<times> nat) list" where
  "um_header_fields entity sdu sn =
     [(1 - of_bool (seg_is_first sdu), 1), (1 - of_bool (seg_is_last sdu), 1)]
     @ (if seg_is_first sdu \<and> seg_is_last sdu then [(0, 6)]
        else (if um_sn_field_length entity = 12 then [(0, 2)] else []) @ [(sn, um_sn_field_length entity)])
     @ (if \<not> seg_is_first sdu then [(seg_so sdu, 16)] else [])"

definition um_serialize_sdu ::
    "nr_rlc_entity_um_t \<Rightarrow> nr_rlc_sdu_t \<Rightarrow> nr_rlc_sdu_segment_t \<Rightarrow> bytes \<Rightarrow> (int \<times> bytes) res" where
  "um_serialize_sdu entity d sdu buffer =
     bindR (put_fields (nr_rlc_pdu_encoder_init buffer) (um_header_fields entity sdu (sdu_sn d))) (\<lambda>enc.
     bindR (mem_read (sdu_data d) (seg_so sdu) (seg_size sdu)) (\<lambda>bs.
     bindR (mem_write (enc_buffer enc) (enc_byte enc) bs) (\<lambda>buffer'.
       Inr (int (enc_byte enc) + seg_size sdu, buffer'))))"

text \<open>
  The reference count of the SDU is increased first. The result is the two segments, or \<open>None\<close> when
  no byte of data fits.
\<close>

definition um_resegment ::
    "nr_rlc_sdu_segment_t \<Rightarrow> nr_rlc_entity_um_t \<Rightarrow> int
      \<Rightarrow> ((nr_rlc_sdu_segment_t \<times> nr_rlc_sdu_segment_t) option \<times> nr_rlc_entity_um_t) res" where
  "um_resegment sdu entity max_size =
     (let c = um_common entity; h = ent_heap c
      in bindR (deref h (seg_sdu sdu)) (\<lambda>d.
         let h1 = store h (seg_sdu sdu) (d\<lparr>sdu_ref_count := sdu_ref_count d + 1\<rparr>);
             pdu_header_size = um_compute_pdu_header_size entity (sdu\<lparr>seg_is_last := False\<rparr>)
         in if pdu_header_size + 1 > max_size
            then Inr (None, entity\<lparr>um_common := with_heap h1 c\<rparr>)
            else
              let over_size = pdu_header_size + seg_size sdu - max_size;
                  s = sdu\<lparr>seg_size := seg_size sdu - over_size, seg_is_last := False\<rparr>;
                  next = sdu\<lparr>seg_addr := hp_brk h1, seg_size := over_size,
                             seg_so := seg_so s + seg_size s, seg_is_first := False\<rparr>;
                  c' = with_stats (\<lambda>st. st\<lparr>txpdu_segmented := txpdu_segmented st + 1\<rparr>)
                         (with_heap (h1\<lparr>hp_brk := hp_brk h1 + 1\<rparr>) c)
              in Inr (Some (s, next), entity\<lparr>um_common := c'\<rparr>)))"

text \<open>What follows once the segment is unlinked and cut to fit.\<close>

definition um_send_segment ::
    "u64 \<Rightarrow> nr_rlc_entity_um_t \<Rightarrow> nr_rlc_sdu_segment_t \<Rightarrow> bytes \<Rightarrow> (int \<times> bytes \<times> nr_rlc_entity_um_t) res" where
  "um_send_segment now entity sdu buffer =
     (let e = (if \<not> seg_is_first sdu \<and> seg_is_last sdu
               then entity\<lparr>um_tx_next := crem (um_tx_next entity + 1) (um_sn_modulus entity)\<rparr> else entity)
      in bindR (deref (ent_heap (um_common e)) (seg_sdu sdu)) (\<lambda>d.
         bindR (um_serialize_sdu e d sdu buffer) (\<lambda>(ret, buffer').
         let c = record_waited_time now d
                   (with_stats (\<lambda>st. st\<lparr>txpdu_pkts := txpdu_pkts st + 1,
                                       txpdu_bytes := txpdu_bytes st + of_nat (length buffer)\<rparr>) (um_common e))
         in bindR (nr_rlc_free_sdu_segment (ent_heap c) sdu) (\<lambda>(h, _).
              Inr (ret, buffer', e\<lparr>um_tx_size := um_tx_size e - seg_size sdu, um_common := with_heap h c\<rparr>)))))"

definition um_generate_tx_pdu ::
    "u64 \<Rightarrow> nr_rlc_entity_um_t \<Rightarrow> bytes \<Rightarrow> (int \<times> bytes \<times> nr_rlc_entity_um_t) res" where
  "um_generate_tx_pdu now entity buffer =
     (case um_tx_list entity of
        [] \<Rightarrow> Inr (0, buffer, entity)
      | sdu # rest \<Rightarrow>
          let n = int (length buffer);
              pdu_header_size = um_compute_pdu_header_size entity sdu;
              pdu_size = pdu_header_size + seg_size sdu
          in if pdu_header_size + 1 > n then Inr (0, buffer, entity)
             else
               bindR (deref (ent_heap (um_common entity)) (seg_sdu sdu)) (\<lambda>d.
               let h = store (ent_heap (um_common entity)) (seg_sdu sdu) (d\<lparr>sdu_sn := um_tx_next entity\<rparr>);
                   e = entity\<lparr>um_tx_list := rest, um_tx_end := (if rest = [] then None else um_tx_end entity),
                              um_common := add_bs_tx (- pdu_size) (with_heap h (um_common entity))\<rparr>
               in if pdu_size > n
                  then bindR (um_resegment sdu e n) (\<lambda>(r, e1).
                    case r of
                      None \<Rightarrow> Inr (0, buffer, e1)
                    | Some (s, next) \<Rightarrow>
                        let c = add_bs_tx (um_compute_pdu_header_size e1 next + seg_size next)
                                  (with_stats (\<lambda>st. st\<lparr>txpdu_segmented := txpdu_segmented st + 1\<rparr>) (um_common e1));
                            e2 = e1\<lparr>um_tx_list := next # um_tx_list e1,
                                    um_tx_end := (case um_tx_end e1 of None \<Rightarrow> Some (seg_addr next) | Some a \<Rightarrow> Some a),
                                    um_common := c\<rparr>
                        in um_send_segment now e2 s buffer)
                  else um_send_segment now e sdu buffer))"

definition nr_rlc_entity_um_buffer_status :: "nr_rlc_entity_um_t \<Rightarrow> int \<Rightarrow> nr_rlc_entity_buffer_status_t" where
  "nr_rlc_entity_um_buffer_status entity maxsize =
     \<lparr> bs_status_size = 0, bs_tx_size = bs_tx_size (ent_bstatus (um_common entity)), bs_retx_size = 0 \<rparr>"

definition nr_rlc_entity_um_generate_pdu ::
    "u64 \<Rightarrow> nr_rlc_entity_um_t \<Rightarrow> bytes \<Rightarrow> (int \<times> bytes \<times> nr_rlc_entity_um_t) res" where
  "nr_rlc_entity_um_generate_pdu now entity buffer = um_generate_tx_pdu now entity buffer"

definition um_log_rejected :: "nr_rlc_entity_um_t \<Rightarrow> nr_rlc_entity_um_t" where
  "um_log_rejected e =
     (if um_sdu_rejected e \<noteq> 0 \<and> um_t_current e > um_t_log_buffer_full e + 1000
      then e\<lparr>um_sdu_rejected := 0, um_t_log_buffer_full := um_t_current e\<rparr> else e)"

definition nr_rlc_entity_um_recv_sdu ::
    "u64 \<Rightarrow> nr_rlc_entity_um_t \<Rightarrow> bytes \<Rightarrow> int \<Rightarrow> nr_rlc_entity_um_t res" where
  "nr_rlc_entity_um_recv_sdu now entity0 buffer sdu_id =
     (let n = int (length buffer);
          e0 = entity0\<lparr>um_common :=
                 with_stats (\<lambda>st. st\<lparr>rxsdu_pkts := rxsdu_pkts st + 1,
                                    rxsdu_bytes := rxsdu_bytes st + of_nat (length buffer)\<rparr>) (um_common entity0)\<rparr>
      in if n > NR_SDU_MAX then Inl Abort
         else
           let entity = um_log_rejected e0
           in if um_tx_size entity + n > um_tx_maxsize entity
              then Inr (entity\<lparr>um_sdu_rejected := um_sdu_rejected entity + 1,
                               um_common :=
                                 with_stats (\<lambda>st. st\<lparr>rxsdu_dd_pkts := rxsdu_dd_pkts st + 1,
                                                    rxsdu_dd_bytes := rxsdu_dd_bytes st + of_nat (length buffer)\<rparr>)
                                   (um_common entity)\<rparr>)
              else
                let c = um_common entity;
                    (h, sdu) = nr_rlc_new_sdu (ent_heap c) buffer sdu_id
                in bindR (nr_rlc_sdu_segment_list_append (um_tx_list entity) (um_tx_end entity) sdu) (\<lambda>(l, tail).
                   bindR (stamp_arrival now sdu
                           (add_bs_tx (um_compute_pdu_header_size entity sdu + seg_size sdu) (with_heap h c))) (\<lambda>c'.
                     Inr (entity\<lparr>um_tx_size := um_tx_size entity + n, um_tx_list := l,
                                 um_tx_end := tail, um_common := c'\<rparr>))))"

section \<open>Time\<close>

function um_discard_before :: "nr_rlc_entity_um_t \<Rightarrow> nr_rlc_entity_um_t" where
  "um_discard_before entity =
     (case um_rx_list entity of
        [] \<Rightarrow> entity
      | p # next \<Rightarrow>
          if um_sn_compare_rx entity (pdu_sn p) (um_rx_next_reassembly entity) < 0
          then um_discard_before
                 (entity\<lparr>um_rx_list := next,
                         um_common := with_stats (\<lambda>st. st\<lparr>rxpdu_dd_pkts := rxpdu_dd_pkts st + 1,
                            rxpdu_dd_bytes := rxpdu_dd_bytes st + word_of_int (pdu_size p)\<rparr>) (um_common entity)\<rparr>)
          else entity)"
  by pat_completeness auto
termination
  by (relation "measure (\<lambda>e. length (um_rx_list e))") auto

declare um_discard_before.simps [simp del]

definition um_check_t_reassembly :: "nr_rlc_entity_um_t \<Rightarrow> nr_rlc_entity_um_t res" where
  "um_check_t_reassembly entity =
     (if um_t_reassembly_start entity = 0
         \<or> um_t_current entity \<le> um_t_reassembly_start entity + word_of_int (um_t_reassembly entity)
      then Inr entity
      else
        bindR (skip_delivered (\<lambda>sn. Inr (um_sdu_delivered entity sn)) (um_sn_modulus entity) (um_rx_timer_trigger entity))
          (\<lambda>n.
          let e = um_discard_before (entity\<lparr>um_t_reassembly_start := 0, um_rx_next_reassembly := n\<rparr>)
          in Inr (if um_sn_compare_rx e (um_rx_next_highest e)
                       (crem (um_rx_next_reassembly e + 1) (um_sn_modulus e)) > 0
                     \<or> (um_rx_next_highest e = um_rx_next_reassembly e + 1
                        \<and> um_sdu_has_missing_bytes e (um_rx_next_reassembly e))
                  then e\<lparr>um_t_reassembly_start := um_t_current e, um_rx_timer_trigger := um_rx_next_highest e\<rparr>
                  else e)))"

definition nr_rlc_entity_um_set_time :: "nr_rlc_entity_um_t \<Rightarrow> u64 \<Rightarrow> nr_rlc_entity_um_t res" where
  "nr_rlc_entity_um_set_time entity now = um_check_t_reassembly (entity\<lparr>um_t_current := now\<rparr>)"

section \<open>Discard, re-establishment, deletion\<close>

definition nr_rlc_entity_um_discard_sdu :: "nr_rlc_entity_um_t \<Rightarrow> int \<Rightarrow> nr_rlc_entity_um_t res" where
  "nr_rlc_entity_um_discard_sdu entity sdu_id =
     bindR (find_sdu (ent_heap (um_common entity)) sdu_id (um_tx_list entity)) (\<lambda>(before, from).
       case from of
         [] \<Rightarrow> Inr entity
       | cur # behind \<Rightarrow>
           if \<not> seg_is_first cur \<or> \<not> seg_is_last cur then Inr entity
           else
             let tail = (if um_tx_end entity = Some (seg_addr cur)
                         then (if before = [] then None else Some (seg_addr (last before)))
                         else um_tx_end entity);
                 c = add_bs_tx (- (um_compute_pdu_header_size entity cur + seg_size cur)) (um_common entity)
             in bindR (nr_rlc_free_sdu_segment (ent_heap c) cur) (\<lambda>(h, _).
                  Inr (entity\<lparr>um_tx_list := before @ behind, um_tx_end := tail, um_common := with_heap h c\<rparr>)))"

definition um_clear_entity :: "nr_rlc_entity_um_t \<Rightarrow> nr_rlc_entity_um_t res" where
  "um_clear_entity entity =
     bindR (nr_rlc_free_sdu_segment_list (ent_heap (um_common entity)) (um_tx_list entity)) (\<lambda>h.
       Inr (entity\<lparr>um_rx_next_highest := 0, um_rx_next_reassembly := 0, um_rx_timer_trigger := 0,
                   um_tx_next := 0, um_t_current := 0, um_t_log_buffer_full := 0, um_sdu_rejected := 0,
                   um_t_reassembly_start := 0, um_rx_list := [], um_rx_size := 0,
                   um_tx_list := [], um_tx_end := None, um_tx_size := 0,
                   um_common := with_bstatus (\<lambda>b. b\<lparr>bs_tx_size := 0\<rparr>) (with_heap h (um_common entity))\<rparr>))"

definition nr_rlc_entity_um_reestablishment :: "nr_rlc_entity_um_t \<Rightarrow> nr_rlc_entity_um_t res" where
  "nr_rlc_entity_um_reestablishment entity = um_clear_entity entity"

definition nr_rlc_entity_um_delete :: "nr_rlc_entity_um_t \<Rightarrow> sdu_heap res" where
  "nr_rlc_entity_um_delete entity = bindR (um_clear_entity entity) (\<lambda>e. Inr (ent_heap (um_common e)))"

definition nr_rlc_entity_um_available_tx_space :: "nr_rlc_entity_um_t \<Rightarrow> int" where
  "nr_rlc_entity_um_available_tx_space entity = um_tx_maxsize entity - um_tx_size entity"

definition nr_rlc_entity_um_tx_list_occupancy :: "nr_rlc_entity_um_t \<Rightarrow> int" where
  "nr_rlc_entity_um_tx_list_occupancy entity = um_tx_size entity"

end
