(* ===== verification/Rlc_Um_Tx.thy ===== *)
theory Rlc_Um_Tx
  imports Rlc_Um
begin

text \<open>
  The transmitting side of the unacknowledged mode entity: what is written into a PDU is what the
  receiving side reads from it, segmentation keeps the bytes of an SDU, and the accounting of the
  queue (buffer status, size, reference counts) is kept by every operation.
\<close>

section \<open>A PDU is read back as it was written\<close>

definition um_sn_length_ok :: "nr_rlc_entity_um_t \<Rightarrow> bool" where
  "um_sn_length_ok e \<longleftrightarrow> um_sn_field_length e = 6 \<or> um_sn_field_length e = 12"

lemma um_header_width:
  assumes "um_sn_length_ok e"
  shows "fields_width (um_header_fields e s sn) = 8 * nat (um_compute_pdu_header_size e s)"
    and "\<forall>(v, n) \<in> set (um_header_fields e s sn). n \<le> 31"
    and "1 \<le> um_compute_pdu_header_size e s" and "um_compute_pdu_header_size e s \<le> 4"
  using assms by (auto simp: um_sn_length_ok_def um_header_fields_def um_compute_pdu_header_size_def)

definition um_parsed_of :: "nr_rlc_sdu_segment_t \<Rightarrow> int \<Rightarrow> bytes \<Rightarrow> um_parsed" where
  "um_parsed_of s sn bs = (if seg_is_first s \<and> seg_is_last s then Um_Full bs
     else Um_Segment sn (seg_so s) (seg_is_first s) (seg_is_last s) bs)"

lemma um_parse_full:
  assumes "concat (map byte_bits hdr) = fields_bits (um_header_fields e s sn)"
    and "seg_is_first s" and "seg_is_last s" and "length hdr = 1" and "bs \<noteq> []"
  shows "um_parse_pdu e (hdr @ bs) = Inr (Um_Full bs)"
proof -
  let ?d = "nr_rlc_pdu_decoder_init (hdr @ bs)"
  have "dec_bits ?d = field_bits 0 2 @ (field_bits 0 6 @ concat (map byte_bits bs))"
    using assms(1-3) si_bits [of True True] by (simp add: um_header_fields_def)
  then obtain d' where d': "\<forall>g f. read_field ?d 2 g f = (f 0 d' :: um_parsed res)"
    using read_field_ok [of ?d 2 0] by fastforce
  have "2 \<le> length (hdr @ bs)" "drop 1 (hdr @ bs) = bs"
    using assms(4,5) by (cases bs; simp)+
  then show ?thesis
    by (simp add: um_parse_pdu_def d' Let_def)
qed

lemma um_parse_segment:
  assumes len: "um_sn_length_ok e" and hdr: "concat (map byte_bits hdr) = fields_bits (um_header_fields e s sn)"
    and part: "\<not> (seg_is_first s \<and> seg_is_last s)" and k: "int (length hdr) = um_compute_pdu_header_size e s"
    and bs: "bs \<noteq> []" and sn: "is_sn (2 ^ um_sn_field_length e) sn"
    and so: "0 \<le> seg_so s" "seg_so s < 65536" "seg_is_first s \<longleftrightarrow> seg_so s = 0"
  shows "um_parse_pdu e (hdr @ bs) = Inr (Um_Segment sn (seg_so s) (seg_is_first s) (seg_is_last s) bs)"
proof -
  let ?d = "nr_rlc_pdu_decoder_init (hdr @ bs)" and ?data = "concat (map byte_bits bs)"
  define si :: int where "si = 2 * (1 - of_bool (seg_is_first s)) + (1 - of_bool (seg_is_last s))"
  let ?so = "if seg_is_first s then [] else field_bits (seg_so s) 16"
  let ?r = "if um_sn_field_length e = 12 then field_bits 0 2 else []"
  have bits: "dec_bits ?d = field_bits si 2 @ ?r @ field_bits sn (um_sn_field_length e) @ ?so @ ?data"
    using hdr part si_bits [of "seg_is_first s" "seg_is_last s"] by (auto simp: um_header_fields_def si_def)
  have si: "0 \<le> si" "si < 2 ^ 2" by (simp_all add: si_def)
  obtain d1 where d1: "\<forall>g f. read_field ?d 2 g f = (f si d1 :: um_parsed res)" "dec_ok d1"
      "dec_bits d1 = ?r @ field_bits sn (um_sn_field_length e) @ ?so @ ?data"
      "8 * dec_byte d1 + dec_bit d1 = 2"
    using read_field_ok [OF dec_init _ bits si] by (auto simp flip: numeral_2_eq_2)
  obtain d2 where d2: "\<forall>g f. (if um_sn_field_length e = 12 then read_field d1 2 g else (\<lambda>f. f 0 d1)) f = (f 0 d2 :: um_parsed res)"
      "dec_ok d2" "dec_bits d2 = field_bits sn (um_sn_field_length e) @ ?so @ ?data"
      "8 * dec_byte d2 + dec_bit d2 = 2 + length ?r"
  proof (cases "um_sn_field_length e = 12")
    case True
    then show ?thesis using that read_field_ok [of d1 2 0] d1 by auto
  qed (use that d1 in auto)
  obtain d3 where d3: "\<forall>g f. read_field d2 (um_sn_field_length e) g f = (f sn d3 :: um_parsed res)"
      "dec_ok d3" "dec_bits d3 = ?so @ ?data"
      "8 * dec_byte d3 + dec_bit d3 = 2 + length ?r + um_sn_field_length e"
    using read_field_ok [OF d2(2) _ d2(3)] len sn d2(4) by (auto simp: um_sn_length_ok_def is_sn_def)
  obtain d4 where d4: "\<forall>g f. (if \<not> seg_is_first s then read_field d3 16 g else (\<lambda>f. f 0 d3)) f = (f (seg_so s) d4 :: um_parsed res)"
      "dec_ok d4" "8 * dec_byte d4 + dec_bit d4 = 2 + length ?r + um_sn_field_length e + length ?so"
  proof (cases "seg_is_first s")
    case False
    then show ?thesis using that read_field_ok [of d3 16 "seg_so s" ?data] d3 so by auto
  qed (use that d3 so in auto)
  have "dec_byte d4 = length hdr"
    by (rule dec_aligned [OF d4(2)])
      (use d4(3) k len part in \<open>auto simp: um_compute_pdu_header_size_def um_sn_length_ok_def split: if_splits\<close>)
  moreover have flags: "(si AND 2 = 0) = seg_is_first s" "(si AND 1 = 0) = seg_is_last s"
    by (simp_all add: si_def si_flags)
  ultimately show ?thesis
    using so bs
    unfolding um_parse_pdu_def Let_def d1(1) [rule_format] flags if_not_P [OF part]
      d2(1) [rule_format] d3(1) [rule_format] d4(1) [rule_format]
    by simp
qed

lemma um_header_size_cong:
  "um_sn_field_length e' = um_sn_field_length e \<Longrightarrow> um_compute_pdu_header_size e' = um_compute_pdu_header_size e"
  by (rule ext) (simp only: um_compute_pdu_header_size_def)

lemma um_header_fields_cong:
  "um_sn_field_length e' = um_sn_field_length e \<Longrightarrow> um_header_fields e' = um_header_fields e"
  by (intro ext) (simp only: um_header_fields_def)

lemma um_serialize_ok:
  assumes len: "um_sn_length_ok e" and s: "seg_in d s" "sdu_size d = int (length (sdu_data d))"
    and room: "um_compute_pdu_header_size e s + seg_size s \<le> int (length buffer)"
    and sn: "is_sn (2 ^ um_sn_field_length e) (sdu_sn d)" and so: "seg_so s < 65536"
  obtains buf where "um_serialize_sdu e d s buffer = Inr (um_compute_pdu_header_size e s + seg_size s, buf)"
    "length buf = length buffer"
    "\<forall>e'. um_sn_field_length e' = um_sn_field_length e \<and> 0 < seg_size s \<longrightarrow>
       um_parse_pdu e' (take (nat (um_compute_pdu_header_size e s + seg_size s)) buf)
       = Inr (um_parsed_of s (sdu_sn d) (take (nat (seg_size s)) (drop (nat (seg_so s)) (sdu_data d))))"
proof -
  let ?h = "um_compute_pdu_header_size e s" and ?bs = "take (nat (seg_size s)) (drop (nat (seg_so s)) (sdu_data d))"
  note w = um_header_width(1,2) [OF len, of s "sdu_sn d"] um_header_width(3) [OF len, of s]
  have read: "mem_read (sdu_data d) (seg_so s) (seg_size s) = Inr ?bs" and lbs: "int (length ?bs) = seg_size s"
    using s by (auto simp: seg_in_def mem_read_ok)
  have r: "nat ?h + length ?bs \<le> length buffer" using room lbs w(3) by linarith
  obtain enc buf hdr where e: "put_fields (nr_rlc_pdu_encoder_init buffer) (um_header_fields e s (sdu_sn d)) = Inr enc"
    "enc_byte enc = nat ?h" "mem_write (enc_buffer enc) (nat ?h) ?bs = Inr buf" "length buf = length buffer"
    "take (nat ?h + length ?bs) buf = hdr @ ?bs" "length hdr = nat ?h"
    "concat (map byte_bits hdr) = fields_bits (um_header_fields e s (sdu_sn d))"
    by (rule put_fields_wire [OF w(2,1) r])
  have "um_serialize_sdu e d s buffer = Inr (?h + seg_size s, buf)"
    using e(1-3) read w(3) by (simp add: um_serialize_sdu_def)
  moreover have "um_parse_pdu e' (take (nat (?h + seg_size s)) buf) = Inr (um_parsed_of s (sdu_sn d) ?bs)"
    if e': "um_sn_field_length e' = um_sn_field_length e" and pos: "0 < seg_size s" for e'
  proof -
    have same: "um_header_fields e' = um_header_fields e" "um_compute_pdu_header_size e' = um_compute_pdu_header_size e"
      "um_sn_length_ok e'"
      using len by (simp_all add: um_header_fields_cong [OF e'] um_header_size_cong [OF e'] um_sn_length_ok_def e')
    have "nat (?h + seg_size s) = nat ?h + length ?bs" using lbs w(3) pos by linarith
    then have wire: "take (nat (?h + seg_size s)) buf = hdr @ ?bs" using e(5) by simp
    have ne: "?bs \<noteq> []" using lbs pos by auto
    have hs: "int (length hdr) = ?h" using e(6) w(3) by simp
    show ?thesis
    proof (cases "seg_is_first s \<and> seg_is_last s")
      case True
      moreover have "length hdr = 1" using True hs by (simp add: um_compute_pdu_header_size_def)
      ultimately show ?thesis
        unfolding wire um_parsed_of_def using um_parse_full [of hdr e' s "sdu_sn d" ?bs] e(7) same ne by simp
    next
      case False
      then show ?thesis
        unfolding wire um_parsed_of_def
        using um_parse_segment [of e' hdr s "sdu_sn d" ?bs] e(7) same ne hs sn so e' s(1) by (simp add: seg_in_def)
    qed
  qed
  ultimately show thesis using that [of buf] e(4) by simp
qed

section \<open>Invariant\<close>

definition um_pending :: "nr_rlc_entity_um_t \<Rightarrow> int" where
  "um_pending e = sum_list (map (\<lambda>s. um_compute_pdu_header_size e s + seg_size s) (um_tx_list e))"

definition um_tx_ok :: "nr_rlc_entity_um_t \<Rightarrow> bool" where
  "um_tx_ok e \<longleftrightarrow> um_sn_length_ok e \<and> um_sn_modulus e = 2 ^ um_sn_field_length e
     \<and> is_sn (um_sn_modulus e) (um_tx_next e)
     \<and> heap_ok (ent_heap (um_common e)) (um_tx_list e) \<and> ends_ok (um_tx_list e) (um_tx_end e)
     \<and> (\<forall>s \<in> set (um_tx_list e). seg_is_last s \<and> 0 < seg_size s \<and> seg_so s + seg_size s \<le> NR_SDU_MAX)
     \<and> (\<forall>s \<in> set (tl (um_tx_list e)). seg_is_first s)
     \<and> bs_tx_size (ent_bstatus (um_common e)) = um_pending e
     \<and> sum_list (map seg_size (um_tx_list e)) \<le> um_tx_size e \<and> um_tx_size e \<le> um_tx_maxsize e"

definition um_queue :: "nr_rlc_entity_um_t \<Rightarrow> (int \<times> bytes) list" where
  "um_queue e = map (\<lambda>s. (seg_so s, seg_data (ent_heap (um_common e)) s)) (um_tx_list e)"

lemma um_serialize_cong:
  assumes "um_sn_field_length e' = um_sn_field_length e"
  shows "um_serialize_sdu e' d s buffer = um_serialize_sdu e d s buffer"
  by (simp only: um_serialize_sdu_def um_header_fields_cong [OF assms])

lemma um_send_segment_ok:
  fixes e :: nr_rlc_entity_um_t
  defines "h \<equiv> ent_heap (um_common e)"
  assumes len: "um_sn_length_ok e" and hok: "heap_ok h (s # segs)" and d: "hp_sdu h (seg_sdu s) = Some d"
    and room: "um_compute_pdu_header_size e s + seg_size s \<le> int (length buffer)"
    and sn: "is_sn (2 ^ um_sn_field_length e) (sdu_sn d)" and so: "seg_so s < 65536"
  obtains buf c where
    "um_send_segment now e s buffer = Inr (um_compute_pdu_header_size e s + seg_size s, buf,
       e\<lparr>um_tx_next := (if \<not> seg_is_first s \<and> seg_is_last s then crem (um_tx_next e + 1) (um_sn_modulus e) else um_tx_next e),
         um_tx_size := um_tx_size e - seg_size s, um_common := c\<rparr>)"
    "length buf = length buffer" "heap_ok (ent_heap c) segs" "same_data segs h (ent_heap c)"
    "ent_bstatus c = ent_bstatus (um_common e)" "ent_events c = ent_events (um_common e)"
    "\<forall>e'. um_sn_field_length e' = um_sn_field_length e \<and> 0 < seg_size s \<longrightarrow>
       um_parse_pdu e' (take (nat (um_compute_pdu_header_size e s + seg_size s)) buf)
       = Inr (um_parsed_of s (sdu_sn d) (seg_data h s))"
proof -
  have s: "seg_in d s" "sdu_size d = int (length (sdu_data d))"
    using heap_ok_live [OF hok, of s] d by (auto simp: sdu_ok_def)
  have dat: "seg_data h s = take (nat (seg_size s)) (drop (nat (seg_so s)) (sdu_data d))"
    using d by (simp add: seg_data_def)
  obtain buf where buf: "um_serialize_sdu e d s buffer = Inr (um_compute_pdu_header_size e s + seg_size s, buf)"
    "length buf = length buffer"
    "\<forall>e'. um_sn_field_length e' = um_sn_field_length e \<and> 0 < seg_size s \<longrightarrow>
       um_parse_pdu e' (take (nat (um_compute_pdu_header_size e s + seg_size s)) buf)
       = Inr (um_parsed_of s (sdu_sn d) (take (nat (seg_size s)) (drop (nat (seg_so s)) (sdu_data d))))"
    by (rule um_serialize_ok [OF len s room sn so])
  then have ser: "um_serialize_sdu (e\<lparr>um_tx_next := n\<rparr>) d s buffer = Inr (um_compute_pdu_header_size e s + seg_size s, buf)" for n
    by (subst um_serialize_cong [of _ e]) simp_all
  obtain h' f where h': "nr_rlc_free_sdu_segment h s = Inr (h', f)" "heap_ok h' segs"
    using heap_ok_free [OF hok d] by auto
  define c where "c = with_heap h' (record_waited_time now d
    (with_stats (\<lambda>st. st\<lparr>txpdu_pkts := txpdu_pkts st + 1, txpdu_bytes := txpdu_bytes st + of_nat (length buffer)\<rparr>) (um_common e)))"
  have "deref h (seg_sdu s) = Inr d" using d by (simp add: deref_def)
  then have "um_send_segment now e s buffer = Inr (um_compute_pdu_header_size e s + seg_size s, buf,
       e\<lparr>um_tx_next := (if \<not> seg_is_first s \<and> seg_is_last s then crem (um_tx_next e + 1) (um_sn_modulus e) else um_tx_next e),
         um_tx_size := um_tx_size e - seg_size s, um_common := c\<rparr>)"
    using buf(1) ser h'(1) by (auto simp: um_send_segment_def Let_def h_def c_def)
  moreover have "heap_ok (ent_heap c) segs" "same_data segs h (ent_heap c)"
    using h' free_same_data [OF hok h'(1)] by (simp_all add: c_def)
  ultimately show thesis
    using that [of buf c] buf(2,3) dat by (simp add: c_def)
qed

section \<open>Transmission on the abstract queue\<close>

text \<open>
  The queue holds what is left of every SDU: its offset and its bytes. One call takes as much as fits
  from the head. The result has the PDU, the sequence number of the next call and the queue left over: the
  parts of one SDU carry the same sequence number, and only the last part of an SDU that was split moves it
  on. \<open>Um_Dropped\<close> is the branch in which the head is unlinked although no byte of it fits.
\<close>

datatype um_tx_out = Um_Nothing | Um_Pdu um_parsed | Um_Dropped

definition um_hdr :: "nat \<Rightarrow> bool \<Rightarrow> bool \<Rightarrow> int" where
  "um_hdr len f l = 1 + (if \<not> (f \<and> l) \<and> len = 12 then 1 else 0) + (if \<not> f then 2 else 0)"

fun um_tx_spec :: "nat \<Rightarrow> int \<Rightarrow> (int \<times> bytes) list \<Rightarrow> int \<Rightarrow> um_tx_out \<times> int \<times> (int \<times> bytes) list" where
  "um_tx_spec len sn [] n = (Um_Nothing, sn, [])"
| "um_tx_spec len sn ((so, b) # q) n =
     (let hdr = um_hdr len (so = 0) True; k = n - um_hdr len (so = 0) False
      in if hdr + 1 > n then (Um_Nothing, sn, (so, b) # q)
         else if hdr + int (length b) \<le> n
         then if so = 0 then (Um_Pdu (Um_Full b), sn, q)
              else (Um_Pdu (Um_Segment sn so False True b), (sn + 1) mod 2 ^ len, q)
         else if k < 1 then (Um_Dropped, sn, q)
         else (Um_Pdu (Um_Segment sn so (so = 0) False (take (nat k) b)), sn, (so + k, drop (nat k) b) # q))"

lemma um_header_size_hdr:
  "um_compute_pdu_header_size e s = um_hdr (um_sn_field_length e) (seg_is_first s) (seg_is_last s)"
  by (simp add: um_compute_pdu_header_size_def um_hdr_def)

lemma um_resegment_ok:
  fixes e :: nr_rlc_entity_um_t and s :: nr_rlc_sdu_segment_t
  defines "h \<equiv> ent_heap (um_common e)" and "hdr \<equiv> um_compute_pdu_header_size e (s\<lparr>seg_is_last := False\<rparr>)"
  assumes hok: "heap_ok h (s # segs)" and d: "hp_sdu h (seg_sdu s) = Some d"
    and k: "1 \<le> n - hdr" "n - hdr < seg_size s"
  obtains c s1 s2 where "um_resegment s e n = Inr (Some (s1, s2), e\<lparr>um_common := c\<rparr>)"
    "s1 = s\<lparr>seg_size := n - hdr, seg_is_last := False\<rparr>"
    "s2 = s\<lparr>seg_addr := hp_brk h, seg_size := seg_size s - (n - hdr), seg_so := seg_so s + (n - hdr), seg_is_first := False\<rparr>"
    "heap_ok (ent_heap c) (s1 # s2 # segs)" "same_data (s # segs) h (ent_heap c)"
    "hp_sdu (ent_heap c) (seg_sdu s) = Some (d\<lparr>sdu_ref_count := sdu_ref_count d + 1\<rparr>)"
    "ent_bstatus c = ent_bstatus (um_common e)" "ent_events c = ent_events (um_common e)"
proof -
  define h' where "h' = (store h (seg_sdu s) (d\<lparr>sdu_ref_count := sdu_ref_count d + 1\<rparr>))\<lparr>hp_brk := hp_brk h + 1\<rparr>"
  define c where "c = with_stats (\<lambda>st. st\<lparr>txpdu_segmented := txpdu_segmented st + 1\<rparr>) (with_heap h' (um_common e))"
  let ?s1 = "s\<lparr>seg_size := n - hdr, seg_is_last := False\<rparr>"
  let ?s2 = "s\<lparr>seg_addr := hp_brk h, seg_size := seg_size s - (n - hdr), seg_so := seg_so s + (n - hdr), seg_is_first := False\<rparr>"
  have "um_resegment s e n = Inr (Some (?s1, ?s2), e\<lparr>um_common := c\<rparr>)"
    using d k by (simp add: um_resegment_def Let_def deref_def h_def hdr_def c_def h'_def store_def algebra_simps)
  moreover have "heap_ok h' (?s1 # ?s2 # segs)"
    using k by (intro heap_ok_split [OF hok d, of "n - hdr"]) (simp_all add: h'_def store_def)
  moreover have "same_data (s # segs) h h'" "hp_sdu h' (seg_sdu s) = Some (d\<lparr>sdu_ref_count := sdu_ref_count d + 1\<rparr>)"
    using d by (auto simp: same_data_def h'_def store_def)
  ultimately show thesis using that [of ?s1 ?s2 c] by (simp add: c_def)
qed

lemma um_assign_sn_ok:
  fixes sn :: int
  assumes hok: "heap_ok h segs" and d: "hp_sdu h a = Some d"
  defines "h' \<equiv> store h a (d\<lparr>sdu_sn := sn\<rparr>)"
  shows "heap_ok h' segs" and "same_data segs h h'" and "hp_sdu h' a = Some (d\<lparr>sdu_sn := sn\<rparr>)"
  using heap_ok_store(1) [OF hok d, of "d\<lparr>sdu_sn := sn\<rparr>"] d by (auto simp: h'_def same_data_def store_def)

definition um_tx_result :: "nr_rlc_entity_um_t \<Rightarrow> bytes \<Rightarrow> um_tx_out \<times> int \<times> (int \<times> bytes) list \<Rightarrow> (int \<times> bytes \<times> nr_rlc_entity_um_t) \<Rightarrow> bool" where
  "um_tx_result e buffer spec r \<longleftrightarrow> (case r of (ret, buf, e') \<Rightarrow>
     length buf = length buffer \<and> um_tx_next e' = fst (snd spec) \<and> um_queue e' = snd (snd spec)
     \<and> um_sn_field_length e' = um_sn_field_length e
     \<and> ent_events (um_common e') = ent_events (um_common e)
     \<and> (case fst spec of
          Um_Nothing \<Rightarrow> ret = 0 \<and> buf = buffer \<and> e' = e
        | Um_Dropped \<Rightarrow> ret = 0 \<and> buf = buffer
        | Um_Pdu p \<Rightarrow> 0 < ret \<and> ret \<le> int (length buffer) \<and> um_tx_ok e'
            \<and> (\<forall>peer. um_sn_field_length peer = um_sn_field_length e \<longrightarrow>
                 um_parse_pdu peer (take (nat ret) buf) = Inr p)))"

lemma um_tx_okD:
  assumes "um_tx_ok e"
  shows "um_sn_length_ok e" "um_sn_modulus e = 2 ^ um_sn_field_length e" "is_sn (um_sn_modulus e) (um_tx_next e)"
    "heap_ok (ent_heap (um_common e)) (um_tx_list e)" "ends_ok (um_tx_list e) (um_tx_end e)"
    "\<forall>s \<in> set (um_tx_list e). seg_is_last s \<and> 0 < seg_size s \<and> seg_so s + seg_size s \<le> NR_SDU_MAX"
    "\<forall>s \<in> set (tl (um_tx_list e)). seg_is_first s"
    "bs_tx_size (ent_bstatus (um_common e)) = um_pending e"
    "sum_list (map seg_size (um_tx_list e)) \<le> um_tx_size e" "um_tx_size e \<le> um_tx_maxsize e"
  using assms unfolding um_tx_ok_def by blast+

text \<open>The state after the head was unlinked, with its sequence number assigned.\<close>

definition um_unlinked :: "nr_rlc_entity_um_t \<Rightarrow> nr_rlc_sdu_t \<Rightarrow> nr_rlc_sdu_segment_t \<Rightarrow> nr_rlc_sdu_segment_t list \<Rightarrow> nr_rlc_entity_um_t" where
  "um_unlinked e d s rest =
     e\<lparr>um_tx_list := rest, um_tx_end := (if rest = [] then None else um_tx_end e),
       um_common := add_bs_tx (- (um_compute_pdu_header_size e s + seg_size s))
         (with_heap (store (ent_heap (um_common e)) (seg_sdu s) (d\<lparr>sdu_sn := um_tx_next e\<rparr>)) (um_common e))\<rparr>"

lemma um_unlinked_simps [simp]:
  "um_sn_field_length (um_unlinked e d s rest) = um_sn_field_length e"
  "um_sn_modulus (um_unlinked e d s rest) = um_sn_modulus e"
  "um_tx_next (um_unlinked e d s rest) = um_tx_next e"
  "um_tx_list (um_unlinked e d s rest) = rest"
  "um_tx_end (um_unlinked e d s rest) = (if rest = [] then None else um_tx_end e)"
  "um_tx_size (um_unlinked e d s rest) = um_tx_size e"
  "um_tx_maxsize (um_unlinked e d s rest) = um_tx_maxsize e"
  "ent_heap (um_common (um_unlinked e d s rest)) = store (ent_heap (um_common e)) (seg_sdu s) (d\<lparr>sdu_sn := um_tx_next e\<rparr>)"
  "ent_events (um_common (um_unlinked e d s rest)) = ent_events (um_common e)"
  "bs_tx_size (ent_bstatus (um_common (um_unlinked e d s rest)))
     = bs_tx_size (ent_bstatus (um_common e)) - (um_compute_pdu_header_size e s + seg_size s)"
  by (simp_all add: um_unlinked_def)

lemma um_generate_whole:
  assumes ok: "um_tx_ok e" and l: "um_tx_list e = s # rest" and d: "hp_sdu (ent_heap (um_common e)) (seg_sdu s) = Some d"
    and fits: "um_compute_pdu_header_size e s + seg_size s \<le> int (length buffer)"
    and p: "p = (if seg_so s = 0 then Um_Full b else Um_Segment (um_tx_next e) (seg_so s) False True b)"
    and b: "b = seg_data (ent_heap (um_common e)) s"
    and q: "q = map (\<lambda>s. (seg_so s, seg_data (ent_heap (um_common e)) s)) rest"
    and sn': "sn' = (if seg_so s = 0 then um_tx_next e else (um_tx_next e + 1) mod 2 ^ um_sn_field_length e)"
  shows "\<exists>r. um_send_segment now (um_unlinked e d s rest) s buffer = Inr r \<and> um_tx_result e buffer (Um_Pdu p, sn', q) r"
proof -
  let ?e = "um_unlinked e d s rest" and ?h = "ent_heap (um_common e)"
  note D = um_tx_okD [OF ok]
  note sn = um_assign_sn_ok [OF D(4) d, of "um_tx_next e", unfolded l]
  have s: "seg_is_last s" "0 < seg_size s" "seg_so s < 65536" "seg_is_first s \<longleftrightarrow> seg_so s = 0"
    using D(6) l heap_ok_live [OF D(4), of s] by (auto simp: seg_in_def NR_SDU_MAX_def)
  have hd: "um_compute_pdu_header_size ?e = um_compute_pdu_header_size e"
    by (rule um_header_size_cong) simp
  obtain buf c where r: "um_send_segment now ?e s buffer = Inr (um_compute_pdu_header_size ?e s + seg_size s, buf,
       ?e\<lparr>um_tx_next := (if \<not> seg_is_first s \<and> seg_is_last s then crem (um_tx_next ?e + 1) (um_sn_modulus ?e) else um_tx_next ?e),
         um_tx_size := um_tx_size ?e - seg_size s, um_common := c\<rparr>)"
    "length buf = length buffer" "heap_ok (ent_heap c) rest" "same_data rest (ent_heap (um_common ?e)) (ent_heap c)"
    "ent_bstatus c = ent_bstatus (um_common ?e)" "ent_events c = ent_events (um_common ?e)"
    "\<forall>e'. um_sn_field_length e' = um_sn_field_length ?e \<and> 0 < seg_size s \<longrightarrow>
       um_parse_pdu e' (take (nat (um_compute_pdu_header_size ?e s + seg_size s)) buf)
       = Inr (um_parsed_of s (sdu_sn (d\<lparr>sdu_sn := um_tx_next e\<rparr>)) (seg_data (ent_heap (um_common ?e)) s))"
    by (rule um_send_segment_ok [of ?e s rest "d\<lparr>sdu_sn := um_tx_next e\<rparr>" buffer now])
      (use D(1,2,3) sn fits s in \<open>simp_all add: um_sn_length_ok_def hd\<close>)
  have same: "same_data rest ?h (ent_heap c)"
    using same_data_trans [OF same_data_mono [OF sn(2)]] r(4) by fastforce
  have "seg_data (ent_heap (um_common ?e)) s = b"
    using same_data_seg_data [OF sn(2), of s] by (simp add: b)
  then have parsed: "um_parsed_of s (um_tx_next e) (seg_data (ent_heap (um_common ?e)) s) = p"
    using s by (simp add: um_parsed_of_def p)
  have queue: "map (\<lambda>s. (seg_so s, seg_data (ent_heap c) s)) rest = q"
    using same_data_seg_data [OF same] by (simp add: q)
  have "ends_ok rest (if rest = [] then None else um_tx_end e)"
    using D(5) l by (simp add: ends_ok_def)
  moreover have "is_sn (um_sn_modulus e) (crem (um_tx_next e + 1) (um_sn_modulus e))"
    using D(3) by (rule crem_succ_sn)
  moreover have "crem (um_tx_next e + 1) (um_sn_modulus e) = (um_tx_next e + 1) mod 2 ^ um_sn_field_length e"
    using crem_succ [OF D(3)] D(2) by simp
  ultimately show ?thesis
    using r parsed queue s sn' D l fits hd um_header_width(3) [OF D(1), of s]
    by (auto simp: um_tx_result_def um_tx_ok_def um_pending_def um_queue_def um_sn_length_ok_def
        um_header_size_hdr split: if_splits dest: in_tlD)
qed

text \<open>The state after the rest of a segmented SDU was put back at the head of the queue.\<close>

definition um_relinked :: "nr_rlc_entity_um_t \<Rightarrow> nr_rlc_entity_t \<Rightarrow> nr_rlc_sdu_segment_t \<Rightarrow> nr_rlc_entity_um_t" where
  "um_relinked e c next =
     e\<lparr>um_tx_list := next # um_tx_list e,
       um_tx_end := (case um_tx_end e of None \<Rightarrow> Some (seg_addr next) | Some a \<Rightarrow> Some a),
       um_common := add_bs_tx (um_compute_pdu_header_size e next + seg_size next)
         (with_stats (\<lambda>st. st\<lparr>txpdu_segmented := txpdu_segmented st + 1\<rparr>) c)\<rparr>"

lemma um_relinked_simps [simp]:
  "um_sn_field_length (um_relinked e c s) = um_sn_field_length e"
  "um_sn_modulus (um_relinked e c s) = um_sn_modulus e" "um_tx_next (um_relinked e c s) = um_tx_next e"
  "um_tx_list (um_relinked e c s) = s # um_tx_list e"
  "um_tx_end (um_relinked e c s) = (case um_tx_end e of None \<Rightarrow> Some (seg_addr s) | Some a \<Rightarrow> Some a)"
  "um_tx_size (um_relinked e c s) = um_tx_size e" "um_tx_maxsize (um_relinked e c s) = um_tx_maxsize e"
  "ent_heap (um_common (um_relinked e c s)) = ent_heap c"
  "ent_events (um_common (um_relinked e c s)) = ent_events c"
  "bs_tx_size (ent_bstatus (um_common (um_relinked e c s)))
     = bs_tx_size (ent_bstatus c) + (um_compute_pdu_header_size e s + seg_size s)"
  by (simp_all add: um_relinked_def)

lemma um_generate_part:
  assumes ok: "um_tx_ok e" and l: "um_tx_list e = s # rest" and d: "hp_sdu (ent_heap (um_common e)) (seg_sdu s) = Some d"
    and k: "k = int (length buffer) - um_hdr (um_sn_field_length e) (seg_so s = 0) False" "1 \<le> k" "k < seg_size s"
    and p: "p = Um_Segment (um_tx_next e) (seg_so s) (seg_so s = 0) False (take (nat k) b)"
    and b: "b = seg_data (ent_heap (um_common e)) s"
    and q: "q = (seg_so s + k, drop (nat k) b) # map (\<lambda>s. (seg_so s, seg_data (ent_heap (um_common e)) s)) rest"
  obtains c s1 s2 r where "um_resegment s (um_unlinked e d s rest) (int (length buffer))
        = Inr (Some (s1, s2), (um_unlinked e d s rest)\<lparr>um_common := c\<rparr>)"
    "um_send_segment now (um_relinked (um_unlinked e d s rest) c s2) s1 buffer = Inr r" "um_tx_result e buffer (Um_Pdu p, um_tx_next e, q) r"
proof -
  let ?e = "um_unlinked e d s rest" and ?h = "ent_heap (um_common e)" and ?n = "int (length buffer)"
  note D = um_tx_okD [OF ok]
  note sn = um_assign_sn_ok [OF D(4) d, of "um_tx_next e", unfolded l]
  have s: "seg_is_last s" "seg_so s + seg_size s \<le> NR_SDU_MAX" "seg_is_first s \<longleftrightarrow> seg_so s = 0" "0 \<le> seg_so s"
    using D(6) l heap_ok_live [OF D(4), of s] by (auto simp: seg_in_def)
  have hdr: "um_compute_pdu_header_size ?e (s\<lparr>seg_is_last := False\<rparr>) = um_hdr (um_sn_field_length e) (seg_so s = 0) False"
    using s by (simp add: um_header_size_hdr)
  obtain c s1 s2 where r: "um_resegment s ?e ?n = Inr (Some (s1, s2), ?e\<lparr>um_common := c\<rparr>)"
    "s1 = s\<lparr>seg_size := k, seg_is_last := False\<rparr>"
    "s2 = s\<lparr>seg_addr := hp_brk (ent_heap (um_common ?e)), seg_size := seg_size s - k, seg_so := seg_so s + k, seg_is_first := False\<rparr>"
    "heap_ok (ent_heap c) (s1 # s2 # rest)" "same_data (s # rest) (ent_heap (um_common ?e)) (ent_heap c)"
    "hp_sdu (ent_heap c) (seg_sdu s) = Some (d\<lparr>sdu_sn := um_tx_next e, sdu_ref_count := sdu_ref_count d + 1\<rparr>)"
    "ent_bstatus c = ent_bstatus (um_common ?e)" "ent_events c = ent_events (um_common ?e)"
    by (rule um_resegment_ok [of ?e s rest "d\<lparr>sdu_sn := um_tx_next e\<rparr>" ?n])
      (use sn k hdr in \<open>simp_all add: store_def\<close>)
  let ?f = "um_relinked ?e c s2"
  have hf: "um_compute_pdu_header_size ?f s1 + seg_size s1 = ?n"
    using r(2) s k by (simp add: um_header_size_hdr)
  obtain buf c' where t: "um_send_segment now ?f s1 buffer = Inr (?n, buf,
       ?f\<lparr>um_tx_next := (if \<not> seg_is_first s1 \<and> seg_is_last s1 then crem (um_tx_next ?f + 1) (um_sn_modulus ?f) else um_tx_next ?f),
         um_tx_size := um_tx_size ?f - seg_size s1, um_common := c'\<rparr>)"
    "length buf = length buffer" "heap_ok (ent_heap c') (s2 # rest)" "same_data (s2 # rest) (ent_heap c) (ent_heap c')"
    "ent_bstatus c' = ent_bstatus (um_common ?f)" "ent_events c' = ent_events (um_common ?f)"
    "\<forall>e'. um_sn_field_length e' = um_sn_field_length ?f \<and> 0 < seg_size s1 \<longrightarrow>
       um_parse_pdu e' (take (nat ?n) buf) = Inr (um_parsed_of s1 (um_tx_next e) (seg_data (ent_heap c) s1))"
    by (rule um_send_segment_ok [of ?f s1 "s2 # rest" "d\<lparr>sdu_sn := um_tx_next e, sdu_ref_count := sdu_ref_count d + 1\<rparr>" buffer now])
      (use D(1,2,3) r(2,4,6) s k hf in \<open>simp_all add: um_sn_length_ok_def NR_SDU_MAX_def\<close>)
  have same: "same_data (s # rest) ?h (ent_heap c)"
    using same_data_trans [OF sn(2)] r(5) by simp
  have d1: "seg_data (ent_heap c) s1 = take (nat k) b"
    using r(2,6) d b k(2,3) by (simp add: seg_data_def min_def)
  have "seg_data (ent_heap c) s2 = drop (nat k) b"
    using r(3,6) d b k(2,3) s by (simp add: seg_data_def drop_take nat_diff_distrib nat_add_distrib add.commute)
  moreover have "map (seg_data (ent_heap c')) (s2 # rest) = map (seg_data (ent_heap c)) (s2 # rest)"
    by (rule map_seg_data [OF t(4)]) simp
  moreover have "map (seg_data (ent_heap c)) rest = map (seg_data ?h) rest"
    by (rule map_seg_data [OF same]) auto
  ultimately have "map (\<lambda>s. (seg_so s, seg_data (ent_heap c') s)) (s2 # rest) = q"
    using r(3) by (simp add: q)
  moreover have "ends_ok (s2 # rest) (case (if rest = [] then None else um_tx_end e) of None \<Rightarrow> Some (seg_addr s2) | Some a \<Rightarrow> Some a)"
    using D(5) l by (auto simp: ends_ok_def)
  moreover have s2: "seg_is_last s2" "\<not> seg_is_first s2" "0 < seg_size s2" "seg_so s2 + seg_size s2 \<le> NR_SDU_MAX"
      "seg_size s2 = seg_size s - k"
    and s1: "seg_is_first s1 = (seg_so s = 0)" "\<not> seg_is_last s1" "seg_size s1 = k" "seg_so s1 = seg_so s"
    using r(2,3) s k(2,3) by simp_all
  ultimately have "um_tx_result e buffer (Um_Pdu p, um_tx_next e, q) (?n, buf,
       ?f\<lparr>um_tx_next := um_tx_next e, um_tx_size := um_tx_size e - k, um_common := c'\<rparr>)"
    using r(7,8) t(2,3,5-7) d1 D l k(2,3) p hf um_header_width(3) [OF D(1), of s1]
    by (auto simp: um_tx_result_def um_tx_ok_def um_pending_def um_queue_def um_sn_length_ok_def um_parsed_of_def
        um_header_size_hdr dest: in_tlD)
  then show thesis
    using that [OF r(1)] t(1) s1 by simp
qed

lemma um_generate_unfold:
  assumes "um_tx_list e = s # rest" and "hp_sdu (ent_heap (um_common e)) (seg_sdu s) = Some d"
    and "\<not> um_compute_pdu_header_size e s + 1 > int (length buffer)"
  shows "nr_rlc_entity_um_generate_pdu now e buffer =
     (if um_compute_pdu_header_size e s + seg_size s > int (length buffer)
      then bindR (um_resegment s (um_unlinked e d s rest) (int (length buffer))) (\<lambda>(r, e1).
             case r of None \<Rightarrow> Inr (0, buffer, e1)
             | Some (s1, s2) \<Rightarrow> um_send_segment now (um_relinked e1 (um_common e1) s2) s1 buffer)
      else um_send_segment now (um_unlinked e d s rest) s buffer)"
  unfolding nr_rlc_entity_um_generate_pdu_def um_generate_tx_pdu_def Let_def um_unlinked_def um_relinked_def
  using assms by (simp add: deref_def)

lemma um_relinked_common [simp]: "um_relinked (e\<lparr>um_common := c\<rparr>) c s = um_relinked e c s"
  by (simp add: um_relinked_def um_header_size_hdr)

lemma um_resegment_none:
  assumes "hp_sdu (ent_heap (um_common e)) (seg_sdu s) = Some d"
    and "um_compute_pdu_header_size e (s\<lparr>seg_is_last := False\<rparr>) + 1 > n"
  shows "um_resegment s e n = Inr (None, e\<lparr>um_common := with_heap (store (ent_heap (um_common e)) (seg_sdu s)
           (d\<lparr>sdu_ref_count := sdu_ref_count d + 1\<rparr>)) (um_common e)\<rparr>)"
  using assms by (simp add: um_resegment_def deref_def Let_def)

lemma um_generate_dropped:
  assumes ok: "um_tx_ok e" and l: "um_tx_list e = s # rest"
    and room: "um_compute_pdu_header_size e s + 1 \<le> int (length buffer)"
      "um_compute_pdu_header_size e s + seg_size s > int (length buffer)"
      "int (length buffer) - um_hdr (um_sn_field_length e) (seg_so s = 0) False < 1"
  obtains e' where "nr_rlc_entity_um_generate_pdu now e buffer = Inr (0, buffer, e')"
    "um_queue e' = map (\<lambda>s. (seg_so s, seg_data (ent_heap (um_common e)) s)) rest"
    "um_tx_list e' = rest" "um_tx_size e' = um_tx_size e" "um_tx_next e' = um_tx_next e" "um_sn_field_length e' = um_sn_field_length e"
    "ent_events (um_common e') = ent_events (um_common e)"
    "hp_sdu (ent_heap (um_common e')) (seg_sdu s) \<noteq> None"
proof -
  let ?h = "ent_heap (um_common e)"
  obtain d where d: "hp_sdu ?h (seg_sdu s) = Some d"
    using heap_ok_live [OF um_tx_okD(4) [OF ok], of s] l by auto
  note sn = um_assign_sn_ok [OF um_tx_okD(4) [OF ok] d, of "um_tx_next e", unfolded l]
  have "seg_is_first s \<longleftrightarrow> seg_so s = 0"
    using heap_ok_live [OF um_tx_okD(4) [OF ok], of s] l by (auto simp: seg_in_def)
  then have "um_compute_pdu_header_size (um_unlinked e d s rest) (s\<lparr>seg_is_last := False\<rparr>) + 1 > int (length buffer)"
    using room(3) by (simp add: um_header_size_hdr)
  note none = um_resegment_none [OF _ this, of "d\<lparr>sdu_sn := um_tx_next e\<rparr>"]
  define c where "c = with_heap (store (ent_heap (um_common (um_unlinked e d s rest))) (seg_sdu s)
    (d\<lparr>sdu_sn := um_tx_next e, sdu_ref_count := sdu_ref_count d + 1\<rparr>)) (um_common (um_unlinked e d s rest))"
  have "nr_rlc_entity_um_generate_pdu now e buffer = Inr (0, buffer, (um_unlinked e d s rest)\<lparr>um_common := c\<rparr>)"
    using um_generate_unfold [OF l d, of buffer now] room none sn(3) by (simp add: c_def)
  moreover have "same_data rest ?h (ent_heap c)"
    using d by (auto simp: c_def same_data_def store_def)
  then have "map (seg_data (ent_heap c)) rest = map (seg_data ?h) rest" by (rule map_seg_data) simp
  ultimately show thesis
    using that [of "(um_unlinked e d s rest)\<lparr>um_common := c\<rparr>"] by (simp add: um_queue_def c_def store_def)
qed

lemma um_generate_pdu_ok:
  assumes ok: "um_tx_ok e"
  shows "\<exists>r. nr_rlc_entity_um_generate_pdu now e buffer = Inr r
     \<and> um_tx_result e buffer (um_tx_spec (um_sn_field_length e) (um_tx_next e) (um_queue e) (int (length buffer))) r"
proof (cases "um_tx_list e")
  case Nil
  then show ?thesis
    by (simp add: nr_rlc_entity_um_generate_pdu_def um_generate_tx_pdu_def um_tx_result_def um_queue_def)
next
  case (Cons s rest)
  let ?h = "ent_heap (um_common e)" and ?n = "int (length buffer)" and ?len = "um_sn_field_length e"
  note D = um_tx_okD [OF ok]
  obtain d where d: "hp_sdu ?h (seg_sdu s) = Some d" and so: "seg_is_first s \<longleftrightarrow> seg_so s = 0"
    using heap_ok_live [OF D(4), of s] Cons by (auto simp: seg_in_def)
  have last: "seg_is_last s" using D(6) Cons by simp
  have hdr: "um_compute_pdu_header_size e s = um_hdr ?len (seg_so s = 0) True"
    by (simp add: um_header_size_hdr so last)
  have len: "int (length (seg_data ?h s)) = seg_size s"
    using length_seg_data [OF D(4), of s] Cons by simp
  define q where "q = map (\<lambda>s. (seg_so s, seg_data ?h s)) rest"
  have queue: "um_queue e = (seg_so s, seg_data ?h s) # q" by (simp add: um_queue_def Cons q_def)
  define k where "k = ?n - um_hdr ?len (seg_so s = 0) False"
  show ?thesis
  proof (cases "um_compute_pdu_header_size e s + 1 > ?n")
    case True
    then show ?thesis
      using Cons queue hdr len
      by (simp add: nr_rlc_entity_um_generate_pdu_def um_generate_tx_pdu_def um_tx_result_def Let_def)
  next
    case room: False
    note unfold = um_generate_unfold [OF Cons d room, of now]
    show ?thesis
    proof (cases "um_compute_pdu_header_size e s + seg_size s \<le> ?n")
      case True
      then show ?thesis
        using um_generate_whole [OF ok Cons d True refl refl q_def refl, of now] unfold room queue hdr len
        by (auto simp: Let_def)
    next
      case big: False
      show ?thesis
      proof (cases "k < 1")
        case True
        then obtain e' where "nr_rlc_entity_um_generate_pdu now e buffer = Inr (0, buffer, e')" "um_queue e' = q"
          "um_tx_next e' = um_tx_next e" "um_sn_field_length e' = ?len" "ent_events (um_common e') = ent_events (um_common e)"
          using um_generate_dropped [OF ok Cons, of buffer now] room big unfolding q_def k_def by auto
        then show ?thesis
          using True room big queue hdr len by (simp add: um_tx_result_def Let_def k_def)
      next
        case False
        have kk: "1 \<le> k" "k < seg_size s" using False big hdr by (simp_all add: k_def um_hdr_def split: if_splits)
        obtain c s1 s2 r where "um_resegment s (um_unlinked e d s rest) ?n
              = Inr (Some (s1, s2), (um_unlinked e d s rest)\<lparr>um_common := c\<rparr>)"
            "um_send_segment now (um_relinked (um_unlinked e d s rest) c s2) s1 buffer = Inr r"
            "um_tx_result e buffer (Um_Pdu (Um_Segment (um_tx_next e) (seg_so s) (seg_so s = 0) False (take (nat k) (seg_data ?h s))),
               um_tx_next e, (seg_so s + k, drop (nat k) (seg_data ?h s)) # q) r"
          by (rule um_generate_part [OF ok Cons d k_def kk refl refl refl, folded q_def])
        then show ?thesis
          using unfold room big queue hdr len False by (simp add: Let_def k_def)
      qed
    qed
  qed
qed

section \<open>The other operations of the transmitting side\<close>

lemma um_log_rejected_simps [simp]:
  "um_common (um_log_rejected e) = um_common e" "um_tx_list (um_log_rejected e) = um_tx_list e"
  "um_tx_end (um_log_rejected e) = um_tx_end e" "um_tx_size (um_log_rejected e) = um_tx_size e"
  "um_tx_maxsize (um_log_rejected e) = um_tx_maxsize e" "um_tx_next (um_log_rejected e) = um_tx_next e"
  "um_sn_modulus (um_log_rejected e) = um_sn_modulus e"
  "um_sn_field_length (um_log_rejected e) = um_sn_field_length e"
  by (simp_all add: um_log_rejected_def)

lemma um_recv_sdu_ok:
  assumes ok: "um_tx_ok e" and size: "0 < length b" "int (length b) \<le> NR_SDU_MAX"
  shows "\<exists>e'. nr_rlc_entity_um_recv_sdu now e b i = Inr e' \<and> um_tx_ok e'
     \<and> um_queue e' = (if um_tx_size e + int (length b) > um_tx_maxsize e then um_queue e else um_queue e @ [(0, b)])
     \<and> um_tx_size e' = (if um_tx_size e + int (length b) > um_tx_maxsize e then um_tx_size e else um_tx_size e + int (length b))
     \<and> um_sn_field_length e' = um_sn_field_length e
     \<and> ent_events (um_common e') = ent_events (um_common e)"
proof (cases "um_tx_size e + int (length b) > um_tx_maxsize e")
  case True
  with um_tx_okD [OF ok] size show ?thesis
    by (simp add: nr_rlc_entity_um_recv_sdu_def Let_def um_tx_ok_def um_queue_def um_pending_def um_header_size_hdr
        um_sn_length_ok_def)
next
  case False
  note D = um_tx_okD [OF ok]
  obtain h s where new: "nr_rlc_new_sdu (ent_heap (um_common e)) b i = (h, s)" by fastforce
  note hok = heap_ok_new_sdu [OF D(4) new] and dat = new_sdu_data [OF D(4) new]
  define c where "c = add_bs_tx (um_compute_pdu_header_size e s + seg_size s) (with_heap h
    (with_stats (\<lambda>st. st\<lparr>rxsdu_pkts := rxsdu_pkts st + 1, rxsdu_bytes := rxsdu_bytes st + of_nat (length b)\<rparr>) (um_common e)))"
  obtain h' where stamp: "stamp_arrival now s c = Inr (with_heap h' c)" and hok': "heap_ok h' (s # um_tx_list e)"
    and same: "\<forall>a. map_option sdu_data (hp_sdu h' a) = map_option sdu_data (hp_sdu h a)"
    by (rule stamp_arrival_ok [of c "s # um_tx_list e" s now]) (use hok in \<open>simp_all add: c_def\<close>)
  have same': "same_data (s # um_tx_list e) h h'"
    using same by (simp add: same_data_def)
  have perm: "heap_ok h' (um_tx_list e @ [s])"
    using hok' by (subst heap_ok_perm [of _ "s # um_tx_list e"]) simp_all
  have "map (seg_data h') (um_tx_list e @ [s]) = map (seg_data (ent_heap (um_common e))) (um_tx_list e) @ [b]"
    using dat(2) map_seg_data [OF same', of "um_tx_list e @ [s]"] map_seg_data [OF dat(1), of "um_tx_list e"]
    by (simp add: subset_iff del: map_eq_conv)
  then have queue: "map (\<lambda>s. (seg_so s, seg_data h' s)) (um_tx_list e @ [s]) = um_queue e @ [(0, b)]"
    using dat(6) by (simp add: um_queue_def)
  have "distinct (map seg_addr (um_tx_list e))"
    using D(4) by (simp add: heap_ok_def)
  then have app: "nr_rlc_sdu_segment_list_append (um_tx_list e) (um_tx_end e) s = Inr (um_tx_list e @ [s], Some (seg_addr s))"
    by (rule list_append_ok [OF D(5)])
  have hs: "um_compute_pdu_header_size (um_log_rejected e') = um_compute_pdu_header_size e'" for e'
    by (rule um_header_size_cong) simp
  define e' where "e' = (um_log_rejected (e\<lparr>um_common := with_stats (\<lambda>st. st\<lparr>rxsdu_pkts := rxsdu_pkts st + 1,
       rxsdu_bytes := rxsdu_bytes st + of_nat (length b)\<rparr>) (um_common e)\<rparr>))
     \<lparr>um_tx_size := um_tx_size e + int (length b), um_tx_list := um_tx_list e @ [s], um_tx_end := Some (seg_addr s),
      um_common := with_heap h' c\<rparr>"
  have "nr_rlc_entity_um_recv_sdu now e b i = Inr e'"
    using False size new app stamp
    by (simp add: nr_rlc_entity_um_recv_sdu_def Let_def c_def hs e'_def um_header_size_hdr)
  moreover have "um_tx_ok e'"
    using D perm size dat(3-6) False
    by (auto simp: um_tx_ok_def e'_def c_def um_pending_def um_header_size_hdr um_sn_length_ok_def tl_append
        split: list.splits)
  ultimately show ?thesis
    using False queue by (simp add: um_queue_def e'_def c_def)
qed

lemma um_discard_sdu_ok:
  assumes ok: "um_tx_ok e"
  obtains e' where "nr_rlc_entity_um_discard_sdu e i = Inr e'" "um_tx_ok e'" "um_tx_size e' = um_tx_size e"
    "um_sn_field_length e' = um_sn_field_length e"
    "e' = e \<or> (\<exists>before cur behind. um_tx_list e = before @ cur # behind \<and> um_tx_list e' = before @ behind
       \<and> seg_is_first cur \<and> seg_is_last cur
       \<and> um_queue e = map (\<lambda>s. (seg_so s, seg_data (ent_heap (um_common e)) s)) before
           @ (0, seg_data (ent_heap (um_common e)) cur) # map (\<lambda>s. (seg_so s, seg_data (ent_heap (um_common e)) s)) behind
       \<and> um_queue e' = map (\<lambda>s. (seg_so s, seg_data (ent_heap (um_common e)) s)) (before @ behind))"
proof -
  let ?h = "ent_heap (um_common e)"
  note D = um_tx_okD [OF ok]
  obtain before "from" where f: "find_sdu ?h i (um_tx_list e) = Inr (before, from)" "um_tx_list e = before @ from"
    using find_sdu_ok [OF D(4), of "um_tx_list e" i] by auto
  show thesis
  proof (cases "\<exists>cur behind. from = cur # behind \<and> seg_is_first cur \<and> seg_is_last cur")
    case False
    then have "nr_rlc_entity_um_discard_sdu e i = Inr e"
      using f(1) by (auto simp: nr_rlc_entity_um_discard_sdu_def split: list.splits)
    then show ?thesis using ok by (intro that [of e]) simp_all
  next
    case True
    then obtain cur behind where cur: "from = cur # behind" "seg_is_first cur" "seg_is_last cur" by blast
    have l: "um_tx_list e = before @ cur # behind" using f(2) cur by simp
    have hok: "heap_ok ?h (cur # before @ behind)"
      using D(4) by (subst heap_ok_perm [of _ "um_tx_list e"]) (simp_all add: l)
    obtain d where d: "hp_sdu ?h (seg_sdu cur) = Some d" and so: "seg_so cur = 0"
      using heap_ok_live [OF hok, of cur] cur by (auto simp: seg_in_def)
    obtain h' b where h': "nr_rlc_free_sdu_segment ?h cur = Inr (h', b)" "heap_ok h' (before @ behind)"
      using heap_ok_free [OF hok d] by auto
    define tail where "tail = (if um_tx_end e = Some (seg_addr cur)
      then (if before = [] then None else Some (seg_addr (last before))) else um_tx_end e)"
    define e' where "e' = e\<lparr>um_tx_list := before @ behind, um_tx_end := tail, um_common := with_heap h'
      (add_bs_tx (- (um_compute_pdu_header_size e cur + seg_size cur)) (um_common e))\<rparr>"
    have "nr_rlc_entity_um_discard_sdu e i = Inr e'"
      using f(1) cur h'(1) by (simp add: nr_rlc_entity_um_discard_sdu_def Let_def e'_def tail_def)
    moreover have "ends_ok (before @ behind) tail"
      unfolding tail_def using D(4,5) by (intro ends_ok_remove) (simp_all add: l heap_ok_def)
    then have "um_tx_ok e'"
      using D h'(2) cur
      by (auto simp: um_tx_ok_def e'_def um_pending_def um_header_size_hdr um_sn_length_ok_def l tl_append
          split: list.splits dest: in_tlD)
    moreover have "map (seg_data h') (before @ behind) = map (seg_data ?h) (before @ behind)"
      by (rule map_seg_data [OF free_same_data [OF hok h'(1)]]) simp
    then have "um_queue e' = map (\<lambda>s. (seg_so s, seg_data ?h s)) (before @ behind)"
      by (simp add: um_queue_def e'_def)
    moreover have "um_queue e = map (\<lambda>s. (seg_so s, seg_data ?h s)) before
        @ (0, seg_data ?h cur) # map (\<lambda>s. (seg_so s, seg_data ?h s)) behind"
      using l so by (simp add: um_queue_def)
    moreover have "um_tx_list e' = before @ behind" "um_tx_size e' = um_tx_size e"
      "um_sn_field_length e' = um_sn_field_length e" by (simp_all add: e'_def)
    ultimately show ?thesis
      using cur l by (intro that [of e']) blast+
  qed
qed

lemma um_clear_ok:
  assumes ok: "um_tx_ok e" and "0 \<le> um_tx_maxsize e"
  shows "\<exists>e'. um_clear_entity e = Inr e' \<and> um_tx_ok e' \<and> um_queue e' = [] \<and> um_tx_size e' = 0
     \<and> um_rx_list e' = [] \<and> um_rx_size e' = 0 \<and> hp_sdu (ent_heap (um_common e')) = Map.empty
     \<and> ent_events (um_common e') = ent_events (um_common e)"
proof -
  obtain h where h: "nr_rlc_free_sdu_segment_list (ent_heap (um_common e)) (um_tx_list e) = Inr h" "heap_ok h []"
    using heap_ok_free_list [of "ent_heap (um_common e)" "um_tx_list e" "[]"] um_tx_okD(4) [OF ok] by auto
  then show ?thesis
    using heap_ok_Nil [OF h(2)] assms um_tx_okD(2,3) [OF ok]
    by (simp add: um_clear_entity_def um_tx_ok_def um_queue_def um_pending_def with_bstatus_def um_sn_length_ok_def is_sn_def)
qed

lemma um_new_ok:
  assumes "len = 6 \<or> len = 12" and "0 \<le> tx_max"
  obtains e where "new_nr_rlc_entity_um rx_max tx_max t len = Inr e" "um_tx_ok e" "um_queue e = []" "um_tx_list e = []"
    "um_sn_field_length e = len" "um_tx_size e = 0" "um_tx_maxsize e = tx_max" "um_tx_next e = 0"
    "ent_events (um_common e) = []"
  by (rule new_common_ok [of NR_RLC_UM])
    (use that assms in \<open>auto simp: new_nr_rlc_entity_um_def um_tx_ok_def um_queue_def um_pending_def zero_bstatus_def
      um_sn_length_ok_def push_bit_eq_mult is_sn_def\<close>)

section \<open>The receiving side leaves the transmitting side alone\<close>

definition um_same_tx :: "nr_rlc_entity_um_t \<Rightarrow> nr_rlc_entity_um_t \<Rightarrow> bool" where
  "um_same_tx e e' \<longleftrightarrow> um_sn_field_length e' = um_sn_field_length e \<and> um_sn_modulus e' = um_sn_modulus e
     \<and> um_window_size e' = um_window_size e
     \<and> um_tx_next e' = um_tx_next e \<and> um_tx_list e' = um_tx_list e \<and> um_tx_end e' = um_tx_end e
     \<and> um_tx_size e' = um_tx_size e \<and> um_tx_maxsize e' = um_tx_maxsize e
     \<and> ent_heap (um_common e') = ent_heap (um_common e) \<and> ent_bstatus (um_common e') = ent_bstatus (um_common e)"

lemma um_same_tx_refl [simp]: "um_same_tx e e"
  by (simp add: um_same_tx_def)

lemma um_same_tx_trans: "um_same_tx a b \<Longrightarrow> um_same_tx b c \<Longrightarrow> um_same_tx a c"
  by (simp add: um_same_tx_def)

lemma um_same_tx_ok: "um_same_tx e e' \<Longrightarrow> um_tx_ok e \<Longrightarrow> um_tx_ok e'"
  by (auto simp: um_same_tx_def um_tx_ok_def um_pending_def um_header_size_hdr um_sn_length_ok_def)

lemma um_reassemble_tx: "um_reassemble_and_deliver e sn = Inr e' \<Longrightarrow> um_same_tx e e'"
  by (auto simp: um_reassemble_and_deliver_def Let_def um_same_tx_def res_simps split: if_splits)

lemma um_discard_outside_tx: "um_same_tx e (um_discard_outside e)"
proof (induction e rule: um_discard_outside.induct)
  case (1 e)
  show ?case
  proof (cases "um_rx_list e")
    case (Cons p l)
    then show ?thesis
      using 1 [OF Cons] by (subst um_discard_outside.simps) (auto simp: um_same_tx_def)
  qed (subst um_discard_outside.simps, simp)
qed

lemma um_discard_before_tx: "um_same_tx e (um_discard_before e)"
proof (induction e rule: um_discard_before.induct)
  case (1 e)
  show ?case
  proof (cases "um_rx_list e")
    case (Cons p l)
    then show ?thesis
      using 1 [OF Cons] by (subst um_discard_before.simps) (auto simp: um_same_tx_def)
  qed (subst um_discard_before.simps, simp)
qed

lemma um_timers_tx [simp]: "um_same_tx e (um_start_t_reassembly (um_stop_t_reassembly e))"
  by (auto simp: um_start_t_reassembly_def um_stop_t_reassembly_def um_same_tx_def)

lemma um_same_tx_rx_fields [simp]:
  "um_same_tx e (e'\<lparr>um_rx_next_reassembly := n\<rparr>) = um_same_tx e e'"
  "um_same_tx (e\<lparr>um_rx_next_highest := n\<rparr>) e' = um_same_tx e e'"
  by (simp_all add: um_same_tx_def)

lemma um_reception_actions_tx:
  assumes "um_reception_actions e pdu = Inr e'"
  shows "um_same_tx e e'"
proof -
  obtain e1 where e1: "e' = um_start_t_reassembly (um_stop_t_reassembly e1)" "um_same_tx e e1"
    using assms um_discard_outside_tx [of "e\<lparr>um_rx_next_highest := crem (pdu_sn pdu + 1) (um_sn_modulus e)\<rparr>"]
    by (auto simp: um_reception_actions_def Let_def res_simps split: if_splits dest: um_reassemble_tx)
  then show ?thesis using um_same_tx_trans um_timers_tx by blast
qed

lemma um_recv_pdu_tx:
  assumes "nr_rlc_entity_um_recv_pdu e buffer = Inr e'"
  shows "um_same_tx e e'"
proof -
  define e0 where "e0 = e\<lparr>um_common := with_stats (\<lambda>st. st\<lparr>rxpdu_pkts := rxpdu_pkts st + 1,
    rxpdu_bytes := rxpdu_bytes st + of_nat (length buffer)\<rparr>) (um_common e)\<rparr>"
  have e0: "um_same_tx e e0" by (simp add: um_same_tx_def e0_def)
  obtain r where r: "um_parse_pdu e0 buffer = Inr r"
    using assms by (auto simp: nr_rlc_entity_um_recv_pdu_def Let_def res_simps e0_def)
  have "um_same_tx e0 e'"
  proof (cases r)
    case (Um_Segment sn so f l d)
    then show ?thesis
      using assms r um_reception_actions_tx
        [of "e0\<lparr>um_rx_size := um_rx_size e0 + int (length d),
               um_rx_list := nr_rlc_pdu_list_add (um_sn_compare_rx e0) (um_rx_list e0) (nr_rlc_new_pdu sn so f l d)\<rparr>"]
      unfolding nr_rlc_entity_um_recv_pdu_def Let_def e0_def [symmetric]
      by (auto simp: um_discard_pdu_def um_same_tx_def split: if_splits)
  qed (use assms r in \<open>auto simp: nr_rlc_entity_um_recv_pdu_def Let_def e0_def [symmetric] um_discard_pdu_def um_same_tx_def\<close>)
  with e0 show ?thesis by (rule um_same_tx_trans)
qed

lemma um_set_time_tx:
  assumes "nr_rlc_entity_um_set_time e now = Inr e'"
  shows "um_same_tx e e'"
  using assms um_discard_before_tx [of "e\<lparr>um_t_current := now, um_t_reassembly_start := 0, um_rx_next_reassembly := n\<rparr>" for n]
  by (auto simp: nr_rlc_entity_um_set_time_def um_check_t_reassembly_def Let_def res_simps um_same_tx_def
      split: if_splits)

section \<open>Reachable states\<close>

text \<open>
  The states reached without the loss of an SDU: every call of the entity in any order, with three limits.
  A grant does not drop the head of the queue, which happens for a grant of two bytes with a 12 bit
  sequence number and a complete SDU that does not fit (the last property of this theory); an SDU from the upper layer is not empty;
  and a reconfiguration does not change the length of the sequence number.
\<close>

inductive um_reach :: "nat \<Rightarrow> nr_rlc_entity_um_t \<Rightarrow> bool" for len where
  new: "new_nr_rlc_entity_um rx_max tx_max t len = Inr e \<Longrightarrow> 0 \<le> tx_max \<Longrightarrow> um_reach len e"
| recv_sdu: "um_reach len e \<Longrightarrow> 0 < length b \<Longrightarrow> nr_rlc_entity_um_recv_sdu now e b i = Inr e' \<Longrightarrow> um_reach len e'"
| generate_pdu: "um_reach len e \<Longrightarrow> fst (um_tx_spec len (um_tx_next e) (um_queue e) (int (length buffer))) \<noteq> Um_Dropped \<Longrightarrow>
    nr_rlc_entity_um_generate_pdu now e buffer = Inr (ret, buffer', e') \<Longrightarrow> um_reach len e'"
| recv_pdu: "um_reach len e \<Longrightarrow> nr_rlc_entity_um_recv_pdu e buffer = Inr e' \<Longrightarrow> um_reach len e'"
| set_time: "um_reach len e \<Longrightarrow> nr_rlc_entity_um_set_time e now = Inr e' \<Longrightarrow> um_reach len e'"
| discard_sdu: "um_reach len e \<Longrightarrow> nr_rlc_entity_um_discard_sdu e i = Inr e' \<Longrightarrow> um_reach len e'"
| reestablishment: "um_reach len e \<Longrightarrow> nr_rlc_entity_um_reestablishment e = Inr e' \<Longrightarrow> um_reach len e'"
| reconfigure: "um_reach len e \<Longrightarrow> n = None \<or> n = Some len \<Longrightarrow> um_reach len (nr_rlc_entity_um_reconfigure e t n)"

lemma um_new_length: "new_nr_rlc_entity_um rx_max tx_max t len = Inr e \<Longrightarrow> len = 6 \<or> len = 12"
  by (auto simp: new_nr_rlc_entity_um_def split: if_splits)

text \<open>Only a grant of two bytes with a 12 bit sequence number drops.\<close>

lemma um_not_dropped:
  assumes "length buffer \<noteq> 2 \<or> len = 6" and "len = 6 \<or> len = 12"
  shows "fst (um_tx_spec len sn q (int (length buffer))) \<noteq> Um_Dropped"
  using assms by (cases q) (auto simp: Let_def um_hdr_def split: if_splits)

lemma um_recv_sdu_size: "nr_rlc_entity_um_recv_sdu now e b i = Inr e' \<Longrightarrow> int (length b) \<le> NR_SDU_MAX"
  by (auto simp: nr_rlc_entity_um_recv_sdu_def Let_def split: if_splits)

lemma um_tx_ok_maxsize:
  assumes "um_tx_ok e"
  shows "0 \<le> um_tx_maxsize e"
proof -
  have "0 \<le> sum_list (map seg_size (um_tx_list e))"
    using um_tx_okD(6) [OF assms] by (intro sum_list_nonneg) auto
  then show ?thesis using um_tx_okD(9,10) [OF assms] by linarith
qed

lemma um_reach_ok:
  assumes "um_reach len e"
  shows "um_tx_ok e \<and> um_sn_field_length e = len"
  using assms
proof induction
  case (new rx_max tx_max t e)
  obtain e' where "new_nr_rlc_entity_um rx_max tx_max t len = Inr e'" "um_tx_ok e'" "um_sn_field_length e' = len"
    by (rule um_new_ok [OF um_new_length [OF new(1)] new(2)])
  with new show ?case by simp
next
  case (recv_sdu e b now i e')
  with um_recv_sdu_ok [of e b now i] um_recv_sdu_size [OF recv_sdu(3)] show ?case by auto
next
  case (generate_pdu e buffer now ret buffer' e')
  let ?spec = "um_tx_spec len (um_tx_next e) (um_queue e) (int (length buffer))"
  have "um_tx_result e buffer ?spec (ret, buffer', e')"
    using generate_pdu um_generate_pdu_ok [of e now buffer] by auto
  then show ?case
    using generate_pdu by (auto simp: um_tx_result_def split: um_tx_out.splits)
next
  case (recv_pdu e buffer e')
  then show ?case using um_recv_pdu_tx [OF recv_pdu(2)] um_same_tx_ok by (auto simp: um_same_tx_def)
next
  case (set_time e now e')
  then show ?case using um_set_time_tx [OF set_time(2)] um_same_tx_ok by (auto simp: um_same_tx_def)
next
  case (discard_sdu e i e')
  then have ok: "um_tx_ok e" by simp
  obtain e'' where "nr_rlc_entity_um_discard_sdu e i = Inr e''" "um_tx_ok e''" "um_sn_field_length e'' = um_sn_field_length e"
    by (rule um_discard_sdu_ok [OF ok])
  with discard_sdu show ?case by simp
next
  case (reestablishment e e')
  then show ?case
    using um_clear_ok [of e] um_tx_ok_maxsize [of e]
    by (auto simp: nr_rlc_entity_um_reestablishment_def um_clear_entity_def res_simps)
next
  case (reconfigure e n t)
  then have "um_same_tx e (nr_rlc_entity_um_reconfigure e t n)"
    by (auto simp: um_same_tx_def nr_rlc_entity_um_reconfigure_def)
  then have "um_tx_ok (nr_rlc_entity_um_reconfigure e t n)" "um_sn_field_length (nr_rlc_entity_um_reconfigure e t n) = len"
    using um_same_tx_ok reconfigure(3) by (blast, simp add: um_same_tx_def)
  then show ?case by simp
qed

section \<open>Properties\<close>

lemma um_pending_queue:
  assumes "um_tx_ok e"
  shows "um_pending e = sum_list (map (\<lambda>(so, b). um_hdr (um_sn_field_length e) (so = 0) True + int (length b)) (um_queue e))"
    and "sum_list (map seg_size (um_tx_list e)) = sum_list (map (\<lambda>(so, b). int (length b)) (um_queue e))"
proof -
  note D = um_tx_okD [OF assms]
  have s: "seg_is_last s \<and> (seg_is_first s \<longleftrightarrow> seg_so s = 0) \<and> int (length (seg_data (ent_heap (um_common e)) s)) = seg_size s"
    if "s \<in> set (um_tx_list e)" for s
    using that D(6) heap_ok_live [OF D(4) that] length_seg_data [OF D(4) that] by (auto simp: seg_in_def)
  then show "um_pending e = sum_list (map (\<lambda>(so, b). um_hdr (um_sn_field_length e) (so = 0) True + int (length b)) (um_queue e))"
    by (auto simp: um_pending_def um_queue_def um_header_size_hdr comp_def intro!: arg_cong [of _ _ sum_list])
  show "sum_list (map seg_size (um_tx_list e)) = sum_list (map (\<lambda>(so, b). int (length b)) (um_queue e))"
    using s by (auto simp: um_queue_def comp_def intro!: arg_cong [of _ _ sum_list])
qed

lemma seg_count_filter: "seg_count l a = int (length (filter (\<lambda>s. seg_sdu s = a) l))"
  by (induction l) (auto simp: seg_count_def)

text \<open>
  C4. One call of the PDU generator of an unacknowledged mode entity refines one step on the queue of
  pending SDU parts and the sequence number: it never faults; it takes as many bytes from the head as fit
  behind the header, and puts the rest back at the head; the PDU has at most the granted size, and any
  receiver with the same sequence number length reads from it exactly the bytes, offset, flags and sequence
  number that were taken; the sequence number stays the same for all parts of an SDU and moves on by one,
  modulo its size, with the last part of an SDU that was split; the accounting invariant is kept whenever a
  PDU is produced.
\<close>

theorem um_generate_pdu_refines:
  assumes "um_tx_ok e"
  shows "\<exists>r. nr_rlc_entity_um_generate_pdu now e buffer = Inr r
     \<and> um_tx_result e buffer (um_tx_spec (um_sn_field_length e) (um_tx_next e) (um_queue e) (int (length buffer))) r"
  using assms by (rule um_generate_pdu_ok)

lemma um_example:
  obtains e where "um_reach 12 e" "um_queue e = [(0, [1, 2, 3])]" "um_tx_ok e" "um_tx_next e = 0" "um_sn_field_length e = 12"
    "um_tx_size e = 3"
proof -
  obtain e0 where e0: "new_nr_rlc_entity_um 1000 1000 35 12 = Inr e0" "um_tx_ok e0" "um_queue e0 = []"
    "um_sn_field_length e0 = 12" "um_tx_size e0 = 0" "um_tx_maxsize e0 = 1000" "um_tx_next e0 = 0"
    using um_new_ok [of 12 1000 1000 35] by auto
  obtain e1 where e1: "nr_rlc_entity_um_recv_sdu 5 e0 [1, 2, 3] 7 = Inr e1" "um_tx_ok e1" "um_queue e1 = [(0, [1, 2, 3])]"
    "um_sn_field_length e1 = 12" "um_tx_size e1 = 3"
    using um_recv_sdu_ok [OF e0(2), of "[1, 2, 3]" 5 7] e0 by (auto simp: NR_SDU_MAX_def)
  have "um_reach 12 e1"
    by (rule um_reach.recv_sdu [OF um_reach.new [OF e0(1)] _ e1(1)]) simp_all
  moreover have "um_tx_next e1 = 0"
    using e1(1) e0(7) by (auto simp: nr_rlc_entity_um_recv_sdu_def Let_def res_simps split: if_splits prod.splits)
  ultimately show ?thesis using e1 that by simp
qed

theorem um_generate_pdu_refines_witness:
  "\<exists>e ret buf e' ret' buf' e''. um_reach 12 e
     \<and> nr_rlc_entity_um_generate_pdu 9 e [0, 0, 0] = Inr (ret, buf, e')
     \<and> um_parse_pdu e (take (nat ret) buf) = Inr (Um_Segment 0 0 True False [1]) \<and> um_tx_next e' = 0
     \<and> nr_rlc_entity_um_generate_pdu 9 e' [0, 0, 0, 0, 0, 0] = Inr (ret', buf', e'')
     \<and> um_parse_pdu e (take (nat ret') buf') = Inr (Um_Segment 0 1 False True [2, 3]) \<and> um_tx_next e'' = 1
     \<and> um_queue e'' = []"
proof -
  obtain e where e: "um_reach 12 e" "um_queue e = [(0, [1, 2, 3])]" "um_tx_ok e" "um_tx_next e = 0" "um_sn_field_length e = 12"
    by (rule um_example)
  obtain ret buf e' where r: "nr_rlc_entity_um_generate_pdu 9 e [0, 0, 0] = Inr (ret, buf, e')"
    "um_parse_pdu e (take (nat ret) buf) = Inr (Um_Segment 0 0 True False [1])"
    "um_tx_next e' = 0" "um_queue e' = [(1, [2, 3])]" "um_tx_ok e'" "um_sn_field_length e' = 12"
    using um_generate_pdu_refines [OF e(3), of 9 "[0, 0, 0]"] e by (auto simp: um_tx_result_def um_hdr_def)
  obtain ret' buf' e'' where "nr_rlc_entity_um_generate_pdu 9 e' [0, 0, 0, 0, 0, 0] = Inr (ret', buf', e'')"
    "um_parse_pdu e (take (nat ret') buf') = Inr (Um_Segment 0 1 False True [2, 3])" "um_tx_next e'' = 1" "um_queue e'' = []"
    using um_generate_pdu_refines [OF r(5), of 9 "[0, 0, 0, 0, 0, 0]"] r(3,4,6) e(5) by (auto simp: um_tx_result_def um_hdr_def)
  then show ?thesis using e(1) r by blast
qed

text \<open>
  C5. In every state of an unacknowledged mode entity that is reached without the loss of an SDU to a two
  byte grant, from SDUs that are not empty and without a change of the sequence number length (see
  \<open>um_reach\<close>): the reported buffer status is the number of bytes, headers included, that it takes to send
  the pending parts one PDU each; the pending bytes are at most the accounted occupancy, which never exceeds
  the configured maximum (they may be fewer, for the discard of an SDU does not lower the occupancy);
  the references of every allocated SDU, those given up not counted, are the queued segments that point to
  it, and there is at least one; no grant makes the generator fault; and deleting the entity leaves no SDU
  allocated.
\<close>

theorem um_reachable_accounting:
  assumes "um_reach len e"
  shows "bs_tx_size (nr_rlc_entity_um_buffer_status e k)
      = sum_list (map (\<lambda>(so, b). um_hdr len (so = 0) True + int (length b)) (um_queue e))
    \<and> sum_list (map (\<lambda>(so, b). int (length b)) (um_queue e)) \<le> nr_rlc_entity_um_tx_list_occupancy e
    \<and> 0 \<le> nr_rlc_entity_um_available_tx_space e
    \<and> (\<forall>a d. hp_sdu (ent_heap (um_common e)) a = Some d \<longrightarrow>
         sdu_ref_count d - sdu_free_count d = int (length (filter (\<lambda>s. seg_sdu s = a) (um_tx_list e)))
         \<and> a \<in> seg_sdu ` set (um_tx_list e))
    \<and> (\<exists>ret buf e'. nr_rlc_entity_um_generate_pdu now e buffer = Inr (ret, buf, e') \<and> 0 \<le> ret \<and> ret \<le> int (length buffer))
    \<and> (\<exists>h. nr_rlc_entity_um_delete e = Inr h \<and> hp_sdu h = Map.empty)"
proof -
  have ok: "um_tx_ok e" and len: "um_sn_field_length e = len" using um_reach_ok [OF assms] by auto
  note D = um_tx_okD [OF ok]
  obtain ret buf e' where r: "nr_rlc_entity_um_generate_pdu now e buffer = Inr (ret, buf, e')"
      "um_tx_result e buffer (um_tx_spec len (um_tx_next e) (um_queue e) (int (length buffer))) (ret, buf, e')"
    using um_generate_pdu_ok [OF ok, of now buffer] len by auto
  then have "0 \<le> ret \<and> ret \<le> int (length buffer)"
    by (auto simp: um_tx_result_def split: um_tx_out.splits)
  moreover have "\<exists>h. nr_rlc_entity_um_delete e = Inr h \<and> hp_sdu h = Map.empty"
    using um_clear_ok [OF ok um_tx_ok_maxsize [OF ok]] by (auto simp: nr_rlc_entity_um_delete_def)
  moreover have "sdu_ref_count d - sdu_free_count d = int (length (filter (\<lambda>s. seg_sdu s = a) (um_tx_list e)))
      \<and> a \<in> seg_sdu ` set (um_tx_list e)" if "hp_sdu (ent_heap (um_common e)) a = Some d" for a d
    using heap_okD [OF D(4) that] seg_count_filter [of "um_tx_list e" a] seg_count_zero [of "um_tx_list e" a] by (force simp: sdu_ok_def)
  ultimately show ?thesis
    using r(1) D(8-10) um_pending_queue [OF ok] len
    by (simp add: nr_rlc_entity_um_buffer_status_def nr_rlc_entity_um_tx_list_occupancy_def
        nr_rlc_entity_um_available_tx_space_def)
qed

theorem um_reachable_accounting_witness:
  "\<exists>e. um_reach 12 e \<and> um_queue e = [(0, [1, 2, 3])] \<and> bs_tx_size (nr_rlc_entity_um_buffer_status e 100) = 4
     \<and> (\<exists>h. nr_rlc_entity_um_delete e = Inr h \<and> hp_sdu h = Map.empty)"
proof -
  obtain e where e: "um_reach 12 e" "um_queue e = [(0, [1, 2, 3])]" by (rule um_example)
  show ?thesis
    using um_reachable_accounting [OF e(1), of 100 0 "[]"] e by (intro exI [of _ e]) (simp add: um_hdr_def)
qed

text \<open>
  C6. A grant of two bytes loses an SDU: with a 12 bit sequence number and a complete SDU of two bytes
  or more at the head of the queue, the generator returns 0 without writing anything, the SDU is no
  longer queued, and its bytes stay accounted as occupied.
\<close>

theorem um_two_byte_grant_loses_sdu:
  assumes "um_reach 12 e" and "um_queue e = (0, b) # q" and "2 \<le> length b" and "length buffer = 2"
  shows "\<exists>e'. nr_rlc_entity_um_generate_pdu now e buffer = Inr (0, buffer, e') \<and> um_queue e' = q
     \<and> nr_rlc_entity_um_tx_list_occupancy e' = nr_rlc_entity_um_tx_list_occupancy e
     \<and> ent_events (um_common e') = ent_events (um_common e)"
proof -
  have ok: "um_tx_ok e" and len: "um_sn_field_length e = 12" using um_reach_ok [OF assms(1)] by auto
  obtain s rest where l: "um_tx_list e = s # rest" and s: "seg_so s = 0" "seg_data (ent_heap (um_common e)) s = b"
      "q = map (\<lambda>s. (seg_so s, seg_data (ent_heap (um_common e)) s)) rest"
    using assms(2) by (auto simp: um_queue_def Cons_eq_map_conv)
  have "seg_is_first s" "seg_is_last s" "seg_size s = int (length b)"
    using um_tx_okD(4,6) [OF ok] l s heap_ok_live [OF um_tx_okD(4) [OF ok], of s] length_seg_data [OF um_tx_okD(4) [OF ok], of s]
    by (auto simp: seg_in_def)
  then have room: "um_compute_pdu_header_size e s + 1 \<le> int (length buffer)"
      "um_compute_pdu_header_size e s + seg_size s > int (length buffer)"
      "int (length buffer) - um_hdr (um_sn_field_length e) (seg_so s = 0) False < 1"
    using assms(3,4) len s(1) by (simp_all add: um_header_size_hdr um_hdr_def)
  obtain e' where "nr_rlc_entity_um_generate_pdu now e buffer = Inr (0, buffer, e')"
    "um_queue e' = map (\<lambda>s. (seg_so s, seg_data (ent_heap (um_common e)) s)) rest" "um_tx_size e' = um_tx_size e"
    "ent_events (um_common e') = ent_events (um_common e)"
    by (rule um_generate_dropped [OF ok l room])
  then show ?thesis using s(3) by (simp add: nr_rlc_entity_um_tx_list_occupancy_def)
qed

theorem um_two_byte_grant_loses_sdu_witness:
  "\<exists>e e'. um_queue e = [(0, [1, 2, 3])] \<and> nr_rlc_entity_um_generate_pdu 9 e [0, 0] = Inr (0, [0, 0], e')
     \<and> um_queue e' = []"
proof -
  obtain e where e: "um_reach 12 e" "um_queue e = [(0, [1, 2, 3])]" by (rule um_example)
  show ?thesis
    using um_two_byte_grant_loses_sdu [OF e(1,2), of "[0, 0]" 9] e(2) by auto
qed

end
