(* ===== verification/Rlc_Rx_Manager.thy ===== *)
theory Rlc_Rx_Manager
  imports Rlc_Pdu
begin

text \<open>
  Model of \<^verbatim>\<open>openair2/LAYER2/nr_rlc/nr_rlc_rx_manager.c\<close>: the received PDUs of an
  acknowledged mode entity, one list per sequence number of the window, in a circular buffer.

  The locale \<open>rx_store\<close> is what the entity relies on: a table from the sequence numbers of the
  window to lists of PDUs ordered by segment offset, that is kept when the window moves. The
  circular buffer with its two starts implements it.
\<close>

record nr_rlc_rx_manager_t =
  rxm_rx_list :: "nr_rlc_pdu_t list list"
  rxm_size :: int
  rxm_start :: int
  rxm_sn_start :: int

section \<open>Operations\<close>

definition nr_rlc_new_rx_manager :: "int \<Rightarrow> nr_rlc_rx_manager_t" where
  "nr_rlc_new_rx_manager n =
     \<lparr> rxm_rx_list = replicate (nat n) [], rxm_size = n, rxm_start = 0, rxm_sn_start = 0 \<rparr>"

fun clear_slots :: "nr_rlc_pdu_t list list \<Rightarrow> nat \<Rightarrow> nr_rlc_pdu_t list list" where
  "clear_slots l 0 = l"
| "clear_slots l (Suc i) = (clear_slots l i)[i := []]"

definition nr_rlc_clear_rx_manager :: "nr_rlc_rx_manager_t \<Rightarrow> nr_rlc_rx_manager_t" where
  "nr_rlc_clear_rx_manager m =
     m\<lparr>rxm_rx_list := clear_slots (rxm_rx_list m) (nat (rxm_size m)), rxm_start := 0, rxm_sn_start := 0\<rparr>"

definition get_pos :: "nr_rlc_rx_manager_t \<Rightarrow> int \<Rightarrow> int" where
  "get_pos m sn = crem (rxm_start m + (sn - rxm_sn_start m + rxm_size m * 2)) (rxm_size m)"

definition nr_rlc_rx_manager_get_pdu_from_sn :: "nr_rlc_rx_manager_t \<Rightarrow> int \<Rightarrow> nr_rlc_pdu_t list res" where
  "nr_rlc_rx_manager_get_pdu_from_sn m sn = array_get (rxm_rx_list m) (get_pos m sn)"

text \<open>Writing a slot of the array.\<close>

definition set_slot :: "nr_rlc_rx_manager_t \<Rightarrow> int \<Rightarrow> nr_rlc_pdu_t list \<Rightarrow> nr_rlc_rx_manager_t res" where
  "set_slot m pos l =
     (if 0 \<le> pos \<and> pos < int (length (rxm_rx_list m))
      then Inr (m\<lparr>rxm_rx_list := (rxm_rx_list m)[nat pos := l]\<rparr>) else Inl Out_Of_Bounds)"

definition nr_rlc_rx_manager_clear_pdu :: "nr_rlc_rx_manager_t \<Rightarrow> int \<Rightarrow> nr_rlc_rx_manager_t res" where
  "nr_rlc_rx_manager_clear_pdu m sn = set_slot m (get_pos m sn) []"

definition nr_rlc_rx_manager_advance :: "nr_rlc_rx_manager_t \<Rightarrow> int \<Rightarrow> nr_rlc_rx_manager_t" where
  "nr_rlc_rx_manager_advance m cnt = m\<lparr>rxm_start := crem (rxm_start m + cnt) (rxm_size m)\<rparr>"

definition nr_rlc_rx_manager_set_start :: "nr_rlc_rx_manager_t \<Rightarrow> int \<Rightarrow> nr_rlc_rx_manager_t" where
  "nr_rlc_rx_manager_set_start m sn_start = m\<lparr>rxm_sn_start := sn_start\<rparr>"

fun insert_by_so :: "nr_rlc_pdu_t list \<Rightarrow> nr_rlc_pdu_t \<Rightarrow> nr_rlc_pdu_t list" where
  "insert_by_so [] pdu = [pdu]"
| "insert_by_so (cur # l) pdu = (if pdu_so cur > pdu_so pdu then pdu # cur # l else cur # insert_by_so l pdu)"

definition nr_rlc_rx_manager_add_pdu :: "nr_rlc_rx_manager_t \<Rightarrow> nr_rlc_pdu_t \<Rightarrow> nr_rlc_rx_manager_t res" where
  "nr_rlc_rx_manager_add_pdu m pdu =
     bindR (array_get (rxm_rx_list m) (get_pos m (pdu_sn pdu))) (\<lambda>l.
       set_slot m (get_pos m (pdu_sn pdu)) (insert_by_so l pdu))"

section \<open>Insertion by segment offset\<close>

definition so_after :: "nr_rlc_pdu_t \<Rightarrow> nr_rlc_pdu_t \<Rightarrow> bool" where
  "so_after cur pdu \<longleftrightarrow> pdu_so cur > pdu_so pdu"

lemma insert_by_so_eq: "insert_by_so l pdu = ordered_add so_after l pdu"
  by (induction l) (auto simp: so_after_def)

interpretation rxl: ordered_list "\<lambda>_::unit. \<lambda>_. True" "\<lambda>_. so_after"
  by unfold_locales (auto simp: so_after_def)

section \<open>The contract\<close>

text \<open>
  \<open>m s\<close> is the modulus of the sequence numbers, \<open>window s\<close> the number of slots and \<open>start s\<close> the
  lower end of the window.
\<close>

definition in_window :: "int \<Rightarrow> int \<Rightarrow> int \<Rightarrow> int \<Rightarrow> bool" where
  "in_window m w b sn \<longleftrightarrow> is_sn m sn \<and> (sn - b) mod m < w"

locale rx_store =
  fixes inv :: "int \<Rightarrow> int \<Rightarrow> int \<Rightarrow> 's \<Rightarrow> bool"
    and get :: "'s \<Rightarrow> int \<Rightarrow> nr_rlc_pdu_t list res"
    and add :: "'s \<Rightarrow> nr_rlc_pdu_t \<Rightarrow> 's res"
    and clear :: "'s \<Rightarrow> int \<Rightarrow> 's res"
    and move :: "'s \<Rightarrow> int \<Rightarrow> int \<Rightarrow> 's"
  assumes get_total: "inv m w b s \<Longrightarrow> is_sn m sn \<Longrightarrow> \<exists>l. get s sn = Inr l"
    and add_total: "inv m w b s \<Longrightarrow> is_sn m (pdu_sn p) \<Longrightarrow> \<exists>s'. add s p = Inr s' \<and> inv m w b s'"
    and get_add: "inv m w b s \<Longrightarrow> in_window m w b (pdu_sn p) \<Longrightarrow> in_window m w b sn \<Longrightarrow> add s p = Inr s' \<Longrightarrow>
        get s' sn = (if sn = pdu_sn p then bindR (get s sn) (\<lambda>l. Inr (insert_by_so l p)) else get s sn)"
    and clear_total: "inv m w b s \<Longrightarrow> is_sn m k \<Longrightarrow> \<exists>s'. clear s k = Inr s' \<and> inv m w b s'"
    and get_clear: "inv m w b s \<Longrightarrow> in_window m w b k \<Longrightarrow> in_window m w b sn \<Longrightarrow> clear s k = Inr s' \<Longrightarrow>
        get s' sn = (if sn = k then Inr [] else get s sn)"
    and inv_move: "inv m w b s \<Longrightarrow> 0 \<le> n \<Longrightarrow> inv m w ((b + n) mod m) (move s n ((b + n) mod m))"
    and get_move: "inv m w b s \<Longrightarrow> 0 \<le> n \<Longrightarrow> is_sn m sn \<Longrightarrow>
        get (move s n ((b + n) mod m)) sn = get s sn"
begin

definition slot :: "'s \<Rightarrow> int \<Rightarrow> nr_rlc_pdu_t list" where
  "slot s sn = (case get s sn of Inl _ \<Rightarrow> [] | Inr l \<Rightarrow> l)"

lemma get_slot: "inv m w b s \<Longrightarrow> is_sn m sn \<Longrightarrow> get s sn = Inr (slot s sn)"
  using get_total [of m w b s sn] by (auto simp: slot_def)

lemma slot_add:
  assumes "inv m w b s" and "in_window m w b (pdu_sn p)" and "in_window m w b sn" and "add s p = Inr s'"
  shows "slot s' sn = (if sn = pdu_sn p then insert_by_so (slot s sn) p else slot s sn)"
proof -
  obtain l where "get s sn = Inr l"
    using get_total [OF assms(1)] assms(3) by (auto simp: in_window_def)
  with get_add [OF assms] show ?thesis by (auto simp: slot_def)
qed

lemma slot_clear:
  assumes "inv m w b s" and "in_window m w b k" and "in_window m w b sn" and "clear s k = Inr s'"
  shows "slot s' sn = (if sn = k then [] else slot s sn)"
  using get_clear [OF assms] by (auto simp: slot_def)

lemma slot_move: "inv m w b s \<Longrightarrow> 0 \<le> n \<Longrightarrow> is_sn m sn \<Longrightarrow> slot (move s n ((b + n) mod m)) sn = slot s sn"
  using get_move [of m w b s n sn] by (simp add: slot_def)

text \<open>Every slot stays ordered by segment offset.\<close>

lemma slot_add_ordered:
  assumes "inv m w b s" and "in_window m w b (pdu_sn p)" and "in_window m w b sn" and "add s p = Inr s'"
    and "sorted_wrt (\<lambda>x y. \<not> so_after x y) (slot s sn)"
  shows "sorted_wrt (\<lambda>x y. \<not> so_after x y) (slot s' sn)"
  using slot_add [OF assms(1-4)] assms(5) rxl.ordered_add_ordered [of "slot s sn" p]
  by (auto simp: insert_by_so_eq)

end

section \<open>The circular buffer implements the contract\<close>

definition rxm_ok :: "int \<Rightarrow> int \<Rightarrow> int \<Rightarrow> nr_rlc_rx_manager_t \<Rightarrow> bool" where
  "rxm_ok m w b r \<longleftrightarrow> 0 < w \<and> m = 2 * w \<and> rxm_size r = w \<and> int (length (rxm_rx_list r)) = w
     \<and> 0 \<le> rxm_start r \<and> rxm_start r < w \<and> rxm_sn_start r = b \<and> is_sn m b"

definition rxm_move :: "nr_rlc_rx_manager_t \<Rightarrow> int \<Rightarrow> int \<Rightarrow> nr_rlc_rx_manager_t" where
  "rxm_move r n b = nr_rlc_rx_manager_set_start (nr_rlc_rx_manager_advance r n) b"

lemma get_pos_mod:
  assumes "rxm_ok m w b r" and "is_sn m sn"
  shows "get_pos r sn = (rxm_start r + sn - b) mod w"
proof -
  have "get_pos r sn = (rxm_start r + (sn - b + w * 2)) mod w"
    using assms unfolding get_pos_def by (subst crem_mod) (auto simp: rxm_ok_def is_sn_def)
  also have "\<dots> = (rxm_start r + sn - b + w * 2) mod w" by (simp add: algebra_simps)
  finally show ?thesis by simp
qed

lemma get_pos_bounds:
  assumes "rxm_ok m w b r" and "is_sn m sn"
  shows "0 \<le> get_pos r sn" and "get_pos r sn < w" and "get_pos r sn < int (length (rxm_rx_list r))"
  using get_pos_mod [OF assms] assms(1) by (simp_all add: rxm_ok_def)

lemma mod_double_less:
  assumes "0 < w" and "m = 2 * w" and "x mod m < (w::int)"
  shows "x mod w = x mod m"
proof -
  have "x mod w = (x mod m) mod w" using assms(2) by (simp add: mod_mod_cancel)
  also have "\<dots> = x mod m" using assms by (simp add: mod_pos_pos_trivial)
  finally show ?thesis .
qed

lemma get_pos_inject:
  assumes ok: "rxm_ok m w b r" and x: "in_window m w b x" and y: "in_window m w b y"
  shows "get_pos r x = get_pos r y \<longleftrightarrow> x = y"
proof
  have w: "0 < w" "m = 2 * w" and sn: "is_sn m x" "is_sn m y" "is_sn m b"
    using assms by (auto simp: rxm_ok_def in_window_def)
  assume "get_pos r x = get_pos r y"
  then have "(rxm_start r + (x - b)) mod w = (rxm_start r + (y - b)) mod w"
    using get_pos_mod [OF ok] sn by (simp add: algebra_simps)
  then have "(x - b) mod w = (y - b) mod w"
    by (metis (no_types, opaque_lifting) add_diff_cancel_left' mod_diff_left_eq)
  moreover have "(x - b) mod w = (x - b) mod m" "(y - b) mod w = (y - b) mod m"
    using mod_double_less [OF w] x y by (simp_all add: in_window_def)
  ultimately have "(b + (x - b) mod m) mod m = (b + (y - b) mod m) mod m" by simp
  then show "x = y" using mod_sub_cancel [of m] w sn by simp
qed simp

lemma get_pos_move:
  assumes ok: "rxm_ok m w b r" and n: "0 \<le> n"
  shows "rxm_ok m w ((b + n) mod m) (rxm_move r n ((b + n) mod m))"
    and "is_sn m sn \<Longrightarrow> get_pos (rxm_move r n ((b + n) mod m)) sn = get_pos r sn"
proof -
  have w: "0 < w" "m = 2 * w" using ok by (simp_all add: rxm_ok_def)
  have st: "rxm_start (rxm_move r n ((b + n) mod m)) = (rxm_start r + n) mod w"
    using ok n by (simp add: rxm_move_def nr_rlc_rx_manager_set_start_def nr_rlc_rx_manager_advance_def
        crem_mod rxm_ok_def)
  show ok': "rxm_ok m w ((b + n) mod m) (rxm_move r n ((b + n) mod m))"
    using ok w st by (simp add: rxm_ok_def)
      (simp add: rxm_move_def nr_rlc_rx_manager_set_start_def nr_rlc_rx_manager_advance_def)
  assume sn: "is_sn m sn"
  have "((rxm_start r + n) mod w + sn - (b + n) mod m) mod w
      = (((rxm_start r + n) mod w + sn) mod w - (b + n) mod m mod w) mod w"
    by (rule mod_diff_eq [symmetric])
  also have "\<dots> = ((rxm_start r + n + sn) mod w - (b + n) mod w) mod w"
    using w by (simp only: mod_add_left_eq) (simp add: mod_mod_cancel)
  also have "\<dots> = (rxm_start r + sn - b) mod w" by (simp add: mod_diff_eq algebra_simps)
  finally show "get_pos (rxm_move r n ((b + n) mod m)) sn = get_pos r sn"
    using get_pos_mod [OF ok' sn] get_pos_mod [OF ok sn] st by simp
qed

lemma rxm_move_list [simp]: "rxm_rx_list (rxm_move r n b) = rxm_rx_list r"
  by (simp add: rxm_move_def nr_rlc_rx_manager_set_start_def nr_rlc_rx_manager_advance_def)

lemma get_pos_list [simp]: "get_pos (r\<lparr>rxm_rx_list := l\<rparr>) sn = get_pos r sn"
  by (simp add: get_pos_def)

lemma rxm_ok_list: "rxm_ok m w b r \<Longrightarrow> length l = length (rxm_rx_list r) \<Longrightarrow> rxm_ok m w b (r\<lparr>rxm_rx_list := l\<rparr>)"
  by (auto simp: rxm_ok_def)

interpretation rxm: rx_store rxm_ok nr_rlc_rx_manager_get_pdu_from_sn nr_rlc_rx_manager_add_pdu
  nr_rlc_rx_manager_clear_pdu rxm_move
proof unfold_locales
  fix m w b r sn assume "rxm_ok m w b r" "is_sn m sn"
  then show "\<exists>l. nr_rlc_rx_manager_get_pdu_from_sn r sn = Inr l"
    using get_pos_bounds [of m w b r sn] by (simp add: nr_rlc_rx_manager_get_pdu_from_sn_def array_get_def)
next
  fix m w b r and p :: nr_rlc_pdu_t assume "rxm_ok m w b r" "is_sn m (pdu_sn p)"
  then show "\<exists>s'. nr_rlc_rx_manager_add_pdu r p = Inr s' \<and> rxm_ok m w b s'"
    using get_pos_bounds [of m w b r "pdu_sn p"]
    by (simp add: nr_rlc_rx_manager_add_pdu_def array_get_def set_slot_def rxm_ok_list)
next
  fix m w b r sn s' and p :: nr_rlc_pdu_t
  assume "rxm_ok m w b r" "in_window m w b (pdu_sn p)" "in_window m w b sn" "nr_rlc_rx_manager_add_pdu r p = Inr s'"
  then show "nr_rlc_rx_manager_get_pdu_from_sn s' sn = (if sn = pdu_sn p
      then bindR (nr_rlc_rx_manager_get_pdu_from_sn r sn) (\<lambda>l. Inr (insert_by_so l p))
      else nr_rlc_rx_manager_get_pdu_from_sn r sn)"
    using get_pos_inject [of m w b r sn "pdu_sn p"] get_pos_bounds [of m w b r sn] get_pos_bounds [of m w b r "pdu_sn p"]
    by (auto simp: nr_rlc_rx_manager_add_pdu_def nr_rlc_rx_manager_get_pdu_from_sn_def array_get_def set_slot_def
        in_window_def nth_list_update nat_eq_iff)
next
  fix m w b r k assume "rxm_ok m w b r" "is_sn m k"
  then show "\<exists>s'. nr_rlc_rx_manager_clear_pdu r k = Inr s' \<and> rxm_ok m w b s'"
    using get_pos_bounds [of m w b r k] by (simp add: nr_rlc_rx_manager_clear_pdu_def set_slot_def rxm_ok_list)
next
  fix m w b r k sn s'
  assume "rxm_ok m w b r" "in_window m w b k" "in_window m w b sn" "nr_rlc_rx_manager_clear_pdu r k = Inr s'"
  then show "nr_rlc_rx_manager_get_pdu_from_sn s' sn = (if sn = k then Inr [] else nr_rlc_rx_manager_get_pdu_from_sn r sn)"
    using get_pos_inject [of m w b r sn k] get_pos_bounds [of m w b r sn] get_pos_bounds [of m w b r k]
    by (auto simp: nr_rlc_rx_manager_clear_pdu_def nr_rlc_rx_manager_get_pdu_from_sn_def array_get_def set_slot_def
        in_window_def nth_list_update nat_eq_iff)
next
  fix m w b r n assume "rxm_ok m w b r" "(0::int) \<le> n"
  then show "rxm_ok m w ((b + n) mod m) (rxm_move r n ((b + n) mod m))" by (rule get_pos_move)
next
  fix m w b r n sn assume "rxm_ok m w b r" "(0::int) \<le> n" "is_sn m sn"
  then show "nr_rlc_rx_manager_get_pdu_from_sn (rxm_move r n ((b + n) mod m)) sn = nr_rlc_rx_manager_get_pdu_from_sn r sn"
    using get_pos_move(2) [of m w b r n sn] by (simp add: nr_rlc_rx_manager_get_pdu_from_sn_def)
qed

lemma rxm_new_ok: "0 < w \<Longrightarrow> rxm_ok (2 * w) w 0 (nr_rlc_new_rx_manager w)"
  by (simp add: rxm_ok_def nr_rlc_new_rx_manager_def is_sn_def)

lemma clear_slots_replicate: "n \<le> length l \<Longrightarrow> clear_slots l n = replicate n [] @ drop n l"
proof (induction n)
  case (Suc n)
  then have "drop n l = l ! n # drop (Suc n) l" by (simp add: Cons_nth_drop_Suc)
  with Suc show ?case by (simp add: list_update_append replicate_append_same [symmetric])
qed simp

lemma rxm_clear_eq: "rxm_ok m w b r \<Longrightarrow> nr_rlc_clear_rx_manager r = nr_rlc_new_rx_manager w"
  by (auto simp: rxm_ok_def nr_rlc_clear_rx_manager_def nr_rlc_new_rx_manager_def clear_slots_replicate
      intro!: nr_rlc_rx_manager_t.equality)

end
