(* ===== verification/Rlc_Am.thy ===== *)
theory Rlc_Am
  imports Rlc_Reassembly Rlc_Rx_Manager
begin

text \<open>
  Model of \<^verbatim>\<open>openair2/LAYER2/nr_rlc/nr_rlc_entity_am.c\<close>, first part: the state of the
  acknowledged mode entity, its sequence-number arithmetic, and the reception of data PDUs up to the
  reception actions. The later parts are in \<^verbatim>\<open>Rlc_Am_Status\<close> (status reporting),
  \<^verbatim>\<open>Rlc_Am_Tx\<close> (transmission, timers, discard) and \<^verbatim>\<open>Rlc_Am_Control\<close>
  (status PDUs received from the peer).
\<close>

record nr_rlc_entity_am_t =
  am_common :: nr_rlc_entity_t
  am_t_poll_retransmit :: int
  am_t_reassembly :: int
  am_t_status_prohibit :: int
  am_poll_pdu :: int
  am_poll_byte :: int
  am_max_retx_threshold :: int
  am_sn_field_length :: nat
  am_sn_modulus :: int
  am_window_size :: int
  am_rx_next :: int
  am_rx_next_status_trigger :: int
  am_rx_highest_status :: int
  am_rx_next_highest :: int
  am_status_triggered :: bool
  am_tx_next :: int
  am_tx_next_ack :: int
  am_poll_sn :: int
  am_pdu_without_poll :: int
  am_byte_without_poll :: int
  am_force_poll :: bool
  am_t_current :: u64
  am_t_log_buffer_full :: u64
  am_sdu_rejected :: int
  am_t_poll_retransmit_start :: u64
  am_t_reassembly_start :: u64
  am_t_status_prohibit_start :: u64
  am_rx :: nr_rlc_rx_manager_t
  am_rx_size :: int
  am_rx_maxsize :: int
  am_tx_list :: "nr_rlc_sdu_segment_t list"
  am_tx_end :: "nat option"
  am_tx_size :: int
  am_tx_maxsize :: int
  am_wait_list :: "nr_rlc_sdu_segment_t list"
  am_wait_end :: "nat option"
  am_retransmit_list :: "nr_rlc_sdu_segment_t list"

definition new_nr_rlc_entity_am ::
    "int \<Rightarrow> int \<Rightarrow> int \<Rightarrow> int \<Rightarrow> int \<Rightarrow> int \<Rightarrow> int \<Rightarrow> int \<Rightarrow> nat \<Rightarrow> nr_rlc_entity_am_t res" where
  "new_nr_rlc_entity_am rx_maxsize tx_maxsize t_poll_retransmit t_reassembly t_status_prohibit
       poll_pdu poll_byte max_retx_threshold sn_field_length =
     (if sn_field_length \<noteq> 12 \<and> sn_field_length \<noteq> 18 then Inl Abort
      else bindR (new_common NR_RLC_AM) (\<lambda>c.
        let sn_modulus = push_bit sn_field_length 1
        in Inr \<lparr> am_common = c, am_t_poll_retransmit = t_poll_retransmit, am_t_reassembly = t_reassembly,
                 am_t_status_prohibit = t_status_prohibit, am_poll_pdu = poll_pdu, am_poll_byte = poll_byte,
                 am_max_retx_threshold = max_retx_threshold, am_sn_field_length = sn_field_length,
                 am_sn_modulus = sn_modulus, am_window_size = sn_modulus div 2,
                 am_rx_next = 0, am_rx_next_status_trigger = 0, am_rx_highest_status = 0,
                 am_rx_next_highest = 0, am_status_triggered = False,
                 am_tx_next = 0, am_tx_next_ack = 0, am_poll_sn = 0, am_pdu_without_poll = 0,
                 am_byte_without_poll = 0, am_force_poll = False,
                 am_t_current = 0, am_t_log_buffer_full = 0, am_sdu_rejected = 0,
                 am_t_poll_retransmit_start = 0, am_t_reassembly_start = 0, am_t_status_prohibit_start = 0,
                 am_rx = nr_rlc_new_rx_manager (push_bit (sn_field_length - 1) 1),
                 am_rx_size = 0, am_rx_maxsize = rx_maxsize * 5,
                 am_tx_list = [], am_tx_end = None, am_tx_size = 0, am_tx_maxsize = tx_maxsize * 5,
                 am_wait_list = [], am_wait_end = None, am_retransmit_list = [] \<rparr>))"

definition nr_rlc_entity_am_reconfigure ::
    "nr_rlc_entity_am_t \<Rightarrow> int \<Rightarrow> int \<Rightarrow> int \<Rightarrow> int \<Rightarrow> int \<Rightarrow> int \<Rightarrow> nat option \<Rightarrow> nr_rlc_entity_am_t" where
  "nr_rlc_entity_am_reconfigure entity t_poll_retransmit t_reassembly t_status_prohibit
       poll_pdu poll_byte max_retx_threshold sn_field_length =
     (let e = entity\<lparr>am_t_poll_retransmit := t_poll_retransmit, am_t_reassembly := t_reassembly,
                     am_t_status_prohibit := t_status_prohibit, am_poll_pdu := poll_pdu,
                     am_poll_byte := poll_byte, am_max_retx_threshold := max_retx_threshold\<rparr>
      in case sn_field_length of None \<Rightarrow> e | Some n \<Rightarrow> e\<lparr>am_sn_field_length := n\<rparr>)"

definition am_compute_pdu_header_size :: "nr_rlc_entity_am_t \<Rightarrow> nr_rlc_sdu_segment_t \<Rightarrow> int" where
  "am_compute_pdu_header_size entity sdu =
     (2::int) + (if am_sn_field_length entity = 18 then 1 else 0) + (if \<not> seg_is_first sdu then 2 else 0)"

section \<open>Sequence numbers\<close>

definition am_modulus_rx :: "nr_rlc_entity_am_t \<Rightarrow> int \<Rightarrow> int" where
  "am_modulus_rx entity a =
     (let r = a - am_rx_next entity in if r < 0 then r + am_sn_modulus entity else r)"

definition am_modulus_tx :: "nr_rlc_entity_am_t \<Rightarrow> int \<Rightarrow> int" where
  "am_modulus_tx entity a =
     (let r = a - am_tx_next_ack entity in if r < 0 then r + am_sn_modulus entity else r)"

definition am_sn_in_recv_window :: "nr_rlc_entity_am_t \<Rightarrow> int \<Rightarrow> bool" where
  "am_sn_in_recv_window entity sn \<longleftrightarrow> am_modulus_rx entity sn < am_window_size entity"

definition am_sn_compare_rx :: "nr_rlc_entity_am_t \<Rightarrow> int \<Rightarrow> int \<Rightarrow> int" where
  "am_sn_compare_rx entity a b = am_modulus_rx entity a - am_modulus_rx entity b"

definition am_sn_compare_tx :: "nr_rlc_entity_am_t \<Rightarrow> int \<Rightarrow> int \<Rightarrow> int" where
  "am_sn_compare_tx entity a b = am_modulus_tx entity a - am_modulus_tx entity b"

text \<open>The walk reads the SDU of every segment it passes.\<close>

fun nr_rlc_tx_sdu_segment_list_add ::
    "nr_rlc_entity_am_t \<Rightarrow> nr_rlc_sdu_segment_t list \<Rightarrow> nr_rlc_sdu_segment_t \<Rightarrow> nr_rlc_sdu_segment_t list res" where
  "nr_rlc_tx_sdu_segment_list_add entity [] sdu_segment = Inr [sdu_segment]"
| "nr_rlc_tx_sdu_segment_list_add entity (cur # l) sdu_segment =
     bindR (deref (ent_heap (am_common entity)) (seg_sdu cur)) (\<lambda>c.
     bindR (deref (ent_heap (am_common entity)) (seg_sdu sdu_segment)) (\<lambda>d.
       if am_sn_compare_tx entity (sdu_sn c) (sdu_sn d) > 0
          \<or> (sdu_sn c = sdu_sn d \<and> seg_so cur > seg_so sdu_segment)
       then Inr (sdu_segment # cur # l)
       else bindR (nr_rlc_tx_sdu_segment_list_add entity l sdu_segment) (\<lambda>l'. Inr (cur # l'))))"

section \<open>Received segments\<close>

definition am_get_pdu :: "nr_rlc_entity_am_t \<Rightarrow> int \<Rightarrow> nr_rlc_pdu_t list res" where
  "am_get_pdu entity sn = nr_rlc_rx_manager_get_pdu_from_sn (am_rx entity) sn"

fun already_received_loop :: "nr_rlc_pdu_t list \<Rightarrow> int \<Rightarrow> int \<Rightarrow> bool" where
  "already_received_loop [] so n = (n \<le> 0)"
| "already_received_loop (l # ls) so n =
     (if n \<le> 0 then True
      else if pdu_so l \<le> so \<and> so < pdu_so l + pdu_size l
      then let covered = pdu_size l - (so - pdu_so l) in already_received_loop ls (so + covered) (n - covered)
      else if pdu_so l \<le> so + n - 1 \<and> so + n - 1 < pdu_so l + pdu_size l
      then let covered = n - (pdu_so l - so) in already_received_loop ls so (n - covered)
      else already_received_loop ls so n)"

definition am_segment_already_received :: "nr_rlc_entity_am_t \<Rightarrow> int \<Rightarrow> int \<Rightarrow> int \<Rightarrow> bool res" where
  "am_segment_already_received entity sn so n =
     bindR (am_get_pdu entity sn) (\<lambda>l. Inr (already_received_loop l so n))"

definition pdus_delivered :: "nr_rlc_pdu_t list \<Rightarrow> bool" where
  "pdus_delivered l = (case l of [] \<Rightarrow> False | p # _ \<Rightarrow> pdu_data p = None)"

definition am_sdu_full :: "nr_rlc_entity_am_t \<Rightarrow> int \<Rightarrow> bool res" where
  "am_sdu_full entity sn =
     bindR (am_get_pdu entity sn) (\<lambda>l. Inr (if pdus_delivered l then False else full_loop (-1) l))"

definition am_sdu_delivered :: "nr_rlc_entity_am_t \<Rightarrow> int \<Rightarrow> bool res" where
  "am_sdu_delivered entity sn = bindR (am_get_pdu entity sn) (\<lambda>l. Inr (pdus_delivered l))"

definition am_sdu_has_missing_bytes :: "nr_rlc_entity_am_t \<Rightarrow> int \<Rightarrow> bool res" where
  "am_sdu_has_missing_bytes entity sn =
     bindR (am_get_pdu entity sn) (\<lambda>l. Inr (if pdus_delivered l then False else missing_loop (-1) l))"

text \<open>The data of the PDUs is freed; their sizes are kept.\<close>

definition am_reassemble_and_deliver :: "nr_rlc_entity_am_t \<Rightarrow> int \<Rightarrow> nr_rlc_entity_am_t res" where
  "am_reassemble_and_deliver entity sn =
     bindR (am_get_pdu entity sn) (\<lambda>l.
     bindR (reassemble_loop [] False l) (\<lambda>(sdu, bad_sdu).
     bindR (set_slot (am_rx entity) (get_pos (am_rx entity) sn) (map (\<lambda>p. p\<lparr>pdu_data := None\<rparr>) l)) (\<lambda>rx.
       let e = entity\<lparr>am_rx := rx, am_rx_size := am_rx_size entity - sum_list (map pdu_size l)\<rparr>
       in if bad_sdu then Inr e
          else Inr (e\<lparr>am_common :=
                 with_stats (\<lambda>st. st\<lparr>txsdu_pkts := txsdu_pkts st + 1\<rparr>) (emit (Deliver_Sdu sdu) (am_common e))\<rparr>))))"

section \<open>Reception actions\<close>

text \<open>
  The delivered SDUs at the lower end of the window are removed: the loop clears slot after slot and
  counts them.
\<close>

partial_function (option) am_remove_loop ::
    "int \<Rightarrow> nr_rlc_rx_manager_t \<Rightarrow> int \<Rightarrow> int \<Rightarrow> (nr_rlc_rx_manager_t \<times> int \<times> int) res option" where
  "am_remove_loop sn_modulus rx rx_next cnt =
     (case nr_rlc_rx_manager_get_pdu_from_sn rx rx_next of
        Inl err \<Rightarrow> Some (Inl err)
      | Inr l \<Rightarrow>
          if pdus_delivered l
          then case nr_rlc_rx_manager_clear_pdu rx rx_next of
                 Inl err \<Rightarrow> Some (Inl err)
               | Inr rx' \<Rightarrow> am_remove_loop sn_modulus rx' (crem (rx_next + 1) sn_modulus) (cnt + 1)
          else Some (Inr (rx, rx_next, cnt)))"

declare am_remove_loop.simps [code]

definition am_advance_rx_next :: "nr_rlc_entity_am_t \<Rightarrow> nr_rlc_entity_am_t res" where
  "am_advance_rx_next entity =
     (case am_remove_loop (am_sn_modulus entity) (am_rx entity) (am_rx_next entity) 0 of
        None \<Rightarrow> Inl Hang
      | Some r \<Rightarrow> bindR r (\<lambda>(rx, rx_next, cnt).
          Inr (entity\<lparr>am_rx_next := rx_next,
                      am_rx := nr_rlc_rx_manager_set_start (nr_rlc_rx_manager_advance rx cnt) rx_next\<rparr>)))"

definition am_stop_t_reassembly :: "nr_rlc_entity_am_t \<Rightarrow> nr_rlc_entity_am_t res" where
  "am_stop_t_reassembly entity =
     (if am_t_reassembly_start entity = 0 then Inr entity
      else if am_rx_next_status_trigger entity = am_rx_next entity
      then Inr (entity\<lparr>am_t_reassembly_start := 0\<rparr>)
      else
        bindR (if am_rx_next_status_trigger entity = crem (am_rx_next entity + 1) (am_sn_modulus entity)
               then bindR (am_sdu_has_missing_bytes entity (am_rx_next entity)) (\<lambda>b. Inr (\<not> b))
               else Inr False) (\<lambda>stop.
          Inr (if stop
                  \<or> (\<not> am_sn_in_recv_window entity (am_rx_next_status_trigger entity)
                     \<and> am_rx_next_status_trigger entity
                         \<noteq> crem (am_rx_next entity + am_window_size entity) (am_sn_modulus entity))
               then entity\<lparr>am_t_reassembly_start := 0\<rparr> else entity)))"

definition am_start_t_reassembly :: "nr_rlc_entity_am_t \<Rightarrow> nr_rlc_entity_am_t res" where
  "am_start_t_reassembly entity =
     (if am_t_reassembly_start entity \<noteq> 0 then Inr entity
      else
        let next = crem (am_rx_next entity + 1) (am_sn_modulus entity)
        in bindR (if am_sn_compare_rx entity (am_rx_next_highest entity) next > 0 then Inr True
                  else if am_rx_next_highest entity = next then am_sdu_has_missing_bytes entity (am_rx_next entity)
                  else Inr False) (\<lambda>start.
             Inr (if start
                  then entity\<lparr>am_t_reassembly_start := am_t_current entity,
                              am_rx_next_status_trigger := am_rx_next_highest entity\<rparr>
                  else entity)))"

text \<open>The search for the next SDU to report: \<^verbatim>\<open>rx_highest_status\<close>.\<close>

definition am_skip_delivered :: "nr_rlc_entity_am_t \<Rightarrow> int \<Rightarrow> int res" where
  "am_skip_delivered entity sn = skip_delivered (am_sdu_delivered entity) (am_sn_modulus entity) sn"

definition am_reception_actions :: "nr_rlc_entity_am_t \<Rightarrow> nr_rlc_pdu_t \<Rightarrow> nr_rlc_entity_am_t res" where
  "am_reception_actions entity pdu =
     (let x = pdu_sn pdu;
          e0 = (if am_sn_compare_rx entity x (am_rx_next_highest entity) \<ge> 0
                then entity\<lparr>am_rx_next_highest := crem (x + 1) (am_sn_modulus entity)\<rparr> else entity)
      in bindR (am_sdu_full e0 x) (\<lambda>full.
         bindR
           (if full
            then bindR (am_reassemble_and_deliver e0 x) (\<lambda>e1.
                 bindR (if x = am_rx_highest_status e1
                        then bindR (am_skip_delivered e1 (am_rx_highest_status e1))
                               (\<lambda>sn. Inr (e1\<lparr>am_rx_highest_status := sn\<rparr>))
                        else Inr e1) (\<lambda>e2.
                   if x = am_rx_next e2 then am_advance_rx_next e2 else Inr e2))
            else Inr e0) (\<lambda>e.
         bindR (am_stop_t_reassembly e) am_start_t_reassembly)))"

section \<open>Data PDUs\<close>

datatype am_parsed =
    Am_Control
  | Am_Discard bool
  | Am_Data bool int int bool bool bytes

text \<open>
  \<open>Am_Discard p\<close> is a PDU that is discarded, with the poll bit as far as it was read; \<open>Am_Data\<close>
  has the poll bit, the sequence number, the offset, the two segmentation flags and the data.
\<close>

definition am_parse_pdu :: "nr_rlc_entity_am_t \<Rightarrow> bytes \<Rightarrow> am_parsed res" where
  "am_parse_pdu entity buffer =
     read_field (nr_rlc_pdu_decoder_init buffer) 1 (\<lambda>_. Inr (Am_Discard False)) (\<lambda>dc d0.
       if dc = 0 then Inr Am_Control
       else
         read_field d0 1 (\<lambda>_. Inr (Am_Discard True)) (\<lambda>p d1.
         let err = (\<lambda>_. Inr (Am_Discard (p \<noteq> 0)))
         in read_field d1 2 err (\<lambda>si d2.
            let is_first = (si AND 2 = 0); is_last = (si AND 1 = 0)
            in (if am_sn_field_length entity = 18 then read_field d2 2 err else (\<lambda>f. f 0 d2)) (\<lambda>_ d3.
               read_field d3 (am_sn_field_length entity) err (\<lambda>sn d4.
               (if \<not> is_first then read_field d4 16 err else (\<lambda>f. f 0 d4)) (\<lambda>so d5.
                 if \<not> is_first \<and> so = 0 then Inr (Am_Discard (p \<noteq> 0))
                 else if length buffer \<le> dec_byte d5 then Inr (Am_Discard (p \<noteq> 0))
                 else Inr (Am_Data (p \<noteq> 0) sn so is_first is_last (drop (dec_byte d5) buffer))))))))"

definition am_discard_pdu :: "nr_rlc_entity_am_t \<Rightarrow> bool \<Rightarrow> nat \<Rightarrow> nr_rlc_entity_am_t" where
  "am_discard_pdu entity p n =
     entity\<lparr>am_status_triggered := (p \<or> am_status_triggered entity),
            am_common := with_stats (\<lambda>st. st\<lparr>rxpdu_dd_pkts := rxpdu_dd_pkts st + 1,
                                            rxpdu_dd_bytes := rxpdu_dd_bytes st + of_nat n\<rparr>) (am_common entity)\<rparr>"

definition am_recv_data_pdu ::
    "nr_rlc_entity_am_t \<Rightarrow> bool \<Rightarrow> int \<Rightarrow> int \<Rightarrow> bool \<Rightarrow> bool \<Rightarrow> bytes \<Rightarrow> nat \<Rightarrow> nr_rlc_entity_am_t res" where
  "am_recv_data_pdu entity p sn so is_first is_last data n =
     (if am_rx_size entity + int (length data) > am_rx_maxsize entity then Inr (am_discard_pdu entity p n)
      else if \<not> am_sn_in_recv_window entity sn
      then Inr (am_discard_pdu
             (entity\<lparr>am_common := with_stats (\<lambda>st. st\<lparr>rxpdu_ow_pkts := rxpdu_ow_pkts st + 1,
                                                    rxpdu_ow_bytes := rxpdu_ow_bytes st + of_nat n\<rparr>) (am_common entity)\<rparr>) p n)
      else
        bindR (am_segment_already_received entity sn so (int (length data))) (\<lambda>dup.
          if dup
          then Inr (am_discard_pdu
                 (entity\<lparr>am_common := with_stats (\<lambda>st. st\<lparr>rxpdu_dup_pkts := rxpdu_dup_pkts st + 1,
                                                        rxpdu_dup_bytes := rxpdu_dup_bytes st + of_nat n\<rparr>) (am_common entity)\<rparr>) p n)
          else
            let pdu = nr_rlc_new_pdu sn so is_first is_last data
            in bindR (nr_rlc_rx_manager_add_pdu (am_rx entity) pdu) (\<lambda>rx.
               bindR (am_reception_actions
                       (entity\<lparr>am_rx_size := am_rx_size entity + int (length data), am_rx := rx\<rparr>) pdu) (\<lambda>e.
                 Inr (if p then e\<lparr>am_status_triggered := True\<rparr> else e)))))"

end
