(* ===== verification/Rlc_Am_Status.thy ===== *)
theory Rlc_Am_Status
  imports Rlc_Am
begin

text \<open>
  Model of \<^verbatim>\<open>openair2/LAYER2/nr_rlc/nr_rlc_entity_am.c\<close>, second part: the status report
  of the receiving side (the section "status reporting" of the source).

  A pointer to a received PDU is the rest of the list of its slot, the PDU itself first; a null pointer
  is the empty list.
\<close>

record missing_data_t =
  md_sn_start :: int
  md_so_start :: int
  md_sn_end :: int
  md_so_end :: int
  md_next :: "nr_rlc_pdu_t list"

section \<open>Walking the received PDUs\<close>

partial_function (option) rx_scan_loop ::
    "(int \<Rightarrow> nr_rlc_pdu_t list res) \<Rightarrow> int \<Rightarrow> int \<Rightarrow> int \<Rightarrow> nr_rlc_pdu_t list res option" where
  "rx_scan_loop get sn_modulus last_sn sn =
     (if sn = last_sn then Some (get sn)
      else case get sn of
             Inl err \<Rightarrow> Some (Inl err)
           | Inr l \<Rightarrow> if l \<noteq> [] then Some (Inr l) else rx_scan_loop get sn_modulus last_sn (crem (sn + 1) sn_modulus))"

declare rx_scan_loop.simps [code]

definition rx_scan :: "nr_rlc_entity_am_t \<Rightarrow> int \<Rightarrow> nr_rlc_pdu_t list res" where
  "rx_scan entity sn =
     (case rx_scan_loop (am_get_pdu entity) (am_sn_modulus entity) (am_rx_highest_status entity) sn of
        None \<Rightarrow> Inl Hang | Some r \<Rightarrow> r)"

definition get_first_rx_pdu :: "nr_rlc_entity_am_t \<Rightarrow> nr_rlc_pdu_t list res" where
  "get_first_rx_pdu entity = rx_scan entity (am_rx_next entity)"

fun get_next_rx_pdu :: "nr_rlc_entity_am_t \<Rightarrow> nr_rlc_pdu_t list \<Rightarrow> nr_rlc_pdu_t list res" where
  "get_next_rx_pdu entity [] = Inl Null_Deref"
| "get_next_rx_pdu entity (cur # rest) =
     (if rest \<noteq> [] then Inr rest
      else if pdu_sn cur = am_rx_highest_status entity then Inr []
      else rx_scan entity (crem (pdu_sn cur + 1) (am_sn_modulus entity)))"

section \<open>Missing parts\<close>

definition no_missing :: missing_data_t where
  "no_missing = \<lparr> md_sn_start = -1, md_so_start = 0, md_sn_end = 0, md_so_end = 0, md_next = [] \<rparr>"

text \<open>The end of a missing part in front of the PDU \<open>cur\<close> of a later SDU (or of the head).\<close>

definition set_end_different_sdu :: "nr_rlc_entity_am_t \<Rightarrow> nr_rlc_pdu_t list \<Rightarrow> int \<Rightarrow> int \<Rightarrow> missing_data_t" where
  "set_end_different_sdu entity cur sn_start so_start =
     (let m = am_sn_modulus entity; c = hd cur;
          sn_end = (if pdu_is_first c then crem (pdu_sn c - 1 + m) m else pdu_sn c);
          so_end = (if pdu_is_first c then 0xffff else pdu_so c - 1)
      in if am_sn_compare_rx entity (am_rx_highest_status entity) sn_end \<le> 0
         then \<lparr> md_sn_start = sn_start, md_so_start = so_start,
                md_sn_end = crem (am_rx_highest_status entity - 1 + m) m, md_so_end = 0xffff, md_next = [] \<rparr>
         else \<lparr> md_sn_start = sn_start, md_so_start = so_start, md_sn_end = sn_end, md_so_end = so_end,
                md_next = cur \<rparr>)"

text \<open>No PDU follows \<open>cur\<close>: what is missing up to \<^verbatim>\<open>rx_highest_status - 1\<close>.\<close>

definition missing_at_end :: "nr_rlc_entity_am_t \<Rightarrow> nr_rlc_pdu_t \<Rightarrow> int \<Rightarrow> bool \<Rightarrow> missing_data_t" where
  "missing_at_end entity cur max_so last_reached =
     (let m = am_sn_modulus entity;
          whole = (pdu_data cur = None \<or> last_reached);
          sn_start = (if whole then crem (pdu_sn cur + 1) m else pdu_sn cur);
          so_start = (if whole then 0 else max_so + 1)
      in if am_sn_compare_rx entity (am_rx_highest_status entity) sn_start \<le> 0 then no_missing
         else \<lparr> md_sn_start = sn_start, md_so_start = so_start,
                md_sn_end = crem (am_rx_highest_status entity - 1 + m) m, md_so_end = 0xffff, md_next = [] \<rparr>)"

text \<open>A gap between the PDUs received up to \<open>sn\<close>/\<open>max_so\<close> and the following PDU \<open>cur\<close>.\<close>

definition missing_before :: "nr_rlc_entity_am_t \<Rightarrow> nr_rlc_pdu_t list \<Rightarrow> int \<Rightarrow> int \<Rightarrow> bool \<Rightarrow> missing_data_t" where
  "missing_before entity cur sn max_so last_reached =
     (let m = am_sn_modulus entity
      in if pdu_sn (hd cur) = sn
         then if am_sn_compare_rx entity (am_rx_highest_status entity) sn \<le> 0 then no_missing
              else \<lparr> md_sn_start = sn, md_so_start = max_so + 1, md_sn_end = sn,
                     md_so_end = pdu_so (hd cur) - 1, md_next = cur \<rparr>
         else
           let sn_start = (if last_reached then crem (sn + 1) m else sn);
               so_start = (if last_reached then 0 else max_so + 1)
           in if am_sn_compare_rx entity (am_rx_highest_status entity) sn_start \<le> 0 then no_missing
              else set_end_different_sdu entity cur sn_start so_start)"

partial_function (option) next_missing_loop ::
    "nr_rlc_entity_am_t \<Rightarrow> nr_rlc_pdu_t list \<Rightarrow> int \<Rightarrow> bool \<Rightarrow> missing_data_t res option" where
  "next_missing_loop entity cur max_so last_reached =
     (case cur of [] \<Rightarrow> Some (Inl Null_Deref)
      | c # _ \<Rightarrow>
          let sn = pdu_sn c;
              cur_max_so = pdu_so c + pdu_size c - 1;
              max_so' = (if cur_max_so > max_so then cur_max_so else max_so);
              last_reached' = (last_reached \<or> pdu_is_last c)
          in case get_next_rx_pdu entity cur of
               Inl err \<Rightarrow> Some (Inl err)
             | Inr next \<Rightarrow>
                 (case next of
                    [] \<Rightarrow> Some (Inr (missing_at_end entity c max_so' last_reached'))
                  | n # _ \<Rightarrow>
                      if pdu_sn n = sn \<and> max_so' \<ge> pdu_so n - 1
                      then next_missing_loop entity next max_so' last_reached'
                      else if pdu_sn n = crem (sn + 1) (am_sn_modulus entity) \<and> last_reached' \<and> pdu_is_first n
                      then next_missing_loop entity next 0 False
                      else Some (Inr (missing_before entity next sn max_so' last_reached'))))"

declare next_missing_loop.simps [code]

definition next_missing :: "nr_rlc_entity_am_t \<Rightarrow> nr_rlc_pdu_t list \<Rightarrow> bool \<Rightarrow> missing_data_t res" where
  "next_missing entity cur check_head =
     (if cur = [] then Inl Null_Deref
      else if check_head \<and> (pdu_sn (hd cur) \<noteq> am_rx_next entity \<or> \<not> pdu_is_first (hd cur))
      then if am_sn_compare_rx entity (am_rx_highest_status entity) (am_rx_next entity) \<le> 0 then Inr no_missing
           else Inr (set_end_different_sdu entity cur (am_rx_next entity) 0)
      else case next_missing_loop entity cur 0 False of None \<Rightarrow> Inl Hang | Some r \<Rightarrow> r)"

definition nack_size :: "nr_rlc_entity_am_t \<Rightarrow> missing_data_t \<Rightarrow> int" where
  "nack_size entity m =
     (let nack_length = (2::int) + (if am_sn_field_length entity = 18 then 1 else 0)
      in if md_sn_start m = md_sn_end m
         then if md_so_start m = 0 \<and> md_so_end m = 0xffff then nack_length else nack_length + 4
         else if md_so_start m = 0 \<and> md_so_end m = 0xffff then nack_length + 1 else nack_length + 5)"

text \<open>
  A missing part is reported in ranges of at most 255 sequence numbers: the next range that is cut
  from the front when \<open>sn_count\<close> numbers from \<open>sn_start\<close> on are left.
\<close>

definition cut_range :: "nr_rlc_entity_am_t \<Rightarrow> missing_data_t \<Rightarrow> nat \<Rightarrow> int \<Rightarrow> nat \<times> missing_data_t" where
  "cut_range entity m sn_count sn_start =
     (let cur_sn_count = (if sn_count > 255 then 255 else sn_count);
          so_start = (if sn_start = md_sn_start m then md_so_start m else 0)
      in (cur_sn_count,
          if cur_sn_count = sn_count
          then \<lparr> md_sn_start = sn_start, md_so_start = so_start, md_sn_end = md_sn_end m,
                 md_so_end = md_so_end m, md_next = [] \<rparr>
          else \<lparr> md_sn_start = sn_start, md_so_start = so_start,
                 md_sn_end = crem (sn_start + 254) (am_sn_modulus entity), md_so_end = 0xffff, md_next = [] \<rparr>))"

definition missing_sn_count :: "nr_rlc_entity_am_t \<Rightarrow> missing_data_t \<Rightarrow> nat" where
  "missing_sn_count entity m =
     nat (crem (md_sn_end m - md_sn_start m + am_sn_modulus entity) (am_sn_modulus entity) + 1)"

section \<open>Size of the report\<close>

definition missing_size_step :: "nr_rlc_entity_am_t \<Rightarrow> missing_data_t \<Rightarrow> int" where
  "missing_size_step entity k =
     (let n = int (am_sn_field_length entity); r_bits = (if am_sn_field_length entity = 18 then 3 else 1)
      in if md_sn_start k = md_sn_end k
         then if md_so_start k = 0 \<and> md_so_end k = 0xffff then (n + 3 + r_bits) div 8
              else (n + 3 + r_bits + 16 * 2) div 8
         else if md_so_start k = 0 \<and> md_so_end k = 0xffff then (n + 3 + r_bits + 8) div 8
              else (n + 3 + r_bits + 16 * 2 + 8) div 8)"

text \<open>The result is the new size, the number of ranges, and whether the room was used up (then the
  report ends: \<^verbatim>\<open>m->next = NULL\<close>).\<close>

function missing_size_loop ::
    "nr_rlc_entity_am_t \<Rightarrow> missing_data_t \<Rightarrow> int \<Rightarrow> nat \<Rightarrow> int \<Rightarrow> int \<Rightarrow> int \<Rightarrow> int \<times> int \<times> bool" where
  "missing_size_loop entity m maxsize sn_count sn_start n range_count =
     (if sn_count = 0 then (n, range_count, False)
      else
        let (cur_sn_count, k) = cut_range entity m sn_count sn_start
        in if n + nack_size entity k > maxsize then (n, range_count, True)
           else missing_size_loop entity m maxsize (sn_count - cur_sn_count)
                  (crem (sn_start + int cur_sn_count) (am_sn_modulus entity))
                  (n + missing_size_step entity k) (range_count + 1))"
  by pat_completeness auto
termination
  by (relation "measure (\<lambda>(_, _, _, c, _). c)") (auto simp: cut_range_def Let_def split: if_splits)

declare missing_size_loop.simps [simp del]

definition missing_size :: "nr_rlc_entity_am_t \<Rightarrow> missing_data_t \<Rightarrow> int \<Rightarrow> int \<Rightarrow> int \<times> int \<times> missing_data_t" where
  "missing_size entity m n maxsize =
     (let (n', range_count, truncated) =
            missing_size_loop entity m maxsize (missing_sn_count entity m) (md_sn_start m) n 0
      in (n', range_count, if truncated then m\<lparr>md_next := []\<rparr> else m))"

partial_function (option) status_size_loop ::
    "nr_rlc_entity_am_t \<Rightarrow> int \<Rightarrow> nr_rlc_pdu_t list \<Rightarrow> int \<Rightarrow> int \<Rightarrow> int res option" where
  "status_size_loop entity maxsize cur nack_count n =
     (if cur = [] then Some (Inr n)
      else case next_missing entity cur (nack_count = 0) of
             Inl err \<Rightarrow> Some (Inl err)
           | Inr m \<Rightarrow>
               if md_sn_start m = -1 then Some (Inr n)
               else case missing_size entity m n maxsize of (n', range_count, m') \<Rightarrow>
                 status_size_loop entity maxsize (md_next m') (nack_count + range_count) n')"

declare status_size_loop.simps [code]

definition status_size :: "nr_rlc_entity_am_t \<Rightarrow> int \<Rightarrow> int res" where
  "status_size entity maxsize =
     (if maxsize < 3 then Inr 0
      else bindR (get_first_rx_pdu entity) (\<lambda>cur.
        case status_size_loop entity maxsize cur 0 3 of None \<Rightarrow> Inl Hang | Some r \<Rightarrow> r))"

section \<open>Generation of the report\<close>

text \<open>
  The position of the \<^verbatim>\<open>e1\<close> bit to set when another NACK follows, and of the last
  \<^verbatim>\<open>so_end\<close> written, are offsets into the buffer.
\<close>

definition get_e1_position :: "nr_rlc_entity_am_t \<Rightarrow> nr_rlc_pdu_encoder_t \<Rightarrow> nat \<times> nat" where
  "get_e1_position entity encoder =
     (if am_sn_field_length entity = 18 then (enc_byte encoder + 2, 5) else (enc_byte encoder + 1, 3))"

record status_writer =
  sw_encoder :: nr_rlc_pdu_encoder_t
  sw_e1 :: "nat \<times> nat"
  sw_so_end_address :: "nat option"

definition write_byte :: "nr_rlc_pdu_encoder_t \<Rightarrow> nat \<Rightarrow> (u8 \<Rightarrow> u8) \<Rightarrow> nr_rlc_pdu_encoder_t res" where
  "write_byte enc i f =
     (if i < length (enc_buffer enc) then Inr (enc\<lparr>enc_buffer := (enc_buffer enc)[i := f (enc_buffer enc ! i)]\<rparr>)
      else Inl Out_Of_Bounds)"

text \<open>One NACK: the range \<open>k\<close> of \<open>cur_sn_count\<close> sequence numbers.\<close>

definition write_nack :: "nr_rlc_entity_am_t \<Rightarrow> missing_data_t \<Rightarrow> nat \<Rightarrow> status_writer \<Rightarrow> status_writer res" where
  "write_nack entity k cur_sn_count w =
     (let r_bits = (if am_sn_field_length entity = 18 then 3 else 1);
          e3 = (md_sn_start k \<noteq> md_sn_end k);
          e2 = (\<not> (md_so_start k = 0 \<and> md_so_end k = 0xffff))
      in bindR (write_byte (sw_encoder w) (fst (sw_e1 w)) (\<lambda>b. b OR push_bit (snd (sw_e1 w)) 1)) (\<lambda>enc0.
         bindR (put_fields enc0 [(md_sn_start k, am_sn_field_length entity), (0, 1), (of_bool e2, 1),
                                 (of_bool e3, 1), (0, r_bits)]) (\<lambda>enc1.
         bindR (if e2 then put_fields enc1 [(md_so_start k, 16)] else Inr enc1) (\<lambda>enc2.
         bindR (if e2 then put_fields enc2 [(md_so_end k, 16)] else Inr enc2) (\<lambda>enc3.
         bindR (if e3 then put_fields enc3 [(int cur_sn_count, 8)] else Inr enc3) (\<lambda>enc4.
           Inr \<lparr> sw_encoder = enc4, sw_e1 = get_e1_position entity enc0,
                 sw_so_end_address = (if e2 then Some (enc_byte enc2) else None) \<rparr>))))))"

text \<open>The result has the last sequence number reported (-1 when none), and whether the report was cut.\<close>

function generate_missing_loop ::
    "nr_rlc_entity_am_t \<Rightarrow> missing_data_t \<Rightarrow> nat \<Rightarrow> int \<Rightarrow> int \<Rightarrow> status_writer \<Rightarrow> (int \<times> bool \<times> status_writer) res" where
  "generate_missing_loop entity m sn_count sn_start last_nack w =
     (if sn_count = 0 then Inr (last_nack, False, w)
      else
        let (cur_sn_count, k) = cut_range entity m sn_count sn_start
        in if int (enc_byte (sw_encoder w)) + nack_size entity k > int (enc_size (sw_encoder w))
           then Inr (last_nack, True, w)
           else
             bindR (write_nack entity k cur_sn_count w) (\<lambda>w'.
               generate_missing_loop entity m (sn_count - cur_sn_count)
                 (crem (sn_start + int cur_sn_count) (am_sn_modulus entity))
                 (if md_sn_start k \<noteq> md_sn_end k then sn_start + int cur_sn_count - 1 else sn_start) w'))"
  by pat_completeness auto
termination
  by (relation "measure (\<lambda>(_, _, n, _). n)") (auto simp: cut_range_def Let_def split: if_splits)

declare generate_missing_loop.simps [simp del]

definition generate_missing ::
    "nr_rlc_entity_am_t \<Rightarrow> missing_data_t \<Rightarrow> status_writer \<Rightarrow> (int \<times> bool \<times> missing_data_t \<times> status_writer) res" where
  "generate_missing entity m w =
     bindR (generate_missing_loop entity m (missing_sn_count entity m) (md_sn_start m) (-1) w)
       (\<lambda>(ln, truncated, w'). Inr (ln, truncated, if truncated then m\<lparr>md_next := []\<rparr> else m, w'))"

text \<open>After a cut, the last \<^verbatim>\<open>so_end\<close> is forced to the end of the SDU.\<close>

definition force_so_end :: "bool \<Rightarrow> status_writer \<Rightarrow> status_writer res" where
  "force_so_end truncated w =
     (case sw_so_end_address w of
        Some a \<Rightarrow> if truncated
          then bindR (write_byte (sw_encoder w) a (\<lambda>_. 0xff)) (\<lambda>enc1.
               bindR (write_byte enc1 (a + 1) (\<lambda>_. 0xff)) (\<lambda>enc2. Inr (w\<lparr>sw_encoder := enc2\<rparr>)))
          else Inr w
      | None \<Rightarrow> Inr w)"

partial_function (option) generate_status_loop ::
    "nr_rlc_entity_am_t \<Rightarrow> nr_rlc_pdu_t list \<Rightarrow> bool \<Rightarrow> int \<Rightarrow> status_writer \<Rightarrow> (int \<times> status_writer) res option" where
  "generate_status_loop entity cur check_head last_nack w =
     (if cur = [] then Some (Inr (last_nack, w))
      else case next_missing entity cur check_head of
             Inl err \<Rightarrow> Some (Inl err)
           | Inr m \<Rightarrow>
               if md_sn_start m = -1 then Some (Inr (last_nack, w))
               else case bindR (generate_missing entity m w) (\<lambda>(ln, truncated, m', w').
                           bindR (force_so_end truncated w') (\<lambda>w''. Inr (ln, m', w''))) of
                      Inl err \<Rightarrow> Some (Inl err)
                    | Inr r \<Rightarrow> (case r of (ln, m', w'') \<Rightarrow>
                        generate_status_loop entity (md_next m') False (if ln \<noteq> -1 then ln else last_nack) w''))"

declare generate_status_loop.simps [code]

text \<open>The acknowledged sequence number is stored into the first bytes at the end.\<close>

definition put_ack_sn :: "nr_rlc_entity_am_t \<Rightarrow> int \<Rightarrow> nr_rlc_pdu_encoder_t \<Rightarrow> nr_rlc_pdu_encoder_t res" where
  "put_ack_sn entity ack_sn enc =
     (if am_sn_field_length entity = 12
      then bindR (write_byte enc 0 (\<lambda>_. word_of_int (drop_bit 8 ack_sn))) (\<lambda>enc1.
           write_byte enc1 1 (\<lambda>_. word_of_int (ack_sn AND 255)))
      else bindR (write_byte enc 0 (\<lambda>_. word_of_int (drop_bit 14 ack_sn))) (\<lambda>enc1.
           bindR (write_byte enc1 1 (\<lambda>_. word_of_int (drop_bit 6 ack_sn AND 255))) (\<lambda>enc2.
           write_byte enc2 2 (\<lambda>b. b OR word_of_int (push_bit 2 (ack_sn AND 0x3f))))))"

definition generate_status :: "nr_rlc_entity_am_t \<Rightarrow> bytes \<Rightarrow> (int \<times> bytes \<times> nr_rlc_entity_am_t) res" where
  "generate_status entity buffer =
     (if length buffer < 3 then Inr (0, buffer, entity)
      else
        let m = am_sn_modulus entity; last_nack = crem (am_rx_next entity - 1 + m) m
        in bindR (nr_rlc_pdu_encoder_put_bits (nr_rlc_pdu_encoder_init buffer) 0 (8 * 3)) (\<lambda>enc.
           bindR (get_first_rx_pdu entity) (\<lambda>cur.
           bindR (case generate_status_loop entity cur True last_nack
                         \<lparr> sw_encoder = enc, sw_e1 = (2, if am_sn_field_length entity = 18 then 1 else 7),
                           sw_so_end_address = None \<rparr> of
                    None \<Rightarrow> Inl Hang | Some r \<Rightarrow> r) (\<lambda>(last_nack', w).
           bindR (put_ack_sn entity (crem (last_nack' + 1) m) (sw_encoder w)) (\<lambda>enc'.
             Inr (int (enc_byte enc'), enc_buffer enc',
                  entity\<lparr>am_status_triggered := False, am_t_status_prohibit_start := am_t_current entity,
                         am_common := with_stats (\<lambda>st.
                           st\<lparr>txpdu_pkts := txpdu_pkts st + 1,
                              txpdu_bytes := txpdu_bytes st + of_nat (enc_byte enc'),
                              txpdu_status_pkts := txpdu_status_pkts st + 1,
                              txpdu_status_bytes := txpdu_status_bytes st + of_nat (enc_byte enc')\<rparr>) (am_common entity)\<rparr>))))))"

definition status_to_report :: "nr_rlc_entity_am_t \<Rightarrow> bool" where
  "status_to_report entity \<longleftrightarrow> am_status_triggered entity
     \<and> (am_t_status_prohibit_start entity = 0
        \<or> am_t_current entity - am_t_status_prohibit_start entity > word_of_int (am_t_status_prohibit entity))"

end
