(* ===== verification/Rlc_Am_Tx.thy ===== *)
theory Rlc_Am_Tx
  imports Rlc_Am_Status
begin

text \<open>
  Model of \<^verbatim>\<open>openair2/LAYER2/nr_rlc/nr_rlc_entity_am.c\<close>, third part: generation of data
  PDUs, SDUs from the upper layer, timers, discard and re-establishment. A segment is in one of three
  lists: \<^verbatim>\<open>tx_list\<close> (not sent), \<^verbatim>\<open>wait_list\<close> (sent, not acknowledged) and
  \<^verbatim>\<open>retransmit_list\<close> (to be sent again).
\<close>

section \<open>Polling\<close>

definition is_window_stalling :: "nr_rlc_entity_am_t \<Rightarrow> bool" where
  "is_window_stalling entity \<longleftrightarrow>
     \<not> (am_sn_compare_tx entity (am_tx_next_ack entity) (am_tx_next entity) \<le> 0
        \<and> am_sn_compare_tx entity (am_tx_next entity)
             (crem (am_tx_next_ack entity + am_window_size entity) (am_sn_modulus entity)) < 0)"

definition include_poll :: "nr_rlc_entity_am_t \<Rightarrow> bytes \<Rightarrow> (nr_rlc_entity_am_t \<times> bytes) res" where
  "include_poll entity buffer =
     (case buffer of
        [] \<Rightarrow> Inl Out_Of_Bounds
      | b # bs \<Rightarrow>
          Inr (entity\<lparr>am_pdu_without_poll := 0, am_byte_without_poll := 0,
                      am_poll_sn := crem (am_tx_next entity - 1 + am_sn_modulus entity) (am_sn_modulus entity),
                      am_t_poll_retransmit_start := am_t_current entity\<rparr>,
               (b OR 0x40) # bs))"

definition check_poll_after_pdu_assembly :: "nr_rlc_entity_am_t \<Rightarrow> bool" where
  "check_poll_after_pdu_assembly entity \<longleftrightarrow>
     (am_tx_list entity = [] \<and> am_retransmit_list entity = []) \<or> is_window_stalling entity"

section \<open>Data PDUs\<close>

definition am_header_fields :: "nr_rlc_entity_am_t \<Rightarrow> nr_rlc_sdu_segment_t \<Rightarrow> int \<Rightarrow> (int \<times> nat) list" where
  "am_header_fields entity sdu sn =
     [(1, 1), (0, 1), (1 - of_bool (seg_is_first sdu), 1), (1 - of_bool (seg_is_last sdu), 1)]
     @ (if am_sn_field_length entity = 18 then [(0, 2)] else [])
     @ [(sn, am_sn_field_length entity)]
     @ (if \<not> seg_is_first sdu then [(seg_so sdu, 16)] else [])"

definition am_serialize_sdu ::
    "nr_rlc_entity_am_t \<Rightarrow> nr_rlc_sdu_segment_t \<Rightarrow> bytes \<Rightarrow> bool \<Rightarrow> (int \<times> bytes \<times> nr_rlc_entity_am_t) res" where
  "am_serialize_sdu entity sdu buffer p =
     bindR (deref (ent_heap (am_common entity)) (seg_sdu sdu)) (\<lambda>d.
     bindR (put_fields (nr_rlc_pdu_encoder_init buffer) (am_header_fields entity sdu (sdu_sn d))) (\<lambda>enc.
     bindR (mem_read (sdu_data d) (seg_so sdu) (seg_size sdu)) (\<lambda>bs.
     bindR (mem_write (enc_buffer enc) (enc_byte enc) bs) (\<lambda>buffer'.
     bindR (if p then include_poll entity buffer' else Inr (entity, buffer')) (\<lambda>(e, buffer'').
       Inr (int (enc_byte enc) + seg_size sdu, buffer'', e))))))"

text \<open>The result is the segment cut to fit, and the segment of the remaining bytes.\<close>

definition am_resegment ::
    "nr_rlc_sdu_segment_t \<Rightarrow> nr_rlc_entity_am_t \<Rightarrow> int
      \<Rightarrow> (nr_rlc_sdu_segment_t \<times> nr_rlc_sdu_segment_t \<times> nr_rlc_entity_am_t) res" where
  "am_resegment sdu entity pdu_sz =
     (let c = am_common entity; h = ent_heap c
      in bindR (deref h (seg_sdu sdu)) (\<lambda>d.
         let h1 = store h (seg_sdu sdu) (d\<lparr>sdu_ref_count := sdu_ref_count d + 1\<rparr>);
             over_size = am_compute_pdu_header_size entity sdu + seg_size sdu - pdu_sz;
             s = sdu\<lparr>seg_size := seg_size sdu - over_size, seg_is_last := False\<rparr>;
             next = sdu\<lparr>seg_addr := hp_brk h1, seg_size := over_size,
                        seg_so := seg_so s + seg_size s, seg_is_first := False\<rparr>
         in Inr (s, next, entity\<lparr>am_common := with_heap (h1\<lparr>hp_brk := hp_brk h1 + 1\<rparr>) c\<rparr>)))"

text \<open>
  Whether a segment comes after the one \<^verbatim>\<open>wait_end\<close> points to, which is read through the
  pointer; then the insertion into the wait list.
\<close>

definition after_wait_end :: "nr_rlc_entity_am_t \<Rightarrow> nr_rlc_sdu_segment_t \<Rightarrow> bool res" where
  "after_wait_end entity sdu =
     (case am_wait_end entity of
        None \<Rightarrow> Inr True
      | Some a \<Rightarrow>
          (case dropWhile (\<lambda>x. seg_addr x \<noteq> a) (am_wait_list entity) of
             [] \<Rightarrow> Inl Use_After_Free
           | w # _ \<Rightarrow>
               bindR (deref (ent_heap (am_common entity)) (seg_sdu sdu)) (\<lambda>d.
               bindR (deref (ent_heap (am_common entity)) (seg_sdu w)) (\<lambda>dw.
                 let c = am_sn_compare_tx entity (sdu_sn d) (sdu_sn dw)
                 in Inr (c > 0 \<or> (c = 0 \<and> seg_so sdu > seg_so w))))))"

definition put_in_wait_list :: "nr_rlc_entity_am_t \<Rightarrow> nr_rlc_sdu_segment_t \<Rightarrow> nr_rlc_entity_am_t res" where
  "put_in_wait_list entity sdu =
     bindR (after_wait_end entity sdu) (\<lambda>b.
       if b
       then bindR (nr_rlc_sdu_segment_list_append (am_wait_list entity) (am_wait_end entity) sdu)
              (\<lambda>(l, tail). Inr (entity\<lparr>am_wait_list := l, am_wait_end := tail\<rparr>))
       else bindR (nr_rlc_tx_sdu_segment_list_add entity (am_wait_list entity) sdu) (\<lambda>l.
              Inr (entity\<lparr>am_wait_list := l,
                          am_wait_end := (case l of [x] \<Rightarrow> Some (seg_addr x) | _ \<Rightarrow> am_wait_end entity)\<rparr>)))"

definition take_force_poll :: "nr_rlc_entity_am_t \<Rightarrow> bool \<Rightarrow> bool \<times> nr_rlc_entity_am_t" where
  "take_force_poll entity p = (p \<or> am_force_poll entity, entity\<lparr>am_force_poll := False\<rparr>)"

definition generate_retx_pdu :: "nr_rlc_entity_am_t \<Rightarrow> bytes \<Rightarrow> (int \<times> bytes \<times> nr_rlc_entity_am_t) res" where
  "generate_retx_pdu entity buffer =
     (case am_retransmit_list entity of
        [] \<Rightarrow> Inl Null_Deref
      | sdu # rest \<Rightarrow>
          let n = int (length buffer);
              pdu_header_size = am_compute_pdu_header_size entity sdu;
              pdu_sz = pdu_header_size + seg_size sdu
          in if pdu_header_size + 1 > n then Inr (0, buffer, entity)
             else
               let e0 = entity\<lparr>am_retransmit_list := rest,
                               am_common := add_bs_retx (- pdu_sz) (am_common entity)\<rparr>
               in bindR (if pdu_sz > n
                         then bindR (am_resegment sdu e0 n) (\<lambda>(s, next, e1).
                           Inr (s, e1\<lparr>am_retransmit_list := next # am_retransmit_list e1,
                                      am_common :=
                                        with_stats (\<lambda>st. st\<lparr>txpdu_segmented := txpdu_segmented st + 1\<rparr>)
                                          (add_bs_retx (am_compute_pdu_header_size e1 next + seg_size next)
                                             (am_common e1))\<rparr>))
                         else Inr (sdu, e0)) (\<lambda>(s, e2).
                  bindR (put_in_wait_list e2 s) (\<lambda>e3.
                  let (p, e4) = take_force_poll e3 (check_poll_after_pdu_assembly e3)
                  in bindR (am_serialize_sdu e4 s buffer p) (\<lambda>(ret_size, buffer', e5).
                       Inr (ret_size, buffer',
                            e5\<lparr>am_common := with_stats (\<lambda>st.
                                  st\<lparr>txpdu_pkts := txpdu_pkts st + 1,
                                     txpdu_bytes := txpdu_bytes st + word_of_int ret_size,
                                     txpdu_retx_pkts := txpdu_retx_pkts st + 1,
                                     txpdu_retx_bytes := txpdu_retx_bytes st + word_of_int ret_size\<rparr>)
                                (am_common e5)\<rparr>)))))"

text \<open>A new SDU gets its sequence number when its first bytes are sent.\<close>

definition assign_sn :: "nr_rlc_entity_am_t \<Rightarrow> nr_rlc_sdu_segment_t \<Rightarrow> nr_rlc_entity_am_t res" where
  "assign_sn entity sdu =
     bindR (deref (ent_heap (am_common entity)) (seg_sdu sdu)) (\<lambda>d.
       Inr (if sdu_sn d = -1
            then entity\<lparr>am_common := with_heap (store (ent_heap (am_common entity)) (seg_sdu sdu)
                                                  (d\<lparr>sdu_sn := am_tx_next entity\<rparr>)) (am_common entity),
                        am_tx_next := crem (am_tx_next entity + 1) (am_sn_modulus entity)\<rparr>
            else entity))"

definition poll_new_pdu :: "nr_rlc_entity_am_t \<Rightarrow> nr_rlc_sdu_segment_t \<Rightarrow> bool \<times> nr_rlc_entity_am_t" where
  "poll_new_pdu entity sdu =
     (let e = entity\<lparr>am_pdu_without_poll := am_pdu_without_poll entity + 1,
                     am_byte_without_poll := am_byte_without_poll entity + seg_size sdu\<rparr>
      in take_force_poll e
           ((am_poll_pdu e \<noteq> -1 \<and> am_pdu_without_poll e \<ge> am_poll_pdu e)
            \<or> (am_poll_byte e \<noteq> -1 \<and> am_byte_without_poll e \<ge> am_poll_byte e)
            \<or> check_poll_after_pdu_assembly e))"

definition am_generate_tx_pdu ::
    "u64 \<Rightarrow> nr_rlc_entity_am_t \<Rightarrow> bytes \<Rightarrow> (int \<times> bytes \<times> nr_rlc_entity_am_t) res" where
  "am_generate_tx_pdu now entity buffer =
     (if is_window_stalling entity then Inr (0, buffer, entity)
      else case am_tx_list entity of
        [] \<Rightarrow> Inr (0, buffer, entity)
      | sdu # rest \<Rightarrow>
          let n = int (length buffer);
              pdu_header_size = am_compute_pdu_header_size entity sdu;
              pdu_sz = pdu_header_size + seg_size sdu
          in if pdu_header_size + 1 > n then Inr (0, buffer, entity)
             else
               bindR (assign_sn
                        (entity\<lparr>am_tx_list := rest, am_tx_end := (if rest = [] then None else am_tx_end entity),
                                am_common := add_bs_tx (- pdu_sz) (am_common entity)\<rparr>) sdu) (\<lambda>e0.
               bindR (if pdu_sz > n
                      then bindR (am_resegment sdu e0 n) (\<lambda>(s, next, e1).
                        Inr (s, e1\<lparr>am_tx_list := next # am_tx_list e1,
                                   am_tx_end := (case am_tx_end e1 of None \<Rightarrow> Some (seg_addr next) | Some a \<Rightarrow> Some a),
                                   am_common :=
                                     add_bs_tx (am_compute_pdu_header_size e1 next + seg_size next)
                                       (with_stats (\<lambda>st. st\<lparr>txpdu_segmented := txpdu_segmented st + 1\<rparr>)
                                          (am_common e1))\<rparr>))
                      else Inr (sdu, e0)) (\<lambda>(s, e2).
               bindR (put_in_wait_list e2 s) (\<lambda>e3.
               let (p, e4) = poll_new_pdu e3 s
               in bindR (am_serialize_sdu e4 s buffer p) (\<lambda>(ret_size, buffer', e5).
                  bindR (deref (ent_heap (am_common e5)) (seg_sdu s)) (\<lambda>d.
                    Inr (ret_size, buffer',
                         e5\<lparr>am_common := record_waited_time now d
                               (with_stats (\<lambda>st. st\<lparr>txpdu_pkts := txpdu_pkts st + 1,
                                                   txpdu_bytes := txpdu_bytes st + word_of_int ret_size\<rparr>)
                                  (am_common e5))\<rparr>)))))))"

definition nr_rlc_entity_am_buffer_status ::
    "nr_rlc_entity_am_t \<Rightarrow> int \<Rightarrow> nr_rlc_entity_buffer_status_t res" where
  "nr_rlc_entity_am_buffer_status entity maxsize =
     bindR (if status_to_report entity then status_size entity maxsize else Inr 0) (\<lambda>st.
       Inr \<lparr> bs_status_size = st, bs_tx_size = bs_tx_size (ent_bstatus (am_common entity)),
             bs_retx_size = bs_retx_size (ent_bstatus (am_common entity)) \<rparr>)"

text \<open>A status report that fits goes first, then a retransmission, then new data.\<close>

definition nr_rlc_entity_am_generate_pdu ::
    "u64 \<Rightarrow> nr_rlc_entity_am_t \<Rightarrow> bytes \<Rightarrow> (int \<times> bytes \<times> nr_rlc_entity_am_t) res" where
  "nr_rlc_entity_am_generate_pdu now entity buffer =
     bindR (if status_to_report entity then generate_status entity buffer else Inr (0, buffer, entity))
       (\<lambda>(ret, buffer1, e1).
         if ret \<noteq> 0 then Inr (ret, buffer1, e1)
         else
           bindR (if am_retransmit_list e1 \<noteq> [] then generate_retx_pdu e1 buffer1 else Inr (0, buffer1, e1))
             (\<lambda>(ret2, buffer2, e2).
               if ret2 \<noteq> 0 then Inr (ret2, buffer2, e2)
               else am_generate_tx_pdu now e2 buffer2))"

section \<open>SDUs from the upper layer\<close>

definition am_log_rejected :: "nr_rlc_entity_am_t \<Rightarrow> nr_rlc_entity_am_t" where
  "am_log_rejected e =
     (if am_sdu_rejected e \<noteq> 0 \<and> am_t_current e > am_t_log_buffer_full e + 1000
      then e\<lparr>am_sdu_rejected := 0, am_t_log_buffer_full := am_t_current e\<rparr> else e)"

definition nr_rlc_entity_am_recv_sdu ::
    "u64 \<Rightarrow> nr_rlc_entity_am_t \<Rightarrow> bytes \<Rightarrow> int \<Rightarrow> nr_rlc_entity_am_t res" where
  "nr_rlc_entity_am_recv_sdu now entity0 buffer sdu_id =
     (let n = int (length buffer);
          e0 = entity0\<lparr>am_common :=
                 with_stats (\<lambda>st. st\<lparr>rxsdu_pkts := rxsdu_pkts st + 1\<rparr>) (am_common entity0)\<rparr>
      in if n > NR_SDU_MAX then Inl Abort
         else
           let entity = am_log_rejected e0
           in if am_tx_size entity + n > am_tx_maxsize entity
              then Inr (entity\<lparr>am_sdu_rejected := am_sdu_rejected entity + 1,
                               am_common :=
                                 with_stats (\<lambda>st. st\<lparr>txpdu_dd_pkts := txpdu_dd_pkts st + 1,
                                                    txpdu_dd_bytes := txpdu_dd_bytes st + of_nat (length buffer)\<rparr>)
                                   (am_common entity)\<rparr>)
              else
                let c = with_stats (\<lambda>st. st\<lparr>rxsdu_bytes := rxsdu_bytes st + of_nat (length buffer)\<rparr>)
                          (am_common entity);
                    (h, sdu) = nr_rlc_new_sdu (ent_heap c) buffer sdu_id
                in bindR (nr_rlc_sdu_segment_list_append (am_tx_list entity) (am_tx_end entity) sdu) (\<lambda>(l, tail).
                   bindR (stamp_arrival now sdu
                           (add_bs_tx (am_compute_pdu_header_size entity sdu + seg_size sdu) (with_heap h c))) (\<lambda>c'.
                     Inr (entity\<lparr>am_tx_size := am_tx_size entity + n, am_tx_list := l,
                                 am_tx_end := tail, am_common := c'\<rparr>))))"

section \<open>Time\<close>

text \<open>
  All segments of the first SDU of the wait list go to the retransmit list. The list argument is the
  wait list; its first segment is moved in any case.
\<close>

definition move_to_retransmit ::
    "nr_rlc_entity_am_t \<Rightarrow> nr_rlc_sdu_segment_t \<Rightarrow> nr_rlc_sdu_segment_t list \<Rightarrow> nr_rlc_entity_am_t res" where
  "move_to_retransmit entity cur rest =
     (let e = entity\<lparr>am_wait_list := rest, am_wait_end := (if rest = [] then None else am_wait_end entity),
                     am_common := add_bs_retx (am_compute_pdu_header_size entity cur + seg_size cur)
                                    (am_common entity)\<rparr>
      in bindR (nr_rlc_tx_sdu_segment_list_add e (am_retransmit_list e) cur) (\<lambda>l.
           Inr (e\<lparr>am_retransmit_list := l\<rparr>)))"

fun retransmit_sdu_loop ::
    "nr_rlc_entity_am_t \<Rightarrow> int \<Rightarrow> nr_rlc_sdu_segment_t list \<Rightarrow> nr_rlc_entity_am_t res" where
  "retransmit_sdu_loop entity retransmit_sn [] = Inl Null_Deref"
| "retransmit_sdu_loop entity retransmit_sn (cur # rest) =
     bindR (move_to_retransmit entity cur rest) (\<lambda>e.
       case rest of
         [] \<Rightarrow> Inr e
       | n # _ \<Rightarrow> bindR (deref (ent_heap (am_common e)) (seg_sdu n)) (\<lambda>d.
           if sdu_sn d = retransmit_sn then retransmit_sdu_loop e retransmit_sn rest else Inr e))"

definition check_t_poll_retransmit :: "nr_rlc_entity_am_t \<Rightarrow> nr_rlc_entity_am_t res" where
  "check_t_poll_retransmit entity0 =
     (if am_t_poll_retransmit_start entity0 = 0
         \<or> am_t_current entity0 \<le> am_t_poll_retransmit_start entity0 + word_of_int (am_t_poll_retransmit entity0)
      then Inr entity0
      else
        let entity = entity0\<lparr>am_t_poll_retransmit_start := 0, am_force_poll := True\<rparr>
        in if \<not> check_poll_after_pdu_assembly entity then Inr entity
           else case am_wait_list entity of
             [] \<Rightarrow> Inl Null_Deref
           | cur # _ \<Rightarrow>
               bindR (deref (ent_heap (am_common entity)) (seg_sdu cur)) (\<lambda>d.
               let d' = d\<lparr>sdu_retx_count := sdu_retx_count d + 1\<rparr>;
                   e = entity\<lparr>am_common := with_heap (store (ent_heap (am_common entity)) (seg_sdu cur) d')
                                            (am_common entity)\<rparr>
               in bindR (retransmit_sdu_loop e (sdu_sn d') (am_wait_list e)) (\<lambda>e'.
                    Inr (if sdu_retx_count d' \<ge> am_max_retx_threshold e'
                         then e'\<lparr>am_common := emit Max_Retx_Reached (am_common e')\<rparr> else e'))))"

definition am_check_t_reassembly :: "nr_rlc_entity_am_t \<Rightarrow> nr_rlc_entity_am_t res" where
  "am_check_t_reassembly entity =
     (if am_t_reassembly_start entity = 0
         \<or> am_t_current entity \<le> am_t_reassembly_start entity + word_of_int (am_t_reassembly entity)
      then Inr entity
      else
        bindR (am_skip_delivered (entity\<lparr>am_t_reassembly_start := 0\<rparr>) (am_rx_next_status_trigger entity)) (\<lambda>sn.
        let e = entity\<lparr>am_t_reassembly_start := 0, am_rx_highest_status := sn, am_status_triggered := True\<rparr>;
            next = crem (am_rx_highest_status e + 1) (am_sn_modulus e)
        in bindR (if am_sn_compare_rx e (am_rx_next_highest e) next > 0 then Inr True
                  else if am_rx_next_highest e = next then am_sdu_has_missing_bytes e (am_rx_highest_status e)
                  else Inr False) (\<lambda>restart.
             Inr (if restart
                  then e\<lparr>am_t_reassembly_start := am_t_current e, am_rx_next_status_trigger := am_rx_next_highest e\<rparr>
                  else e))))"

definition nr_rlc_entity_am_set_time :: "nr_rlc_entity_am_t \<Rightarrow> u64 \<Rightarrow> nr_rlc_entity_am_t res" where
  "nr_rlc_entity_am_set_time entity now =
     bindR (check_t_poll_retransmit (entity\<lparr>am_t_current := now\<rparr>)) am_check_t_reassembly"

section \<open>Discard, re-establishment, deletion\<close>

definition nr_rlc_entity_am_discard_sdu :: "nr_rlc_entity_am_t \<Rightarrow> int \<Rightarrow> nr_rlc_entity_am_t res" where
  "nr_rlc_entity_am_discard_sdu entity sdu_id =
     bindR (find_sdu (ent_heap (am_common entity)) sdu_id (am_tx_list entity)) (\<lambda>(before, from).
       case from of
         [] \<Rightarrow> Inr entity
       | cur # behind \<Rightarrow>
           if \<not> seg_is_first cur \<or> \<not> seg_is_last cur then Inr entity
           else
             let tail = (if am_tx_end entity = Some (seg_addr cur)
                         then (if before = [] then None else Some (seg_addr (last before)))
                         else am_tx_end entity);
                 c = add_bs_tx (- (am_compute_pdu_header_size entity cur + seg_size cur)) (am_common entity)
             in bindR (deref (ent_heap c) (seg_sdu cur)) (\<lambda>d.
                bindR (nr_rlc_free_sdu_segment (ent_heap c) cur) (\<lambda>(h, _).
                  Inr (entity\<lparr>am_tx_list := before @ behind, am_tx_end := tail,
                              am_tx_size := am_tx_size entity - sdu_size d, am_common := with_heap h c\<rparr>))))"

definition am_clear_entity :: "nr_rlc_entity_am_t \<Rightarrow> nr_rlc_entity_am_t res" where
  "am_clear_entity entity =
     bindR (nr_rlc_free_sdu_segment_list (ent_heap (am_common entity)) (am_tx_list entity)) (\<lambda>h1.
     bindR (nr_rlc_free_sdu_segment_list h1 (am_wait_list entity)) (\<lambda>h2.
     bindR (nr_rlc_free_sdu_segment_list h2 (am_retransmit_list entity)) (\<lambda>h.
       Inr (entity\<lparr>am_rx_next := 0, am_rx_next_status_trigger := 0, am_rx_highest_status := 0,
                   am_rx_next_highest := 0, am_status_triggered := False,
                   am_tx_next := 0, am_tx_next_ack := 0, am_poll_sn := 0, am_pdu_without_poll := 0,
                   am_byte_without_poll := 0, am_force_poll := False,
                   am_t_current := 0, am_t_log_buffer_full := 0, am_sdu_rejected := 0,
                   am_t_poll_retransmit_start := 0, am_t_reassembly_start := 0, am_t_status_prohibit_start := 0,
                   am_rx := nr_rlc_clear_rx_manager (am_rx entity), am_rx_size := 0,
                   am_tx_list := [], am_tx_end := None, am_tx_size := 0,
                   am_wait_list := [], am_wait_end := None, am_retransmit_list := [],
                   am_common := with_bstatus (\<lambda>b. b\<lparr>bs_tx_size := 0, bs_retx_size := 0\<rparr>)
                                  (with_heap h (am_common entity))\<rparr>))))"

definition nr_rlc_entity_am_reestablishment :: "nr_rlc_entity_am_t \<Rightarrow> nr_rlc_entity_am_t res" where
  "nr_rlc_entity_am_reestablishment entity = am_clear_entity entity"

definition nr_rlc_entity_am_delete :: "nr_rlc_entity_am_t \<Rightarrow> sdu_heap res" where
  "nr_rlc_entity_am_delete entity = bindR (am_clear_entity entity) (\<lambda>e. Inr (ent_heap (am_common e)))"

definition nr_rlc_entity_am_available_tx_space :: "nr_rlc_entity_am_t \<Rightarrow> int" where
  "nr_rlc_entity_am_available_tx_space entity = am_tx_maxsize entity - am_tx_size entity"

definition nr_rlc_entity_am_tx_list_occupancy :: "nr_rlc_entity_am_t \<Rightarrow> int" where
  "nr_rlc_entity_am_tx_list_occupancy entity = am_tx_size entity"

end
