(* ===== verification/Rlc_Am_Control.thy ===== *)
theory Rlc_Am_Control
  imports Rlc_Am_Tx
begin

text \<open>
  Model of \<^verbatim>\<open>openair2/LAYER2/nr_rlc/nr_rlc_entity_am.c\<close>, last part: status PDUs of the
  peer (\<^verbatim>\<open>process_control_pdu\<close>) and the entry point of reception.
\<close>

definition so_overlap :: "int \<Rightarrow> int \<Rightarrow> int \<Rightarrow> int \<Rightarrow> bool" where
  "so_overlap s1 e1 s2 e2 = (if s1 < s2 then e1 = -1 \<or> e1 \<ge> s2 else e2 = -1 \<or> s1 \<le> e2)"

section \<open>Reading and validation\<close>

record am_nack =
  nk_sn :: int
  nk_so_start :: int
  nk_so_end :: int
  nk_range :: int

definition read_nack :: "nr_rlc_entity_am_t \<Rightarrow> nr_rlc_pdu_decoder_t \<Rightarrow> (am_nack \<times> int \<times> nr_rlc_pdu_decoder_t) option res" where
  "read_nack entity d =
     (let err = (\<lambda>_. Inr None); r_bits = (if am_sn_field_length entity = 18 then 3 else 1)
      in read_field d (am_sn_field_length entity) err (\<lambda>nack_sn d0.
         read_field d0 1 err (\<lambda>e1 d1.
         read_field d1 1 err (\<lambda>e2 d2.
         read_field d2 1 err (\<lambda>e3 d3.
         read_field d3 r_bits err (\<lambda>_ d4.
         (if e2 \<noteq> 0 then read_field d4 16 err else (\<lambda>f. f 0 d4)) (\<lambda>so_start d5.
         (if e2 \<noteq> 0 then read_field d5 16 err else (\<lambda>f. f 0xffff d5)) (\<lambda>so_end d6.
         (if e3 \<noteq> 0 then read_field d6 8 err else (\<lambda>f. f 1 d6)) (\<lambda>range d7.
           Inr (Some (\<lparr> nk_sn = nack_sn, nk_so_start = so_start,
                        nk_so_end = (if so_end = 0xffff then -1 else so_end), nk_range = range \<rparr>,
                      e1, d7)))))))))))"

text \<open>The sequence numbers of a NACK, each with its part of the range of bytes.\<close>

definition cur_nacks :: "nr_rlc_entity_am_t \<Rightarrow> am_nack \<Rightarrow> (int \<times> int \<times> int) list" where
  "cur_nacks entity k =
     map (\<lambda>i. (crem (nk_sn k + int i) (am_sn_modulus entity),
               if i = 0 then nk_so_start k else 0,
               if int i = nk_range k - 1 then nk_so_end k else -1)) [0 ..< nat (nk_range k)]"

text \<open>\<open>prev\<close> is \<^verbatim>\<open>prev_nack_sn\<close> and \<^verbatim>\<open>prev_so_end\<close>.\<close>

definition nack_valid :: "nr_rlc_entity_am_t \<Rightarrow> int \<times> int \<Rightarrow> int \<Rightarrow> int \<times> int \<times> int \<Rightarrow> bool" where
  "nack_valid entity prev ack_sn x =
     (case (prev, x) of ((prev_nack_sn, prev_so_end), (cur_nack_sn, cur_so_start, cur_so_end)) \<Rightarrow>
        let cmp = am_sn_compare_tx entity cur_nack_sn prev_nack_sn
        in \<not> (prev_nack_sn \<noteq> -1 \<and> (cmp < 0 \<or> (cmp = 0 \<and> (prev_so_end = -1 \<or> cur_so_start \<le> prev_so_end))))
           \<and> \<not> am_sn_compare_tx entity cur_nack_sn ack_sn > 0)"

text \<open>
  The loop of the first pass. The previous NACK it compares with is the initial one in every round.
  The number of rounds is bounded by the length of the buffer, since a NACK takes two bytes or more.
\<close>

fun read_nacks :: "nat \<Rightarrow> nr_rlc_entity_am_t \<Rightarrow> int \<times> int \<Rightarrow> int \<Rightarrow> int \<Rightarrow> nr_rlc_pdu_decoder_t \<Rightarrow> am_nack list option res" where
  "read_nacks fuel entity prev ack_sn e1 d =
     (if e1 = 0 then Inr (Some [])
      else case fuel of
        0 \<Rightarrow> Inl Hang
      | Suc n \<Rightarrow> bindR (read_nack entity d) (\<lambda>r.
          case r of
            None \<Rightarrow> Inr None
          | Some (k, e1', d') \<Rightarrow>
              if list_all (nack_valid entity prev ack_sn) (cur_nacks entity k)
              then bindR (read_nacks n entity prev ack_sn e1' d') (\<lambda>ks. Inr (map_option (Cons k) ks))
              else Inr None))"

declare read_nacks.simps [simp del]

text \<open>
  The acknowledged sequence number and the NACKs of a valid status PDU. The second pass of the source
  reads the same fields again, without checks.
\<close>

definition read_status :: "nr_rlc_entity_am_t \<Rightarrow> bytes \<Rightarrow> (int \<times> am_nack list) option res" where
  "read_status entity buffer =
     (let err = (\<lambda>_. Inr None)
      in read_field (nr_rlc_pdu_decoder_init buffer) 1 err (\<lambda>_ d0.
         read_field d0 3 err (\<lambda>cpt d1.
         if cpt \<noteq> 0 then Inr None
         else
           read_field d1 (am_sn_field_length entity) err (\<lambda>ack_sn d2.
           read_field d2 1 err (\<lambda>e1 d3.
           read_field d3 (if am_sn_field_length entity = 18 then 1 else 7) err (\<lambda>_ d4.
             if am_sn_compare_tx entity ack_sn (am_tx_next entity) > 0 then Inr None
             else bindR (read_nacks (length buffer) entity (-1, 0) ack_sn e1 d4) (\<lambda>ks.
                    Inr (map_option (Pair ack_sn) ks))))))))"

section \<open>Processing\<close>

text \<open>
  The local variables of the second pass. \<open>ctl_prev\<close> is the part of the wait list up to
  \<^verbatim>\<open>prev_wait_list\<close>, \<open>ctl_wait\<close> is \<^verbatim>\<open>cur_wait_list\<close>, and \<open>ctl_hidden\<close> is
  what stays linked behind \<^verbatim>\<open>prev_wait_list\<close> when \<^verbatim>\<open>cur_wait_list\<close> is set
  to null. \<open>ctl_new\<close> is the new retransmit list up to \<^verbatim>\<open>new_retransmit_list\<close> and
  \<open>ctl_new_next\<close> what the next pointer of that segment refers to. \<open>ctl_end\<close> is
  \<^verbatim>\<open>end_wait_list\<close>: null, the address of the head, or the address of a segment.
\<close>

record am_ctl =
  ctl_entity :: nr_rlc_entity_am_t
  ctl_prev :: "nr_rlc_sdu_segment_t list"
  ctl_wait :: "nr_rlc_sdu_segment_t list"
  ctl_hidden :: "nr_rlc_sdu_segment_t list"
  ctl_retx :: "nr_rlc_sdu_segment_t list"
  ctl_new :: "nr_rlc_sdu_segment_t list"
  ctl_new_next :: "nr_rlc_sdu_segment_t list"
  ctl_end :: "nat option option"

definition ctl_sdu :: "am_ctl \<Rightarrow> nr_rlc_sdu_segment_t \<Rightarrow> nr_rlc_sdu_t res" where
  "ctl_sdu c s = deref (ent_heap (am_common (ctl_entity c))) (seg_sdu s)"

text \<open>Unlinking the first segment of the wait list.\<close>

definition unlink_wait :: "am_ctl \<Rightarrow> am_ctl" where
  "unlink_wait c =
     (case ctl_wait c of
        [] \<Rightarrow> c
      | cur # rest \<Rightarrow>
          c\<lparr>ctl_wait := rest,
            ctl_end := (if am_wait_end (ctl_entity c) = Some (seg_addr cur)
                        then Some (if ctl_prev c = [] then None else Some (seg_addr (last (ctl_prev c))))
                        else ctl_end c)\<rparr>)"

text \<open>Appending a segment to the new retransmit list.\<close>

definition link_new :: "am_ctl \<Rightarrow> nr_rlc_sdu_segment_t \<Rightarrow> am_ctl" where
  "link_new c s = c\<lparr>ctl_new := ctl_new c @ [s], ctl_new_next := []\<rparr>"

text \<open>An acknowledged segment is freed; the last one of an SDU reports its delivery.\<close>

definition free_acked :: "nr_rlc_entity_am_t \<Rightarrow> nr_rlc_sdu_segment_t \<Rightarrow> nr_rlc_entity_am_t res" where
  "free_acked entity cur =
     (let c = am_common entity
      in bindR (deref (ent_heap c) (seg_sdu cur)) (\<lambda>d.
         bindR (nr_rlc_free_sdu_segment (ent_heap c) cur) (\<lambda>(h, freed).
           Inr (if freed
                then entity\<lparr>am_tx_size := am_tx_size entity - sdu_size d,
                            am_common := emit (Sdu_Successful_Delivery (sdu_upper_layer_id d))
                              (with_stats (\<lambda>st. st\<lparr>txsdu_bytes := txsdu_bytes st + word_of_int (sdu_size d)\<rparr>)
                                 (with_heap h c))\<rparr>
                else entity\<lparr>am_common := with_heap h c\<rparr>))))"

definition free_acked_wait :: "am_ctl \<Rightarrow> nr_rlc_sdu_segment_t \<Rightarrow> am_ctl res" where
  "free_acked_wait c cur =
     bindR (free_acked (ctl_entity c) cur) (\<lambda>e. Inr ((unlink_wait c)\<lparr>ctl_entity := e\<rparr>))"

definition free_acked_retx :: "am_ctl \<Rightarrow> nr_rlc_sdu_segment_t \<Rightarrow> am_ctl res" where
  "free_acked_retx c cur =
     (let e0 = ctl_entity c;
          e1 = e0\<lparr>am_common := add_bs_retx (- (am_compute_pdu_header_size e0 cur + seg_size cur)) (am_common e0)\<rparr>
      in bindR (free_acked e1 cur) (\<lambda>e. Inr (c\<lparr>ctl_entity := e, ctl_retx := tl (ctl_retx c)\<rparr>)))"

text \<open>A segment of the wait list that a NACK asks for goes to the new retransmit list.\<close>

definition nack_wait :: "am_ctl \<Rightarrow> nr_rlc_sdu_segment_t \<Rightarrow> am_ctl res" where
  "nack_wait c cur =
     bindR (ctl_sdu c cur) (\<lambda>d.
       let e = ctl_entity c;
           d' = d\<lparr>sdu_retx_count := sdu_retx_count d + 1\<rparr>;
           c1 = with_heap (store (ent_heap (am_common e)) (seg_sdu cur) d') (am_common e);
           c2 = (if sdu_retx_count d' \<ge> am_max_retx_threshold e * sdu_ref_count d'
                 then emit Max_Retx_Reached c1 else c1);
           c3 = add_bs_retx (am_compute_pdu_header_size e cur + seg_size cur) c2
       in Inr ((link_new (unlink_wait c) cur)\<lparr>ctl_entity := e\<lparr>am_common := c3\<rparr>\<rparr>))"

datatype ctl_next = Again | Done_Nack | Lists_Over

definition process_wait_list_head ::
    "int \<Rightarrow> int \<times> int \<times> int \<Rightarrow> am_ctl \<Rightarrow> nr_rlc_sdu_segment_t \<Rightarrow> (ctl_next \<times> am_ctl) res" where
  "process_wait_list_head ack_sn x c cur =
     (case x of (cur_nack_sn, cur_so_start, cur_so_end) \<Rightarrow>
        bindR (ctl_sdu c cur) (\<lambda>d.
          let e = ctl_entity c; cmp = am_sn_compare_tx e (sdu_sn d) cur_nack_sn;
              acked = am_sn_compare_tx e (sdu_sn d) ack_sn
          in if sdu_sn d = cur_nack_sn
                \<and> so_overlap cur_so_start cur_so_end (seg_so cur) (seg_so cur + seg_size cur - 1)
             then bindR (nack_wait c cur) (\<lambda>c'. Inr (Again, c'))
             else if cmp > 0 \<or> (cmp = 0 \<and> seg_so cur > cur_so_start) then Inr (Done_Nack, c)
             else if acked < 0 then bindR (free_acked_wait c cur) (\<lambda>c'. Inr (Again, c'))
             else if acked > 0 then Inr (Again, c\<lparr>ctl_wait := [], ctl_hidden := ctl_wait c\<rparr>)
             else Inr (Again, c\<lparr>ctl_prev := ctl_prev c @ [cur], ctl_wait := tl (ctl_wait c)\<rparr>)))"

definition process_retransmit_list_head ::
    "int \<Rightarrow> int \<times> int \<times> int \<Rightarrow> am_ctl \<Rightarrow> nr_rlc_sdu_segment_t \<Rightarrow> (ctl_next \<times> am_ctl) res" where
  "process_retransmit_list_head ack_sn x c cur =
     (case x of (cur_nack_sn, cur_so_start, cur_so_end) \<Rightarrow>
        bindR (ctl_sdu c cur) (\<lambda>d.
          let e = ctl_entity c; cmp = am_sn_compare_tx e (sdu_sn d) cur_nack_sn
          in if sdu_sn d = cur_nack_sn
                \<and> so_overlap cur_so_start cur_so_end (seg_so cur) (seg_so cur + seg_size cur - 1)
             then Inr (Again, (link_new c cur)\<lparr>ctl_retx := tl (ctl_retx c)\<rparr>)
             else if cmp > 0 \<or> (cmp = 0 \<and> seg_so cur > cur_so_start) then Inr (Done_Nack, c)
             else if am_sn_compare_tx e (sdu_sn d) ack_sn < 0
             then bindR (free_acked_retx c cur) (\<lambda>c'. Inr (Again, c'))
             else if ctl_wait c = [] then Inr (Lists_Over, c\<lparr>ctl_new_next := ctl_retx c, ctl_retx := []\<rparr>)
             else Inr (Again, (link_new c cur)\<lparr>ctl_retx := tl (ctl_retx c)\<rparr>)))"

definition process_next_pdu :: "int \<Rightarrow> int \<times> int \<times> int \<Rightarrow> am_ctl \<Rightarrow> (ctl_next \<times> am_ctl) res" where
  "process_next_pdu ack_sn x c =
     (case (ctl_wait c, ctl_retx c) of
        ([], []) \<Rightarrow> Inr (Lists_Over, c)
      | ([], r # _) \<Rightarrow> process_retransmit_list_head ack_sn x c r
      | (w # _, []) \<Rightarrow> process_wait_list_head ack_sn x c w
      | (w # _, r # _) \<Rightarrow>
          bindR (ctl_sdu c w) (\<lambda>dw.
          bindR (ctl_sdu c r) (\<lambda>dr.
            let cmp = am_sn_compare_tx (ctl_entity c) (sdu_sn dw) (sdu_sn dr)
            in if cmp < 0 \<or> (cmp = 0 \<and> seg_so w < seg_so r)
               then process_wait_list_head ack_sn x c w
               else process_retransmit_list_head ack_sn x c r)))"

lemma unlink_wait_lists:
  "ctl_wait (unlink_wait c) = tl (ctl_wait c)" "ctl_retx (unlink_wait c) = ctl_retx c"
  "ctl_prev (unlink_wait c) = ctl_prev c" "ctl_hidden (unlink_wait c) = ctl_hidden c"
  "ctl_new (unlink_wait c) = ctl_new c" "ctl_new_next (unlink_wait c) = ctl_new_next c"
  "ctl_entity (unlink_wait c) = ctl_entity c"
  by (simp_all add: unlink_wait_def split: list.splits)

lemma wait_head_again:
  "process_wait_list_head a x c cur = Inr (Again, c') \<Longrightarrow> ctl_wait c \<noteq> [] \<Longrightarrow>
     length (ctl_wait c') < length (ctl_wait c) \<and> ctl_retx c' = ctl_retx c"
  by (auto simp: process_wait_list_head_def nack_wait_def free_acked_wait_def bindR_def link_new_def
      unlink_wait_lists Let_def split: sum.splits if_splits prod.splits)

lemma retx_head_again:
  "process_retransmit_list_head a x c cur = Inr (Again, c') \<Longrightarrow> ctl_retx c \<noteq> [] \<Longrightarrow>
     length (ctl_retx c') < length (ctl_retx c) \<and> ctl_wait c' = ctl_wait c"
  by (auto simp: process_retransmit_list_head_def free_acked_retx_def bindR_def link_new_def
      Let_def split: sum.splits if_splits prod.splits)

lemma process_next_pdu_again:
  assumes "process_next_pdu a x c = Inr (Again, c')"
  shows "length (ctl_wait c') + length (ctl_retx c') < length (ctl_wait c) + length (ctl_retx c)"
  using assms
  by (auto simp: process_next_pdu_def bindR_def Let_def
      dest!: wait_head_again retx_head_again split: sum.splits if_splits list.splits)

text \<open>
  The segments handled for one NACK of one sequence number. The result tells whether both lists are
  used up, which leaves the loop over the range.
\<close>

function process_nack :: "int \<Rightarrow> int \<times> int \<times> int \<Rightarrow> am_ctl \<Rightarrow> (bool \<times> am_ctl) res" where
  "process_nack ack_sn x c =
     (case process_next_pdu ack_sn x c of
        Inl err \<Rightarrow> Inl err
      | Inr (Again, c') \<Rightarrow> process_nack ack_sn x c'
      | Inr (Done_Nack, c') \<Rightarrow> Inr (False, c')
      | Inr (Lists_Over, c') \<Rightarrow> Inr (True, c'))"
  by pat_completeness auto
termination
  by (relation "measure (\<lambda>(_, _, c). length (ctl_wait c) + length (ctl_retx c))")
     (auto dest: process_next_pdu_again)

declare process_nack.simps [simp del]

fun process_range :: "int \<Rightarrow> (int \<times> int \<times> int) list \<Rightarrow> am_ctl \<Rightarrow> am_ctl res" where
  "process_range ack_sn [] c = Inr c"
| "process_range ack_sn (x # xs) c =
     bindR (process_nack ack_sn x c) (\<lambda>(over, c'). if over then Inr c' else process_range ack_sn xs c')"

definition stop_t_poll_retransmit_if :: "bool \<Rightarrow> nr_rlc_entity_am_t \<Rightarrow> nr_rlc_entity_am_t" where
  "stop_t_poll_retransmit_if b e = (if b then e\<lparr>am_t_poll_retransmit_start := 0\<rparr> else e)"

fun process_nacks :: "int \<Rightarrow> am_nack list \<Rightarrow> am_ctl \<Rightarrow> am_ctl res" where
  "process_nacks ack_sn [] c = Inr c"
| "process_nacks ack_sn (k # ks) c =
     bindR (process_range ack_sn (cur_nacks (ctl_entity c) k) c) (\<lambda>c'.
       let e = ctl_entity c'
       in process_nacks ack_sn ks
            (c'\<lparr>ctl_entity := stop_t_poll_retransmit_if
                  (am_sn_compare_tx e (nk_sn k) (am_poll_sn e) \<le> 0
                   \<and> am_sn_compare_tx e (am_poll_sn e) (crem (nk_sn k + nk_range k) (am_sn_modulus e)) < 0) e\<rparr>))"

section \<open>Acknowledgement\<close>

function ack_wait_list :: "int \<Rightarrow> am_ctl \<Rightarrow> am_ctl res" where
  "ack_wait_list ack_sn c =
     (case ctl_wait c of
        [] \<Rightarrow> Inr c
      | cur # _ \<Rightarrow>
          (case ctl_sdu c cur of
             Inl err \<Rightarrow> Inl err
           | Inr d \<Rightarrow>
               if am_sn_compare_tx (ctl_entity c) (sdu_sn d) ack_sn < 0
               then (case free_acked_wait c cur of Inl err \<Rightarrow> Inl err | Inr c' \<Rightarrow> ack_wait_list ack_sn c')
               else Inr c))"
  by pat_completeness auto
termination
  by (relation "measure (\<lambda>(_, c). length (ctl_wait c))")
     (auto simp: free_acked_wait_def bindR_def unlink_wait_lists split: sum.splits)

declare ack_wait_list.simps [simp del]

function ack_retransmit_list :: "int \<Rightarrow> am_ctl \<Rightarrow> am_ctl res" where
  "ack_retransmit_list ack_sn c =
     (case ctl_retx c of
        [] \<Rightarrow> Inr c
      | cur # _ \<Rightarrow>
          (case ctl_sdu c cur of
             Inl err \<Rightarrow> Inl err
           | Inr d \<Rightarrow>
               if am_sn_compare_tx (ctl_entity c) (sdu_sn d) ack_sn < 0
               then (case free_acked_retx c cur of Inl err \<Rightarrow> Inl err | Inr c' \<Rightarrow> ack_retransmit_list ack_sn c')
               else Inr c))"
  by pat_completeness auto
termination
  by (relation "measure (\<lambda>(_, c). length (ctl_retx c))")
     (auto simp: free_acked_retx_def bindR_def Let_def split: sum.splits)

declare ack_retransmit_list.simps [simp del]

definition finish_lists :: "am_ctl \<Rightarrow> nr_rlc_entity_am_t" where
  "finish_lists c =
     (let c' = c\<lparr>ctl_new_next := ctl_retx c\<rparr>; e = ctl_entity c'
      in e\<lparr>am_wait_list := ctl_prev c' @ ctl_wait c' @ ctl_hidden c',
           am_retransmit_list := ctl_new c' @ ctl_new_next c',
           am_wait_end := (case ctl_end c' of None \<Rightarrow> am_wait_end e | Some p \<Rightarrow> p)\<rparr>)"

text \<open>The sequence number of the first segment of a list, when it is below \<open>sn\<close>.\<close>

definition min_head_sn :: "nr_rlc_entity_am_t \<Rightarrow> nr_rlc_sdu_segment_t list \<Rightarrow> int \<Rightarrow> int res" where
  "min_head_sn e l sn =
     (case l of
        [] \<Rightarrow> Inr sn
      | s # _ \<Rightarrow> bindR (deref (ent_heap (am_common e)) (seg_sdu s)) (\<lambda>d.
          Inr (if am_sn_compare_tx e (sdu_sn d) sn < 0 then sdu_sn d else sn)))"

definition update_tx_next_ack :: "int \<Rightarrow> nr_rlc_entity_am_t \<Rightarrow> nr_rlc_entity_am_t res" where
  "update_tx_next_ack ack_sn e =
     bindR (min_head_sn e (am_wait_list e) (am_tx_next e)) (\<lambda>t1.
     bindR (min_head_sn e (am_retransmit_list e) t1) (\<lambda>t2.
       Inr (e\<lparr>am_tx_next_ack := (if am_sn_compare_tx e ack_sn t2 < 0 then ack_sn else t2)\<rparr>)))"

definition process_control_pdu :: "nr_rlc_entity_am_t \<Rightarrow> bytes \<Rightarrow> nr_rlc_entity_am_t res" where
  "process_control_pdu entity buffer =
     bindR (read_status entity buffer) (\<lambda>r.
       case r of
         None \<Rightarrow> Inr entity
       | Some (ack_sn, nacks) \<Rightarrow>
           let e = stop_t_poll_retransmit_if (am_sn_compare_tx entity (am_poll_sn entity) ack_sn < 0) entity
           in bindR (process_nacks ack_sn nacks
                      \<lparr> ctl_entity = e, ctl_prev = [], ctl_wait = am_wait_list e, ctl_hidden = [],
                        ctl_retx = am_retransmit_list e, ctl_new = [], ctl_new_next = [], ctl_end = None \<rparr>) (\<lambda>c1.
              bindR (ack_wait_list ack_sn c1) (\<lambda>c2.
              bindR (ack_retransmit_list ack_sn c2) (\<lambda>c3.
                update_tx_next_ack ack_sn (finish_lists c3)))))"

section \<open>Reception\<close>

definition nr_rlc_entity_am_recv_pdu :: "nr_rlc_entity_am_t \<Rightarrow> bytes \<Rightarrow> nr_rlc_entity_am_t res" where
  "nr_rlc_entity_am_recv_pdu entity0 buffer =
     (let entity = entity0\<lparr>am_common :=
            with_stats (\<lambda>st. st\<lparr>rxpdu_pkts := rxpdu_pkts st + 1,
                               rxpdu_bytes := rxpdu_bytes st + of_nat (length buffer)\<rparr>) (am_common entity0)\<rparr>
      in bindR (am_parse_pdu entity buffer) (\<lambda>r.
         case r of
           Am_Control \<Rightarrow> process_control_pdu entity buffer
         | Am_Discard p \<Rightarrow> Inr (am_discard_pdu entity p (length buffer))
         | Am_Data p sn so is_first is_last data \<Rightarrow>
             am_recv_data_pdu entity p sn so is_first is_last data (length buffer)))"

end
