(* ===== verification/Rlc_Am_Wire.thy ===== *)
theory Rlc_Am_Wire
  imports Rlc_Am_Control
begin

unbundle bit_operations_syntax

text \<open>
  The data PDUs of an acknowledged mode entity on the wire: what \<^verbatim>\<open>serialize_sdu\<close> writes is
  what \<^verbatim>\<open>nr_rlc_entity_am_recv_pdu\<close> reads, with and without the poll bit. The status PDUs
  the entity reads end after a number of rounds bounded by their length.
\<close>

section \<open>Windows\<close>

definition am_sn_ok :: "nr_rlc_entity_am_t \<Rightarrow> bool" where
  "am_sn_ok e \<longleftrightarrow> (am_sn_field_length e = 12 \<or> am_sn_field_length e = 18)
     \<and> am_sn_modulus e = 2 ^ am_sn_field_length e \<and> am_window_size e = am_sn_modulus e div 2"

lemma am_sn_okD:
  assumes "am_sn_ok e"
  shows "0 < am_sn_modulus e" "0 < am_window_size e" "am_sn_modulus e = 2 * am_window_size e"
    "am_sn_modulus e = 2 ^ am_sn_field_length e" "am_sn_field_length e = 12 \<or> am_sn_field_length e = 18"
  using assms by (auto simp: am_sn_ok_def)

definition am_rx_window_ok :: "nr_rlc_entity_am_t \<Rightarrow> bool" where
  "am_rx_window_ok e \<longleftrightarrow> am_sn_ok e \<and> is_sn (am_sn_modulus e) (am_rx_next e)"

definition am_tx_window_ok :: "nr_rlc_entity_am_t \<Rightarrow> bool" where
  "am_tx_window_ok e \<longleftrightarrow> am_sn_ok e \<and> is_sn (am_sn_modulus e) (am_tx_next_ack e)"

interpretation amr: sn_window am_rx_window_ok am_sn_modulus am_rx_next am_modulus_rx
proof unfold_locales
  fix e a assume "am_rx_window_ok e" "is_sn (am_sn_modulus e) a"
  then show "am_modulus_rx e a = (a - am_rx_next e) mod am_sn_modulus e"
    using sub_correct_mod [of "am_sn_modulus e" a "am_rx_next e"] am_sn_okD(1)
    by (simp add: am_modulus_rx_def am_rx_window_ok_def Let_def)
qed (simp add: am_rx_window_ok_def am_sn_okD)

interpretation amt: sn_window am_tx_window_ok am_sn_modulus am_tx_next_ack am_modulus_tx
proof unfold_locales
  fix e a assume "am_tx_window_ok e" "is_sn (am_sn_modulus e) a"
  then show "am_modulus_tx e a = (a - am_tx_next_ack e) mod am_sn_modulus e"
    using sub_correct_mod [of "am_sn_modulus e" a "am_tx_next_ack e"] am_sn_okD(1)
    by (simp add: am_modulus_tx_def am_tx_window_ok_def Let_def)
qed (simp add: am_tx_window_ok_def am_sn_okD)

section \<open>Data PDUs\<close>

lemma am_header_width:
  assumes "am_sn_ok e"
  shows "fields_width (am_header_fields e s sn) = 8 * nat (am_compute_pdu_header_size e s)"
    and "\<forall>(v, n) \<in> set (am_header_fields e s sn). n \<le> 31"
    and "2 \<le> am_compute_pdu_header_size e s" and "am_compute_pdu_header_size e s \<le> 5"
  using am_sn_okD(5) [OF assms] by (auto simp: am_header_fields_def am_compute_pdu_header_size_def)

lemma am_header_cong:
  assumes "am_sn_field_length e' = am_sn_field_length e"
  shows "am_compute_pdu_header_size e' = am_compute_pdu_header_size e" "am_header_fields e' = am_header_fields e"
  by (intro ext, simp only: am_compute_pdu_header_size_def am_header_fields_def assms)+

text \<open>The header with the poll bit.\<close>

definition am_wire_fields :: "nr_rlc_entity_am_t \<Rightarrow> bool \<Rightarrow> nr_rlc_sdu_segment_t \<Rightarrow> int \<Rightarrow> (int \<times> nat) list" where
  "am_wire_fields e p s sn = (1, 1) # (of_bool p, 1) # tl (tl (am_header_fields e s sn))"

lemma byte_bits_poll:
  assumes "byte_bits b = True # False # r"
  shows "byte_bits (b OR 0x40) = True # True # r"
proof -
  have up: "byte_bits w = bit w 7 # bit w 6 # map (\<lambda>i. bit w (7 - i)) [2..<8]" for w
    by (simp add: byte_bits_def upt_rec)
  have "map (\<lambda>i. bit (b OR 0x40) (7 - i)) [2..<8] = map (\<lambda>i. bit b (7 - i)) [2..<8]"
    by (simp add: upt_rec bit_simps)
  moreover have "bit (b OR 0x40) 7 = bit b 7" "bit (b OR 0x40) 6" by (simp_all add: bit_simps)
  ultimately show ?thesis using assms up [of b] up [of "b OR 0x40"] by simp
qed

lemma am_parse_wire:
  assumes len: "am_sn_ok e" and hdr: "concat (map byte_bits hdr) = fields_bits (am_wire_fields e p s sn)"
    and k: "int (length hdr) = am_compute_pdu_header_size e s" and bs: "bs \<noteq> []" and sn: "is_sn (am_sn_modulus e) sn"
    and so: "0 \<le> seg_so s" "seg_so s < 65536" "seg_is_first s \<longleftrightarrow> seg_so s = 0"
  shows "am_parse_pdu e (hdr @ bs) = Inr (Am_Data p sn (seg_so s) (seg_is_first s) (seg_is_last s) bs)"
proof -
  note L = am_sn_okD [OF len]
  let ?d = "nr_rlc_pdu_decoder_init (hdr @ bs)" and ?data = "concat (map byte_bits bs)"
  define si :: int where "si = 2 * (1 - of_bool (seg_is_first s)) + (1 - of_bool (seg_is_last s))"
  let ?so = "if seg_is_first s then [] else field_bits (seg_so s) 16"
  let ?r = "if am_sn_field_length e = 18 then field_bits 0 2 else []"
  have bits: "dec_bits ?d = field_bits 1 1 @ field_bits (of_bool p) 1 @ field_bits si 2 @ ?r @ field_bits sn (am_sn_field_length e) @ ?so @ ?data"
    using hdr si_bits [of "seg_is_first s" "seg_is_last s"]
    by (auto simp: am_wire_fields_def am_header_fields_def si_def)
  have si: "0 \<le> si" "si < 2 ^ 2" by (simp_all add: si_def)
  obtain d0 where d0: "\<forall>g f. read_field ?d 1 g f = (f 1 d0 :: am_parsed res)" "dec_ok d0"
      "dec_bits d0 = field_bits (of_bool p) 1 @ field_bits si 2 @ ?r @ field_bits sn (am_sn_field_length e) @ ?so @ ?data"
      "8 * dec_byte d0 + dec_bit d0 = 1"
    using read_field_ok [OF dec_init _ bits] by auto
  have p: "(0::int) \<le> of_bool p" "of_bool p < (2::int) ^ 1" by (cases p; simp)+
  obtain d0' where d0': "\<forall>g f. read_field d0 1 g f = (f (of_bool p) d0' :: am_parsed res)" "dec_ok d0'"
      "dec_bits d0' = field_bits si 2 @ ?r @ field_bits sn (am_sn_field_length e) @ ?so @ ?data"
      "8 * dec_byte d0' + dec_bit d0' = 2"
    using read_field_ok [OF d0(2) _ d0(3) p] d0(4) by (auto simp flip: numeral_2_eq_2)
  obtain d1 where d1: "\<forall>g f. read_field d0' 2 g f = (f si d1 :: am_parsed res)" "dec_ok d1"
      "dec_bits d1 = ?r @ field_bits sn (am_sn_field_length e) @ ?so @ ?data" "8 * dec_byte d1 + dec_bit d1 = 4"
    using read_field_ok [OF d0'(2) _ d0'(3) si] d0'(4) by auto
  obtain d2 where d2: "\<forall>g f. (if am_sn_field_length e = 18 then read_field d1 2 g else (\<lambda>f. f 0 d1)) f = (f 0 d2 :: am_parsed res)"
      "dec_ok d2" "dec_bits d2 = field_bits sn (am_sn_field_length e) @ ?so @ ?data"
      "8 * dec_byte d2 + dec_bit d2 = 4 + length ?r"
  proof (cases "am_sn_field_length e = 18")
    case True
    then show ?thesis using that read_field_ok [of d1 2 0] d1 by auto
  qed (use that d1 in auto)
  obtain d3 where d3: "\<forall>g f. read_field d2 (am_sn_field_length e) g f = (f sn d3 :: am_parsed res)"
      "dec_ok d3" "dec_bits d3 = ?so @ ?data"
      "8 * dec_byte d3 + dec_bit d3 = 4 + length ?r + am_sn_field_length e"
    using read_field_ok [OF d2(2) _ d2(3)] L sn d2(4) by (auto simp: is_sn_def)
  obtain d4 where d4: "\<forall>g f. (if \<not> seg_is_first s then read_field d3 16 g else (\<lambda>f. f 0 d3)) f = (f (seg_so s) d4 :: am_parsed res)"
      "dec_ok d4" "8 * dec_byte d4 + dec_bit d4 = 4 + length ?r + am_sn_field_length e + length ?so"
  proof (cases "seg_is_first s")
    case False
    then show ?thesis using that read_field_ok [of d3 16 "seg_so s" ?data] d3 so by auto
  qed (use that d3 so in auto)
  have "dec_byte d4 = length hdr"
    by (rule dec_aligned [OF d4(2)])
      (use d4(3) k L(5) in \<open>auto simp: am_compute_pdu_header_size_def split: if_splits\<close>)
  moreover have flags: "(si AND 2 = 0) = seg_is_first s" "(si AND 1 = 0) = seg_is_last s"
    by (simp_all add: si_def si_flags)
  ultimately show ?thesis
    using so bs
    unfolding am_parse_pdu_def Let_def d0(1) [rule_format] if_not_P [OF one_neq_zero] d0'(1) [rule_format]
      d1(1) [rule_format] flags d2(1) [rule_format] d3(1) [rule_format] d4(1) [rule_format]
    by simp
qed

lemma am_wire_fields_poll:
  assumes "concat (map byte_bits hdr) = fields_bits (am_header_fields e s sn)" and "2 \<le> length hdr"
  shows "\<exists>b h. hdr = b # h \<and> concat (map byte_bits ((b OR 0x40) # h)) = fields_bits (am_wire_fields e True s sn)"
    and "concat (map byte_bits hdr) = fields_bits (am_wire_fields e False s sn)"
proof -
  obtain b h where hdr: "hdr = b # h" using assms(2) by (cases hdr) auto
  let ?r = "fields_bits (tl (tl (am_header_fields e s sn)))"
  have f1: "field_bits 1 1 = [True]" "field_bits 0 1 = [False]" by (simp_all add: field_bits_def)
  have bits: "byte_bits b @ concat (map byte_bits h) = True # False # ?r"
    using assms(1) f1 by (simp add: hdr am_header_fields_def)
  have "length (byte_bits b) = 8" by simp
  then obtain x y r where "byte_bits b = x # y # r" by (cases "byte_bits b"; cases "tl (byte_bits b)") auto
  then have b: "byte_bits b = True # False # r" "r @ concat (map byte_bits h) = ?r" using bits by simp_all
  show "\<exists>b h. hdr = b # h \<and> concat (map byte_bits ((b OR 0x40) # h)) = fields_bits (am_wire_fields e True s sn)"
    using byte_bits_poll [OF b(1)] b(2) f1 hdr by (simp add: am_wire_fields_def)
  show "concat (map byte_bits hdr) = fields_bits (am_wire_fields e False s sn)"
    using bits f1 hdr by (simp add: am_wire_fields_def)
qed

lemma include_poll_eq:
  "include_poll e (b # bs) = Inr (e\<lparr>am_pdu_without_poll := 0, am_byte_without_poll := 0,
     am_poll_sn := crem (am_tx_next e - 1 + am_sn_modulus e) (am_sn_modulus e),
     am_t_poll_retransmit_start := am_t_current e\<rparr>, (b OR 0x40) # bs)"
  by (simp add: include_poll_def)

text \<open>The bookkeeping of a poll.\<close>

definition polled :: "bool \<Rightarrow> nr_rlc_entity_am_t \<Rightarrow> nr_rlc_entity_am_t" where
  "polled p e = (if p then e\<lparr>am_pdu_without_poll := 0, am_byte_without_poll := 0,
     am_poll_sn := crem (am_tx_next e - 1 + am_sn_modulus e) (am_sn_modulus e),
     am_t_poll_retransmit_start := am_t_current e\<rparr> else e)"

lemma am_serialize_ok:
  assumes len: "am_sn_ok e" and d: "deref (ent_heap (am_common e)) (seg_sdu s) = Inr d"
    and s: "seg_in d s" "sdu_size d = int (length (sdu_data d))" "0 < seg_size s"
    and room: "am_compute_pdu_header_size e s + seg_size s \<le> int (length buffer)"
    and sn: "is_sn (am_sn_modulus e) (sdu_sn d)" and so: "seg_so s < 65536"
  obtains buf where "am_serialize_sdu e s buffer p = Inr (am_compute_pdu_header_size e s + seg_size s, buf, polled p e)"
    "length buf = length buffer"
    "\<forall>e'. am_sn_ok e' \<longrightarrow> am_sn_field_length e' = am_sn_field_length e \<longrightarrow>
       am_parse_pdu e' (take (nat (am_compute_pdu_header_size e s + seg_size s)) buf)
       = Inr (Am_Data p (sdu_sn d) (seg_so s) (seg_is_first s) (seg_is_last s)
                (take (nat (seg_size s)) (drop (nat (seg_so s)) (sdu_data d))))"
proof -
  let ?h = "am_compute_pdu_header_size e s" and ?bs = "take (nat (seg_size s)) (drop (nat (seg_so s)) (sdu_data d))"
  note w = am_header_width(1,2) [OF len, of s "sdu_sn d"] am_header_width(3) [OF len, of s]
  have read: "mem_read (sdu_data d) (seg_so s) (seg_size s) = Inr ?bs" and lbs: "int (length ?bs) = seg_size s"
    using s by (auto simp: seg_in_def mem_read_ok)
  have r: "nat ?h + length ?bs \<le> length buffer" using room lbs w(3) by linarith
  obtain enc buf hdr where e: "put_fields (nr_rlc_pdu_encoder_init buffer) (am_header_fields e s (sdu_sn d)) = Inr enc"
    "enc_byte enc = nat ?h" "mem_write (enc_buffer enc) (nat ?h) ?bs = Inr buf" "length buf = length buffer"
    "take (nat ?h + length ?bs) buf = hdr @ ?bs" "length hdr = nat ?h"
    "concat (map byte_bits hdr) = fields_bits (am_header_fields e s (sdu_sn d))"
    by (rule put_fields_wire [OF w(2,1) r])
  have l2: "2 \<le> length hdr" using e(6) w(3) by simp
  note P = am_wire_fields_poll [OF e(7) l2]
  have size: "nat (?h + seg_size s) = nat ?h + length ?bs" using lbs w(3) s(3) by linarith
  obtain hdr' buf' where w': "(if p then include_poll e buf else Inr (e, buf)) = Inr (polled p e, buf')"
    "length buf' = length buffer" "take (nat ?h + length ?bs) buf' = hdr' @ ?bs" "length hdr' = length hdr"
    "concat (map byte_bits hdr') = fields_bits (am_wire_fields e p s (sdu_sn d))"
  proof (cases p)
    case True
    from P(1) obtain b h where h: "hdr = b # h" "concat (map byte_bits ((b OR 0x40) # h)) = fields_bits (am_wire_fields e True s (sdu_sn d))"
      by blast
    obtain b' bs' where b: "buf = b' # bs'" using e(4) r w(3) by (cases buf) auto
    moreover have "b' = b" using e(5) h(1) b l2 e(6) by (cases "nat ?h + length ?bs") auto
    ultimately show ?thesis
      using that [of "(b OR 0x40) # bs'" "(b OR 0x40) # h"] e(4,5) h True l2 e(6)
      by (cases "nat ?h + length ?bs") (auto simp: polled_def include_poll_eq)
  qed (use that [of buf hdr] e P(2) in \<open>simp add: polled_def\<close>)
  have "am_serialize_sdu e s buffer p = Inr (?h + seg_size s, buf', polled p e)"
    using e(1-3) read w(3) w'(1) by (simp add: am_serialize_sdu_def d)
  moreover have "am_parse_pdu e' (take (nat (?h + seg_size s)) buf')
      = Inr (Am_Data p (sdu_sn d) (seg_so s) (seg_is_first s) (seg_is_last s) ?bs)"
    if e': "am_sn_ok e'" "am_sn_field_length e' = am_sn_field_length e" for e'
    unfolding size w'(3)
  proof (rule am_parse_wire [OF e'(1)])
    show "concat (map byte_bits hdr') = fields_bits (am_wire_fields e' p s (sdu_sn d))"
      using w'(5) by (simp add: am_wire_fields_def am_header_cong [OF e'(2)])
    show "int (length hdr') = am_compute_pdu_header_size e' s"
      using w'(4) e(6) w(3) by (simp add: am_header_cong [OF e'(2)])
    show "?bs \<noteq> []" using lbs s(3) by auto
    show "is_sn (am_sn_modulus e') (sdu_sn d)" using sn e' len by (simp add: am_sn_ok_def)
  qed (use s(1) so in \<open>auto simp: seg_in_def\<close>)
  ultimately show thesis using that w'(2) by blast
qed

section \<open>Reading a status PDU\<close>

lemma read_field_rule:
  assumes "dec_ok d" and "n \<le> 31" and "\<And>d'. Q (g d')"
    and "\<And>v d'. dec_ok d' \<Longrightarrow> length (dec_bits d) = n + length (dec_bits d') \<Longrightarrow> 0 \<le> v \<Longrightarrow> v < 2 ^ n \<Longrightarrow> Q (f v d')"
  shows "Q (read_field d n g f)"
proof (cases "length (dec_bits d) < n")
  case True
  then show ?thesis
    using get_bits_loop_short [OF assms(1), of n 0] assms(2,3) by (auto simp: read_field_def nr_rlc_pdu_decoder_get_bits_def)
next
  case False
  let ?bs = "take n (dec_bits d)"
  obtain d' where d': "get_bits_loop d 0 (length ?bs) = (bits_val 0 ?bs, d')" "dec_ok d'" "dec_bits d' = drop n (dec_bits d)"
    using get_bits_loop_bits [OF assms(1), of ?bs "drop n (dec_bits d)" 0] by auto
  moreover have "length ?bs = n" using False by simp
  ultimately have "Q (f (bits_val 0 ?bs) d')"
    using bits_val_bounds [of ?bs] False by (intro assms(4)) simp_all
  moreover have "\<not> dec_error d'" using d'(2) by (simp add: dec_ok_def)
  ultimately show ?thesis
    using d'(1) \<open>length ?bs = n\<close> assms(2) by (simp add: read_field_def nr_rlc_pdu_decoder_get_bits_def)
qed

lemma optional_field_rule:
  assumes "dec_ok d" and "n \<le> 31" and "\<And>d'. Q (g d')"
    and "\<And>v d'. dec_ok d' \<Longrightarrow> length (dec_bits d) = (if b then n else 0) + length (dec_bits d') \<Longrightarrow> 0 \<le> v \<or> v = c \<Longrightarrow>
      v < 2 ^ n \<or> v = c \<Longrightarrow> Q (f v d')"
  shows "Q ((if b then read_field d n g else (\<lambda>f. f c d)) f)"
  using assms by (cases b) (auto intro: read_field_rule)

definition nack_read :: "nat \<Rightarrow> (am_nack \<times> int \<times> nr_rlc_pdu_decoder_t) option res \<Rightarrow> bool" where
  "nack_read l r \<longleftrightarrow> r = Inr None
     \<or> (\<exists>k e1 d'. r = Inr (Some (k, e1, d')) \<and> dec_ok d' \<and> length (dec_bits d') + 16 \<le> l \<and> 0 \<le> nk_sn k)"

lemma nack_read_field:
  assumes "dec_ok d" and "n \<le> 31"
    and "\<And>v d'. dec_ok d' \<Longrightarrow> length (dec_bits d) = n + length (dec_bits d') \<Longrightarrow> 0 \<le> v \<Longrightarrow> nack_read l (f v d')"
  shows "nack_read l (read_field d n (\<lambda>_. Inr None) f)"
  by (rule read_field_rule [where Q = "nack_read l"]) (use assms in \<open>auto simp: nack_read_def\<close>)

lemma nack_read_optional:
  assumes "dec_ok d" and "n \<le> 31"
    and "\<And>v d'. dec_ok d' \<Longrightarrow> length (dec_bits d) = (if b then n else 0) + length (dec_bits d') \<Longrightarrow> nack_read l (f v d')"
  shows "nack_read l ((if b then read_field d n (\<lambda>_. Inr None) else (\<lambda>f. f c d)) f)"
  by (cases b) (use assms in \<open>auto intro: nack_read_field\<close>)

lemma read_nack_total:
  assumes "am_sn_ok e" and "dec_ok d"
  shows "nack_read (length (dec_bits d)) (read_nack e d)"
proof -
  have n: "am_sn_field_length e \<le> 31" "12 \<le> am_sn_field_length e" using am_sn_okD(5) [OF assms(1)] by auto
  note R = nack_read_field and R' = nack_read_optional
  show ?thesis
    unfolding read_nack_def Let_def
    apply (rule R [OF assms(2) n(1)])
    apply (rule R, assumption, simp, rule R, assumption, simp, rule R, assumption, simp, rule R, assumption, simp)
    apply (rule R', assumption, simp, rule R', assumption, simp, rule R', assumption, simp)
    using n(2) by (auto simp: nack_read_def split: if_splits)
qed

lemma read_nacks_total:
  assumes "am_sn_ok e" and "dec_ok d" and "length (dec_bits d) < 16 * fuel"
  shows "\<exists>r. read_nacks fuel e prev ack_sn e1 d = Inr r
     \<and> (\<forall>ks. r = Some ks \<longrightarrow> (\<forall>k \<in> set ks. 0 \<le> nk_sn k \<and> list_all (nack_valid e prev ack_sn) (cur_nacks e k)))"
  using assms(2,3)
proof (induction fuel arbitrary: e1 d)
  case (Suc n)
  show ?case
  proof (cases "e1 = 0 \<or> read_nack e d = Inr None")
    case True
    then show ?thesis by (subst read_nacks.simps) auto
  next
    case False
    then obtain k e1' d' where k: "read_nack e d = Inr (Some (k, e1', d'))" "dec_ok d'" "length (dec_bits d') + 16 \<le> length (dec_bits d)"
      "0 \<le> nk_sn k"
      using read_nack_total [OF assms(1) Suc.prems(1)] by (auto simp: nack_read_def)
    with Suc.IH [of d' e1'] Suc.prems(2) False show ?thesis by (subst read_nacks.simps) auto
  qed
qed simp

text \<open>What an accepted status PDU satisfies.\<close>

definition status_valid :: "nr_rlc_entity_am_t \<Rightarrow> (int \<times> am_nack list) option \<Rightarrow> bool" where
  "status_valid e r \<longleftrightarrow> (\<forall>ack_sn ks. r = Some (ack_sn, ks) \<longrightarrow> is_sn (am_sn_modulus e) ack_sn
     \<and> am_sn_compare_tx e ack_sn (am_tx_next e) \<le> 0
     \<and> (\<forall>k \<in> set ks. \<forall>(sn, _, _) \<in> set (cur_nacks e k). is_sn (am_sn_modulus e) sn \<and> am_sn_compare_tx e sn ack_sn \<le> 0))"

lemma read_status_ok:
  assumes "am_sn_ok e"
  shows "\<exists>r. read_status e buffer = Inr r \<and> status_valid e r"
proof -
  let ?Q = "\<lambda>r. \<exists>x. r = Inr x \<and> status_valid e x"
  have N: "?Q (Inr None)" by (simp add: status_valid_def)
  note L = am_sn_okD [OF assms]
  have R: "?Q (read_field d n (\<lambda>_. Inr None) f)" if "dec_ok d" "n \<le> 31"
    "\<And>v d'. dec_ok d' \<Longrightarrow> length (dec_bits d) = n + length (dec_bits d') \<Longrightarrow> 0 \<le> v \<Longrightarrow> v < 2 ^ n \<Longrightarrow> ?Q (f v d')" for d n f
    by (rule read_field_rule [where Q = ?Q]) (use that N in auto)
  have nacks: "?Q (bindR (read_nacks (length buffer) e (-1, 0) ack_sn e1 d) (\<lambda>ks. Inr (map_option (Pair ack_sn) ks)))"
    if a: "dec_ok d" "length (dec_bits d) < 8 * length buffer" "is_sn (am_sn_modulus e) ack_sn"
      "\<not> am_sn_compare_tx e ack_sn (am_tx_next e) > 0" for d ack_sn e1
  proof -
    obtain r where r: "read_nacks (length buffer) e (-1, 0) ack_sn e1 d = Inr r"
      "\<forall>ks. r = Some ks \<longrightarrow> (\<forall>k \<in> set ks. 0 \<le> nk_sn k \<and> list_all (nack_valid e (-1, 0) ack_sn) (cur_nacks e k))"
      using read_nacks_total [OF assms a(1), of "length buffer" "(-1, 0)" ack_sn e1] a(2) by auto
    moreover have "is_sn (am_sn_modulus e) sn" if "0 \<le> nk_sn k" "(sn, x) \<in> set (cur_nacks e k)" for k sn x
      using that L(1) by (auto simp: cur_nacks_def crem_mod)
    ultimately show ?thesis
      using a(3,4) by (fastforce simp: status_valid_def nack_valid_def list_all_iff not_less)
  qed
  have init: "length (dec_bits (nr_rlc_pdu_decoder_init buffer)) = 8 * length buffer" by simp
  show ?thesis
    unfolding read_status_def Let_def
    apply (rule R [OF dec_init], simp)
    apply (rule R, assumption, simp)
    apply (rule if_split [where P = ?Q, THEN iffD2], intro conjI impI, rule N)
    apply (rule R, assumption, use L(5) in force)
    apply (rule R, assumption, simp, rule R, assumption, simp)
    apply (rule if_split [where P = ?Q, THEN iffD2], intro conjI impI, rule N)
    apply (rule nacks)
    using L(4) by (auto simp: is_sn_def)
qed

lemma new_am_sn_ok:
  assumes "new_nr_rlc_entity_am rxm txm tp tr ts pp pb mr n = Inr e"
  shows "am_sn_ok e" "am_tx_window_ok e" "am_rx_window_ok e" "am_sn_field_length e = n"
proof -
  have n: "n = 12 \<or> n = 18" using assms by (auto simp: new_nr_rlc_entity_am_def split: if_splits)
  then have "am_sn_ok e \<and> am_tx_next_ack e = 0 \<and> am_rx_next e = 0 \<and> am_sn_field_length e = n"
    using assms by (auto simp: new_nr_rlc_entity_am_def am_sn_ok_def bindR_eq_Inr Let_def)
  then show "am_sn_ok e" "am_tx_window_ok e" "am_rx_window_ok e" "am_sn_field_length e = n"
    using am_sn_okD(1) [of e] by (simp_all add: am_tx_window_ok_def am_rx_window_ok_def is_sn_def)
qed

lemma new_am_example: "\<exists>e. new_nr_rlc_entity_am 1000 1000 45 35 0 (-1) (-1) 8 12 = Inr e"
  by (rule new_common_ok [of NR_RLC_AM]) (simp add: new_nr_rlc_entity_am_def Let_def)

section \<open>Properties\<close>

text \<open>
  C19. A data PDU of an acknowledged mode entity is read back as it was written: for a segment that lies in
  its SDU and a buffer with room for header and data, \<^verbatim>\<open>serialize_sdu\<close> returns without a fault and the
  receiver recovers the poll bit, the sequence number, the offset, both segmentation flags and the bytes,
  for 12 and 18 bit sequence numbers.
\<close>

theorem am_data_pdu_roundtrip:
  assumes "am_sn_ok e" and "am_sn_ok r" and "am_sn_field_length r = am_sn_field_length e"
    and "hp_sdu (ent_heap (am_common e)) (seg_sdu s) = Some d" and "seg_in d s" and "sdu_size d = int (length (sdu_data d))"
    and "0 < seg_size s" and "seg_so s < 65536" and "is_sn (am_sn_modulus e) (sdu_sn d)"
    and "am_compute_pdu_header_size e s + seg_size s \<le> int (length buffer)"
  shows "\<exists>n buf e'. am_serialize_sdu e s buffer p = Inr (n, buf, e') \<and> n = am_compute_pdu_header_size e s + seg_size s
     \<and> length buf = length buffer
     \<and> am_parse_pdu r (take (nat n) buf) = Inr (Am_Data p (sdu_sn d) (seg_so s) (seg_is_first s) (seg_is_last s)
         (take (nat (seg_size s)) (drop (nat (seg_so s)) (sdu_data d))))"
proof -
  have d: "deref (ent_heap (am_common e)) (seg_sdu s) = Inr d" using assms(4) by (simp add: deref_def)
  obtain buf where buf: "am_serialize_sdu e s buffer p = Inr (am_compute_pdu_header_size e s + seg_size s, buf, polled p e)"
    "length buf = length buffer"
    "\<forall>e'. am_sn_ok e' \<longrightarrow> am_sn_field_length e' = am_sn_field_length e \<longrightarrow>
       am_parse_pdu e' (take (nat (am_compute_pdu_header_size e s + seg_size s)) buf)
       = Inr (Am_Data p (sdu_sn d) (seg_so s) (seg_is_first s) (seg_is_last s)
                (take (nat (seg_size s)) (drop (nat (seg_so s)) (sdu_data d))))"
    by (rule am_serialize_ok [OF assms(1) d assms(5-7,10,9,8)])
  from buf(3) assms(2,3) buf(1,2) show ?thesis by simp
qed

theorem am_data_pdu_roundtrip_witness:
  "\<exists>e s n buf e'. am_serialize_sdu e s [0, 0, 0, 0, 0, 0, 0] True = Inr (n, buf, e') \<and> n = 6
     \<and> am_parse_pdu e (take (nat n) buf) = Inr (Am_Data True 5 1 False True [8, 9])"
proof -
  obtain e0 where e0: "new_nr_rlc_entity_am 1000 1000 45 35 0 (-1) (-1) 8 12 = Inr e0" using new_am_example by blast
  define d where "d = \<lparr> sdu_sn = 5, sdu_upper_layer_id = 0, sdu_data = [7, 8, 9], sdu_size = 3, sdu_retx_count = -1,
    sdu_ref_count = 1, sdu_free_count = 0, sdu_time_of_arrival = 0 \<rparr>"
  define s where "s = \<lparr> seg_addr = 1, seg_sdu = 0, seg_size = 2, seg_so = 1, seg_is_first = False, seg_is_last = True \<rparr>"
  define e where "e = e0\<lparr>am_common := with_heap \<lparr> hp_sdu = [0 \<mapsto> d], hp_brk = 2 \<rparr> (am_common e0)\<rparr>"
  have ok: "am_sn_ok e" "am_sn_field_length e = 12" using new_am_sn_ok [OF e0] by (simp_all add: am_sn_ok_def e_def)
  then have m: "is_sn (am_sn_modulus e) (sdu_sn d)" "am_compute_pdu_header_size e s + seg_size s = 6"
    by (simp_all add: am_sn_ok_def is_sn_def am_compute_pdu_header_size_def d_def s_def)
  have h: "hp_sdu (ent_heap (am_common e)) (seg_sdu s) = Some d" "seg_in d s" "sdu_size d = int (length (sdu_data d))"
    "0 < seg_size s" "seg_so s < 65536"
    by (simp_all add: e_def s_def d_def seg_in_def)
  have l: "am_compute_pdu_header_size e s + seg_size s \<le> int (length [0, 0, 0, 0, 0, 0, 0::u8])" by (simp add: m)
  have "take (nat (seg_size s)) (drop (nat (seg_so s)) (sdu_data d)) = [8, 9]" by (simp add: s_def d_def)
  then show ?thesis
    using am_data_pdu_roundtrip [OF ok(1) ok(1) refl h m(1) l, of True] m(2)
    by (intro exI [of _ e] exI [of _ s]) (auto simp: s_def d_def)
qed

text \<open>
  C20. The reader of status PDUs ends on every byte string, without a fault. The number of NACKs is not in
  the PDU; a round takes 16 bits or more. An accepted status PDU acknowledges no more than was sent, and
  the numbers it reports as missing are sequence numbers not beyond the acknowledged one.
\<close>

theorem am_status_reader_total:
  assumes "am_sn_ok e"
  shows "\<exists>r. read_status e buffer = Inr r \<and> status_valid e r"
  by (rule read_status_ok [OF assms])

theorem am_status_reader_total_witness:
  "\<exists>e. new_nr_rlc_entity_am 1000 1000 45 35 0 (-1) (-1) 8 12 = Inr e \<and> (\<exists>r. read_status e [0, 0, 0x80, 0xff] = Inr r)"
proof -
  obtain e where e: "new_nr_rlc_entity_am 1000 1000 45 35 0 (-1) (-1) 8 12 = Inr e" using new_am_example by blast
  show ?thesis using am_status_reader_total [OF new_am_sn_ok(1) [OF e], of "[0, 0, 0x80, 0xff]"] e by blast
qed

end
