(* ===== verification/Rlc_Am_Lists.thy ===== *)
theory Rlc_Am_Lists
  imports Rlc_Am_Wire
begin

text \<open>
  The transmitting side of an acknowledged mode entity: \<open>am_tx_ok\<close> is the invariant of its three lists of
  segments, of the SDUs they share and of the accounting; this theory has the invariant and its generic
  lemmas, the theories that follow have the operations.
\<close>

section \<open>SDUs and their segments\<close>

text \<open>Different segments of an SDU have no byte in common.\<close>

definition apart :: "nr_rlc_sdu_segment_t \<Rightarrow> nr_rlc_sdu_segment_t \<Rightarrow> bool" where
  "apart x y \<longleftrightarrow> (seg_sdu x = seg_sdu y \<longrightarrow>
     seg_so x + seg_size x \<le> seg_so y \<or> seg_so y + seg_size y \<le> seg_so x)"

abbreviation parts_disjoint :: "nr_rlc_sdu_segment_t set \<Rightarrow> bool" where
  "parts_disjoint \<equiv> pairwise apart"

lemma apart_sym: "apart x y \<longleftrightarrow> apart y x"
  by (auto simp: apart_def)

definition sn_unique :: "sdu_heap \<Rightarrow> bool" where
  "sn_unique h \<longleftrightarrow> (\<forall>a b d d'. hp_sdu h a = Some d \<longrightarrow> hp_sdu h b = Some d' \<longrightarrow> sdu_sn d = sdu_sn d' \<longrightarrow>
     sdu_sn d \<noteq> -1 \<longrightarrow> a = b)"

definition am_core :: "sdu_heap \<Rightarrow> nr_rlc_sdu_segment_t list \<Rightarrow> bool" where
  "am_core h segs \<longleftrightarrow> heap_ok h segs \<and> sn_unique h \<and> parts_disjoint (set segs)
     \<and> (\<forall>s \<in> set segs. 0 < seg_size s) \<and> (\<forall>a d. hp_sdu h a = Some d \<longrightarrow> sdu_size d \<le> NR_SDU_MAX)"

definition sdu_of :: "sdu_heap \<Rightarrow> nr_rlc_sdu_segment_t \<Rightarrow> nr_rlc_sdu_t" where
  "sdu_of h s = the (hp_sdu h (seg_sdu s))"

abbreviation sn_of :: "sdu_heap \<Rightarrow> nr_rlc_sdu_segment_t \<Rightarrow> int" where
  "sn_of h s \<equiv> sdu_sn (sdu_of h s)"

lemma am_coreD:
  assumes "am_core h segs"
  shows "heap_ok h segs" "sn_unique h" "parts_disjoint (set segs)" "s \<in> set segs \<Longrightarrow> 0 < seg_size s"
    "hp_sdu h a = Some d \<Longrightarrow> sdu_size d \<le> NR_SDU_MAX"
  using assms by (auto simp: am_core_def)

lemma am_core_perm: "mset segs = mset segs' \<Longrightarrow> am_core h segs \<longleftrightarrow> am_core h segs'"
  using heap_ok_perm [of segs segs' h] mset_eq_setD [of segs segs'] by (simp add: am_core_def)

lemma am_core_live:
  assumes "am_core h segs" and "s \<in> set segs"
  shows "hp_sdu h (seg_sdu s) = Some (sdu_of h s)" "deref h (seg_sdu s) = Inr (sdu_of h s)" "seg_in (sdu_of h s) s"
    "sdu_size (sdu_of h s) = int (length (sdu_data (sdu_of h s)))" "0 < seg_size s" "seg_so s < 65536"
proof -
  obtain d where d: "hp_sdu h (seg_sdu s) = Some d" "seg_in d s" "sdu_ok segs (seg_sdu s) d"
    using heap_ok_live [OF am_coreD(1) [OF assms(1)] assms(2)] by blast
  then show "hp_sdu h (seg_sdu s) = Some (sdu_of h s)" "deref h (seg_sdu s) = Inr (sdu_of h s)" "seg_in (sdu_of h s) s"
    "sdu_size (sdu_of h s) = int (length (sdu_data (sdu_of h s)))"
    by (simp_all add: sdu_of_def deref_def sdu_ok_def)
  show pos: "0 < seg_size s" using am_coreD(4) [OF assms] .
  have "seg_so s + seg_size s \<le> sdu_size d" using d(2) by (simp add: seg_in_def)
  then show "seg_so s < 65536" using pos am_coreD(5) [OF assms(1) d(1)] by (simp add: NR_SDU_MAX_def)
qed

lemma parts_disjoint_insert:
  "parts_disjoint (insert s S) \<longleftrightarrow> parts_disjoint S \<and> (\<forall>y \<in> S. y \<noteq> s \<longrightarrow> apart s y)"
  by (auto simp: pairwise_insert apart_sym)

text \<open>Segments of different position have different keys.\<close>

lemma am_core_key:
  assumes "am_core h segs" and "x \<in> set segs" and "y \<in> set segs" and "x \<noteq> y"
    and "sn_of h x = sn_of h y" and "sn_of h x \<noteq> -1"
  shows "seg_so x \<noteq> seg_so y"
proof -
  have "seg_sdu x = seg_sdu y"
    using am_coreD(2) [OF assms(1)] am_core_live(1) [OF assms(1)] assms(2,3,5,6) unfolding sn_unique_def by metis
  then have "seg_so x + seg_size x \<le> seg_so y \<or> seg_so y + seg_size y \<le> seg_so x"
    using pairwiseD [OF am_coreD(3) [OF assms(1)] assms(2-4)] by (simp add: apart_def)
  then show ?thesis using am_coreD(4) [OF assms(1)] assms(2,3) by fastforce
qed

text \<open>A segment that is a complete SDU is its only one.\<close>

lemma am_core_whole:
  assumes "am_core h segs" and "x \<in> set segs" and "y \<in> set segs" and "seg_sdu x = seg_sdu y"
    and "seg_is_first x" and "seg_is_last x"
  shows "y = x"
proof (rule ccontr)
  assume "y \<noteq> x"
  then have "seg_so x + seg_size x \<le> seg_so y \<or> seg_so y + seg_size y \<le> seg_so x"
    using pairwiseD [OF am_coreD(3) [OF assms(1)] assms(2,3)] assms(4) by (auto simp: apart_def)
  moreover have "sdu_of h y = sdu_of h x" by (simp add: sdu_of_def assms(4))
  ultimately show False
    using am_core_live(3,5) [OF assms(1,2)] am_core_live(3,5) [OF assms(1,3)] assms(5,6) by (auto simp: seg_in_def)
qed

lemma am_core_empty: "am_core empty_heap []"
  by (simp add: am_core_def sn_unique_def empty_heap_def heap_ok_def)

lemma am_core_new_sdu:
  assumes "am_core h segs" and "nr_rlc_new_sdu h buffer i = (h', s)" and "buffer \<noteq> []" and "int (length buffer) \<le> NR_SDU_MAX"
  shows "am_core h' (s # segs)" "heap_bytes h' = heap_bytes h + int (length buffer)" "sn_of h' s = -1"
    "seg_is_first s" "seg_is_last s" "seg_size s = int (length buffer)"
    "x \<in> set segs \<Longrightarrow> sdu_of h' x = sdu_of h x"
proof -
  note H = heap_ok_new_sdu [OF am_coreD(1) [OF assms(1)] assms(2)]
  let ?a = "hp_brk h"
  have other: "seg_sdu x \<noteq> ?a" if "x \<in> set segs" for x
    using am_core_live(1) [OF assms(1) that] am_coreD(1) [OF assms(1)] by (auto dest: heap_okD)
  obtain d where h': "hp_sdu h' = (hp_sdu h)(?a \<mapsto> d)" "seg_sdu s = ?a" "sdu_sn d = -1" "sdu_size d = int (length buffer)"
    "seg_is_first s" "seg_is_last s" "seg_size s = int (length buffer)"
    using assms(2) by (auto simp: nr_rlc_new_sdu_def Let_def)
  show "heap_bytes h' = heap_bytes h + int (length buffer)" "sn_of h' s = -1" "seg_is_first s" "seg_is_last s"
    "seg_size s = int (length buffer)"
    using H(2) h' by (simp_all add: sdu_of_def)
  show "sdu_of h' x = sdu_of h x" if "x \<in> set segs" using other [OF that] by (simp add: h'(1) sdu_of_def)
  have "sn_unique h'" using am_coreD(2) [OF assms(1)] h' by (auto simp: sn_unique_def)
  moreover have "parts_disjoint (set (s # segs))"
    using am_coreD(3) [OF assms(1)] other h'(2) by (simp add: parts_disjoint_insert apart_def) metis
  moreover have "sdu_size d \<le> NR_SDU_MAX" if "hp_sdu h' a = Some d" for a d
    using that am_coreD(5) [OF assms(1), of a d] h' assms(4) by (auto split: if_splits)
  ultimately show "am_core h' (s # segs)"
    using H(1) am_coreD(4) [OF assms(1)] h'(7) assms(3) by (auto simp: am_core_def)
qed

text \<open>Changing what is not bytes or counters of an SDU.\<close>

lemma am_core_store:
  assumes "am_core h segs" and "s \<in> set segs" and "sn_unique (store h (seg_sdu s) d)"
    and "sdu_ref_count d = sdu_ref_count (sdu_of h s)" "sdu_free_count d = sdu_free_count (sdu_of h s)"
    "sdu_size d = sdu_size (sdu_of h s)" "sdu_data d = sdu_data (sdu_of h s)"
  shows "am_core (store h (seg_sdu s) d) segs" "heap_bytes (store h (seg_sdu s) d) = heap_bytes h"
proof -
  note H = heap_ok_store [OF am_coreD(1) [OF assms(1)] am_core_live(1) [OF assms(1,2)], of d]
  show "heap_bytes (store h (seg_sdu s) d) = heap_bytes h" using H(2) assms(4-7) by simp
  have "sdu_size x \<le> NR_SDU_MAX" if "hp_sdu (store h (seg_sdu s) d) a = Some x" for a x
    using that am_coreD(5) [OF assms(1)] am_core_live(1) [OF assms(1,2)] assms(6) by (auto simp: store_def split: if_splits)
  then show "am_core (store h (seg_sdu s) d) segs"
    using H(1) assms by (simp add: am_core_def)
qed

lemma sn_unique_same:
  assumes "sn_unique h" and "hp_sdu h a = Some d" and "sdu_sn d' = sdu_sn d"
  shows "sn_unique (store h a d')"
  using assms by (auto simp: sn_unique_def store_def split: if_splits)

lemma sn_unique_new:
  assumes "sn_unique h" and "\<And>b x. hp_sdu h b = Some x \<Longrightarrow> b \<noteq> a \<Longrightarrow> sdu_sn x \<noteq> sdu_sn d"
  shows "sn_unique (store h a d)"
  using assms by (auto simp: sn_unique_def store_def split: if_splits) metis+

lemma sdu_of_store: "sdu_of (store h a d) x = (if seg_sdu x = a then d else sdu_of h x)"
  by (simp add: sdu_of_def store_def)

lemma am_core_free:
  assumes "am_core h (s # segs)"
  defines "freed \<equiv> seg_count segs (seg_sdu s) = 0"
  shows "\<exists>h'. nr_rlc_free_sdu_segment h s = Inr (h', freed) \<and> am_core h' segs
     \<and> heap_bytes h' = heap_bytes h - (if freed then sdu_size (sdu_of h s) else 0)
     \<and> (\<forall>x \<in> set segs. sn_of h' x = sn_of h x)"
proof -
  note live = am_core_live(1) [OF assms(1), of s, simplified]
  obtain h' where h': "nr_rlc_free_sdu_segment h s = Inr (h', freed)" "heap_ok h' segs"
    "heap_bytes h' = heap_bytes h - (if freed then sdu_size (sdu_of h s) else 0)"
    "\<forall>a. a \<noteq> seg_sdu s \<longrightarrow> hp_sdu h' a = hp_sdu h a"
    "hp_sdu h' (seg_sdu s) = (if freed then None else Some (sdu_of h s\<lparr>sdu_free_count := sdu_free_count (sdu_of h s) + 1\<rparr>))"
    using heap_ok_free [OF am_coreD(1) [OF assms(1)] live] unfolding freed_def by blast
  have sub: "\<exists>d0. hp_sdu h a = Some d0 \<and> sdu_sn d0 = sdu_sn d \<and> sdu_size d0 = sdu_size d" if "hp_sdu h' a = Some d" for a d
    using that h'(4,5) live by (cases "a = seg_sdu s") (auto split: if_splits)
  have "sn_unique h'" using am_coreD(2) [OF assms(1)] sub unfolding sn_unique_def by metis
  moreover have "sdu_size d \<le> NR_SDU_MAX" if "hp_sdu h' a = Some d" for a d
    using sub [OF that] am_coreD(5) [OF assms(1)] by force
  moreover have "parts_disjoint (set segs)" using am_coreD(3) [OF assms(1)] by (rule pairwise_subset) auto
  ultimately have "am_core h' segs" using h'(2) am_coreD(4) [OF assms(1)] by (simp add: am_core_def)
  moreover have "sn_of h' x = sn_of h x" if "x \<in> set segs" for x
    using sub [OF am_core_live(1) [OF calculation that]] by (auto simp: sdu_of_def)
  ultimately show ?thesis using h'(1,3) by blast
qed

lemma am_core_split:
  assumes "am_core h (s # segs)" and k: "0 < k" "k < seg_size s"
    and h': "h' = (store h (seg_sdu s) (sdu_of h s\<lparr>sdu_ref_count := sdu_ref_count (sdu_of h s) + 1\<rparr>))\<lparr>hp_brk := hp_brk h + 1\<rparr>"
    and s1: "s1 = s\<lparr>seg_size := k, seg_is_last := False\<rparr>"
    and s2: "s2 = s\<lparr>seg_addr := hp_brk h, seg_size := seg_size s - k, seg_so := seg_so s + k, seg_is_first := False\<rparr>"
  shows "am_core h' (s1 # s2 # segs)" "heap_bytes h' = heap_bytes h" "sn_of h' x = sn_of h x"
proof -
  note live = am_core_live(1) [OF assms(1), of s, simplified]
  note H = heap_ok_split [OF am_coreD(1) [OF assms(1)] live k, of h' s1 s2]
  have hp: "hp_sdu h' = (hp_sdu h)(seg_sdu s \<mapsto> sdu_of h s\<lparr>sdu_ref_count := sdu_ref_count (sdu_of h s) + 1\<rparr>)"
    "hp_brk h' = hp_brk h + 1" by (simp_all add: h' store_def)
  show "heap_bytes h' = heap_bytes h" using H(2) hp s1 s2 by simp
  show "sn_of h' x = sn_of h x" by (auto simp: sdu_of_def hp)
  have "sn_unique h'"
    using sn_unique_same [OF am_coreD(2) [OF assms(1)] live, of "sdu_of h s\<lparr>sdu_ref_count := sdu_ref_count (sdu_of h s) + 1\<rparr>"]
    by (simp add: sn_unique_def h')
  moreover have "parts_disjoint (set (s1 # s2 # segs))"
  proof -
    have "apart s y" if "y \<in> set segs" for y
    proof -
      have "y \<noteq> s" using that am_coreD(1) [OF assms(1)] by (auto simp: heap_ok_def)
      then show ?thesis using pairwiseD [OF am_coreD(3) [OF assms(1)]] that by auto
    qed
    moreover have "parts_disjoint (set segs)" using am_coreD(3) [OF assms(1)] by (rule pairwise_subset) auto
    ultimately show ?thesis
      using k by (force simp: parts_disjoint_insert apart_def s1 s2)
  qed
  moreover have "sdu_size d \<le> NR_SDU_MAX" if "hp_sdu h' a = Some d" for a d
    using that am_coreD(5) [OF assms(1)] live by (auto simp: hp split: if_splits)
  ultimately show "am_core h' (s1 # s2 # segs)"
    using H(1) hp s1 s2 k am_coreD(4) [OF assms(1)] by (auto simp: am_core_def)
qed

section \<open>The order of the lists\<close>

abbreviation am_heap :: "nr_rlc_entity_am_t \<Rightarrow> sdu_heap" where
  "am_heap e \<equiv> ent_heap (am_common e)"

definition am_valid :: "nr_rlc_entity_am_t \<Rightarrow> nr_rlc_sdu_segment_t \<Rightarrow> bool" where
  "am_valid e s \<longleftrightarrow> am_tx_window_ok e \<and> is_sn (am_sn_modulus e) (sn_of (am_heap e) s)"

definition seg_after :: "nr_rlc_entity_am_t \<Rightarrow> nr_rlc_sdu_segment_t \<Rightarrow> nr_rlc_sdu_segment_t \<Rightarrow> bool" where
  "seg_after e cur s \<longleftrightarrow> am_sn_compare_tx e (sn_of (am_heap e) cur) (sn_of (am_heap e) s) > 0
     \<or> (sn_of (am_heap e) cur = sn_of (am_heap e) s \<and> seg_so cur > seg_so s)"

lemma seg_after_cases:
  assumes "am_valid e a" and "am_valid e b"
  shows "seg_after e a b \<longleftrightarrow> am_modulus_tx e (sn_of (am_heap e) b) < am_modulus_tx e (sn_of (am_heap e) a)
     \<or> (am_modulus_tx e (sn_of (am_heap e) a) = am_modulus_tx e (sn_of (am_heap e) b) \<and> seg_so b < seg_so a)"
  using assms amt.md_inject by (auto simp: seg_after_def am_sn_compare_tx_def am_valid_def)

interpretation aml: ordered_list am_valid seg_after
  by unfold_locales (auto simp: seg_after_cases)

lemma tx_list_add_eq:
  assumes "am_core (am_heap e) segs" and "set (s # l) \<subseteq> set segs"
  shows "nr_rlc_tx_sdu_segment_list_add e l s = Inr (ordered_add (seg_after e) l s)"
  using assms(2)
proof (induction l)
  case (Cons c l)
  then have "deref (am_heap e) (seg_sdu c) = Inr (sdu_of (am_heap e) c)" "deref (am_heap e) (seg_sdu s) = Inr (sdu_of (am_heap e) s)"
    using am_core_live(2) [OF assms(1)] by auto
  with Cons show ?case by (simp add: seg_after_def)
qed simp

section \<open>The invariant\<close>

text \<open>
  A segment is sent when its SDU has a sequence number between \<^verbatim>\<open>tx_next_ack\<close> and \<^verbatim>\<open>tx_next\<close>, and
  fresh when it is a complete SDU without a number. \<open>am_inv e xs\<close> holds inside an operation, with the
  segments \<open>xs\<close> taken out of the lists.
\<close>

definition am_sent :: "nr_rlc_entity_am_t \<Rightarrow> nr_rlc_sdu_segment_t \<Rightarrow> bool" where
  "am_sent e s \<longleftrightarrow> is_sn (am_sn_modulus e) (sn_of (am_heap e) s)
     \<and> am_modulus_tx e (sn_of (am_heap e) s) < am_modulus_tx e (am_tx_next e)"

definition am_fresh :: "nr_rlc_entity_am_t \<Rightarrow> nr_rlc_sdu_segment_t \<Rightarrow> bool" where
  "am_fresh e s \<longleftrightarrow> sn_of (am_heap e) s = -1 \<and> seg_is_first s \<and> seg_is_last s"

definition am_pdu_bytes :: "nr_rlc_entity_am_t \<Rightarrow> nr_rlc_sdu_segment_t list \<Rightarrow> int" where
  "am_pdu_bytes e l = sum_list (map (\<lambda>s. am_compute_pdu_header_size e s + seg_size s) l)"

definition am_segs :: "nr_rlc_entity_am_t \<Rightarrow> nr_rlc_sdu_segment_t list" where
  "am_segs e = am_tx_list e @ am_wait_list e @ am_retransmit_list e"

definition am_window :: "nr_rlc_entity_am_t \<Rightarrow> bool" where
  "am_window e \<longleftrightarrow> am_tx_window_ok e \<and> is_sn (am_sn_modulus e) (am_tx_next e)
     \<and> am_modulus_tx e (am_tx_next e) \<le> am_window_size e"

definition am_queue_ok :: "nr_rlc_entity_am_t \<Rightarrow> nr_rlc_sdu_segment_t list \<Rightarrow> bool" where
  "am_queue_ok e l \<longleftrightarrow> (\<forall>s \<in> set (tl l). am_fresh e s) \<and> (l \<noteq> [] \<longrightarrow> am_fresh e (hd l) \<or> am_sent e (hd l))"

definition am_inv :: "nr_rlc_entity_am_t \<Rightarrow> nr_rlc_sdu_segment_t list \<Rightarrow> bool" where
  "am_inv e xs \<longleftrightarrow> am_window e \<and> am_core (am_heap e) (xs @ am_segs e) \<and> am_tx_size e = heap_bytes (am_heap e)
     \<and> bs_tx_size (ent_bstatus (am_common e)) = am_pdu_bytes e (am_tx_list e)
     \<and> bs_retx_size (ent_bstatus (am_common e)) = am_pdu_bytes e (am_retransmit_list e)
     \<and> ends_ok (am_tx_list e) (am_tx_end e) \<and> ends_ok (am_wait_list e) (am_wait_end e)
     \<and> (\<forall>s \<in> set (am_wait_list e) \<union> set (am_retransmit_list e). am_sent e s)
     \<and> aml.ordered e (am_wait_list e) \<and> aml.ordered e (am_retransmit_list e) \<and> am_queue_ok e (am_tx_list e)"

abbreviation am_tx_ok :: "nr_rlc_entity_am_t \<Rightarrow> bool" where
  "am_tx_ok e \<equiv> am_inv e []"

lemma am_invD:
  assumes "am_inv e xs"
  shows "am_window e" "am_core (am_heap e) (xs @ am_segs e)" "am_tx_size e = heap_bytes (am_heap e)"
    "bs_tx_size (ent_bstatus (am_common e)) = am_pdu_bytes e (am_tx_list e)"
    "bs_retx_size (ent_bstatus (am_common e)) = am_pdu_bytes e (am_retransmit_list e)"
    "ends_ok (am_tx_list e) (am_tx_end e)" "ends_ok (am_wait_list e) (am_wait_end e)"
    "s \<in> set (am_wait_list e) \<Longrightarrow> am_sent e s" "s \<in> set (am_retransmit_list e) \<Longrightarrow> am_sent e s"
    "aml.ordered e (am_wait_list e)" "aml.ordered e (am_retransmit_list e)" "am_queue_ok e (am_tx_list e)"
  using assms by (auto simp: am_inv_def)

lemma am_windowD:
  assumes "am_window e"
  shows "am_sn_ok e" "am_tx_window_ok e" "is_sn (am_sn_modulus e) (am_tx_next e)" "is_sn (am_sn_modulus e) (am_tx_next_ack e)"
    "am_modulus_tx e (am_tx_next e) \<le> am_window_size e"
  using assms by (auto simp: am_window_def am_tx_window_ok_def)

lemma am_sent_valid: "am_window e \<Longrightarrow> am_sent e s \<Longrightarrow> am_valid e s"
  by (auto simp: am_window_def am_sent_def am_valid_def)

lemma am_sent_sn: "am_sent e s \<Longrightarrow> sn_of (am_heap e) s \<noteq> -1"
  by (auto simp: am_sent_def is_sn_def)

text \<open>Entities that agree on what the invariant reads.\<close>

definition am_same_tx :: "nr_rlc_entity_am_t \<Rightarrow> nr_rlc_entity_am_t \<Rightarrow> bool" where
  "am_same_tx e e' \<longleftrightarrow> am_heap e' = am_heap e \<and> ent_bstatus (am_common e') = ent_bstatus (am_common e)
     \<and> am_sn_field_length e' = am_sn_field_length e \<and> am_sn_modulus e' = am_sn_modulus e \<and> am_window_size e' = am_window_size e
     \<and> am_tx_next e' = am_tx_next e \<and> am_tx_next_ack e' = am_tx_next_ack e \<and> am_tx_list e' = am_tx_list e
     \<and> am_tx_end e' = am_tx_end e \<and> am_tx_size e' = am_tx_size e \<and> am_tx_maxsize e' = am_tx_maxsize e
     \<and> am_wait_list e' = am_wait_list e \<and> am_wait_end e' = am_wait_end e \<and> am_retransmit_list e' = am_retransmit_list e"

lemma am_order_cong:
  assumes "am_heap e' = am_heap e" "am_sn_modulus e' = am_sn_modulus e" "am_tx_next_ack e' = am_tx_next_ack e"
  shows "am_modulus_tx e' = am_modulus_tx e" "am_sn_compare_tx e' = am_sn_compare_tx e" "seg_after e' = seg_after e"
  unfolding am_modulus_tx_def am_sn_compare_tx_def seg_after_def by (simp_all only: assms)

lemma am_inv_cong:
  assumes "am_same_tx e e'"
  shows "am_inv e' xs \<longleftrightarrow> am_inv e xs"
proof -
  note A = assms [unfolded am_same_tx_def]
  have o: "am_modulus_tx e' = am_modulus_tx e" "seg_after e' = seg_after e" using am_order_cong [of e' e] A by auto
  have h: "am_compute_pdu_header_size e' = am_compute_pdu_header_size e" using am_header_cong(1) A by blast
  have w: "am_window e' = am_window e" unfolding am_window_def am_tx_window_ok_def am_sn_ok_def using A o by simp
  have s: "am_sent e' = am_sent e" "am_fresh e' = am_fresh e" unfolding fun_eq_iff am_sent_def am_fresh_def using A o by simp_all
  show ?thesis
    unfolding am_inv_def am_segs_def am_pdu_bytes_def am_queue_ok_def w s o h using A by simp
qed

section \<open>Insertion into the wait list\<close>

lemma dropWhile_last:
  assumes "distinct (map seg_addr l)" and "l \<noteq> []"
  shows "dropWhile (\<lambda>x. seg_addr x \<noteq> seg_addr (last l)) l = [last l]"
proof -
  obtain ys y where l: "l = ys @ [y]" using assms(2) by (metis rev_exhaust)
  then have "seg_addr y \<notin> seg_addr ` set ys" using assms(1) by simp
  then have "\<forall>x \<in> set ys. seg_addr x \<noteq> seg_addr y" by (metis image_eqI)
  then show ?thesis by (simp add: l dropWhile_append)
qed

lemma sorted_wrt_last: "sorted_wrt R l \<Longrightarrow> x \<in> set l \<Longrightarrow> x \<noteq> last l \<Longrightarrow> R x (last l)"
  by (induction l) (auto split: if_splits)

lemma last_dropWhile: "dropWhile P l \<noteq> [] \<Longrightarrow> last (dropWhile P l) = last l"
  by (induction l) auto

lemma am_inv_addrs:
  assumes "am_inv e xs"
  shows "distinct (map seg_addr (xs @ am_tx_list e @ am_wait_list e @ am_retransmit_list e))"
    "distinct (map seg_addr (am_wait_list e))" "distinct (map seg_addr (am_tx_list e))"
  using am_coreD(1) [OF am_invD(2) [OF assms]] by (auto simp: heap_ok_def am_segs_def)

lemma am_total:
  assumes "am_inv e xs" and "x \<in> set (xs @ am_segs e)" and "y \<in> set (xs @ am_segs e)" and "x \<noteq> y"
    and "am_sent e x" and "am_sent e y"
  shows "seg_after e x y \<longleftrightarrow> \<not> seg_after e y x"
proof -
  have v: "am_valid e x" "am_valid e y" using am_sent_valid [OF am_invD(1) [OF assms(1)]] assms(5,6) by auto
  have "seg_so x \<noteq> seg_so y" if "sn_of (am_heap e) x = sn_of (am_heap e) y"
    using am_core_key [OF am_invD(2) [OF assms(1)] assms(2-4) that am_sent_sn [OF assms(5)]] .
  then show ?thesis
    using v amt.md_inject [of e "sn_of (am_heap e) x" "sn_of (am_heap e) y"]
    by (fastforce simp: seg_after_cases am_valid_def)
qed

lemma after_wait_end_eq:
  assumes "am_inv e [s]" and "am_sent e s" and "am_wait_list e \<noteq> []"
  shows "after_wait_end e s = Inr (seg_after e s (last (am_wait_list e)))"
proof -
  let ?w = "last (am_wait_list e)"
  note I = am_invD [OF assms(1)]
  have w: "?w \<in> set ([s] @ am_segs e)" "?w \<in> set (am_wait_list e)" using assms(3) by (auto simp: am_segs_def)
  have a: "am_wait_end e = Some (seg_addr ?w)" using I(7) assms(3) by (simp add: ends_ok_def)
  have "am_sn_compare_tx e (sn_of (am_heap e) s) (sn_of (am_heap e) ?w) = 0 \<longleftrightarrow> sn_of (am_heap e) s = sn_of (am_heap e) ?w"
    using amt.md_inject [of e "sn_of (am_heap e) s" "sn_of (am_heap e) ?w"] I(1) assms(2) I(8) [OF w(2)]
    by (simp add: am_sn_compare_tx_def am_sent_def am_window_def)
  then show ?thesis
    using am_core_live(2) [OF I(2) w(1)] am_core_live(2) [OF I(2), of s] dropWhile_last [OF am_inv_addrs(2) [OF assms(1)] assms(3)]
    by (simp add: after_wait_end_def a seg_after_def)
qed

lemma put_in_wait_list_ok:
  assumes inv: "am_inv e [s]" and sent: "am_sent e s"
  obtains l tail where "put_in_wait_list e s = Inr (e\<lparr>am_wait_list := l, am_wait_end := tail\<rparr>)"
    "mset l = add_mset s (mset (am_wait_list e))" "ends_ok l tail" "aml.ordered e l"
proof (cases "am_wait_list e = []")
  case True
  then have "am_wait_end e = None" using am_invD(7) [OF inv] by simp
  then have "put_in_wait_list e s = Inr (e\<lparr>am_wait_list := [s], am_wait_end := Some (seg_addr s)\<rparr>)"
    using True by (simp add: put_in_wait_list_def after_wait_end_def nr_rlc_sdu_segment_list_append_def)
  then show ?thesis using that True by (simp add: ends_ok_def)
next
  case False
  let ?l = "am_wait_list e" and ?w = "last (am_wait_list e)"
  note I = am_invD [OF inv]
  have w: "?w \<in> set ?l" using False by simp
  have v: "am_valid e x" if "x \<in> insert s (set ?l)" for x using am_sent_valid [OF I(1)] that I(8) sent by blast
  have "seg_addr s \<notin> seg_addr ` set ?l" using am_inv_addrs(1) [OF inv] by simp
  then have "s \<noteq> ?w" using w by (metis image_eqI)
  then have tot: "seg_after e s ?w \<longleftrightarrow> \<not> seg_after e ?w s"
    using am_total [OF inv _ _ _ sent I(8) [OF w]] w by (simp add: am_segs_def)
  show ?thesis
  proof (cases "seg_after e s ?w")
    case True
    then have "put_in_wait_list e s = Inr (e\<lparr>am_wait_list := ?l @ [s], am_wait_end := Some (seg_addr s)\<rparr>)"
      using list_append_ok [OF I(7) am_inv_addrs(2) [OF inv]] after_wait_end_eq [OF inv sent False] by (simp add: put_in_wait_list_def)
    moreover have "aml.ordered e (?l @ [s])"
    proof -
      have "\<not> seg_after e x s" if "x \<in> set ?l" for x
      proof (cases "x = ?w")
        case False
        then have "\<not> seg_after e x ?w" using sorted_wrt_last [OF I(10) that] by simp
        then show ?thesis using aml.not_after_trans [of e x ?w s] v that w True tot by blast
      qed (use True tot in simp)
      then show ?thesis using I(10) by (simp add: sorted_wrt_append)
    qed
    ultimately show ?thesis using that [where l = "?l @ [s]"] by (simp add: ends_ok_def)
  next
    case nb: False
    let ?l' = "ordered_add (seg_after e) ?l s"
    have add: "nr_rlc_tx_sdu_segment_list_add e ?l s = Inr ?l'"
      by (rule tx_list_add_eq [OF I(2)]) (auto simp: am_segs_def)
    have "dropWhile (\<lambda>c. \<not> seg_after e c s) ?l \<noteq> []" using w nb tot by (auto simp: dropWhile_eq_Nil_conv)
    then have l': "last ?l' = ?w" by (auto simp: ordered_add_split last_dropWhile)
    have two: "\<not> (\<exists>x. ?l' = [x])" using False length_ordered_add [of "seg_after e" ?l s] by (cases ?l) (auto simp del: length_ordered_add)
    have "put_in_wait_list e s = Inr (e\<lparr>am_wait_list := ?l', am_wait_end := am_wait_end e\<rparr>)"
      using add after_wait_end_eq [OF inv sent False] nb two by (auto simp: put_in_wait_list_def split: list.splits)
    moreover have "aml.ordered e ?l'" by (rule aml.ordered_add_ordered [OF I(10)]) (use v in auto)
    moreover have "ends_ok ?l' (am_wait_end e)" using I(7) l' False by (simp add: ends_ok_def)
    moreover have "mset ?l' = add_mset s (mset ?l)" by simp
    ultimately show ?thesis by (intro that)
  qed
qed

end
