(* ===== verification/Rlc_Am_Ops.thy ===== *)
theory Rlc_Am_Ops
  imports Rlc_Am_Lists
begin

text \<open>
  The operations of the transmitting side of an acknowledged mode entity keep the invariant
  \<open>am_tx_ok\<close>: SDUs from the upper layer, generation of data PDUs, the poll timer, discard and
  re-establishment.
\<close>

section \<open>Frames\<close>

text \<open>The sequence numbers of the segments in \<open>X\<close> and the window are the same.\<close>

definition am_frame :: "nr_rlc_sdu_segment_t set \<Rightarrow> nr_rlc_entity_am_t \<Rightarrow> nr_rlc_entity_am_t \<Rightarrow> bool" where
  "am_frame X e e' \<longleftrightarrow> (\<forall>x \<in> X. sn_of (am_heap e') x = sn_of (am_heap e) x)
     \<and> am_sn_field_length e' = am_sn_field_length e \<and> am_sn_modulus e' = am_sn_modulus e \<and> am_window_size e' = am_window_size e
     \<and> am_tx_next_ack e' = am_tx_next_ack e \<and> am_tx_next e' = am_tx_next e"

lemma sorted_wrt_cong:
  "(\<And>x y. x \<in> set l \<Longrightarrow> y \<in> set l \<Longrightarrow> P x y = Q x y) \<Longrightarrow> sorted_wrt P l = sorted_wrt Q l"
  by (induction l) auto

lemma am_frameD:
  assumes "am_frame X e e'"
  shows "am_window e' = am_window e" "x \<in> X \<Longrightarrow> am_sent e' x = am_sent e x" "x \<in> X \<Longrightarrow> am_fresh e' x = am_fresh e x"
    "set l \<subseteq> X \<Longrightarrow> aml.ordered e' l = aml.ordered e l" "am_pdu_bytes e' = am_pdu_bytes e"
    "set l \<subseteq> X \<Longrightarrow> am_queue_ok e' l = am_queue_ok e l" "am_compute_pdu_header_size e' = am_compute_pdu_header_size e"
proof -
  note A = assms [unfolded am_frame_def]
  have m: "am_modulus_tx e' = am_modulus_tx e" unfolding am_modulus_tx_def fun_eq_iff using A by (simp add: Let_def)
  show "am_window e' = am_window e" unfolding am_window_def am_tx_window_ok_def am_sn_ok_def m using A by simp
  show s: "x \<in> X \<Longrightarrow> am_sent e' x = am_sent e x" "x \<in> X \<Longrightarrow> am_fresh e' x = am_fresh e x" for x
    unfolding am_sent_def am_fresh_def m using A by simp_all
  show "aml.ordered e' l = aml.ordered e l" if "set l \<subseteq> X"
    by (rule sorted_wrt_cong) (use that A in \<open>auto simp: seg_after_def am_sn_compare_tx_def m subset_iff\<close>)
  show h: "am_compute_pdu_header_size e' = am_compute_pdu_header_size e" by (rule am_header_cong(1)) (use A in simp)
  show "am_pdu_bytes e' = am_pdu_bytes e" unfolding am_pdu_bytes_def h ..
  show "am_queue_ok e' l = am_queue_ok e l" if "set l \<subseteq> X"
    using that s by (cases l) (auto simp: am_queue_ok_def subset_iff)
qed

lemma am_inv_frameI:
  assumes "am_frame X e e'" and "am_window e" and "am_core (am_heap e') (xs @ am_segs e')"
    and "am_tx_size e' = heap_bytes (am_heap e')"
    and "bs_tx_size (ent_bstatus (am_common e')) = am_pdu_bytes e (am_tx_list e')"
    and "bs_retx_size (ent_bstatus (am_common e')) = am_pdu_bytes e (am_retransmit_list e')"
    and "ends_ok (am_tx_list e') (am_tx_end e')" and "ends_ok (am_wait_list e') (am_wait_end e')"
    and "set (am_wait_list e') \<union> set (am_retransmit_list e') \<subseteq> X"
    and "\<forall>s \<in> set (am_wait_list e') \<union> set (am_retransmit_list e'). am_sent e s"
    and "aml.ordered e (am_wait_list e')" and "aml.ordered e (am_retransmit_list e')"
    and "am_queue_ok e' (am_tx_list e')"
  shows "am_inv e' xs"
proof -
  note F = am_frameD [OF assms(1)]
  have "am_sent e' s" if "s \<in> set (am_wait_list e') \<union> set (am_retransmit_list e')" for s
    using that assms(9,10) F(2) by blast
  moreover have "aml.ordered e' (am_wait_list e')" "aml.ordered e' (am_retransmit_list e')"
    using assms(9,11,12) F(4) by simp_all
  ultimately show ?thesis unfolding am_inv_def F(1,5) using assms(2-8,13) by blast
qed

lemma am_pdu_bytes_simps [simp]:
  "am_pdu_bytes e [] = 0" "am_pdu_bytes e (s # l) = am_compute_pdu_header_size e s + seg_size s + am_pdu_bytes e l"
  "am_pdu_bytes e (l @ l') = am_pdu_bytes e l + am_pdu_bytes e l'"
  by (simp_all add: am_pdu_bytes_def)

lemma am_pdu_bytes_mset: "am_pdu_bytes e l = (\<Sum>s\<in>#mset l. am_compute_pdu_header_size e s + seg_size s)"
  by (induction l) simp_all

lemma am_pdu_bytes_perm: "mset l = mset l' \<Longrightarrow> am_pdu_bytes e l = am_pdu_bytes e l'"
  by (simp add: am_pdu_bytes_mset)

section \<open>SDUs from the upper layer\<close>

lemma am_log_rejected_same: "am_same_tx e (am_log_rejected e)"
  by (simp add: am_log_rejected_def am_same_tx_def)

lemma am_same_tx_trans: "am_same_tx a b \<Longrightarrow> am_same_tx b c \<Longrightarrow> am_same_tx a c"
  unfolding am_same_tx_def by presburger

lemma am_same_tx_stats: "am_same_tx e (e\<lparr>am_common := with_stats f (am_common e)\<rparr>)"
  by (simp add: am_same_tx_def)

text \<open>A change of an SDU that leaves its number, its bytes and its counters.\<close>

lemma am_core_touch:
  assumes ok: "am_core h segs" and s: "s \<in> set segs" and sn: "sdu_sn d = sn_of h s"
    and "sdu_ref_count d = sdu_ref_count (sdu_of h s)" "sdu_free_count d = sdu_free_count (sdu_of h s)"
    "sdu_size d = sdu_size (sdu_of h s)" "sdu_data d = sdu_data (sdu_of h s)"
  shows "am_core (store h (seg_sdu s) d) segs" "heap_bytes (store h (seg_sdu s) d) = heap_bytes h"
    "sn_of (store h (seg_sdu s) d) x = sn_of h x"
proof -
  have "sn_unique (store h (seg_sdu s) d)"
    by (rule sn_unique_same [OF am_coreD(2) [OF ok] am_core_live(1) [OF ok s] sn])
  then show "am_core (store h (seg_sdu s) d) segs" "heap_bytes (store h (seg_sdu s) d) = heap_bytes h"
    using am_core_store [OF ok s _ assms(4-7)] by blast+
  show "sn_of (store h (seg_sdu s) d) x = sn_of h x" unfolding sdu_of_store using sn by (simp add: sdu_of_def)
qed

lemma stamp_arrival_core:
  assumes ok: "am_core (ent_heap c) segs" and s: "s \<in> set segs"
  obtains h where "stamp_arrival now s c = Inr (with_heap h c)" "am_core h segs" "heap_bytes h = heap_bytes (ent_heap c)"
    "\<forall>x. sn_of h x = sn_of (ent_heap c) x"
proof (cases "ent_avg_time_is_on c")
  case True
  note T = am_core_touch [OF ok s, of "sdu_of (ent_heap c) s\<lparr>sdu_time_of_arrival := now\<rparr>", simplified]
  show ?thesis
    by (rule that [OF _ T(1,2)]) (use True am_core_live(2) [OF ok s] T(3) in \<open>simp_all add: stamp_arrival_def\<close>)
next
  case False
  show ?thesis by (rule that [of "ent_heap c"]) (use False ok in \<open>simp_all add: stamp_arrival_def with_heap_def\<close>)
qed

lemma am_recv_sdu_ok:
  assumes ok: "am_tx_ok e" and b: "b \<noteq> []" "int (length b) \<le> NR_SDU_MAX"
  shows "\<exists>e'. nr_rlc_entity_am_recv_sdu now e b i = Inr e' \<and> am_tx_ok e'
     \<and> am_tx_size e' = (if am_tx_size e + int (length b) > am_tx_maxsize e then am_tx_size e else am_tx_size e + int (length b))
     \<and> am_tx_maxsize e' = am_tx_maxsize e"
proof -
  define e1 where "e1 = am_log_rejected (e\<lparr>am_common := with_stats (\<lambda>st. st\<lparr>rxsdu_pkts := rxsdu_pkts st + 1\<rparr>) (am_common e)\<rparr>)"
  have same: "am_same_tx e e1" unfolding e1_def
    by (rule am_same_tx_trans [OF am_same_tx_stats am_log_rejected_same])
  then have ok1: "am_tx_ok e1" and sz: "am_tx_size e1 = am_tx_size e" "am_tx_maxsize e1 = am_tx_maxsize e"
    using ok by (simp_all add: am_inv_cong) (simp_all add: am_same_tx_def)
  show ?thesis
  proof (cases "am_tx_size e + int (length b) > am_tx_maxsize e")
    case True
    let ?e = "e1\<lparr>am_sdu_rejected := am_sdu_rejected e1 + 1, am_common := with_stats (\<lambda>st. st\<lparr>txpdu_dd_pkts := txpdu_dd_pkts st + 1,
       txpdu_dd_bytes := txpdu_dd_bytes st + of_nat (length b)\<rparr>) (am_common e1)\<rparr>"
    have "nr_rlc_entity_am_recv_sdu now e b i = Inr ?e"
      using True b sz unfolding nr_rlc_entity_am_recv_sdu_def Let_def e1_def [symmetric] by simp
    moreover have "am_tx_ok ?e" using ok1 by (subst am_inv_cong [of e1]) (simp_all add: am_same_tx_def)
    ultimately show ?thesis using True sz by simp
  next
    case False
    note I = am_invD [OF ok1]
    obtain h s where new: "nr_rlc_new_sdu (am_heap e1) b i = (h, s)" by fastforce
    note N = am_core_new_sdu [OF I(2) [simplified] new b]
    define c where "c = add_bs_tx (am_compute_pdu_header_size e1 s + seg_size s) (with_heap h
      (with_stats (\<lambda>st. st\<lparr>rxsdu_bytes := rxsdu_bytes st + of_nat (length b)\<rparr>) (am_common e1)))"
    have "am_core (ent_heap c) (s # am_segs e1)" using N(1) by (simp add: c_def)
    then obtain h' where h': "stamp_arrival now s c = Inr (with_heap h' c)" "am_core h' (s # am_segs e1)"
        "heap_bytes h' = heap_bytes h" "\<forall>x. sn_of h' x = sn_of h x"
      by (rule stamp_arrival_core [of c "s # am_segs e1" s]) (simp_all add: c_def)
    have app: "nr_rlc_sdu_segment_list_append (am_tx_list e1) (am_tx_end e1) s = Inr (am_tx_list e1 @ [s], Some (seg_addr s))"
      by (rule list_append_ok [OF I(6) am_inv_addrs(3) [OF ok1]])
    define e' where "e' = e1\<lparr>am_tx_size := am_tx_size e1 + int (length b), am_tx_list := am_tx_list e1 @ [s],
       am_tx_end := Some (seg_addr s), am_common := with_heap h' c\<rparr>"
    have r: "nr_rlc_entity_am_recv_sdu now e b i = Inr e'"
      using False b sz new app h'(1) unfolding nr_rlc_entity_am_recv_sdu_def Let_def e1_def [symmetric]
      by (simp add: e'_def c_def)
    have fr: "am_frame (set (am_segs e1)) e1 e'"
      using h'(4) N(7) by (simp add: am_frame_def e'_def)
    note F = am_frameD [OF fr]
    have E: "am_heap e' = h'" "am_tx_list e' = am_tx_list e1 @ [s]" "am_tx_end e' = Some (seg_addr s)"
      "am_wait_list e' = am_wait_list e1" "am_wait_end e' = am_wait_end e1" "am_retransmit_list e' = am_retransmit_list e1"
      "am_tx_size e' = am_tx_size e1 + int (length b)"
      "bs_tx_size (ent_bstatus (am_common e')) = bs_tx_size (ent_bstatus (am_common e1)) + am_pdu_bytes e1 [s]"
      "bs_retx_size (ent_bstatus (am_common e')) = bs_retx_size (ent_bstatus (am_common e1))"
      by (simp_all add: e'_def c_def)
    have core: "am_core h' (am_segs e')"
      using h'(2) by (subst am_core_perm [of _ "s # am_segs e1"]) (simp_all add: am_segs_def E)
    have "am_queue_ok e' (am_tx_list e1)" using I(12) F(6) by (simp add: am_segs_def)
    moreover have "am_fresh e' s" using h'(4) N(3-5) by (simp add: am_fresh_def E)
    ultimately have "am_queue_ok e' (am_tx_list e')" by (cases "am_tx_list e1") (auto simp: am_queue_ok_def E)
    then have "am_tx_ok e'"
      by (intro am_inv_frameI [OF fr I(1)]) (use core I N(2) h'(3) in \<open>auto simp: E am_segs_def\<close>)
    then show ?thesis using r False sz by (simp add: e'_def)
  qed
qed

section \<open>Data PDUs\<close>

text \<open>The sequence numbers of the other segments do not change with the heap.\<close>

lemma am_frame_heap: "\<forall>x. sn_of h x = sn_of (am_heap e) x \<Longrightarrow> am_frame UNIV e (e\<lparr>am_common := with_heap h c\<rparr>)"
  by (simp add: am_frame_def)

lemma am_sent_frame: "am_frame UNIV e e' \<Longrightarrow> am_sent e' x = am_sent e x"
  using am_frameD(2) by blast

text \<open>A list after \<open>x\<close>, the first bytes of its head \<open>s\<close>, was taken from it.\<close>

definition am_rest :: "nr_rlc_sdu_segment_t \<Rightarrow> nr_rlc_sdu_segment_t \<Rightarrow> nr_rlc_sdu_segment_t list \<Rightarrow> nr_rlc_sdu_segment_t list \<Rightarrow> bool" where
  "am_rest s x l l' \<longleftrightarrow> (if seg_size x = seg_size s then l = s # l'
     else \<exists>r rest. l = s # rest \<and> l' = r # rest \<and> seg_sdu r = seg_sdu s \<and> seg_so r = seg_so s + seg_size x
       \<and> seg_size r = seg_size s - seg_size x)"

lemma am_resegment_ok:
  assumes inv: "am_inv e (s # xs)" and n: "am_compute_pdu_header_size e s + 1 \<le> n" "n < am_compute_pdu_header_size e s + seg_size s"
  obtains s1 s2 h where "am_resegment s e n = Inr (s1, s2, e\<lparr>am_common := with_heap h (am_common e)\<rparr>)"
    "am_inv (e\<lparr>am_common := with_heap h (am_common e)\<rparr>) (s1 # s2 # xs)" "\<forall>x. sn_of h x = sn_of (am_heap e) x"
    "am_compute_pdu_header_size e s1 + seg_size s1 = n" "seg_sdu s1 = seg_sdu s" "seg_sdu s2 = seg_sdu s"
    "seg_so s1 = seg_so s" "seg_is_first s1 = seg_is_first s" "seg_so s2 < seg_so s + seg_size s" "am_rest s s1 (s # l) (s2 # l)"
proof -
  let ?k = "n - am_compute_pdu_header_size e s" and ?h = "am_heap e"
  note I = am_invD [OF inv]
  define s1 where "s1 = s\<lparr>seg_size := ?k, seg_is_last := False\<rparr>"
  define s2 where "s2 = s\<lparr>seg_addr := hp_brk ?h, seg_size := seg_size s - ?k, seg_so := seg_so s + ?k, seg_is_first := False\<rparr>"
  define h where "h = (store ?h (seg_sdu s) (sdu_of ?h s\<lparr>sdu_ref_count := sdu_ref_count (sdu_of ?h s) + 1\<rparr>))\<lparr>hp_brk := hp_brk ?h + 1\<rparr>"
  let ?e = "e\<lparr>am_common := with_heap h (am_common e)\<rparr>"
  have core: "am_core ?h (s # (xs @ am_segs e))" using I(2) by simp
  have k: "0 < ?k" "?k < seg_size s" using n by simp_all
  note S = am_core_split [OF core k h_def s1_def s2_def]
  have "am_resegment s e n = Inr (s1, s2, ?e)"
    using am_core_live(2) [OF core, of s] by (simp add: am_resegment_def Let_def s1_def s2_def h_def algebra_simps store_def)
  moreover have snx: "\<forall>x. sn_of h x = sn_of ?h x" using S(3) by blast
  have fr: "am_frame UNIV e ?e" by (rule am_frame_heap [OF snx])
  have "am_queue_ok ?e (am_tx_list e)" using am_frameD(6) [OF fr, of "am_tx_list e"] I(12) by simp
  then have "am_inv ?e (s1 # s2 # xs)"
    by (intro am_inv_frameI [OF fr I(1)]) (use I S in \<open>auto simp: am_segs_def\<close>)
  moreover have "am_compute_pdu_header_size e s1 + seg_size s1 = n" by (simp add: am_compute_pdu_header_size_def s1_def)
  ultimately show ?thesis using snx k by (intro that [of s1 s2 h]) (simp_all add: s1_def s2_def am_rest_def)
qed

text \<open>The rest of a segment takes its place in the ordered list.\<close>

lemma seg_after_rest:
  assumes inv: "am_inv e (s # xs)" and x: "x \<in> set (xs @ am_segs e)" and sent: "am_sent e s" "am_sent e x"
    and le: "\<not> seg_after e s x" and s2: "sn_of (am_heap e) s2 = sn_of (am_heap e) s" "seg_so s2 < seg_so s + seg_size s"
  shows "\<not> seg_after e s2 x"
proof -
  note I = am_invD [OF inv]
  have "x \<noteq> s" using x am_coreD(1) [OF I(2)] by (auto simp: heap_ok_def)
  have v: "am_valid e s" "am_valid e x" "am_valid e s2"
    using sent am_sent_valid [OF I(1)] s2(1) by (auto simp: am_valid_def)
  have "seg_so s2 \<le> seg_so x" if eq: "sn_of (am_heap e) s = sn_of (am_heap e) x"
  proof -
    have "seg_sdu s = seg_sdu x"
      using am_coreD(2) [OF I(2)] am_core_live(1) [OF I(2)] x eq am_sent_sn [OF sent(1)]
      unfolding sn_unique_def by (metis append_Cons list.set_intros(1) list.set_intros(2))
    then have "seg_so s + seg_size s \<le> seg_so x \<or> seg_so x + seg_size x \<le> seg_so s"
      using pairwiseD [OF am_coreD(3) [OF I(2)], of s x] x \<open>x \<noteq> s\<close> by (simp add: apart_def)
    moreover have "seg_so s \<le> seg_so x" using le v eq by (simp add: seg_after_cases)
    moreover have "0 < seg_size x" using am_coreD(4) [OF I(2)] x by simp
    ultimately show ?thesis using s2(2) by simp
  qed
  then show ?thesis
    using le v amt.md_inject [of e "sn_of (am_heap e) s" "sn_of (am_heap e) x"] s2(1)
    by (auto simp: seg_after_cases am_valid_def)
qed

lemma am_commit:
  assumes inv: "am_inv e [s]" and sent: "am_sent e s"
  obtains l tail where "put_in_wait_list e s = Inr (e\<lparr>am_wait_list := l, am_wait_end := tail\<rparr>)"
    "am_tx_ok (e\<lparr>am_wait_list := l, am_wait_end := tail\<rparr>)" "s \<in> set l"
proof -
  note I = am_invD [OF inv]
  obtain l tail where l: "put_in_wait_list e s = Inr (e\<lparr>am_wait_list := l, am_wait_end := tail\<rparr>)"
    "mset l = add_mset s (mset (am_wait_list e))" "ends_ok l tail" "aml.ordered e l"
    by (rule put_in_wait_list_ok [OF inv sent])
  let ?e = "e\<lparr>am_wait_list := l, am_wait_end := tail\<rparr>"
  have fr: "am_frame UNIV e ?e" by (simp add: am_frame_def)
  have core: "am_core (am_heap ?e) ([] @ am_segs ?e)"
    using I(2) l(2) by (subst am_core_perm [of _ "[s] @ am_segs e"]) (simp_all add: am_segs_def)
  have set_l: "set l = insert s (set (am_wait_list e))" using l(2) by (metis set_mset_add_mset_insert set_mset_mset)
  have "am_queue_ok ?e (am_tx_list e)" using am_frameD(6) [OF fr, of "am_tx_list e"] I(12) by simp
  then have "am_tx_ok ?e"
    by (intro am_inv_frameI [OF fr I(1)]) (use core I l(3,4) sent set_l in auto)
  then show ?thesis using that l(1) set_l by blast
qed

text \<open>
  A PDU carries a segment when every receiver of the same sequence-number length reads its header
  fields and its bytes from it.
\<close>

definition am_carries :: "nr_rlc_entity_am_t \<Rightarrow> nr_rlc_sdu_segment_t \<Rightarrow> bytes \<Rightarrow> bool" where
  "am_carries e s pdu \<longleftrightarrow> (\<exists>p. \<forall>r. am_sn_ok r \<longrightarrow> am_sn_field_length r = am_sn_field_length e \<longrightarrow>
     am_parse_pdu r pdu = Inr (Am_Data p (sn_of (am_heap e) s) (seg_so s) (seg_is_first s) (seg_is_last s)
       (take (nat (seg_size s)) (drop (nat (seg_so s)) (sdu_data (sdu_of (am_heap e) s))))))"

lemma am_carries_cong:
  "am_heap e' = am_heap e \<Longrightarrow> am_sn_field_length e' = am_sn_field_length e \<Longrightarrow> am_carries e' s pdu = am_carries e s pdu"
  by (simp add: am_carries_def)

lemma am_write:
  assumes inv: "am_tx_ok e" and s: "s \<in> set (am_wait_list e)"
    and room: "am_compute_pdu_header_size e s + seg_size s \<le> int (length buffer)"
  obtains buf where "am_serialize_sdu e s buffer p = Inr (am_compute_pdu_header_size e s + seg_size s, buf, polled p e)"
    "length buf = length buffer" "am_carries e s (take (nat (am_compute_pdu_header_size e s + seg_size s)) buf)"
proof -
  note I = am_invD [OF inv]
  have "s \<in> set ([] @ am_segs e)" using s by (simp add: am_segs_def)
  note L = am_core_live [OF I(2) this]
  have sn: "is_sn (am_sn_modulus e) (sn_of (am_heap e) s)" using I(8) [OF s] by (simp add: am_sent_def)
  obtain buf where "am_serialize_sdu e s buffer p = Inr (am_compute_pdu_header_size e s + seg_size s, buf, polled p e)"
    "length buf = length buffer" "\<forall>e'. am_sn_ok e' \<longrightarrow> am_sn_field_length e' = am_sn_field_length e \<longrightarrow>
       am_parse_pdu e' (take (nat (am_compute_pdu_header_size e s + seg_size s)) buf)
       = Inr (Am_Data p (sn_of (am_heap e) s) (seg_so s) (seg_is_first s) (seg_is_last s)
                (take (nat (seg_size s)) (drop (nat (seg_so s)) (sdu_data (sdu_of (am_heap e) s)))))"
    by (rule am_serialize_ok [OF am_windowD(1) [OF I(1)] L(2-5) room sn L(6)])
  then show ?thesis using that unfolding am_carries_def by blast
qed

lemma am_same_tx_refl: "am_same_tx e e"
  by (simp add: am_same_tx_def)

lemma am_same_tx_poll: "am_same_tx e (polled p e)" "am_same_tx e (snd (take_force_poll e b))" "am_same_tx e (snd (poll_new_pdu e s))"
  by (simp_all add: polled_def take_force_poll_def poll_new_pdu_def Let_def am_same_tx_def)

definition am_taken :: "nr_rlc_entity_am_t \<Rightarrow> nr_rlc_sdu_segment_t \<Rightarrow> nr_rlc_sdu_segment_t \<Rightarrow> nr_rlc_entity_am_t \<Rightarrow> bool" where
  "am_taken e s x e' \<longleftrightarrow> am_rest s x (am_retransmit_list e) (am_retransmit_list e') \<and> am_tx_list e' = am_tx_list e
     \<or> am_rest s x (am_tx_list e) (am_tx_list e') \<and> am_retransmit_list e' = am_retransmit_list e"

text \<open>An SDU without a sequence number takes the next one, and an SDU with a number keeps it.\<close>

definition am_numbered :: "nr_rlc_entity_am_t \<Rightarrow> nr_rlc_sdu_segment_t \<Rightarrow> nr_rlc_entity_am_t \<Rightarrow> bool" where
  "am_numbered e s e' \<longleftrightarrow> (if sn_of (am_heap e) s = -1
     then sn_of (am_heap e') s = am_tx_next e \<and> am_tx_next e' = (am_tx_next e + 1) mod am_sn_modulus e
     else sn_of (am_heap e') s = sn_of (am_heap e) s \<and> am_tx_next e' = am_tx_next e)"

text \<open>What the generation of a PDU from a segment promises.\<close>

definition am_emits :: "nr_rlc_entity_am_t \<Rightarrow> nr_rlc_sdu_segment_t \<Rightarrow> bytes \<Rightarrow> int \<Rightarrow> bytes \<Rightarrow> nr_rlc_entity_am_t \<Rightarrow> bool" where
  "am_emits e s buffer n buf e' \<longleftrightarrow> am_tx_ok e' \<and> length buf = length buffer \<and> am_numbered e s e'
     \<and> n = min (am_compute_pdu_header_size e s + seg_size s) (int (length buffer))
     \<and> (\<exists>x \<in> set (am_wait_list e'). seg_sdu x = seg_sdu s \<and> seg_so x = seg_so s
          \<and> seg_size x = n - am_compute_pdu_header_size e s \<and> am_carries e' x (take (nat n) buf)
          \<and> am_taken e s x e')"

lemma am_emitsI:
  assumes "length buf = length buffer" "x \<in> set (am_wait_list e5)" "am_tx_ok e5"
    "am_carries e5 x (take (nat (am_compute_pdu_header_size e2 x + seg_size x)) buf)" "am_same_tx e5 e'"
    "seg_sdu x = seg_sdu s" "seg_so x = seg_so s" "am_compute_pdu_header_size e2 x = am_compute_pdu_header_size e s"
    "am_compute_pdu_header_size e s + seg_size x = min (am_compute_pdu_header_size e s + seg_size s) (int (length buffer))"
    "am_taken e s x e5" "am_numbered e s e5"
  shows "am_emits e s buffer (am_compute_pdu_header_size e2 x + seg_size x) buf e'"
proof -
  have "am_tx_ok e'" using am_inv_cong [OF assms(5)] assms(3) by blast
  moreover have "am_carries e' x (take (nat (am_compute_pdu_header_size e2 x + seg_size x)) buf)"
    using assms(4,5) by (subst am_carries_cong [of _ e5]) (simp_all add: am_same_tx_def)
  moreover have "x \<in> set (am_wait_list e')" using assms(2,5) by (simp add: am_same_tx_def)
  moreover have "am_taken e s x e'" using assms(5,10) by (simp add: am_taken_def am_same_tx_def)
  moreover have "am_numbered e s e'" using assms(5,11) by (simp add: am_numbered_def am_same_tx_def)
  ultimately show ?thesis using assms(1,6-9) unfolding am_emits_def by (intro conjI bexI [of _ x]) simp_all
qed

lemma am_emit:
  assumes inv: "am_inv e [x]" and sent: "am_sent e x" and same: "\<forall>e3. am_same_tx e3 (f e3)"
    and n: "am_compute_pdu_header_size e x + seg_size x \<le> int (length buffer)"
  obtains e3 buf e5 where "put_in_wait_list e x = Inr e3"
    "am_serialize_sdu (f e3) x buffer (p e3) = Inr (am_compute_pdu_header_size e x + seg_size x, buf, e5)"
    "length buf = length buffer" "x \<in> set (am_wait_list e5)" "am_tx_ok e5"
    "am_carries e5 x (take (nat (am_compute_pdu_header_size e x + seg_size x)) buf)"
    "am_tx_list e5 = am_tx_list e" "am_retransmit_list e5 = am_retransmit_list e" "am_tx_next e5 = am_tx_next e" "am_heap e5 = am_heap e"
proof -
  obtain l tail where l: "put_in_wait_list e x = Inr (e\<lparr>am_wait_list := l, am_wait_end := tail\<rparr>)"
    "am_tx_ok (e\<lparr>am_wait_list := l, am_wait_end := tail\<rparr>)" "x \<in> set l"
    by (rule am_commit [OF inv sent])
  let ?e3 = "e\<lparr>am_wait_list := l, am_wait_end := tail\<rparr>"
  have s4: "am_same_tx ?e3 (f ?e3)" using same by blast
  have h: "am_compute_pdu_header_size (f ?e3) x = am_compute_pdu_header_size e x"
    using s4 by (intro fun_cong [OF am_header_cong(1)]) (simp add: am_same_tx_def)
  have w: "x \<in> set (am_wait_list (f ?e3))" using s4 l(3) by (simp add: am_same_tx_def)
  obtain buf where buf: "am_serialize_sdu (f ?e3) x buffer (p ?e3) = Inr (am_compute_pdu_header_size e x + seg_size x, buf, polled (p ?e3) (f ?e3))"
    "length buf = length buffer" "am_carries (f ?e3) x (take (nat (am_compute_pdu_header_size e x + seg_size x)) buf)"
    using am_write [OF _ w, of buffer "p ?e3"] am_inv_cong [OF s4] l(2) n unfolding h by blast
  have s5: "am_same_tx ?e3 (polled (p ?e3) (f ?e3))" by (rule am_same_tx_trans [OF s4 am_same_tx_poll(1)])
  have "am_tx_ok (polled (p ?e3) (f ?e3))" using am_inv_cong [OF s5] l(2) by blast
  moreover have "am_carries (polled (p ?e3) (f ?e3)) x (take (nat (am_compute_pdu_header_size e x + seg_size x)) buf)"
    using buf(3) s4 s5 by (subst am_carries_cong [of _ "f ?e3"]) (simp_all add: am_same_tx_def)
  ultimately show ?thesis
    using that [OF l(1) buf(1,2)] s5 l(3) by (simp add: am_same_tx_def)
qed

lemma am_unlink_retx:
  assumes inv: "am_tx_ok e" and l: "am_retransmit_list e = xs @ s # ys"
  defines "e0 \<equiv> e\<lparr>am_retransmit_list := xs @ ys,
     am_common := add_bs_retx (- (am_compute_pdu_header_size e s + seg_size s)) (am_common e)\<rparr>"
  shows "am_inv e0 [s]" "am_sent e0 s" "\<forall>x \<in> set ys. \<not> seg_after e0 s x"
proof -
  note I = am_invD [OF inv]
  have fr: "am_frame UNIV e e0" by (simp add: am_frame_def e0_def)
  have E: "am_heap e0 = am_heap e" "am_tx_list e0 = am_tx_list e" "am_tx_end e0 = am_tx_end e"
    "am_wait_list e0 = am_wait_list e" "am_wait_end e0 = am_wait_end e" "am_retransmit_list e0 = xs @ ys"
    "am_tx_size e0 = am_tx_size e" "bs_tx_size (ent_bstatus (am_common e0)) = bs_tx_size (ent_bstatus (am_common e))"
    "bs_retx_size (ent_bstatus (am_common e0)) = bs_retx_size (ent_bstatus (am_common e)) - am_pdu_bytes e [s]"
    by (simp_all add: e0_def)
  have core: "am_core (am_heap e0) ([s] @ am_segs e0)"
    using I(2) by (subst am_core_perm [of _ "[] @ am_segs e"]) (simp_all add: am_segs_def E l)
  have "am_queue_ok e0 (am_tx_list e0)" using am_frameD(6) [OF fr, of "am_tx_list e"] I(12) by (simp add: E)
  then show "am_inv e0 [s]"
    by (intro am_inv_frameI [OF fr I(1)]) (use core I in \<open>auto simp: E l sorted_wrt_append\<close>)
  show "am_sent e0 s" using am_sent_frame [OF fr] I(9) l by simp
  show "\<forall>x \<in> set ys. \<not> seg_after e0 s x"
    using I(11) am_order_cong(3) [of e0 e] l by (simp add: e0_def sorted_wrt_append)
qed

text \<open>The rest of a segment goes back to the front of the retransmit list.\<close>

lemma am_return_retx:
  assumes inv: "am_inv e [x, s2]" and sent: "am_sent e s2" and ord: "\<forall>y \<in> set (am_retransmit_list e). \<not> seg_after e s2 y"
  shows "am_inv (e\<lparr>am_retransmit_list := s2 # am_retransmit_list e,
     am_common := with_stats f (add_bs_retx (am_compute_pdu_header_size e s2 + seg_size s2) (am_common e))\<rparr>) [x]" (is "am_inv ?e _")
proof -
  note I = am_invD [OF inv]
  have fr: "am_frame UNIV e ?e" by (simp add: am_frame_def)
  have core: "am_core (am_heap ?e) ([x] @ am_segs ?e)"
    using I(2) by (subst am_core_perm [of _ "[x, s2] @ am_segs e"]) (simp_all add: am_segs_def)
  have "am_queue_ok ?e (am_tx_list e)" using am_frameD(6) [OF fr, of "am_tx_list e"] I(12) by simp
  then show ?thesis
    by (intro am_inv_frameI [OF fr I(1)]) (use core I sent ord in auto)
qed

lemma am_cut_retx:
  assumes inv: "am_inv e [s]" and sent: "am_sent e s" and ord: "\<forall>y \<in> set (am_retransmit_list e). \<not> seg_after e s y"
    and n: "am_compute_pdu_header_size e s + 1 \<le> n"
  obtains x e2 where
    "(if am_compute_pdu_header_size e s + seg_size s > n
      then bindR (am_resegment s e n) (\<lambda>(s, next, e1).
             Inr (s, e1\<lparr>am_retransmit_list := next # am_retransmit_list e1,
                        am_common := with_stats f
                          (add_bs_retx (am_compute_pdu_header_size e1 next + seg_size next) (am_common e1))\<rparr>))
      else Inr (s, e)) = Inr (x, e2)" "am_inv e2 [x]" "am_sent e2 x" "seg_sdu x = seg_sdu s" "seg_so x = seg_so s"
    "am_compute_pdu_header_size e2 x = am_compute_pdu_header_size e s"
    "am_compute_pdu_header_size e s + seg_size x = min (am_compute_pdu_header_size e s + seg_size s) n"
    "am_rest s x (s # am_retransmit_list e) (am_retransmit_list e2)" "am_tx_list e2 = am_tx_list e"
    "am_tx_next e2 = am_tx_next e" "\<forall>y. sn_of (am_heap e2) y = sn_of (am_heap e) y"
proof (cases "am_compute_pdu_header_size e s + seg_size s > n")
  case True
  obtain s1 s2 h where r: "am_resegment s e n = Inr (s1, s2, e\<lparr>am_common := with_heap h (am_common e)\<rparr>)"
    "am_inv (e\<lparr>am_common := with_heap h (am_common e)\<rparr>) [s1, s2]" "\<forall>x. sn_of h x = sn_of (am_heap e) x"
    "am_compute_pdu_header_size e s1 + seg_size s1 = n" "seg_sdu s1 = seg_sdu s" "seg_sdu s2 = seg_sdu s"
    "seg_so s1 = seg_so s" "seg_is_first s1 = seg_is_first s" "seg_so s2 < seg_so s + seg_size s"
    "am_rest s s1 (s # am_retransmit_list e) (s2 # am_retransmit_list e)"
    by (rule am_resegment_ok [OF inv n True])
  let ?e1 = "e\<lparr>am_common := with_heap h (am_common e)\<rparr>"
  have fr: "am_frame UNIV e ?e1" by (rule am_frame_heap [OF r(3)])
  have sns: "sn_of (am_heap e) s1 = sn_of (am_heap e) s" "sn_of (am_heap e) s2 = sn_of (am_heap e) s" using r(5,6) by (simp_all add: sdu_of_def)
  then have sent12: "am_sent ?e1 s1" "am_sent ?e1 s2" using am_sent_frame [OF fr] sent by (simp_all add: am_sent_def)
  have "\<not> seg_after ?e1 s2 y" if y: "y \<in> set (am_retransmit_list e)" for y
  proof -
    have "\<not> seg_after e s2 y"
      by (rule seg_after_rest [OF inv _ sent am_invD(9) [OF inv y] _ sns(2) r(9)]) (use y ord in \<open>auto simp: am_segs_def\<close>)
    moreover have "aml.ordered ?e1 [s2, y] = aml.ordered e [s2, y]" by (rule am_frameD(4) [OF fr]) simp
    ultimately show ?thesis by simp
  qed
  then have ret: "am_inv (?e1\<lparr>am_retransmit_list := s2 # am_retransmit_list ?e1,
     am_common := with_stats f (add_bs_retx (am_compute_pdu_header_size ?e1 s2 + seg_size s2) (am_common ?e1))\<rparr>) [s1]"
    (is "am_inv ?e2 _") by (intro am_return_retx [OF r(2) sent12(2)]) simp
  have hd: "am_compute_pdu_header_size ?e2 = am_compute_pdu_header_size e" by (rule am_header_cong(1)) simp
  have "am_compute_pdu_header_size e s1 = am_compute_pdu_header_size e s" using r(8) by (simp add: am_compute_pdu_header_size_def)
  moreover have "am_sent ?e2 s1" using sent12(1) by (subst am_sent_frame [of ?e1]) (simp_all add: am_frame_def)
  ultimately show ?thesis
    using that [OF _ ret] True r(1,3,4,5,7,10) hd by simp
qed (use that [OF _ inv sent] in \<open>simp add: am_rest_def\<close>)

text \<open>A PDU from the head of a list: too little room, or a PDU of the segment or of its first bytes.\<close>

lemma generate_retx_pdu_ok:
  assumes inv: "am_tx_ok e" and l: "am_retransmit_list e = s # rest"
  shows "if am_compute_pdu_header_size e s + 1 > int (length buffer) then generate_retx_pdu e buffer = Inr (0, buffer, e)
    else \<exists>n buf e'. generate_retx_pdu e buffer = Inr (n, buf, e') \<and> am_emits e s buffer n buf e'"
proof (cases "am_compute_pdu_header_size e s + 1 > int (length buffer)")
  case True
  then show ?thesis by (simp add: generate_retx_pdu_def l Let_def)
next
  case False
  let ?n = "int (length buffer)"
  define e0 where "e0 = e\<lparr>am_retransmit_list := rest,
     am_common := add_bs_retx (- (am_compute_pdu_header_size e s + seg_size s)) (am_common e)\<rparr>"
  note T = am_unlink_retx [of e "[]" s rest, unfolded append_Nil, OF inv l, folded e0_def]
  have h0: "am_compute_pdu_header_size e0 = am_compute_pdu_header_size e" by (rule am_header_cong(1)) (simp add: e0_def)
  have "\<forall>y \<in> set (am_retransmit_list e0). \<not> seg_after e0 s y" "am_compute_pdu_header_size e0 s + 1 \<le> ?n"
    using T(3) False by (simp_all add: h0) (simp add: e0_def)
  then obtain x e2 where c: "(if am_compute_pdu_header_size e0 s + seg_size s > ?n
      then bindR (am_resegment s e0 ?n) (\<lambda>(s, next, e1).
             Inr (s, e1\<lparr>am_retransmit_list := next # am_retransmit_list e1,
                        am_common := with_stats (\<lambda>st. st\<lparr>txpdu_segmented := txpdu_segmented st + 1\<rparr>)
                          (add_bs_retx (am_compute_pdu_header_size e1 next + seg_size next) (am_common e1))\<rparr>))
      else Inr (s, e0)) = Inr (x, e2)" "am_inv e2 [x]" "am_sent e2 x" "seg_sdu x = seg_sdu s" "seg_so x = seg_so s"
    "am_compute_pdu_header_size e2 x = am_compute_pdu_header_size e0 s"
    "am_compute_pdu_header_size e0 s + seg_size x = min (am_compute_pdu_header_size e0 s + seg_size s) ?n"
    "am_rest s x (s # am_retransmit_list e0) (am_retransmit_list e2)" "am_tx_list e2 = am_tx_list e0"
    "am_tx_next e2 = am_tx_next e0" "\<forall>y. sn_of (am_heap e2) y = sn_of (am_heap e0) y"
    by (rule am_cut_retx [OF T(1,2)])
  let ?p = "\<lambda>e3. fst (take_force_poll e3 (check_poll_after_pdu_assembly e3))"
  let ?f = "\<lambda>e3. snd (take_force_poll e3 (check_poll_after_pdu_assembly e3))"
  have same: "\<forall>e3. am_same_tx e3 (?f e3)" using am_same_tx_poll(2) by blast
  have room: "am_compute_pdu_header_size e2 x + seg_size x \<le> ?n" using c(6,7) by simp
  obtain e3 buf e5 where e3: "put_in_wait_list e2 x = Inr e3"
    and e5: "am_serialize_sdu (?f e3) x buffer (?p e3) = Inr (am_compute_pdu_header_size e2 x + seg_size x, buf, e5)"
    and w: "length buf = length buffer" "x \<in> set (am_wait_list e5)" "am_tx_ok e5"
      "am_carries e5 x (take (nat (am_compute_pdu_header_size e2 x + seg_size x)) buf)"
      and lists: "am_tx_list e5 = am_tx_list e2" "am_retransmit_list e5 = am_retransmit_list e2" "am_tx_next e5 = am_tx_next e2" "am_heap e5 = am_heap e2"
    by (rule am_emit [OF c(2,3) same room, of ?p]) blast
  have tk: "am_taken e s x e5" using c(8,9) lists by (simp add: am_taken_def l) (simp add: e0_def)
  have "sn_of (am_heap e) s \<noteq> -1" using T(2) am_sent_sn [of e0 s] by (auto simp: e0_def)
  then have nb: "am_numbered e s e5" using c(10,11) lists(3,4) by (simp add: am_numbered_def e0_def)
  let ?k = "am_compute_pdu_header_size e2 x + seg_size x"
  let ?e = "e5\<lparr>am_common := with_stats (\<lambda>st. st\<lparr>txpdu_pkts := txpdu_pkts st + 1, txpdu_bytes := txpdu_bytes st + word_of_int ?k,
     txpdu_retx_pkts := txpdu_retx_pkts st + 1, txpdu_retx_bytes := txpdu_retx_bytes st + word_of_int ?k\<rparr>) (am_common e5)\<rparr>"
  have "generate_retx_pdu e buffer = Inr (?k, buf, ?e)"
    unfolding generate_retx_pdu_def l list.case Let_def e0_def [symmetric] c(1) [unfolded h0]
    using False e3 e5 by (simp add: split_beta)
  moreover have "am_emits e s buffer ?k buf ?e"
    by (rule am_emitsI [OF w am_same_tx_stats c(4,5) c(6,7) [unfolded h0] tk nb])
  ultimately show ?thesis using False by auto
qed

end
