(* ===== verification/Rlc_Am_Gen.thy ===== *)
theory Rlc_Am_Gen
  imports Rlc_Am_Ops
begin

text \<open>
  New data of an acknowledged mode entity: the assignment of sequence numbers inside the window, and the
  generation of PDUs from the transmit list. Then the timer, discard and re-establishment.
\<close>

section \<open>Sequence numbers of new SDUs\<close>

lemma am_stalling:
  assumes "am_window e"
  shows "is_window_stalling e \<longleftrightarrow> am_modulus_tx e (am_tx_next e) = am_window_size e"
proof -
  note W = am_windowD [OF assms] and D = am_sn_okD [OF am_windowD(1) [OF assms]]
  have "am_modulus_tx e (am_tx_next_ack e) = 0" using amt.md_base W(2,4) by blast
  moreover have "crem (am_tx_next_ack e + am_window_size e) (am_sn_modulus e) = (am_tx_next_ack e + am_window_size e) mod am_sn_modulus e"
    using W(4) D by (intro crem_mod) (auto simp: is_sn_def)
  moreover have "am_modulus_tx e ((am_tx_next_ack e + am_window_size e) mod am_sn_modulus e) = am_window_size e"
    using W(2) D by (intro amt.md_base_add) auto
  moreover have "0 \<le> am_modulus_tx e (am_tx_next e)" using W(2,3) by (rule amt.md_nonneg)
  ultimately show ?thesis using W(5) by (auto simp: is_window_stalling_def am_sn_compare_tx_def)
qed

text \<open>The next sequence number moves on.\<close>

lemma am_bump:
  assumes inv: "am_inv e xs" and room: "am_modulus_tx e (am_tx_next e) < am_window_size e"
  defines "e' \<equiv> e\<lparr>am_tx_next := crem (am_tx_next e + 1) (am_sn_modulus e)\<rparr>"
  shows "am_inv e' xs" "am_sent e x \<or> sn_of (am_heap e) x = am_tx_next e \<Longrightarrow> am_sent e' x" "am_fresh e' x = am_fresh e x"
proof -
  note I = am_invD [OF inv] and W = am_windowD [OF am_invD(1) [OF inv]] and D = am_sn_okD [OF am_windowD(1) [OF am_invD(1) [OF inv]]]
  have o: "am_modulus_tx e' = am_modulus_tx e" "seg_after e' = seg_after e" using am_order_cong [of e' e] by (simp_all add: e'_def)
  have h: "am_compute_pdu_header_size e' = am_compute_pdu_header_size e" by (rule am_header_cong(1)) (simp add: e'_def)
  have "am_modulus_tx e (crem (am_tx_next e + 1) (am_sn_modulus e)) = am_modulus_tx e (am_tx_next e) + 1"
    unfolding crem_succ [OF W(3)] using amt.md_succ [OF W(2,3)] room D by simp
  then have md: "am_modulus_tx e (am_tx_next e') = am_modulus_tx e (am_tx_next e) + 1" by (simp add: e'_def)
  have w: "am_window e'"
    unfolding am_window_def am_tx_window_ok_def o md using W room crem_succ_sn [OF W(3)] by (simp add: e'_def am_sn_ok_def)
  show sent: "am_sent e' x" if "am_sent e x \<or> sn_of (am_heap e) x = am_tx_next e" for x
    using that W(3) unfolding am_sent_def o md by (auto simp: e'_def)
  show fresh: "am_fresh e' x = am_fresh e x" for x by (simp add: am_fresh_def e'_def)
  have "am_queue_ok e' (am_tx_list e)" using I(12) sent fresh by (auto simp: am_queue_ok_def)
  then show "am_inv e' xs"
    using I w sent unfolding am_inv_def o am_pdu_bytes_def h am_segs_def by (auto simp: e'_def)
qed

lemma am_heap_sn:
  assumes inv: "am_inv e xs" and xs: "\<forall>s \<in> set xs. am_fresh e s \<or> am_sent e s" and d: "hp_sdu (am_heap e) a = Some d"
  shows "sdu_sn d \<noteq> am_tx_next e"
proof -
  note I = am_invD [OF inv]
  have "0 < seg_count (xs @ am_segs e) a" using heap_okD [OF am_coreD(1) [OF I(2)] d] by (simp add: sdu_ok_def)
  then obtain s where s: "s \<in> set (xs @ am_segs e)" "seg_sdu s = a" using seg_count_zero [of "xs @ am_segs e" a] by force
  then have "sdu_of (am_heap e) s = d" using d by (simp add: sdu_of_def)
  moreover have "am_fresh e s \<or> am_sent e s"
    using s(1) xs I(8,9,12) by (cases "am_tx_list e") (auto simp: am_segs_def am_queue_ok_def)
  moreover have "am_tx_next e \<noteq> -1" using am_windowD(3) [OF I(1)] by (auto simp: is_sn_def)
  ultimately show ?thesis by (auto simp: am_fresh_def am_sent_def)
qed

lemma assign_sn_ok:
  assumes inv: "am_inv e [s]" and s: "am_fresh e s \<or> am_sent e s" and q: "\<forall>x \<in> set (am_tx_list e). am_fresh e x"
    and room: "am_modulus_tx e (am_tx_next e) < am_window_size e"
  obtains e' where "assign_sn e s = Inr e'" "am_inv e' [s]" "am_sent e' s" "\<forall>x \<in> set (am_tx_list e'). am_fresh e' x"
    "am_sn_field_length e' = am_sn_field_length e" "am_tx_list e' = am_tx_list e" "am_retransmit_list e' = am_retransmit_list e"
    "am_numbered e s e'"
proof (cases "sn_of (am_heap e) s = -1")
  case True
  note I = am_invD [OF inv]
  let ?h = "am_heap e"
  define d where "d = sdu_of ?h s\<lparr>sdu_sn := am_tx_next e\<rparr>"
  define h where "h = store ?h (seg_sdu s) d"
  define e1 where "e1 = e\<lparr>am_common := with_heap h (am_common e)\<rparr>"
  define e' where "e' = e1\<lparr>am_tx_next := crem (am_tx_next e1 + 1) (am_sn_modulus e1)\<rparr>"
  have in_s: "s \<in> set ([s] @ am_segs e)" by simp
  have whole: "seg_is_first s" "seg_is_last s" using s True by (auto simp: am_fresh_def dest: am_sent_sn)
  have other: "seg_sdu x \<noteq> seg_sdu s" if "x \<in> set (am_segs e)" for x
  proof
    assume "seg_sdu x = seg_sdu s"
    then have "x = s" using am_core_whole [OF I(2) in_s _ _ whole, of x] that by simp
    then show False using that am_coreD(1) [OF I(2)] by (auto simp: heap_ok_def)
  qed
  have uniq: "sn_unique h" unfolding h_def
    by (rule sn_unique_new [OF am_coreD(2) [OF I(2)]]) (use am_heap_sn [OF inv] s in \<open>auto simp: d_def\<close>)
  have st: "am_core h ([s] @ am_segs e)" "heap_bytes h = heap_bytes ?h"
    using am_core_store [OF I(2) in_s uniq [unfolded h_def]] by (simp_all add: h_def d_def)
  have E: "am_heap e1 = h" "am_segs e1 = am_segs e" by (simp_all add: e1_def am_segs_def)
  have "sn_of h x = sn_of ?h x" if "x \<in> set (am_segs e)" for x using other [OF that] by (simp add: h_def sdu_of_store)
  then have fr: "am_frame (set (am_segs e)) e e1" by (simp add: am_frame_def e1_def)
  have "am_queue_ok e1 (am_tx_list e)" using am_frameD(6) [OF fr, of "am_tx_list e"] I(12) by (simp add: am_segs_def)
  then have inv1: "am_inv e1 [s]"
    by (intro am_inv_frameI [OF fr I(1)]) (use I st E in \<open>auto simp: e1_def am_segs_def\<close>)
  have room1: "am_modulus_tx e1 (am_tx_next e1) < am_window_size e1" using room by (simp add: e1_def am_modulus_tx_def Let_def split: if_splits)
  note B = am_bump [OF inv1 room1, folded e'_def]
  have "sn_of (am_heap e1) s = am_tx_next e1" by (simp add: E h_def d_def sdu_of_store e1_def)
  then have "am_sent e' s" using B(2) by blast
  moreover have "\<forall>x \<in> set (am_tx_list e'). am_fresh e' x"
    using q B(3) am_frameD(3) [OF fr] by (simp add: e'_def e1_def am_segs_def)
  moreover have "assign_sn e s = Inr e'"
    using am_core_live(2) [OF I(2) in_s] True by (simp add: assign_sn_def e'_def e1_def h_def d_def)
  moreover have "am_numbered e s e'"
    using True crem_succ [OF am_windowD(3) [OF I(1)]]
    by (simp add: am_numbered_def e'_def e1_def h_def d_def sdu_of_store)
  ultimately show ?thesis by (intro that [OF _ B(1)]) (simp_all add: e'_def e1_def)
next
  case False
  have "assign_sn e s = Inr e"
    using am_core_live(2) [OF am_invD(2) [OF inv], of s] False by (simp add: assign_sn_def)
  moreover have "am_sent e s" using s False by (auto simp: am_fresh_def)
  moreover have "am_numbered e s e" using False by (simp add: am_numbered_def)
  ultimately show ?thesis using that inv q by blast
qed

section \<open>PDUs of new data\<close>

lemma am_take_tx:
  assumes inv: "am_tx_ok e" and l: "am_tx_list e = s # rest"
  defines "e0 \<equiv> e\<lparr>am_tx_list := rest, am_tx_end := (if rest = [] then None else am_tx_end e),
     am_common := add_bs_tx (- (am_compute_pdu_header_size e s + seg_size s)) (am_common e)\<rparr>"
  shows "am_inv e0 [s]" "am_fresh e0 s \<or> am_sent e0 s" "\<forall>x \<in> set (am_tx_list e0). am_fresh e0 x"
proof -
  note I = am_invD [OF inv]
  have fr: "am_frame UNIV e e0" by (simp add: am_frame_def e0_def)
  have E: "am_heap e0 = am_heap e" "am_tx_list e0 = rest" "am_tx_end e0 = (if rest = [] then None else am_tx_end e)"
    "am_wait_list e0 = am_wait_list e" "am_wait_end e0 = am_wait_end e" "am_retransmit_list e0 = am_retransmit_list e"
    "am_tx_size e0 = am_tx_size e" "bs_retx_size (ent_bstatus (am_common e0)) = bs_retx_size (ent_bstatus (am_common e))"
    "bs_tx_size (ent_bstatus (am_common e0)) = bs_tx_size (ent_bstatus (am_common e)) - am_pdu_bytes e [s]"
    by (simp_all add: e0_def)
  have core: "am_core (am_heap e0) ([s] @ am_segs e0)" using I(2) by (simp add: am_segs_def E l)
  show f: "\<forall>x \<in> set (am_tx_list e0). am_fresh e0 x" and "am_fresh e0 s \<or> am_sent e0 s"
    using am_frameD(2,3) [OF fr] I(12) by (auto simp: E l am_queue_ok_def)
  have "am_queue_ok e0 (am_tx_list e0)" using f by (cases "am_tx_list e0") (auto simp: am_queue_ok_def)
  then show "am_inv e0 [s]"
    by (intro am_inv_frameI [OF fr I(1)]) (use core I in \<open>auto simp: E l ends_ok_def\<close>)
qed

lemma am_return_tx:
  assumes inv: "am_inv e [x, s2]" and sent: "am_sent e s2" and q: "\<forall>y \<in> set (am_tx_list e). am_fresh e y"
  shows "am_inv (e\<lparr>am_tx_list := s2 # am_tx_list e,
     am_tx_end := (case am_tx_end e of None \<Rightarrow> Some (seg_addr s2) | Some a \<Rightarrow> Some a),
     am_common := add_bs_tx (am_compute_pdu_header_size e s2 + seg_size s2) (with_stats f (am_common e))\<rparr>) [x]" (is "am_inv ?e _")
proof -
  note I = am_invD [OF inv]
  have fr: "am_frame UNIV e ?e" by (simp add: am_frame_def)
  have core: "am_core (am_heap ?e) ([x] @ am_segs ?e)"
    using I(2) by (subst am_core_perm [of _ "[x, s2] @ am_segs e"]) (simp_all add: am_segs_def)
  have "am_queue_ok ?e (s2 # am_tx_list e)" using am_frameD(2,3) [OF fr] sent q by (simp add: am_queue_ok_def)
  then show ?thesis
    by (intro am_inv_frameI [OF fr I(1)]) (use core I in \<open>auto simp: ends_ok_def\<close>)
qed

lemma am_cut_tx:
  assumes inv: "am_inv e [s]" and sent: "am_sent e s" and q: "\<forall>y \<in> set (am_tx_list e). am_fresh e y"
    and n: "am_compute_pdu_header_size e s + 1 \<le> n"
  obtains x e2 where
    "(if am_compute_pdu_header_size e s + seg_size s > n
      then bindR (am_resegment s e n) (\<lambda>(s, next, e1).
             Inr (s, e1\<lparr>am_tx_list := next # am_tx_list e1,
                        am_tx_end := (case am_tx_end e1 of None \<Rightarrow> Some (seg_addr next) | Some a \<Rightarrow> Some a),
                        am_common := add_bs_tx (am_compute_pdu_header_size e1 next + seg_size next)
                          (with_stats f (am_common e1))\<rparr>))
      else Inr (s, e)) = Inr (x, e2)" "am_inv e2 [x]" "am_sent e2 x" "seg_sdu x = seg_sdu s" "seg_so x = seg_so s"
    "am_compute_pdu_header_size e2 x = am_compute_pdu_header_size e s"
    "am_compute_pdu_header_size e s + seg_size x = min (am_compute_pdu_header_size e s + seg_size s) n"
    "am_rest s x (s # am_tx_list e) (am_tx_list e2)" "am_retransmit_list e2 = am_retransmit_list e"
    "am_tx_next e2 = am_tx_next e" "\<forall>y. sn_of (am_heap e2) y = sn_of (am_heap e) y"
proof (cases "am_compute_pdu_header_size e s + seg_size s > n")
  case True
  obtain s1 s2 h where r: "am_resegment s e n = Inr (s1, s2, e\<lparr>am_common := with_heap h (am_common e)\<rparr>)"
    "am_inv (e\<lparr>am_common := with_heap h (am_common e)\<rparr>) [s1, s2]" "\<forall>x. sn_of h x = sn_of (am_heap e) x"
    "am_compute_pdu_header_size e s1 + seg_size s1 = n" "seg_sdu s1 = seg_sdu s" "seg_sdu s2 = seg_sdu s"
    "seg_so s1 = seg_so s" "seg_is_first s1 = seg_is_first s"
    "am_rest s s1 (s # am_tx_list e) (s2 # am_tx_list e)"
    by (rule am_resegment_ok [OF inv n True])
  let ?e1 = "e\<lparr>am_common := with_heap h (am_common e)\<rparr>"
  have fr: "am_frame UNIV e ?e1" by (rule am_frame_heap [OF r(3)])
  have sns: "sn_of (am_heap e) s1 = sn_of (am_heap e) s" "sn_of (am_heap e) s2 = sn_of (am_heap e) s" using r(5,6) by (simp_all add: sdu_of_def)
  then have sent12: "am_sent ?e1 s1" "am_sent ?e1 s2" using am_sent_frame [OF fr] sent by (simp_all add: am_sent_def)
  have "\<forall>y \<in> set (am_tx_list ?e1). am_fresh ?e1 y" using am_frameD(3) [OF fr] q by simp
  then have ret: "am_inv (?e1\<lparr>am_tx_list := s2 # am_tx_list ?e1,
     am_tx_end := (case am_tx_end ?e1 of None \<Rightarrow> Some (seg_addr s2) | Some a \<Rightarrow> Some a),
     am_common := add_bs_tx (am_compute_pdu_header_size ?e1 s2 + seg_size s2) (with_stats f (am_common ?e1))\<rparr>) [s1]"
    (is "am_inv ?e2 _") by (rule am_return_tx [OF r(2) sent12(2)])
  have hd: "am_compute_pdu_header_size ?e2 = am_compute_pdu_header_size e" by (rule am_header_cong(1)) simp
  have "am_compute_pdu_header_size e s1 = am_compute_pdu_header_size e s" using r(8) by (simp add: am_compute_pdu_header_size_def)
  moreover have "am_sent ?e2 s1" using sent12(1) by (subst am_sent_frame [of ?e1]) (simp_all add: am_frame_def)
  ultimately show ?thesis
    using that [OF _ ret] True r(1,3,4,5,7,9) hd by simp
qed (use that [OF _ inv sent] in \<open>simp add: am_rest_def\<close>)

lemma am_generate_tx_pdu_ok:
  assumes inv: "am_tx_ok e"
  shows "case am_tx_list e of
      [] \<Rightarrow> am_generate_tx_pdu now e buffer = Inr (0, buffer, e)
    | s # rest \<Rightarrow>
        if is_window_stalling e \<or> am_compute_pdu_header_size e s + 1 > int (length buffer)
        then am_generate_tx_pdu now e buffer = Inr (0, buffer, e)
        else \<exists>n buf e'. am_generate_tx_pdu now e buffer = Inr (n, buf, e') \<and> am_emits e s buffer n buf e'"
proof (cases "\<exists>s rest. am_tx_list e = s # rest \<and> \<not> is_window_stalling e \<and> am_compute_pdu_header_size e s + 1 \<le> int (length buffer)")
  case False
  then show ?thesis by (cases "am_tx_list e") (auto simp: am_generate_tx_pdu_def Let_def)
next
  case True
  then obtain s rest where l: "am_tx_list e = s # rest" and win: "\<not> is_window_stalling e"
    and fits: "am_compute_pdu_header_size e s + 1 \<le> int (length buffer)" by blast
  let ?n = "int (length buffer)"
  define e0 where "e0 = e\<lparr>am_tx_list := rest, am_tx_end := (if rest = [] then None else am_tx_end e),
     am_common := add_bs_tx (- (am_compute_pdu_header_size e s + seg_size s)) (am_common e)\<rparr>"
  note T = am_take_tx [OF inv l, folded e0_def]
  have room: "am_modulus_tx e0 (am_tx_next e0) < am_window_size e0"
    using am_stalling [OF am_invD(1) [OF inv]] win am_windowD(5) [OF am_invD(1) [OF inv]] am_order_cong(1) [of e0 e] by (simp add: e0_def)
  obtain e1 where e1: "assign_sn e0 s = Inr e1" "am_inv e1 [s]" "am_sent e1 s" "\<forall>x \<in> set (am_tx_list e1). am_fresh e1 x"
    "am_sn_field_length e1 = am_sn_field_length e0" "am_tx_list e1 = am_tx_list e0" "am_retransmit_list e1 = am_retransmit_list e0"
    "am_numbered e0 s e1"
    by (rule assign_sn_ok [OF T room])
  have h1: "am_compute_pdu_header_size e1 = am_compute_pdu_header_size e" by (rule am_header_cong(1)) (simp add: e1(5) e0_def)
  have fits1: "am_compute_pdu_header_size e1 s + 1 \<le> ?n" using fits by (simp add: h1)
  obtain x e2 where c: "(if am_compute_pdu_header_size e1 s + seg_size s > ?n
      then bindR (am_resegment s e1 ?n) (\<lambda>(s, next, e1).
             Inr (s, e1\<lparr>am_tx_list := next # am_tx_list e1,
                        am_tx_end := (case am_tx_end e1 of None \<Rightarrow> Some (seg_addr next) | Some a \<Rightarrow> Some a),
                        am_common := add_bs_tx (am_compute_pdu_header_size e1 next + seg_size next)
                          (with_stats (\<lambda>st. st\<lparr>txpdu_segmented := txpdu_segmented st + 1\<rparr>) (am_common e1))\<rparr>))
      else Inr (s, e1)) = Inr (x, e2)" "am_inv e2 [x]" "am_sent e2 x" "seg_sdu x = seg_sdu s" "seg_so x = seg_so s"
    "am_compute_pdu_header_size e2 x = am_compute_pdu_header_size e1 s"
    "am_compute_pdu_header_size e1 s + seg_size x = min (am_compute_pdu_header_size e1 s + seg_size s) ?n"
    "am_rest s x (s # am_tx_list e1) (am_tx_list e2)" "am_retransmit_list e2 = am_retransmit_list e1"
    "am_tx_next e2 = am_tx_next e1" "\<forall>y. sn_of (am_heap e2) y = sn_of (am_heap e1) y"
    by (rule am_cut_tx [OF e1(2-4) fits1])
  let ?p = "\<lambda>e3. fst (poll_new_pdu e3 x)" and ?f = "\<lambda>e3. snd (poll_new_pdu e3 x)"
  have same: "\<forall>e3. am_same_tx e3 (?f e3)" using am_same_tx_poll(3) by blast
  have room2: "am_compute_pdu_header_size e2 x + seg_size x \<le> ?n" using c(6,7) by simp
  obtain e3 buf e5 where e3: "put_in_wait_list e2 x = Inr e3"
    and e5: "am_serialize_sdu (?f e3) x buffer (?p e3) = Inr (am_compute_pdu_header_size e2 x + seg_size x, buf, e5)"
    and w: "length buf = length buffer" "x \<in> set (am_wait_list e5)" "am_tx_ok e5"
      "am_carries e5 x (take (nat (am_compute_pdu_header_size e2 x + seg_size x)) buf)"
      and lists: "am_tx_list e5 = am_tx_list e2" "am_retransmit_list e5 = am_retransmit_list e2" "am_tx_next e5 = am_tx_next e2" "am_heap e5 = am_heap e2"
    by (rule am_emit [OF c(2,3) same room2, of ?p]) blast
  have tk: "am_taken e s x e5" using c(8,9) lists e1(6,7) by (simp add: am_taken_def l e0_def)
  have nb: "am_numbered e s e5" using e1(8) c(10,11) lists(3,4) by (simp add: am_numbered_def e0_def)
  let ?k = "am_compute_pdu_header_size e2 x + seg_size x" and ?d = "sdu_of (am_heap e5) x"
  let ?e = "e5\<lparr>am_common := record_waited_time now ?d (with_stats (\<lambda>st. st\<lparr>txpdu_pkts := txpdu_pkts st + 1,
     txpdu_bytes := txpdu_bytes st + word_of_int ?k\<rparr>) (am_common e5))\<rparr>"
  have "deref (am_heap e5) (seg_sdu x) = Inr ?d"
    by (rule am_core_live(2) [OF am_invD(2) [OF w(3)]]) (use w(2) in \<open>simp add: am_segs_def\<close>)
  then have "am_generate_tx_pdu now e buffer = Inr (?k, buf, ?e)"
    unfolding am_generate_tx_pdu_def l list.case Let_def e0_def [symmetric] e1(1)
    using win fits c(1) [unfolded h1] e3 e5 by (simp add: split_beta bindR_def)
  moreover have "am_emits e s buffer ?k buf ?e"
    by (rule am_emitsI [OF w _ c(4,5) c(6,7) [unfolded h1] tk nb]) (simp add: am_same_tx_def)
  ultimately show ?thesis using win fits by (auto simp: l)
qed

section \<open>The poll timer\<close>

lemma move_to_retransmit_ok:
  assumes inv: "am_tx_ok e" and l: "am_wait_list e = cur # rest"
  obtains e' where "move_to_retransmit e cur rest = Inr e'" "am_tx_ok e'" "am_wait_list e' = rest" "am_heap e' = am_heap e"
    "mset (am_retransmit_list e') = add_mset cur (mset (am_retransmit_list e))" "am_tx_list e' = am_tx_list e"
proof -
  note I = am_invD [OF inv]
  define e0 where "e0 = e\<lparr>am_wait_list := rest, am_wait_end := (if rest = [] then None else am_wait_end e),
     am_common := add_bs_retx (am_compute_pdu_header_size e cur + seg_size cur) (am_common e)\<rparr>"
  let ?r = "ordered_add (seg_after e) (am_retransmit_list e) cur"
  define e' where "e' = e0\<lparr>am_retransmit_list := ?r\<rparr>"
  have o: "seg_after e0 = seg_after e" by (rule am_order_cong(3)) (simp_all add: e0_def)
  have cur: "cur \<in> set (am_wait_list e)" by (simp add: l)
  have core0: "am_core (am_heap e0) ([] @ am_segs e)" using I(2) by (simp add: e0_def)
  have "nr_rlc_tx_sdu_segment_list_add e0 (am_retransmit_list e0) cur = Inr (ordered_add (seg_after e0) (am_retransmit_list e0) cur)"
    by (rule tx_list_add_eq [OF core0]) (auto simp: e0_def am_segs_def l)
  then have r: "move_to_retransmit e cur rest = Inr e'"
    unfolding move_to_retransmit_def Let_def e0_def [symmetric] o by (simp add: e'_def) (simp add: e0_def)
  have fr: "am_frame UNIV e e'" by (simp add: am_frame_def e'_def e0_def)
  have E: "am_heap e' = am_heap e" "am_wait_list e' = rest" "am_wait_end e' = (if rest = [] then None else am_wait_end e)"
    "am_retransmit_list e' = ?r" "am_tx_list e' = am_tx_list e" "am_tx_end e' = am_tx_end e" "am_tx_size e' = am_tx_size e"
    "bs_tx_size (ent_bstatus (am_common e')) = bs_tx_size (ent_bstatus (am_common e))"
    "bs_retx_size (ent_bstatus (am_common e')) = bs_retx_size (ent_bstatus (am_common e)) + am_pdu_bytes e [cur]"
    by (simp_all add: e'_def e0_def)
  have core: "am_core (am_heap e') ([] @ am_segs e')"
    using I(2) by (subst am_core_perm [of _ "[] @ am_segs e"]) (simp_all add: am_segs_def E l)
  have bytes: "am_pdu_bytes e ?r = am_pdu_bytes e (am_retransmit_list e) + am_pdu_bytes e [cur]"
    using am_pdu_bytes_perm [of ?r "cur # am_retransmit_list e"] by simp
  have ord: "aml.ordered e ?r"
    by (rule aml.ordered_add_ordered [OF I(11)]) (use am_sent_valid [OF I(1)] I(8) [OF cur] I(9) in auto)
  have "am_queue_ok e' (am_tx_list e')" using am_frameD(6) [OF fr, of "am_tx_list e"] I(12) by (simp add: E)
  moreover have "set ?r = insert cur (set (am_retransmit_list e))" by simp
  ultimately have "am_tx_ok e'"
    by (intro am_inv_frameI [OF fr I(1)]) (use core I bytes ord in \<open>auto simp: E l ends_ok_def\<close>)
  then show ?thesis using that r E by simp
qed

lemma retransmit_sdu_loop_ok:
  assumes "am_tx_ok e" and "am_wait_list e = cur # rest"
  shows "\<exists>e'. retransmit_sdu_loop e sn (cur # rest) = Inr e' \<and> am_tx_ok e'
     \<and> am_wait_list e' = dropWhile (\<lambda>x. sn_of (am_heap e) x = sn) rest \<and> am_heap e' = am_heap e
     \<and> mset (am_retransmit_list e') = mset (am_retransmit_list e) + mset (cur # takeWhile (\<lambda>x. sn_of (am_heap e) x = sn) rest)
     \<and> am_tx_list e' = am_tx_list e"
  using assms
proof (induction rest arbitrary: e cur)
  case Nil
  obtain e' where "move_to_retransmit e cur [] = Inr e'" "am_tx_ok e'" "am_wait_list e' = []" "am_heap e' = am_heap e"
    "mset (am_retransmit_list e') = add_mset cur (mset (am_retransmit_list e))" "am_tx_list e' = am_tx_list e"
    by (rule move_to_retransmit_ok [OF Nil])
  then show ?case by simp
next
  case (Cons n l)
  obtain e' where e': "move_to_retransmit e cur (n # l) = Inr e'" "am_tx_ok e'" "am_wait_list e' = n # l" "am_heap e' = am_heap e"
    "mset (am_retransmit_list e') = add_mset cur (mset (am_retransmit_list e))" "am_tx_list e' = am_tx_list e"
    by (rule move_to_retransmit_ok [OF Cons.prems])
  have d: "deref (am_heap e') (seg_sdu n) = Inr (sdu_of (am_heap e') n)"
    by (rule am_core_live(2) [OF am_invD(2) [OF e'(2)]]) (simp add: am_segs_def e'(3))
  show ?case
  proof (cases "sn_of (am_heap e) n = sn")
    case True
    then show ?thesis using Cons.IH [OF e'(2,3)] e' d by auto
  next
    case False
    then show ?thesis using e' d by simp
  qed
qed

lemma check_poll_cong:
  "am_same_tx e e' \<Longrightarrow> check_poll_after_pdu_assembly e' = check_poll_after_pdu_assembly e"
  using am_order_cong(2) [of e' e]
  by (simp add: am_same_tx_def check_poll_after_pdu_assembly_def is_window_stalling_def)

text \<open>The first SDU of the wait list is taken: its transmission counter changes.\<close>

lemma am_inv_touch:
  assumes inv: "am_inv e xs" and s: "s \<in> set (xs @ am_segs e)" and d: "sdu_sn d = sn_of (am_heap e) s"
    "sdu_ref_count d = sdu_ref_count (sdu_of (am_heap e) s)" "sdu_free_count d = sdu_free_count (sdu_of (am_heap e) s)"
    "sdu_size d = sdu_size (sdu_of (am_heap e) s)" "sdu_data d = sdu_data (sdu_of (am_heap e) s)"
  shows "am_inv (e\<lparr>am_common := with_heap (store (am_heap e) (seg_sdu s) d) (am_common e)\<rparr>) xs" (is "am_inv ?e _")
    "sn_of (store (am_heap e) (seg_sdu s) d) x = sn_of (am_heap e) x"
proof -
  note I = am_invD [OF inv] and T = am_core_touch [OF am_invD(2) [OF inv] s d]
  show "sn_of (store (am_heap e) (seg_sdu s) d) x = sn_of (am_heap e) x" by (rule T(3))
  have fr: "am_frame UNIV e ?e" by (rule am_frame_heap) (use T(3) in blast)
  have "am_queue_ok ?e (am_tx_list e)" using am_frameD(6) [OF fr, of "am_tx_list e"] I(12) by simp
  then show "am_inv ?e xs" by (intro am_inv_frameI [OF fr I(1)]) (use I T in \<open>auto simp: am_segs_def\<close>)
qed

lemma check_t_poll_retransmit_ok:
  assumes inv: "am_tx_ok e"
  defines "idle \<equiv> am_t_poll_retransmit_start e = 0
     \<or> am_t_current e \<le> am_t_poll_retransmit_start e + word_of_int (am_t_poll_retransmit e)"
  shows "if idle \<or> \<not> check_poll_after_pdu_assembly e
    then \<exists>e'. check_t_poll_retransmit e = Inr e' \<and> am_same_tx e e'
    else case am_wait_list e of
        [] \<Rightarrow> check_t_poll_retransmit e = Inl Null_Deref
      | cur # rest \<Rightarrow> \<exists>e'. check_t_poll_retransmit e = Inr e' \<and> am_tx_ok e' \<and> am_tx_list e' = am_tx_list e
          \<and> am_wait_list e' = dropWhile (\<lambda>x. sn_of (am_heap e) x = sn_of (am_heap e) cur) rest
          \<and> mset (am_retransmit_list e') = mset (am_retransmit_list e)
              + mset (cur # takeWhile (\<lambda>x. sn_of (am_heap e) x = sn_of (am_heap e) cur) rest)"
proof -
  define e1 where "e1 = e\<lparr>am_t_poll_retransmit_start := 0, am_force_poll := True\<rparr>"
  have same: "am_same_tx e e1" by (simp add: am_same_tx_def e1_def)
  note cp = check_poll_cong [OF same]
  show ?thesis
  proof (cases "idle \<or> \<not> check_poll_after_pdu_assembly e")
    case True
    then have "check_t_poll_retransmit e = Inr (if idle then e else e1)"
      unfolding check_t_poll_retransmit_def Let_def e1_def [symmetric] cp by (auto simp: idle_def)
    then show ?thesis using True same am_same_tx_refl by auto
  next
    case busy: False
    show ?thesis
    proof (cases "am_wait_list e")
      case Nil
      then show ?thesis
        using busy unfolding check_t_poll_retransmit_def Let_def e1_def [symmetric] cp by (simp add: idle_def e1_def)
    next
      case (Cons cur rest)
      have inv1: "am_tx_ok e1" using inv am_inv_cong [OF same] by blast
      have E: "am_wait_list e1 = cur # rest" "am_heap e1 = am_heap e" "am_tx_list e1 = am_tx_list e"
        "am_retransmit_list e1 = am_retransmit_list e" using Cons by (simp_all add: e1_def)
      have cur: "cur \<in> set ([] @ am_segs e1)" by (simp add: am_segs_def E)
      let ?d = "sdu_of (am_heap e) cur"
      let ?d' = "?d\<lparr>sdu_retx_count := sdu_retx_count ?d + 1\<rparr>"
      define e2 where "e2 = e1\<lparr>am_common := with_heap (store (am_heap e) (seg_sdu cur) ?d') (am_common e1)\<rparr>"
      have T: "am_tx_ok e2" "sn_of (am_heap e2) x = sn_of (am_heap e) x" for x
        using am_inv_touch [OF inv1 cur, of ?d'] by (simp_all add: e2_def E)
      have w2: "am_wait_list e2 = cur # rest" "am_tx_list e2 = am_tx_list e" "am_retransmit_list e2 = am_retransmit_list e"
        by (simp_all add: e2_def E)
      have live: "deref (am_heap e1) (seg_sdu cur) = Inr ?d" using am_core_live(2) [OF am_invD(2) [OF inv1] cur] by (simp add: E)
      obtain e3 where e3: "retransmit_sdu_loop e2 (sdu_sn ?d) (cur # rest) = Inr e3" "am_tx_ok e3"
        "am_wait_list e3 = dropWhile (\<lambda>x. sn_of (am_heap e) x = sdu_sn ?d) rest"
        "mset (am_retransmit_list e3) = mset (am_retransmit_list e) + mset (cur # takeWhile (\<lambda>x. sn_of (am_heap e) x = sdu_sn ?d) rest)"
        "am_tx_list e3 = am_tx_list e"
        using retransmit_sdu_loop_ok [OF T(1) w2(1), of "sdu_sn ?d"] unfolding T(2) w2 by blast
      let ?e4 = "if sdu_retx_count ?d' \<ge> am_max_retx_threshold e3 then e3\<lparr>am_common := emit Max_Retx_Reached (am_common e3)\<rparr> else e3"
      have "check_t_poll_retransmit e = Inr ?e4"
        using busy live e3(1) w2(1)
        unfolding check_t_poll_retransmit_def Let_def e1_def [symmetric] cp idle_def E list.case
        by (simp add: e2_def)
      moreover have "am_same_tx e3 ?e4" by (simp add: am_same_tx_def)
      ultimately show ?thesis
        using busy Cons e3 am_inv_cong [of e3 ?e4 "[]"] by (auto simp: am_same_tx_def)
    qed
  qed
qed

section \<open>Discard, re-establishment and deletion\<close>

lemma am_core_free_whole:
  assumes core: "am_core h (s # segs)" and whole: "seg_is_first s" "seg_is_last s"
  obtains h' where "nr_rlc_free_sdu_segment h s = Inr (h', True)" "am_core h' segs"
    "heap_bytes h' = heap_bytes h - sdu_size (sdu_of h s)" "\<forall>x \<in> set segs. sn_of h' x = sn_of h x"
proof -
  have "seg_sdu x \<noteq> seg_sdu s" if x: "x \<in> set segs" for x
  proof
    assume "seg_sdu x = seg_sdu s"
    then have "x = s" using am_core_whole [OF core, of s x] x whole by simp
    then show False using x am_coreD(1) [OF core] by (auto simp: heap_ok_def)
  qed
  then have "seg_count segs (seg_sdu s) = 0" by (simp add: seg_count_zero)
  then show ?thesis using am_core_free [OF core] that by auto
qed

lemma am_discard_sdu_ok:
  assumes inv: "am_tx_ok e"
  shows "\<exists>e'. nr_rlc_entity_am_discard_sdu e i = Inr e' \<and> am_tx_ok e'
     \<and> (e' = e \<or> (\<exists>before cur behind. am_tx_list e = before @ cur # behind \<and> am_tx_list e' = before @ behind
          \<and> seg_is_first cur \<and> seg_is_last cur \<and> am_tx_size e' = am_tx_size e - sdu_size (sdu_of (am_heap e) cur)))"
proof -
  let ?h = "am_heap e"
  note I = am_invD [OF inv]
  obtain before "from" where f: "find_sdu ?h i (am_tx_list e) = Inr (before, from)" "am_tx_list e = before @ from"
    using find_sdu_ok [OF am_coreD(1) [OF I(2)], of "am_tx_list e" i] by (auto simp: am_segs_def)
  show ?thesis
  proof (cases "\<exists>cur behind. from = cur # behind \<and> seg_is_first cur \<and> seg_is_last cur")
    case False
    then have "nr_rlc_entity_am_discard_sdu e i = Inr e"
      using f(1) by (auto simp: nr_rlc_entity_am_discard_sdu_def split: list.splits)
    then show ?thesis using inv by blast
  next
    case True
    then obtain cur behind where cur: "from = cur # behind" "seg_is_first cur" "seg_is_last cur" by blast
    have l: "am_tx_list e = before @ cur # behind" using f(2) cur by simp
    let ?rest = "(before @ behind) @ am_wait_list e @ am_retransmit_list e"
    have core: "am_core ?h (cur # ?rest)"
      using I(2) by (subst am_core_perm [of _ "[] @ am_segs e"]) (simp_all add: am_segs_def l)
    obtain h' where h': "nr_rlc_free_sdu_segment ?h cur = Inr (h', True)" "am_core h' ?rest"
      "heap_bytes h' = heap_bytes ?h - sdu_size (sdu_of ?h cur)" "\<forall>x \<in> set ?rest. sn_of h' x = sn_of ?h x"
      by (rule am_core_free_whole [OF core cur(2,3)])
    define tail where "tail = (if am_tx_end e = Some (seg_addr cur)
      then (if before = [] then None else Some (seg_addr (last before))) else am_tx_end e)"
    define e' where "e' = e\<lparr>am_tx_list := before @ behind, am_tx_end := tail, am_tx_size := am_tx_size e - sdu_size (sdu_of ?h cur),
      am_common := with_heap h' (add_bs_tx (- (am_compute_pdu_header_size e cur + seg_size cur)) (am_common e))\<rparr>"
    have r: "nr_rlc_entity_am_discard_sdu e i = Inr e'"
      using f(1) cur h'(1) am_core_live(2) [OF core, of cur]
      by (simp add: nr_rlc_entity_am_discard_sdu_def Let_def e'_def tail_def)
    have E: "am_heap e' = h'" "am_tx_list e' = before @ behind" "am_tx_end e' = tail" "am_wait_list e' = am_wait_list e"
      "am_wait_end e' = am_wait_end e" "am_retransmit_list e' = am_retransmit_list e"
      "am_tx_size e' = am_tx_size e - sdu_size (sdu_of ?h cur)"
      "bs_tx_size (ent_bstatus (am_common e')) = bs_tx_size (ent_bstatus (am_common e)) - am_pdu_bytes e [cur]"
      "bs_retx_size (ent_bstatus (am_common e')) = bs_retx_size (ent_bstatus (am_common e))"
      by (simp_all add: e'_def)
    have fr: "am_frame (set ?rest) e e'" using h'(4) by (simp add: am_frame_def e'_def)
    have tail: "ends_ok (before @ behind) tail"
      unfolding tail_def using I(6) am_inv_addrs(3) [OF inv] by (intro ends_ok_remove) (simp_all add: l)
    have "am_queue_ok e (before @ behind)"
      using I(12) by (cases before; cases behind) (auto simp: l am_queue_ok_def)
    then have "am_queue_ok e' (am_tx_list e')" using am_frameD(6) [OF fr, of "before @ behind"] by (auto simp: E)
    then have "am_tx_ok e'"
      by (intro am_inv_frameI [OF fr I(1)]) (use h' tail I in \<open>auto simp: E l am_segs_def\<close>)
    then show ?thesis using r cur(2,3) l by (auto simp: E)
  qed
qed

lemma am_clear_ok:
  assumes inv: "am_tx_ok e"
  shows "\<exists>e'. am_clear_entity e = Inr e' \<and> am_tx_ok e' \<and> am_segs e' = [] \<and> am_tx_size e' = 0
     \<and> hp_sdu (am_heap e') = Map.empty \<and> am_sn_field_length e' = am_sn_field_length e"
proof -
  note I = am_invD [OF inv]
  obtain h1 where h1: "nr_rlc_free_sdu_segment_list (am_heap e) (am_tx_list e) = Inr h1" "heap_ok h1 (am_wait_list e @ am_retransmit_list e)"
    using heap_ok_free_list am_coreD(1) [OF I(2)] by (fastforce simp: am_segs_def)
  obtain h2 where h2: "nr_rlc_free_sdu_segment_list h1 (am_wait_list e) = Inr h2" "heap_ok h2 (am_retransmit_list e)"
    using heap_ok_free_list [OF h1(2)] by blast
  obtain h where h: "nr_rlc_free_sdu_segment_list h2 (am_retransmit_list e) = Inr h" "heap_ok h []"
    using heap_ok_free_list [of h2 "am_retransmit_list e" "[]"] h2(2) by auto
  have n: "hp_sdu h = Map.empty" "heap_bytes h = 0" using heap_ok_Nil [OF h(2)] by (simp_all add: heap_bytes_def)
  then have core: "am_core h []" using h(2) by (simp add: am_core_def sn_unique_def)
  have ok: "am_sn_ok e" using am_windowD(1) [OF I(1)] .
  then show ?thesis
    using core n h1(1) h2(1) h(1) am_sn_okD [OF ok]
    by (simp add: am_clear_entity_def am_inv_def am_window_def am_tx_window_ok_def am_sn_ok_def is_sn_def am_modulus_tx_def
        am_segs_def with_bstatus_def am_queue_ok_def)
qed

lemma am_new_ok:
  assumes "n = 12 \<or> n = 18"
  shows "\<exists>e. new_nr_rlc_entity_am rxm txm tp tr ts pp pb mr n = Inr e \<and> am_tx_ok e \<and> am_segs e = [] \<and> am_sn_field_length e = n
     \<and> am_tx_size e = 0 \<and> am_tx_maxsize e = txm * 5"
proof -
  obtain e where e: "new_nr_rlc_entity_am rxm txm tp tr ts pp pb mr n = Inr e"
    "am_heap e = empty_heap" "am_segs e = []" "am_tx_end e = None" "am_wait_end e = None" "am_tx_size e = 0" "am_tx_maxsize e = txm * 5"
    "am_tx_next e = am_tx_next_ack e" "ent_bstatus (am_common e) = zero_bstatus"
    by (rule new_common_ok [of NR_RLC_AM]) (use assms in \<open>simp add: new_nr_rlc_entity_am_def Let_def am_segs_def\<close>)
  note N = new_am_sn_ok [OF e(1)]
  have "am_window e" using N(2) am_sn_okD [OF N(1)] e(8) by (simp add: am_window_def am_tx_window_ok_def am_modulus_tx_def)
  then have "am_tx_ok e"
    using e(2-9) am_core_empty by (simp add: am_inv_def am_segs_def am_queue_ok_def zero_bstatus_def heap_bytes_def empty_heap_def)
  then show ?thesis using e N(4) by blast
qed

end
