(* ===== verification/Rlc_Am_Ack.thy ===== *)
theory Rlc_Am_Ack
  imports Rlc_Am_Gen
begin

text \<open>
  Status PDUs of the peer: \<^verbatim>\<open>process_control_pdu\<close> frees what is acknowledged, moves what is reported
  missing to the retransmit list, and keeps the invariant of the transmitting side. The segments it ends
  with are given by a specification that looks at each segment alone.
\<close>

section \<open>One segment\<close>

lemma free_acked_ok:
  assumes inv: "am_inv u (s # xs)"
  obtains ts cm where
    "\<forall>e. am_common e = am_common u \<longrightarrow> am_tx_size e = am_tx_size u \<longrightarrow> free_acked e s = Inr (e\<lparr>am_tx_size := ts, am_common := cm\<rparr>)"
    "am_inv (u\<lparr>am_tx_size := ts, am_common := cm\<rparr>) xs"
    "\<forall>x \<in> set (xs @ am_segs u). sn_of (ent_heap cm) x = sn_of (am_heap u) x"
proof -
  note I = am_invD [OF inv]
  have core: "am_core (am_heap u) (s # (xs @ am_segs u))" using I(2) by simp
  define freed where "freed \<longleftrightarrow> seg_count (xs @ am_segs u) (seg_sdu s) = 0"
  obtain h' where h': "nr_rlc_free_sdu_segment (am_heap u) s = Inr (h', freed)" "am_core h' (xs @ am_segs u)"
    "heap_bytes h' = heap_bytes (am_heap u) - (if freed then sdu_size (sdu_of (am_heap u) s) else 0)"
    "\<forall>x \<in> set (xs @ am_segs u). sn_of h' x = sn_of (am_heap u) x"
    using am_core_free [OF core] unfolding freed_def by blast
  let ?d = "sdu_of (am_heap u) s"
  define ts where "ts = (if freed then am_tx_size u - sdu_size ?d else am_tx_size u)"
  define cm where "cm = (if freed then emit (Sdu_Successful_Delivery (sdu_upper_layer_id ?d))
    (with_stats (\<lambda>st. st\<lparr>txsdu_bytes := txsdu_bytes st + word_of_int (sdu_size ?d)\<rparr>) (with_heap h' (am_common u)))
    else with_heap h' (am_common u))"
  let ?u = "u\<lparr>am_tx_size := ts, am_common := cm\<rparr>"
  have cm: "ent_heap cm = h'" "ent_bstatus cm = ent_bstatus (am_common u)" by (simp_all add: cm_def)
  have live: "deref (am_heap u) (seg_sdu s) = Inr ?d" by (rule am_core_live(2) [OF core]) simp
  have "free_acked e s = Inr (e\<lparr>am_tx_size := ts, am_common := cm\<rparr>)" if "am_common e = am_common u" "am_tx_size e = am_tx_size u" for e
    using that live h'(1) by (simp add: free_acked_def Let_def ts_def cm_def)
  moreover have "am_inv ?u xs"
  proof -
    have fr: "am_frame (set (xs @ am_segs u)) u ?u" using h'(4) by (simp add: am_frame_def cm)
    have "am_queue_ok ?u (am_tx_list u)" using am_frameD(6) [OF fr, of "am_tx_list u"] I(12) by (auto simp: am_segs_def)
    then show ?thesis
      by (intro am_inv_frameI [OF fr I(1)]) (use I h' in \<open>auto simp: am_segs_def cm ts_def\<close>)
  qed
  ultimately show ?thesis using that [where ts = ts and cm = cm] h'(4) cm(1) by simp
qed

text \<open>The lower end of the window moves up to a number that no pending segment is below.\<close>

lemma am_rebase:
  assumes inv: "am_tx_ok e" and t: "is_sn (am_sn_modulus e) t" "am_modulus_tx e t \<le> am_modulus_tx e (am_tx_next e)"
    and low: "\<forall>s \<in> set (am_segs e). am_sent e s \<longrightarrow> am_modulus_tx e t \<le> am_modulus_tx e (sn_of (am_heap e) s)"
  shows "am_tx_ok (e\<lparr>am_tx_next_ack := t\<rparr>)"
proof -
  let ?e = "e\<lparr>am_tx_next_ack := t\<rparr>" and ?m = "am_sn_modulus e"
  note I = am_invD [OF inv] and W = am_windowD [OF am_invD(1) [OF inv]]
  have ok: "am_tx_window_ok ?e" using W(1) t(1) by (simp add: am_tx_window_ok_def am_sn_ok_def)
  have md: "am_modulus_tx ?e a = am_modulus_tx e a - am_modulus_tx e t"
    if a: "is_sn ?m a" "am_modulus_tx e t \<le> am_modulus_tx e a" for a
  proof -
    have "am_modulus_tx ?e a = (a - t) mod ?m" using amt.md_eq [OF ok] a(1) by simp
    also have "\<dots> = (am_modulus_tx e a - am_modulus_tx e t) mod ?m"
      using amt.md_eq [OF W(2)] a(1) t(1) by (simp add: mod_simps)
    also have "\<dots> = am_modulus_tx e a - am_modulus_tx e t"
      using amt.md_less [OF W(2) a(1)] amt.md_nonneg [OF W(2) t(1)] a(2) by (intro mod_pos_pos_trivial) auto
    finally show ?thesis .
  qed
  have nxt: "am_modulus_tx ?e (am_tx_next e) = am_modulus_tx e (am_tx_next e) - am_modulus_tx e t" by (rule md [OF W(3) t(2)])
  have sent: "am_sent ?e s" and mds: "am_modulus_tx ?e (sn_of (am_heap e) s) = am_modulus_tx e (sn_of (am_heap e) s) - am_modulus_tx e t"
    if s: "s \<in> set (am_segs e)" "am_sent e s" for s
    using md [of "sn_of (am_heap e) s"] low s nxt by (auto simp: am_sent_def)
  have ord: "aml.ordered ?e l = aml.ordered e l" if l: "set l \<subseteq> set (am_segs e)" "\<forall>s \<in> set l. am_sent e s" for l
    by (rule sorted_wrt_cong) (use mds l in \<open>auto simp: seg_after_def am_sn_compare_tx_def subset_iff\<close>)
  have sent_all: "\<forall>s \<in> set (am_wait_list e) \<union> set (am_retransmit_list e). am_sent ?e s"
    using sent I(8,9) by (auto simp: am_segs_def)
  have lists: "aml.ordered ?e (am_wait_list e)" "aml.ordered ?e (am_retransmit_list e)"
    using ord [of "am_wait_list e"] ord [of "am_retransmit_list e"] I(8-11) by (auto simp: am_segs_def)
  have "am_fresh ?e = am_fresh e" unfolding fun_eq_iff am_fresh_def by simp
  then have q: "am_queue_ok ?e (am_tx_list e)"
    using I(12) sent [of "hd (am_tx_list e)"] by (cases "am_tx_list e") (auto simp: am_queue_ok_def am_segs_def)
  have w: "am_window ?e"
    using ok W nxt amt.md_nonneg [OF W(2) t(1)] by (simp add: am_window_def)
  have h: "am_pdu_bytes ?e = am_pdu_bytes e"
    unfolding am_pdu_bytes_def fun_eq_iff using am_header_cong(1) [of ?e e] by simp
  show ?thesis
    unfolding am_inv_def h using I w sent_all lists q by (simp add: am_segs_def)
qed

lemma am_unlink_wait:
  assumes inv: "am_tx_ok e" and l: "am_wait_list e = cur # rest"
  defines "u \<equiv> e\<lparr>am_wait_list := rest, am_wait_end := (if rest = [] then None else am_wait_end e)\<rparr>"
  shows "am_inv u [cur]" "am_sent u cur" "am_frame UNIV e u"
proof -
  note I = am_invD [OF inv]
  show fr: "am_frame UNIV e u" by (simp add: am_frame_def u_def)
  have core: "am_core (am_heap u) ([cur] @ am_segs u)"
    using I(2) by (subst am_core_perm [of _ "[] @ am_segs e"]) (simp_all add: am_segs_def u_def l)
  have "am_queue_ok u (am_tx_list u)" using am_frameD(6) [OF fr, of "am_tx_list e"] I(12) by (simp add: u_def)
  then show "am_inv u [cur]"
    by (intro am_inv_frameI [OF fr I(1)]) (use core I in \<open>auto simp: u_def l ends_ok_def\<close>)
  show "am_sent u cur" using am_sent_frame [OF fr] I(8) l by simp
qed

lemma am_link_retx:
  assumes inv: "am_inv u [cur]" and sent: "am_sent u cur" and l: "am_retransmit_list u = xs @ ys" and ord: "aml.ordered u (xs @ cur # ys)"
  shows "am_tx_ok (u\<lparr>am_retransmit_list := xs @ cur # ys,
     am_common := add_bs_retx (am_compute_pdu_header_size u cur + seg_size cur) (am_common u)\<rparr>)" (is "am_tx_ok ?u")
proof -
  note I = am_invD [OF inv]
  have fr: "am_frame UNIV u ?u" by (simp add: am_frame_def)
  have core: "am_core (am_heap ?u) ([] @ am_segs ?u)"
    using I(2) by (subst am_core_perm [of _ "[cur] @ am_segs u"]) (simp_all add: am_segs_def l)
  have "am_queue_ok ?u (am_tx_list u)" using am_frameD(6) [OF fr, of "am_tx_list u"] I(12) by simp
  then show ?thesis
    by (intro am_inv_frameI [OF fr I(1)]) (use core I sent ord in \<open>auto simp: l\<close>)
qed

section \<open>The invariant of the second pass\<close>

definition ctl_ok :: "am_ctl \<Rightarrow> bool" where
  "ctl_ok c \<longleftrightarrow> ctl_prev c = [] \<and> ctl_hidden c = [] \<and> (ctl_end c = None \<or> ctl_end c = Some None) \<and> am_tx_ok (finish_lists c)
     \<and> (\<forall>n \<in> set (ctl_new c). \<forall>y \<in> set (ctl_wait c). \<not> seg_after (finish_lists c) n y)"

lemma finish_simps [simp]:
  "am_common (finish_lists c) = am_common (ctl_entity c)" "am_tx_list (finish_lists c) = am_tx_list (ctl_entity c)"
  "am_tx_next (finish_lists c) = am_tx_next (ctl_entity c)" "am_tx_next_ack (finish_lists c) = am_tx_next_ack (ctl_entity c)"
  "am_sn_modulus (finish_lists c) = am_sn_modulus (ctl_entity c)" "am_tx_size (finish_lists c) = am_tx_size (ctl_entity c)"
  "am_retransmit_list (finish_lists c) = ctl_new c @ ctl_retx c"
  "am_wait_list (finish_lists c) = ctl_prev c @ ctl_wait c @ ctl_hidden c"
  "am_sn_field_length (finish_lists c) = am_sn_field_length (ctl_entity c)" "am_window_size (finish_lists c) = am_window_size (ctl_entity c)"
  by (simp_all add: finish_lists_def Let_def)

lemma ctl_okD:
  assumes "ctl_ok c"
  shows "am_tx_ok (finish_lists c)" "am_wait_list (finish_lists c) = ctl_wait c"
    "am_segs (finish_lists c) = am_tx_list (ctl_entity c) @ ctl_wait c @ ctl_new c @ ctl_retx c"
    "n \<in> set (ctl_new c) \<Longrightarrow> y \<in> set (ctl_wait c) \<Longrightarrow> \<not> seg_after (finish_lists c) n y"
  using assms by (auto simp: ctl_ok_def am_segs_def)

lemma ctl_sdu_ok:
  assumes "ctl_ok c" and "s \<in> set (ctl_wait c @ ctl_retx c)"
  shows "ctl_sdu c s = Inr (sdu_of (am_heap (ctl_entity c)) s)"
proof -
  have "deref (am_heap (finish_lists c)) (seg_sdu s) = Inr (sdu_of (am_heap (finish_lists c)) s)"
    by (rule am_core_live(2) [OF am_invD(2) [OF ctl_okD(1) [OF assms(1)]]]) (use assms(2) ctl_okD(3) [OF assms(1)] in auto)
  then show ?thesis by (simp add: ctl_sdu_def)
qed

lemma ctl_sent: "ctl_ok c \<Longrightarrow> s \<in> set (ctl_wait c @ ctl_retx c @ ctl_new c) \<Longrightarrow> am_sent (finish_lists c) s"
  using am_invD(8,9) [OF ctl_okD(1)] ctl_okD(2) by fastforce

lemma ctl_unlink:
  assumes ok: "ctl_ok c" and l: "ctl_wait c = cur # rest"
  shows "ctl_end c = None" "ctl_end (unlink_wait c) = (if rest = [] then Some None else None)"
    "am_wait_end (finish_lists c) = am_wait_end (ctl_entity c)"
proof -
  have ends: "am_wait_end (finish_lists c) = Some (seg_addr (last (cur # rest)))"
    using am_invD(7) [OF ctl_okD(1) [OF ok]] l ok by (simp add: ends_ok_def ctl_ok_def)
  then show n: "ctl_end c = None" using ok by (auto simp: ctl_ok_def finish_lists_def Let_def)
  then show e: "am_wait_end (finish_lists c) = am_wait_end (ctl_entity c)" by (simp add: finish_lists_def Let_def)
  have "distinct (map seg_addr (cur # rest))" using am_inv_addrs(2) [OF ctl_okD(1) [OF ok]] l ok by (simp add: ctl_ok_def)
  then have "rest \<noteq> [] \<Longrightarrow> seg_addr (last rest) \<noteq> seg_addr cur" by simp (metis image_eqI last_in_set)
  then show "ctl_end (unlink_wait c) = (if rest = [] then Some None else None)"
    using ends e n ok l by (auto simp: unlink_wait_def ctl_ok_def)
qed

lemma seg_after_frame: "am_frame X e e' \<Longrightarrow> x \<in> X \<Longrightarrow> y \<in> X \<Longrightarrow> seg_after e' x y = seg_after e x y"
  using am_frameD(4) [of X e e' "[x, y]"] by simp

text \<open>A step takes the first segment of one of the two lists.\<close>

definition ctl_pop :: "am_ctl \<Rightarrow> nr_rlc_sdu_segment_t \<Rightarrow> am_ctl \<Rightarrow> bool" where
  "ctl_pop c cur c' \<longleftrightarrow> ctl_ok c' \<and> am_frame (set (am_segs (finish_lists c'))) (finish_lists c) (finish_lists c')
     \<and> am_tx_list (ctl_entity c') = am_tx_list (ctl_entity c)
     \<and> (ctl_wait c = cur # ctl_wait c' \<and> ctl_retx c' = ctl_retx c \<or> ctl_retx c = cur # ctl_retx c' \<and> ctl_wait c' = ctl_wait c)"

lemma free_acked_wait_ok:
  assumes ok: "ctl_ok c" and l: "ctl_wait c = cur # rest"
  obtains c' where "free_acked_wait c cur = Inr c'" "ctl_pop c cur c'" "ctl_new c' = ctl_new c"
proof -
  let ?v = "finish_lists c"
  define u where "u = ?v\<lparr>am_wait_list := rest, am_wait_end := (if rest = [] then None else am_wait_end ?v)\<rparr>"
  have w: "am_wait_list ?v = cur # rest" using ctl_okD(2) [OF ok] l by simp
  note U = am_unlink_wait [OF ctl_okD(1) [OF ok] w, folded u_def]
  obtain ts cm where f:
    "\<forall>e. am_common e = am_common u \<longrightarrow> am_tx_size e = am_tx_size u \<longrightarrow> free_acked e cur = Inr (e\<lparr>am_tx_size := ts, am_common := cm\<rparr>)"
    "am_tx_ok (u\<lparr>am_tx_size := ts, am_common := cm\<rparr>)" "\<forall>x \<in> set ([] @ am_segs u). sn_of (ent_heap cm) x = sn_of (am_heap u) x"
    by (rule free_acked_ok [OF U(1)])
  define c' where "c' = (unlink_wait c)\<lparr>ctl_entity := (ctl_entity c)\<lparr>am_tx_size := ts, am_common := cm\<rparr>\<rparr>"
  have r: "free_acked_wait c cur = Inr c'" using f(1) by (simp add: free_acked_wait_def c'_def u_def)
  have view: "finish_lists c' = u\<lparr>am_tx_size := ts, am_common := cm\<rparr>"
    using ctl_unlink [OF ok l] ok l
    by (simp add: c'_def u_def finish_lists_def Let_def unlink_wait_lists ctl_ok_def)
  have lists: "ctl_wait c' = rest" "ctl_retx c' = ctl_retx c" "ctl_new c' = ctl_new c" "ctl_prev c' = []" "ctl_hidden c' = []"
    "ctl_end c' = None \<or> ctl_end c' = Some None" "am_tx_list (ctl_entity c') = am_tx_list (ctl_entity c)"
    using ok l ctl_unlink(2) [OF ok l] by (simp_all add: c'_def unlink_wait_lists ctl_ok_def)
  have fr: "am_frame (set (am_segs (finish_lists c'))) ?v (finish_lists c')"
    using f(3) unfolding view by (simp add: am_frame_def u_def am_segs_def)
  have "\<not> seg_after (finish_lists c') n y" if "n \<in> set (ctl_new c)" "y \<in> set rest" for n y
    using seg_after_frame [OF fr, of n y] that ctl_okD(4) [OF ok, of n y] l lists by (simp add: am_segs_def)
  then have "ctl_ok c'" using f(2) lists by (simp add: ctl_ok_def view)
  then show ?thesis using r fr lists l by (intro that [of c']) (simp_all add: ctl_pop_def)
qed

lemma ctl_header: "am_compute_pdu_header_size (finish_lists c) = am_compute_pdu_header_size (ctl_entity c)"
  by (rule am_header_cong(1)) simp

lemma free_acked_retx_ok:
  assumes ok: "ctl_ok c" and l: "ctl_retx c = cur # rest"
  obtains c' where "free_acked_retx c cur = Inr c'" "ctl_pop c cur c'" "ctl_new c' = ctl_new c"
proof -
  let ?v = "finish_lists c"
  define u where "u = ?v\<lparr>am_retransmit_list := ctl_new c @ rest,
    am_common := add_bs_retx (- (am_compute_pdu_header_size ?v cur + seg_size cur)) (am_common ?v)\<rparr>"
  have w: "am_retransmit_list ?v = ctl_new c @ cur # rest" using l by simp
  note U = am_unlink_retx [OF ctl_okD(1) [OF ok] w, folded u_def]
  obtain ts cm where f:
    "\<forall>e. am_common e = am_common u \<longrightarrow> am_tx_size e = am_tx_size u \<longrightarrow> free_acked e cur = Inr (e\<lparr>am_tx_size := ts, am_common := cm\<rparr>)"
    "am_tx_ok (u\<lparr>am_tx_size := ts, am_common := cm\<rparr>)" "\<forall>x \<in> set ([] @ am_segs u). sn_of (ent_heap cm) x = sn_of (am_heap u) x"
    by (rule free_acked_ok [OF U(1)])
  define c' where "c' = c\<lparr>ctl_entity := (ctl_entity c)\<lparr>am_tx_size := ts, am_common := cm\<rparr>, ctl_retx := rest\<rparr>"
  have r: "free_acked_retx c cur = Inr c'" using f(1) l by (simp add: free_acked_retx_def c'_def u_def ctl_header)
  have view: "finish_lists c' = u\<lparr>am_tx_size := ts, am_common := cm\<rparr>"
    by (cases "ctl_end c") (simp_all add: c'_def u_def finish_lists_def Let_def)
  have lists: "ctl_wait c' = ctl_wait c" "ctl_retx c' = rest" "ctl_new c' = ctl_new c" "ctl_prev c' = []" "ctl_hidden c' = []"
    "ctl_end c' = None \<or> ctl_end c' = Some None" "am_tx_list (ctl_entity c') = am_tx_list (ctl_entity c)"
    using ok by (simp_all add: c'_def ctl_ok_def)
  have fr: "am_frame (set (am_segs (finish_lists c'))) ?v (finish_lists c')"
    using f(3) unfolding view by (simp add: am_frame_def u_def am_segs_def)
  have "\<not> seg_after (finish_lists c') n y" if "n \<in> set (ctl_new c)" "y \<in> set (ctl_wait c)" for n y
    using seg_after_frame [OF fr, of n y] that ctl_okD(4) [OF ok, of n y] lists by (simp add: am_segs_def)
  then have "ctl_ok c'" using f(2) lists by (simp add: ctl_ok_def view)
  then show ?thesis using r fr lists l by (intro that [of c']) (simp_all add: ctl_pop_def)
qed

lemma link_retx_ok:
  assumes ok: "ctl_ok c" and l: "ctl_retx c = cur # rest" and min: "\<forall>y \<in> set (ctl_wait c). \<not> seg_after (finish_lists c) cur y"
  shows "ctl_pop c cur ((link_new c cur)\<lparr>ctl_retx := tl (ctl_retx c)\<rparr>)"
proof -
  let ?c = "(link_new c cur)\<lparr>ctl_retx := tl (ctl_retx c)\<rparr>"
  have view: "finish_lists ?c = finish_lists c" using l by (cases "ctl_end c") (simp_all add: link_new_def finish_lists_def Let_def)
  have "ctl_ok ?c" using ok min l unfolding ctl_ok_def view by (auto simp: link_new_def)
  then show ?thesis using l by (simp add: ctl_pop_def view am_frame_def) (simp add: link_new_def)
qed

lemma nack_wait_ok:
  assumes ok: "ctl_ok c" and l: "ctl_wait c = cur # rest" and min: "\<forall>y \<in> set (ctl_retx c). \<not> seg_after (finish_lists c) cur y"
  obtains c' where "nack_wait c cur = Inr c'" "ctl_pop c cur c'" "ctl_new c' = ctl_new c @ [cur]"
proof -
  let ?v = "finish_lists c" and ?h = "am_heap (ctl_entity c)" and ?e = "ctl_entity c"
  let ?d = "sdu_of ?h cur"
  let ?d' = "?d\<lparr>sdu_retx_count := sdu_retx_count ?d + 1\<rparr>"
  define u where "u = ?v\<lparr>am_wait_list := rest, am_wait_end := (if rest = [] then None else am_wait_end ?v)\<rparr>"
  have w: "am_wait_list ?v = cur # rest" using ctl_okD(2) [OF ok] l by simp
  note U = am_unlink_wait [OF ctl_okD(1) [OF ok] w, folded u_def]
  define cm where "cm = (if sdu_retx_count ?d' \<ge> am_max_retx_threshold ?e * sdu_ref_count ?d'
    then emit Max_Retx_Reached (with_heap (store ?h (seg_sdu cur) ?d') (am_common ?e)) else with_heap (store ?h (seg_sdu cur) ?d') (am_common ?e))"
  define u1 where "u1 = u\<lparr>am_common := cm\<rparr>"
  have hu: "am_heap u = ?h" "am_common u = am_common ?e" by (simp_all add: u_def)
  have T: "am_inv (u\<lparr>am_common := with_heap (store ?h (seg_sdu cur) ?d') (am_common ?e)\<rparr>) [cur]"
    "sn_of (store ?h (seg_sdu cur) ?d') x = sn_of ?h x" for x
    using am_inv_touch [OF U(1), of cur ?d'] by (simp_all add: hu)
  have cm: "ent_heap cm = store ?h (seg_sdu cur) ?d'" by (simp add: cm_def)
  have "am_inv u1 [cur]"
    using T(1) by (subst am_inv_cong [of "u\<lparr>am_common := with_heap (store ?h (seg_sdu cur) ?d') (am_common ?e)\<rparr>"])
      (simp_all add: am_same_tx_def u1_def cm_def)
  moreover have fr1: "am_frame UNIV ?v u1" using T(2) by (simp add: am_frame_def u1_def cm) (simp add: u_def)
  moreover have sent1: "am_sent u1 cur" using am_sent_frame [OF fr1] ctl_sent [OF ok, of cur] l by simp
  moreover have "am_retransmit_list u1 = ctl_new c @ ctl_retx c" by (simp add: u1_def u_def)
  moreover have "aml.ordered u1 (ctl_new c @ cur # ctl_retx c)"
    using am_frameD(4) [OF fr1, of "ctl_new c @ cur # ctl_retx c"] am_invD(11) [OF ctl_okD(1) [OF ok]] ctl_okD(4) [OF ok] min l
    by (simp add: sorted_wrt_append)
  ultimately have link: "am_tx_ok (u1\<lparr>am_retransmit_list := ctl_new c @ cur # ctl_retx c,
     am_common := add_bs_retx (am_compute_pdu_header_size u1 cur + seg_size cur) (am_common u1)\<rparr>)" (is "am_tx_ok ?u2")
    by (intro am_link_retx)
  have hd: "am_compute_pdu_header_size u1 = am_compute_pdu_header_size ?e" by (rule am_header_cong(1)) (simp add: u1_def u_def)
  define c' where "c' = (link_new (unlink_wait c) cur)\<lparr>ctl_entity := ?e\<lparr>am_common := add_bs_retx (am_compute_pdu_header_size ?e cur + seg_size cur) cm\<rparr>\<rparr>"
  have r: "nack_wait c cur = Inr c'"
    using ctl_sdu_ok [OF ok, of cur] l unfolding nack_wait_def Let_def c'_def cm_def by simp
  have view: "finish_lists c' = ?u2"
    using ctl_unlink [OF ok l] ok l hd
    by (simp add: c'_def u1_def u_def finish_lists_def Let_def unlink_wait_lists link_new_def ctl_ok_def)
  have lists: "ctl_wait c' = rest" "ctl_retx c' = ctl_retx c" "ctl_new c' = ctl_new c @ [cur]" "ctl_prev c' = []" "ctl_hidden c' = []"
    "ctl_end c' = None \<or> ctl_end c' = Some None" "am_tx_list (ctl_entity c') = am_tx_list ?e"
    using ok l ctl_unlink(2) [OF ok l] by (simp_all add: c'_def unlink_wait_lists link_new_def ctl_ok_def)
  have fr: "am_frame UNIV ?v (finish_lists c')"
    using T(2) unfolding view by (simp add: am_frame_def u1_def cm) (simp add: u_def)
  have "\<not> seg_after ?v cur y" if "y \<in> set rest" for y using am_invD(10) [OF ctl_okD(1) [OF ok]] w that by simp
  then have "\<not> seg_after (finish_lists c') n y" if "n \<in> set (ctl_new c @ [cur])" "y \<in> set rest" for n y
    using seg_after_frame [OF fr, of n y] that ctl_okD(4) [OF ok, of n y] l by auto
  then have "ctl_ok c'" using link lists by (simp add: ctl_ok_def view)
  moreover have "am_frame (set (am_segs (finish_lists c'))) ?v (finish_lists c')" using fr by (simp add: am_frame_def)
  ultimately show ?thesis using r lists l by (intro that [of c']) (simp_all add: ctl_pop_def)
qed

section \<open>The segments of one missing number\<close>

text \<open>Whether a NACK asks for a segment, and whether the segment comes after what the NACK asks for.\<close>

definition nack_hits :: "nr_rlc_entity_am_t \<Rightarrow> int \<times> int \<times> int \<Rightarrow> nr_rlc_sdu_segment_t \<Rightarrow> bool" where
  "nack_hits e x s \<longleftrightarrow> (case x of (sn, so_start, so_end) \<Rightarrow>
     sn_of (am_heap e) s = sn \<and> so_overlap so_start so_end (seg_so s) (seg_so s + seg_size s - 1))"

definition nack_passed :: "nr_rlc_entity_am_t \<Rightarrow> int \<times> int \<times> int \<Rightarrow> nr_rlc_sdu_segment_t \<Rightarrow> bool" where
  "nack_passed e x s \<longleftrightarrow> (case x of (sn, so_start, so_end) \<Rightarrow>
     am_modulus_tx e sn < am_modulus_tx e (sn_of (am_heap e) s) \<or> (sn_of (am_heap e) s = sn \<and> so_start < seg_so s))"

text \<open>The numbers of an accepted status PDU in the window of an entity.\<close>

definition nack_in :: "nr_rlc_entity_am_t \<Rightarrow> int \<Rightarrow> int \<times> int \<times> int \<Rightarrow> bool" where
  "nack_in e ack_sn x \<longleftrightarrow> is_sn (am_sn_modulus e) ack_sn \<and> is_sn (am_sn_modulus e) (fst x)
     \<and> am_modulus_tx e (fst x) < am_modulus_tx e ack_sn"

definition ctl_takes :: "am_ctl \<Rightarrow> int \<times> int \<times> int \<Rightarrow> nr_rlc_sdu_segment_t \<Rightarrow> (ctl_next \<times> am_ctl) res \<Rightarrow> bool" where
  "ctl_takes c x cur r \<longleftrightarrow>
     (if nack_hits (finish_lists c) x cur then \<exists>c'. r = Inr (Again, c') \<and> ctl_pop c cur c' \<and> ctl_new c' = ctl_new c @ [cur]
      else if nack_passed (finish_lists c) x cur then r = Inr (Done_Nack, c)
      else \<exists>c'. r = Inr (Again, c') \<and> ctl_pop c cur c' \<and> ctl_new c' = ctl_new c)"

lemma ctl_modulus: "am_modulus_tx (ctl_entity c) = am_modulus_tx (finish_lists c)"
  by (rule am_order_cong(1)) simp_all

lemma ctl_order:
  assumes "ctl_ok c" and "s \<in> set (ctl_wait c @ ctl_retx c @ ctl_new c)" and "nack_in (finish_lists c) ack_sn (sn, a, b)"
  shows "am_sn_compare_tx (ctl_entity c) (sn_of (am_heap (ctl_entity c)) s) sn > 0
      \<or> (am_sn_compare_tx (ctl_entity c) (sn_of (am_heap (ctl_entity c)) s) sn = 0 \<and> seg_so s > a) \<longleftrightarrow> nack_passed (finish_lists c) (sn, a, b) s"
    "\<not> nack_passed (finish_lists c) (sn, a, b) s \<Longrightarrow> am_sn_compare_tx (ctl_entity c) (sn_of (am_heap (ctl_entity c)) s) ack_sn < 0"
proof -
  let ?v = "finish_lists c"
  have w: "am_tx_window_ok ?v" using am_windowD(2) [OF am_invD(1) [OF ctl_okD(1) [OF assms(1)]]] .
  have i: "is_sn (am_sn_modulus ?v) (sn_of (am_heap ?v) s)" using ctl_sent [OF assms(1,2)] by (simp add: am_sent_def)
  note M = amt.md_inject [OF w i, of sn]
  show "am_sn_compare_tx (ctl_entity c) (sn_of (am_heap (ctl_entity c)) s) sn > 0
      \<or> (am_sn_compare_tx (ctl_entity c) (sn_of (am_heap (ctl_entity c)) s) sn = 0 \<and> seg_so s > a) \<longleftrightarrow> nack_passed ?v (sn, a, b) s"
    using M assms(3) by (auto simp: am_sn_compare_tx_def ctl_modulus nack_passed_def nack_in_def)
  show "\<not> nack_passed ?v (sn, a, b) s \<Longrightarrow> am_sn_compare_tx (ctl_entity c) (sn_of (am_heap (ctl_entity c)) s) ack_sn < 0"
    using assms(3) by (auto simp: am_sn_compare_tx_def ctl_modulus nack_passed_def nack_in_def)
qed

lemma wait_head_ok:
  assumes ok: "ctl_ok c" and l: "ctl_wait c = cur # rest" and min: "\<forall>y \<in> set (ctl_retx c). \<not> seg_after (finish_lists c) cur y"
    and x: "nack_in (finish_lists c) ack_sn x"
  shows "ctl_takes c x cur (process_wait_list_head ack_sn x c cur)"
proof -
  obtain sn a b where [simp]: "x = (sn, a, b)" by (cases x)
  have cur: "cur \<in> set (ctl_wait c @ ctl_retx c @ ctl_new c)" by (simp add: l)
  note O = ctl_order [OF ok cur x [simplified]]
  have sdu: "ctl_sdu c cur = Inr (sdu_of (am_heap (ctl_entity c)) cur)" by (rule ctl_sdu_ok [OF ok]) (simp add: l)
  obtain c1 where c1: "nack_wait c cur = Inr c1" "ctl_pop c cur c1" "ctl_new c1 = ctl_new c @ [cur]"
    by (rule nack_wait_ok [OF ok l min])
  obtain c2 where c2: "free_acked_wait c cur = Inr c2" "ctl_pop c cur c2" "ctl_new c2 = ctl_new c"
    by (rule free_acked_wait_ok [OF ok l])
  show ?thesis
    using O c1 c2 by (simp add: process_wait_list_head_def sdu Let_def ctl_takes_def nack_hits_def)
qed

lemma retx_head_ok:
  assumes ok: "ctl_ok c" and l: "ctl_retx c = cur # rest" and min: "\<forall>y \<in> set (ctl_wait c). \<not> seg_after (finish_lists c) cur y"
    and x: "nack_in (finish_lists c) ack_sn x"
  shows "ctl_takes c x cur (process_retransmit_list_head ack_sn x c cur)"
proof -
  obtain sn a b where [simp]: "x = (sn, a, b)" by (cases x)
  have cur: "cur \<in> set (ctl_wait c @ ctl_retx c @ ctl_new c)" by (simp add: l)
  note O = ctl_order [OF ok cur x [simplified]]
  have sdu: "ctl_sdu c cur = Inr (sdu_of (am_heap (ctl_entity c)) cur)" by (rule ctl_sdu_ok [OF ok]) (simp add: l)
  have c1: "ctl_pop c cur ((link_new c cur)\<lparr>ctl_retx := tl (ctl_retx c)\<rparr>)" by (rule link_retx_ok [OF ok l min])
  obtain c2 where c2: "free_acked_retx c cur = Inr c2" "ctl_pop c cur c2" "ctl_new c2 = ctl_new c"
    by (rule free_acked_retx_ok [OF ok l])
  show ?thesis
    using O c1 c2 by (simp add: process_retransmit_list_head_def sdu Let_def ctl_takes_def nack_hits_def) (simp add: link_new_def)
qed

lemma next_pdu_ok:
  assumes ok: "ctl_ok c" and x: "nack_in (finish_lists c) ack_sn x"
  shows "if ctl_wait c = [] \<and> ctl_retx c = [] then process_next_pdu ack_sn x c = Inr (Lists_Over, c)
    else \<exists>cur \<in> set (ctl_wait c @ ctl_retx c). (\<forall>y \<in> set (ctl_wait c @ ctl_retx c). y = cur \<or> \<not> seg_after (finish_lists c) cur y)
       \<and> ctl_takes c x cur (process_next_pdu ack_sn x c)"
proof -
  let ?v = "finish_lists c"
  note I = am_invD [OF ctl_okD(1) [OF ok]]
  have ordW: "aml.ordered ?v (ctl_wait c)" using I(10) ctl_okD(2) [OF ok] by simp
  have ordR: "aml.ordered ?v (ctl_retx c)" using I(11) by (simp add: sorted_wrt_append)
  have val: "am_valid ?v s" if "s \<in> set (ctl_wait c @ ctl_retx c)" for s
    using ctl_sent [OF ok, of s] that am_sent_valid [OF I(1)] by auto
  show ?thesis
  proof (cases "ctl_wait c")
    case Nil
    then show ?thesis
      using retx_head_ok [OF ok _ _ x] ordR
      by (cases "ctl_retx c") (auto simp: process_next_pdu_def)
  next
    case W: (Cons w ws)
    show ?thesis
    proof (cases "ctl_retx c")
      case Nil
      then show ?thesis using wait_head_ok [OF ok W _ x] ordW W by (auto simp: process_next_pdu_def)
    next
      case R: (Cons r rs)
      have sdu: "ctl_sdu c w = Inr (sdu_of (am_heap ?v) w)" "ctl_sdu c r = Inr (sdu_of (am_heap ?v) r)"
        using ctl_sdu_ok [OF ok] W R by simp_all
      have "am_sn_compare_tx (ctl_entity c) (sn_of (am_heap ?v) w) (sn_of (am_heap ?v) r) < 0
        \<or> (am_sn_compare_tx (ctl_entity c) (sn_of (am_heap ?v) w) (sn_of (am_heap ?v) r) = 0 \<and> seg_so w < seg_so r)
        \<longleftrightarrow> seg_after ?v r w"
        using val [of w] val [of r] W R by (auto simp: seg_after_cases am_sn_compare_tx_def ctl_modulus)
      then have step: "process_next_pdu ack_sn x c =
        (if seg_after ?v r w then process_wait_list_head ack_sn x c w else process_retransmit_list_head ack_sn x c r)"
        using sdu by (simp add: process_next_pdu_def W R Let_def)
      show ?thesis
      proof (cases "seg_after ?v r w")
        case True
        then have wr: "\<not> seg_after ?v w r" using aml.after_asym val W R by auto
        have min: "\<forall>y \<in> set (ctl_retx c). \<not> seg_after ?v w y"
          using wr ordR aml.not_after_trans [of ?v w r] val W R by auto
        then show ?thesis
          using wait_head_ok [OF ok W min x] True step ordW W R by (auto intro!: bexI [of _ w])
      next
        case False
        have min: "\<forall>y \<in> set (ctl_wait c). \<not> seg_after ?v r y"
          using False ordW aml.not_after_trans [of ?v r w] val W R by auto
        then show ?thesis
          using retx_head_ok [OF ok R min x] False step ordR W R by (auto intro!: bexI [of _ r])
      qed
    qed
  qed
qed

end
