(* ===== verification/Rlc_Am_Feedback.thy ===== *)
theory Rlc_Am_Feedback
  imports Rlc_Am_Ack
begin

text \<open>
  The result of a status PDU, segment by segment: what is acknowledged and not reported missing is freed,
  what is reported missing is in the retransmit list, the rest stays where it is.
\<close>

section \<open>The specification\<close>

definition am_acked :: "nr_rlc_entity_am_t \<Rightarrow> int \<Rightarrow> nr_rlc_sdu_segment_t \<Rightarrow> bool" where
  "am_acked e ack_sn s \<longleftrightarrow> am_modulus_tx e (sn_of (am_heap e) s) < am_modulus_tx e ack_sn"

definition am_nacked :: "nr_rlc_entity_am_t \<Rightarrow> (int \<times> int \<times> int) list \<Rightarrow> nr_rlc_sdu_segment_t \<Rightarrow> bool" where
  "am_nacked e xs s \<longleftrightarrow> (\<exists>x \<in> set xs. nack_hits e x s)"

text \<open>The order of the NACKs of a status PDU.\<close>

definition nack_le :: "nr_rlc_entity_am_t \<Rightarrow> int \<times> int \<times> int \<Rightarrow> int \<times> int \<times> int \<Rightarrow> bool" where
  "nack_le e x y \<longleftrightarrow> am_modulus_tx e (fst x) < am_modulus_tx e (fst y) \<or> (fst x = fst y \<and> fst (snd x) \<le> fst (snd y))"

text \<open>A segment behind everything a NACK asks for.\<close>

definition nack_gone :: "nr_rlc_entity_am_t \<Rightarrow> int \<times> int \<times> int \<Rightarrow> nr_rlc_sdu_segment_t \<Rightarrow> bool" where
  "nack_gone e x s \<longleftrightarrow> (case x of (sn, so_start, so_end) \<Rightarrow>
     am_modulus_tx e sn < am_modulus_tx e (sn_of (am_heap e) s)
     \<or> (sn_of (am_heap e) s = sn \<and> so_start < seg_so s \<and> so_end \<noteq> -1 \<and> so_end < seg_so s))"

lemma nack_gone_not_hit: "nack_gone e x s \<Longrightarrow> \<not> nack_hits e x s"
  by (auto simp: nack_gone_def nack_hits_def so_overlap_def split: prod.splits)

lemma nack_gone_passed: "nack_passed e x s \<Longrightarrow> \<not> nack_hits e x s \<Longrightarrow> nack_gone e x s"
  by (auto simp: nack_gone_def nack_passed_def nack_hits_def so_overlap_def split: prod.splits)

lemma nack_gone_mono:
  assumes "nack_gone e x s" and "am_valid e s" and "am_valid e y" and "\<not> seg_after e s y"
  shows "nack_gone e x y"
  using assms amt.md_inject [of e "sn_of (am_heap e) s" "sn_of (am_heap e) y"]
  by (auto simp: nack_gone_def seg_after_cases am_valid_def split: prod.splits)

text \<open>A segment in front of what a NACK asks for is in front of what later ones ask for.\<close>

lemma nack_later_not_hit:
  assumes le: "nack_le e x x'" and x: "\<not> nack_hits e x s" "\<not> nack_passed e x s" and w: "am_valid e s"
    and sn: "is_sn (am_sn_modulus e) (fst x)" and s: "0 \<le> seg_so s" "0 < seg_size s"
  shows "\<not> nack_hits e x' s"
proof
  assume hit: "nack_hits e x' s"
  obtain n a b n' a' b' where [simp]: "x = (n, a, b)" "x' = (n', a', b')" by (cases x, cases x')
  have n': "sn_of (am_heap e) s = n'" using hit by (simp add: nack_hits_def)
  have "\<not> am_modulus_tx e n < am_modulus_tx e n'" using x(2) n' by (auto simp: nack_passed_def)
  then have "n = n'" "a \<le> a'" using le by (auto simp: nack_le_def)
  moreover from this have "seg_so s \<le> a" using x(2) n' by (auto simp: nack_passed_def)
  ultimately show False using hit x(1) n' s by (auto simp: nack_hits_def so_overlap_def split: if_splits)
qed

section \<open>The invariant over the NACKs\<close>

definition ctl_inv :: "nr_rlc_entity_am_t \<Rightarrow> int \<Rightarrow> (int \<times> int \<times> int) list \<Rightarrow> (int \<times> int \<times> int) list \<Rightarrow> am_ctl \<Rightarrow> bool" where
  "ctl_inv e ack_sn xs ds c \<longleftrightarrow> ctl_ok c \<and> am_frame (set (am_segs (finish_lists c))) e (finish_lists c)
     \<and> am_tx_list (ctl_entity c) = am_tx_list e
     \<and> filter (\<lambda>s. \<not> am_acked e ack_sn s) (ctl_wait c) = filter (\<lambda>s. \<not> am_acked e ack_sn s) (am_wait_list e)
     \<and> filter (\<lambda>s. \<not> am_acked e ack_sn s) (ctl_retx c) = filter (\<lambda>s. \<not> am_acked e ack_sn s) (am_retransmit_list e)
     \<and> (\<forall>s \<in> set (ctl_new c). am_acked e ack_sn s \<and> am_nacked e xs s)
     \<and> (\<exists>gone. mset (am_wait_list e) + mset (am_retransmit_list e) = mset (ctl_wait c) + mset (ctl_retx c) + mset (ctl_new c) + gone
          \<and> (\<forall>s \<in># gone. am_acked e ack_sn s \<and> \<not> am_nacked e xs s))
     \<and> (\<forall>y \<in> set (ctl_wait c @ ctl_retx c). \<forall>x \<in> set ds. nack_gone e x y)"

lemma ctl_invD:
  assumes "ctl_inv e ack_sn xs ds c"
  shows "ctl_ok c" "am_frame (set (am_segs (finish_lists c))) e (finish_lists c)" "am_tx_list (ctl_entity c) = am_tx_list e"
    "filter (\<lambda>s. \<not> am_acked e ack_sn s) (ctl_wait c) = filter (\<lambda>s. \<not> am_acked e ack_sn s) (am_wait_list e)"
    "filter (\<lambda>s. \<not> am_acked e ack_sn s) (ctl_retx c) = filter (\<lambda>s. \<not> am_acked e ack_sn s) (am_retransmit_list e)"
    "s \<in> set (ctl_new c) \<Longrightarrow> am_acked e ack_sn s \<and> am_nacked e xs s"
    "\<exists>gone. mset (am_wait_list e) + mset (am_retransmit_list e) = mset (ctl_wait c) + mset (ctl_retx c) + mset (ctl_new c) + gone
          \<and> (\<forall>s \<in># gone. am_acked e ack_sn s \<and> \<not> am_nacked e xs s)"
    "y \<in> set (ctl_wait c @ ctl_retx c) \<Longrightarrow> x \<in> set ds \<Longrightarrow> nack_gone e x y"
  using assms unfolding ctl_inv_def by blast+

lemma am_frame_trans: "am_frame X a b \<Longrightarrow> am_frame Y b c \<Longrightarrow> Y \<subseteq> X \<Longrightarrow> am_frame Y a c"
  by (auto simp: am_frame_def)

text \<open>A segment that is taken is reported missing and goes to the new list, or is acknowledged for good.\<close>

lemma ctl_inv_pop:
  assumes inv: "ctl_inv e ack_sn xs ds c" and pop: "ctl_pop c cur c'" and acked: "am_acked e ack_sn cur"
    and new: "if am_nacked e xs cur then ctl_new c' = ctl_new c @ [cur] else ctl_new c' = ctl_new c"
  shows "ctl_inv e ack_sn xs ds c'"
proof -
  note I = ctl_invD [OF inv] and P = pop [unfolded ctl_pop_def]
  note S = ctl_okD(3) [OF I(1)] ctl_okD(3) [of c']
  have sub: "set (am_segs (finish_lists c')) \<subseteq> set (am_segs (finish_lists c))"
    using S P new by (auto split: if_splits)
  have fr: "am_frame (set (am_segs (finish_lists c'))) e (finish_lists c')"
    using am_frame_trans [OF I(2) _ sub] P by blast
  obtain gone where gone: "mset (am_wait_list e) + mset (am_retransmit_list e) = mset (ctl_wait c) + mset (ctl_retx c) + mset (ctl_new c) + gone"
    "\<forall>s \<in># gone. am_acked e ack_sn s \<and> \<not> am_nacked e xs s" using I(7) by blast
  have "\<exists>gone. mset (am_wait_list e) + mset (am_retransmit_list e) = mset (ctl_wait c') + mset (ctl_retx c') + mset (ctl_new c') + gone
          \<and> (\<forall>s \<in># gone. am_acked e ack_sn s \<and> \<not> am_nacked e xs s)"
    by (rule exI [of _ "if am_nacked e xs cur then gone else add_mset cur gone"]) (use gone P new acked in auto)
  moreover have "\<forall>s \<in> set (ctl_new c'). am_acked e ack_sn s \<and> am_nacked e xs s" using I(6) new acked by (auto split: if_splits)
  moreover have "\<forall>y \<in> set (ctl_wait c' @ ctl_retx c'). \<forall>x \<in> set ds. nack_gone e x y" using I(8) P by auto
  ultimately show ?thesis
    using P I(3-5) fr acked unfolding ctl_inv_def by auto
qed

lemma am_frame_modulus: "am_frame X e e' \<Longrightarrow> am_modulus_tx e' = am_modulus_tx e"
  unfolding am_modulus_tx_def fun_eq_iff am_frame_def by (simp add: Let_def)

lemma nack_frame:
  assumes "am_frame X e e'"
  shows "s \<in> X \<Longrightarrow> nack_hits e' x s = nack_hits e x s" "s \<in> X \<Longrightarrow> nack_passed e' x s = nack_passed e x s"
    "nack_in e' ack_sn x = nack_in e ack_sn x" "s \<in> X \<Longrightarrow> am_valid e' s = am_valid e s"
  using am_frame_modulus [OF assms] assms
  by (auto simp: nack_hits_def nack_passed_def nack_in_def am_valid_def am_frame_def am_tx_window_ok_def am_sn_ok_def split: prod.splits)

text \<open>The segments of the two lists, read in the entity the PDU arrived at.\<close>

lemma ctl_inv_seg:
  assumes inv: "ctl_inv e ack_sn xs ds c" and s: "s \<in> set (ctl_wait c @ ctl_retx c)"
  shows "s \<in> set (am_segs (finish_lists c))" "am_valid e s" "0 \<le> seg_so s" "0 < seg_size s"
proof -
  note I = ctl_invD [OF inv] and A = am_invD [OF ctl_okD(1) [OF ctl_invD(1) [OF inv]]]
  show m: "s \<in> set (am_segs (finish_lists c))" using s ctl_okD(3) [OF I(1)] by auto
  have "am_valid (finish_lists c) s" using am_sent_valid [OF A(1) ctl_sent [OF I(1)]] s by auto
  then show "am_valid e s" using nack_frame(4) [OF I(2) m] by simp
  show "0 \<le> seg_so s" "0 < seg_size s" using am_core_live(3,5) [OF A(2), of s] m by (auto simp: seg_in_def)
qed

lemma nack_step:
  assumes inv: "ctl_inv e ack_sn xs ds c" and x: "nack_in e ack_sn x" and xs: "xs = ds @ x # zs" and sorted: "sorted_wrt (nack_le e) xs"
    and cur: "cur \<in> set (ctl_wait c @ ctl_retx c)" and r: "ctl_takes c x cur r" "r = Inr (Again, c')"
  shows "ctl_inv e ack_sn xs ds c'"
proof -
  note I = ctl_invD [OF inv] and C = ctl_inv_seg [OF inv cur]
  note F = nack_frame(1,2) [OF I(2) C(1)]
  show ?thesis
  proof (cases "nack_hits e x cur")
    case True
    then have "am_nacked e xs cur" using xs by (auto simp: am_nacked_def)
    moreover have "am_acked e ack_sn cur" using True x by (auto simp: am_acked_def nack_hits_def nack_in_def split: prod.splits)
    ultimately show ?thesis
      using r True F(1) [of x] by (intro ctl_inv_pop [OF inv, of cur]) (simp_all add: ctl_takes_def)
  next
    case False
    then have pop: "\<not> nack_passed e x cur" "ctl_pop c cur c'" "ctl_new c' = ctl_new c"
      using r F [of x] by (auto simp: ctl_takes_def split: if_splits)
    have "\<not> nack_hits e y cur" if y: "y \<in> set xs" for y
    proof -
      consider "y \<in> set ds" | "y = x" | "y \<in> set zs" using y xs by auto
      then show ?thesis
      proof cases
        case 3
        then have "nack_le e x y" using sorted by (simp add: xs sorted_wrt_append)
        then show ?thesis
          by (rule nack_later_not_hit [OF _ False pop(1) C(2) _ C(3,4)]) (use x in \<open>simp add: nack_in_def\<close>)
      qed (use I(8) [OF cur] nack_gone_not_hit False in auto)
    qed
    then have "\<not> am_nacked e xs cur" by (simp add: am_nacked_def)
    moreover have "am_acked e ack_sn cur"
      using pop(1) x by (auto simp: am_acked_def nack_passed_def nack_in_def split: prod.splits)
    ultimately show ?thesis using pop(2,3) by (intro ctl_inv_pop [OF inv, of cur]) simp_all
  qed
qed

lemma ctl_inv_empty: "ctl_inv e ack_sn xs ds c \<Longrightarrow> ctl_wait c = [] \<Longrightarrow> ctl_retx c = [] \<Longrightarrow> ctl_inv e ack_sn xs ds' c"
  by (simp add: ctl_inv_def)

lemma process_nack_ok:
  assumes "ctl_inv e ack_sn xs ds c" and x: "nack_in e ack_sn x" and xs: "xs = ds @ x # zs" and sorted: "sorted_wrt (nack_le e) xs"
  shows "\<exists>over c'. process_nack ack_sn x c = Inr (over, c') \<and> ctl_inv e ack_sn xs (ds @ [x]) c'
     \<and> (over \<longrightarrow> ctl_wait c' = [] \<and> ctl_retx c' = [])"
  using assms(1)
proof (induction "length (ctl_wait c) + length (ctl_retx c)" arbitrary: c rule: less_induct)
  case less
  note I = ctl_invD [OF less.prems]
  have x': "nack_in (finish_lists c) ack_sn x" using x nack_frame(3) [OF I(2)] by simp
  note N = next_pdu_ok [OF I(1) x']
  show ?case
  proof (cases "ctl_wait c = [] \<and> ctl_retx c = []")
    case True
    then show ?thesis
      using N ctl_inv_empty [OF less.prems, of "ds @ [x]"] by (subst process_nack.simps) auto
  next
    case False
    then obtain cur where cur: "cur \<in> set (ctl_wait c @ ctl_retx c)"
      "\<forall>y \<in> set (ctl_wait c @ ctl_retx c). y = cur \<or> \<not> seg_after (finish_lists c) cur y"
      "ctl_takes c x cur (process_next_pdu ack_sn x c)" using N by (metis (no_types, lifting))
    note C = ctl_inv_seg [OF less.prems] and F = nack_frame [OF I(2)]
    show ?thesis
    proof (cases "\<exists>c'. process_next_pdu ack_sn x c = Inr (Again, c')")
      case True
      then obtain c' where c': "process_next_pdu ack_sn x c = Inr (Again, c')" by blast
      have "ctl_inv e ack_sn xs ds c'" by (rule nack_step [OF less.prems x xs sorted cur(1,3) c'])
      then show ?thesis
        using less.hyps [OF process_next_pdu_again [OF c']] c' by (subst process_nack.simps) simp
    next
      case stop: False
      then have p: "nack_passed e x cur" "\<not> nack_hits e x cur" "process_next_pdu ack_sn x c = Inr (Done_Nack, c)"
        using cur(3) F(1,2) [OF C(1) [OF cur(1)]] by (auto simp: ctl_takes_def split: if_splits)
      have "nack_gone e x y" if y: "y \<in> set (ctl_wait c @ ctl_retx c)" for y
      proof (cases "y = cur")
        case False
        then have "\<not> seg_after e cur y"
          using cur(2) y seg_after_frame [OF I(2) C(1) [OF cur(1)] C(1) [OF y]] by auto
        then show ?thesis by (rule nack_gone_mono [OF nack_gone_passed [OF p(1,2)] C(2) [OF cur(1)] C(2) [OF y]])
      qed (use nack_gone_passed [OF p(1,2)] in simp)
      then have "ctl_inv e ack_sn xs (ds @ [x]) c" using less.prems by (auto simp: ctl_inv_def)
      then show ?thesis using p(3) by (subst process_nack.simps) auto
    qed
  qed
qed

lemma process_range_ok:
  assumes "ctl_inv e ack_sn xs ds c" and "\<forall>x \<in> set ys. nack_in e ack_sn x" and "xs = ds @ ys @ zs" and sorted: "sorted_wrt (nack_le e) xs"
  shows "\<exists>c'. process_range ack_sn ys c = Inr c' \<and> ctl_inv e ack_sn xs (ds @ ys) c'"
  using assms(1-3)
proof (induction ys arbitrary: ds c)
  case (Cons x ys)
  obtain over c' where c': "process_nack ack_sn x c = Inr (over, c')" "ctl_inv e ack_sn xs (ds @ [x]) c'"
    "over \<longrightarrow> ctl_wait c' = [] \<and> ctl_retx c' = []"
    using process_nack_ok [OF Cons.prems(1) _ _ sorted, of x "ys @ zs"] Cons.prems(2,3) by auto
  show ?case
  proof (cases over)
    case True
    then show ?thesis using c' ctl_inv_empty [OF c'(2), of "ds @ x # ys"] by simp
  next
    case False
    then show ?thesis using c' Cons.IH [OF c'(2)] Cons.prems(2,3) by simp
  qed
qed simp

lemma ctl_inv_stop:
  assumes "ctl_inv e ack_sn xs ds c"
  shows "ctl_inv e ack_sn xs ds (c\<lparr>ctl_entity := stop_t_poll_retransmit_if b (ctl_entity c)\<rparr>)" (is "ctl_inv _ _ _ _ ?c")
proof -
  have same: "am_same_tx (finish_lists c) (finish_lists ?c)"
    by (cases "ctl_end c") (simp_all add: am_same_tx_def stop_t_poll_retransmit_if_def finish_lists_def Let_def)
  have o: "seg_after (finish_lists ?c) = seg_after (finish_lists c)"
    by (rule am_order_cong(3)) (simp_all add: stop_t_poll_retransmit_if_def)
  have "am_segs (finish_lists ?c) = am_segs (finish_lists c)" using same by (simp add: am_segs_def am_same_tx_def)
  moreover have "am_frame X e (finish_lists ?c) = am_frame X e (finish_lists c)" for X
    using same by (simp add: am_frame_def am_same_tx_def)
  moreover have "ctl_ok ?c" using ctl_invD(1) [OF assms] am_inv_cong [OF same] by (simp add: ctl_ok_def o)
  ultimately show ?thesis
    using assms by (simp add: ctl_inv_def stop_t_poll_retransmit_if_def)
qed

lemma process_nacks_ok:
  assumes "ctl_inv e ack_sn xs ds c" and "\<forall>k \<in> set ks. \<forall>x \<in> set (cur_nacks e k). nack_in e ack_sn x"
    and "xs = ds @ concat (map (cur_nacks e) ks)" and sorted: "sorted_wrt (nack_le e) xs"
  shows "\<exists>c'. process_nacks ack_sn ks c = Inr c' \<and> ctl_inv e ack_sn xs xs c'"
  using assms(1-3)
proof (induction ks arbitrary: ds c)
  case (Cons k ks)
  have "cur_nacks (ctl_entity c) k = cur_nacks e k"
    using ctl_invD(2) [OF Cons.prems(1)] by (simp add: cur_nacks_def am_frame_def)
  moreover obtain c' where c': "process_range ack_sn (cur_nacks e k) c = Inr c'" "ctl_inv e ack_sn xs (ds @ cur_nacks e k) c'"
    using process_range_ok [OF Cons.prems(1) _ _ sorted, of "cur_nacks e k"] Cons.prems(2,3) by auto
  ultimately show ?case
    using Cons.IH [OF ctl_inv_stop [OF c'(2)]] Cons.prems(2,3) by (simp add: Let_def)
qed simp

section \<open>The acknowledged number\<close>

lemma ctl_acked:
  assumes inv: "ctl_inv e ack_sn xs ds c" and s: "s \<in> set (ctl_wait c @ ctl_retx c)"
  shows "am_sn_compare_tx (ctl_entity c) (sn_of (am_heap (ctl_entity c)) s) ack_sn < 0 \<longleftrightarrow> am_acked e ack_sn s"
proof -
  note fr = ctl_invD(2) [OF inv]
  have "sn_of (am_heap (ctl_entity c)) s = sn_of (am_heap e) s"
    using fr ctl_inv_seg(1) [OF inv s] by (simp add: am_frame_def)
  then show ?thesis using am_frame_modulus [OF fr] by (simp add: am_acked_def am_sn_compare_tx_def ctl_modulus)
qed

lemma ctl_gone_not_nacked:
  assumes "ctl_inv e ack_sn xs xs c" and "s \<in> set (ctl_wait c @ ctl_retx c)"
  shows "\<not> am_nacked e xs s"
  using ctl_invD(8) [OF assms] nack_gone_not_hit by (auto simp: am_nacked_def)

lemma ack_wait_list_ok:
  assumes "ctl_inv e ack_sn xs xs c"
  shows "\<exists>c'. ack_wait_list ack_sn c = Inr c' \<and> ctl_inv e ack_sn xs xs c' \<and> (ctl_wait c' = [] \<or> \<not> am_acked e ack_sn (hd (ctl_wait c')))"
  using assms
proof (induction "length (ctl_wait c)" arbitrary: c)
  case 0
  then show ?case by (subst ack_wait_list.simps) simp
next
  case (Suc n)
  then obtain cur rest where l: "ctl_wait c = cur # rest" by (cases "ctl_wait c") auto
  note A = ctl_acked [OF Suc.prems, of cur] and S = ctl_sdu_ok [OF ctl_invD(1) [OF Suc.prems], of cur]
  show ?case
  proof (cases "am_acked e ack_sn cur")
    case True
    obtain c1 where c1: "free_acked_wait c cur = Inr c1" "ctl_pop c cur c1" "ctl_new c1 = ctl_new c"
      by (rule free_acked_wait_ok [OF ctl_invD(1) [OF Suc.prems] l])
    have nn: "\<not> am_nacked e xs cur" by (rule ctl_gone_not_nacked [OF Suc.prems]) (simp add: l)
    have inv: "ctl_inv e ack_sn xs xs c1" by (rule ctl_inv_pop [OF Suc.prems c1(2) True]) (use nn c1(3) in simp)
    have len: "n = length (ctl_wait c1)"
      using c1(1) Suc.hyps(2) l by (auto simp: free_acked_wait_def bindR_eq_Inr unlink_wait_lists)
    show ?thesis using Suc.hyps(1) [OF len inv] c1(1) True A S l by (subst ack_wait_list.simps) simp
  next
    case False
    then show ?thesis using A S l Suc.prems by (subst ack_wait_list.simps) simp
  qed
qed

lemma ack_retransmit_list_ok:
  assumes "ctl_inv e ack_sn xs xs c" and "ctl_wait c = [] \<or> \<not> am_acked e ack_sn (hd (ctl_wait c))"
  shows "\<exists>c'. ack_retransmit_list ack_sn c = Inr c' \<and> ctl_inv e ack_sn xs xs c' \<and> (ctl_wait c' = [] \<or> \<not> am_acked e ack_sn (hd (ctl_wait c')))
     \<and> (ctl_retx c' = [] \<or> \<not> am_acked e ack_sn (hd (ctl_retx c')))"
  using assms
proof (induction "length (ctl_retx c)" arbitrary: c)
  case 0
  then show ?case by (subst ack_retransmit_list.simps) simp
next
  case (Suc n)
  then obtain cur rest where l: "ctl_retx c = cur # rest" by (cases "ctl_retx c") auto
  note A = ctl_acked [OF Suc.prems(1), of cur] and S = ctl_sdu_ok [OF ctl_invD(1) [OF Suc.prems(1)], of cur]
  show ?case
  proof (cases "am_acked e ack_sn cur")
    case True
    obtain c1 where c1: "free_acked_retx c cur = Inr c1" "ctl_pop c cur c1" "ctl_new c1 = ctl_new c"
      by (rule free_acked_retx_ok [OF ctl_invD(1) [OF Suc.prems(1)] l])
    have nn: "\<not> am_nacked e xs cur" by (rule ctl_gone_not_nacked [OF Suc.prems(1)]) (simp add: l)
    have inv: "ctl_inv e ack_sn xs xs c1" by (rule ctl_inv_pop [OF Suc.prems(1) c1(2) True]) (use nn c1(3) in simp)
    have len: "n = length (ctl_retx c1)" "ctl_wait c1 = ctl_wait c"
      using c1(1) Suc.hyps(2) l by (auto simp: free_acked_retx_def bindR_eq_Inr Let_def)
    show ?thesis using Suc.hyps(1) [OF len(1) inv] Suc.prems(2) len(2) c1(1) True A S l by (subst ack_retransmit_list.simps) simp
  next
    case False
    then show ?thesis using A S l Suc.prems by (subst ack_retransmit_list.simps) simp
  qed
qed

section \<open>The result\<close>

lemma ordered_md:
  assumes "aml.ordered e l" and "\<forall>s \<in> set l. am_valid e s" and "s \<in> set l"
  shows "am_modulus_tx e (sn_of (am_heap e) (hd l)) \<le> am_modulus_tx e (sn_of (am_heap e) s)"
  using assms by (cases l) (auto simp: seg_after_cases not_less)

lemma ordered_kept:
  assumes inv: "ctl_inv e ack_sn xs ds c" and l: "set l \<subseteq> set (ctl_wait c @ ctl_retx c)" "aml.ordered (finish_lists c) l"
    and h: "l = [] \<or> \<not> am_acked e ack_sn (hd l)" and s: "s \<in> set l"
  shows "\<not> am_acked e ack_sn s"
proof -
  have seg: "set l \<subseteq> set (am_segs (finish_lists c))" "\<forall>s \<in> set l. am_valid e s" using ctl_inv_seg(1,2) [OF inv] l(1) by blast+
  have "aml.ordered e l" using am_frameD(4) [OF ctl_invD(2) [OF inv] seg(1)] l(2) by simp
  then show ?thesis using ordered_md [OF _ seg(2) s] h s by (auto simp: am_acked_def)
qed

lemma ctl_result:
  assumes inv: "ctl_inv e ack_sn xs xs c" and heads: "ctl_wait c = [] \<or> \<not> am_acked e ack_sn (hd (ctl_wait c))"
    "ctl_retx c = [] \<or> \<not> am_acked e ack_sn (hd (ctl_retx c))"
  shows "ctl_wait c = filter (\<lambda>s. \<not> am_acked e ack_sn s) (am_wait_list e)"
    "mset (ctl_new c @ ctl_retx c) = mset (filter (\<lambda>s. \<not> am_acked e ack_sn s) (am_retransmit_list e))
       + mset (filter (\<lambda>s. am_acked e ack_sn s \<and> am_nacked e xs s) (am_wait_list e @ am_retransmit_list e))"
proof -
  note I = ctl_invD [OF inv] and A = am_invD [OF ctl_okD(1) [OF ctl_invD(1) [OF inv]]]
  have W: "\<not> am_acked e ack_sn s" if "s \<in> set (ctl_wait c)" for s
    by (rule ordered_kept [OF inv _ _ heads(1) that]) (use A(10) ctl_okD(2) [OF I(1)] in auto)
  have R: "\<not> am_acked e ack_sn s" if "s \<in> set (ctl_retx c)" for s
    by (rule ordered_kept [OF inv _ _ heads(2) that]) (use A(11) in \<open>auto simp: sorted_wrt_append\<close>)
  have fW: "filter (\<lambda>s. \<not> am_acked e ack_sn s) (ctl_wait c) = ctl_wait c"
    and fR: "filter (\<lambda>s. \<not> am_acked e ack_sn s) (ctl_retx c) = ctl_retx c" using W R by simp_all
  show "ctl_wait c = filter (\<lambda>s. \<not> am_acked e ack_sn s) (am_wait_list e)" using I(4) fW by simp
  obtain gone where gone: "mset (am_wait_list e) + mset (am_retransmit_list e) = mset (ctl_wait c) + mset (ctl_retx c) + mset (ctl_new c) + gone"
    "\<forall>s \<in># gone. am_acked e ack_sn s \<and> \<not> am_nacked e xs s" using I(7) by blast
  let ?P = "\<lambda>s. am_acked e ack_sn s \<and> am_nacked e xs s"
  have "filter_mset ?P (mset (ctl_wait c)) = {#}" "filter_mset ?P (mset (ctl_retx c)) = {#}" "filter_mset ?P gone = {#}"
    using W R gone(2) by (auto simp: filter_mset_eq_conv)
  moreover have "filter_mset ?P (mset (ctl_new c)) = mset (ctl_new c)" using I(6) by (simp add: filter_mset_eq_conv)
  ultimately have "filter_mset ?P (mset (am_wait_list e) + mset (am_retransmit_list e)) = mset (ctl_new c)"
    unfolding gone(1) by simp
  then show "mset (ctl_new c @ ctl_retx c) = mset (filter (\<lambda>s. \<not> am_acked e ack_sn s) (am_retransmit_list e))
       + mset (filter ?P (am_wait_list e @ am_retransmit_list e))"
    using I(5) fR by (simp add: mset_filter)
qed

lemma min_head_ok:
  assumes inv: "am_tx_ok e" and l: "set l \<subseteq> set (am_segs e)" "aml.ordered e l" "\<forall>s \<in> set l. am_sent e s" and sn: "is_sn (am_sn_modulus e) sn"
  obtains t where "min_head_sn e l sn = Inr t" "is_sn (am_sn_modulus e) t" "am_modulus_tx e t \<le> am_modulus_tx e sn"
    "\<forall>s \<in> set l. am_modulus_tx e t \<le> am_modulus_tx e (sn_of (am_heap e) s)"
proof (cases l)
  case Nil
  then show ?thesis using that [of sn] sn by (simp add: min_head_sn_def)
next
  case (Cons h r)
  let ?sn = "sn_of (am_heap e) h"
  have "deref (am_heap e) (seg_sdu h) = Inr (sdu_of (am_heap e) h)"
    by (rule am_core_live(2) [OF am_invD(2) [OF inv]]) (use l(1) Cons in simp)
  then have t: "min_head_sn e l sn = Inr (if am_modulus_tx e ?sn < am_modulus_tx e sn then ?sn else sn)" (is "_ = Inr ?t")
    by (simp add: min_head_sn_def Cons am_sn_compare_tx_def)
  have v: "\<forall>s \<in> set l. am_valid e s" using l(3) am_sent_valid [OF am_invD(1) [OF inv]] by blast
  have "\<forall>s \<in> set l. am_modulus_tx e ?t \<le> am_modulus_tx e (sn_of (am_heap e) s)"
    using ordered_md [OF l(2) v] Cons by fastforce
  moreover have "is_sn (am_sn_modulus e) ?t" using sn v Cons by (simp add: am_valid_def)
  ultimately show ?thesis by (intro that [OF t]) auto
qed

lemma update_tx_next_ack_ok:
  assumes inv: "am_tx_ok e" and ack: "is_sn (am_sn_modulus e) ack_sn"
    and q: "\<forall>s \<in> set (am_tx_list e). am_sent e s \<longrightarrow> am_modulus_tx e ack_sn \<le> am_modulus_tx e (sn_of (am_heap e) s)"
  shows "\<exists>t. update_tx_next_ack ack_sn e = Inr (e\<lparr>am_tx_next_ack := t\<rparr>) \<and> am_tx_ok (e\<lparr>am_tx_next_ack := t\<rparr>)"
proof -
  note I = am_invD [OF inv] and W = am_windowD [OF am_invD(1) [OF inv]]
  have lists: "set (am_wait_list e) \<subseteq> set (am_segs e)" "set (am_retransmit_list e) \<subseteq> set (am_segs e)"
    "\<forall>s \<in> set (am_wait_list e). am_sent e s" "\<forall>s \<in> set (am_retransmit_list e). am_sent e s" using I(8,9) by (auto simp: am_segs_def)
  obtain t1 where t1: "min_head_sn e (am_wait_list e) (am_tx_next e) = Inr t1" "is_sn (am_sn_modulus e) t1"
    "am_modulus_tx e t1 \<le> am_modulus_tx e (am_tx_next e)" "\<forall>s \<in> set (am_wait_list e). am_modulus_tx e t1 \<le> am_modulus_tx e (sn_of (am_heap e) s)"
    by (rule min_head_ok [OF inv lists(1) I(10) lists(3) W(3)])
  obtain t2 where t2: "min_head_sn e (am_retransmit_list e) t1 = Inr t2" "is_sn (am_sn_modulus e) t2"
    "am_modulus_tx e t2 \<le> am_modulus_tx e t1" "\<forall>s \<in> set (am_retransmit_list e). am_modulus_tx e t2 \<le> am_modulus_tx e (sn_of (am_heap e) s)"
    by (rule min_head_ok [OF inv lists(2) I(11) lists(4) t1(2)])
  define t where "t = (if am_modulus_tx e ack_sn < am_modulus_tx e t2 then ack_sn else t2)"
  have le: "am_modulus_tx e t \<le> am_modulus_tx e t2" "am_modulus_tx e t \<le> am_modulus_tx e ack_sn" by (simp_all add: t_def)
  have "am_tx_ok (e\<lparr>am_tx_next_ack := t\<rparr>)"
  proof (rule am_rebase [OF inv])
    show "is_sn (am_sn_modulus e) t" using ack t2(2) by (simp add: t_def)
    show "am_modulus_tx e t \<le> am_modulus_tx e (am_tx_next e)" using le(1) t1(3) t2(3) by simp
    show "\<forall>s \<in> set (am_segs e). am_sent e s \<longrightarrow> am_modulus_tx e t \<le> am_modulus_tx e (sn_of (am_heap e) s)"
      using le t1(4) t2(3,4) q unfolding am_segs_def by fastforce
  qed
  then show ?thesis using t1(1) t2(1) by (auto simp: update_tx_next_ack_def am_sn_compare_tx_def t_def)
qed

text \<open>
  The status PDUs of a peer that follows the protocol: no number is both missing and the next one, the
  NACKs are in order, and an SDU whose last bytes were not sent is not acknowledged.
\<close>

definition am_fair :: "nr_rlc_entity_am_t \<Rightarrow> int \<Rightarrow> am_nack list \<Rightarrow> bool" where
  "am_fair e ack_sn ks \<longleftrightarrow> (\<forall>x \<in> set (concat (map (cur_nacks e) ks)). fst x \<noteq> ack_sn)
     \<and> sorted_wrt (nack_le e) (concat (map (cur_nacks e) ks))
     \<and> (\<forall>s \<in> set (am_tx_list e). am_sent e s \<longrightarrow> \<not> am_acked e ack_sn s)"

lemma ctl_init:
  assumes inv: "am_tx_ok e"
  shows "ctl_inv e ack_sn xs [] \<lparr> ctl_entity = stop_t_poll_retransmit_if b e, ctl_prev = [], ctl_wait = am_wait_list e, ctl_hidden = [],
     ctl_retx = am_retransmit_list e, ctl_new = [], ctl_new_next = [], ctl_end = None \<rparr>" (is "ctl_inv _ _ _ _ ?c")
proof -
  have same: "am_same_tx e (finish_lists ?c)"
    by (simp add: am_same_tx_def stop_t_poll_retransmit_if_def finish_lists_def Let_def)
  have "am_tx_ok (finish_lists ?c)" using inv am_inv_cong [OF same] by simp
  moreover have "am_frame X e (finish_lists ?c)" for X using same by (simp add: am_frame_def am_same_tx_def)
  ultimately show ?thesis by (simp add: ctl_inv_def ctl_ok_def stop_t_poll_retransmit_if_def)
qed

lemma process_control_pdu_ok:
  assumes inv: "am_tx_ok e" and r: "read_status e buffer = Inr (Some (ack_sn, ks))" and fair: "am_fair e ack_sn ks"
  shows "\<exists>e'. process_control_pdu e buffer = Inr e' \<and> am_tx_ok e' \<and> am_tx_list e' = am_tx_list e
     \<and> am_wait_list e' = filter (\<lambda>s. \<not> am_acked e ack_sn s) (am_wait_list e)
     \<and> mset (am_retransmit_list e') = mset (filter (\<lambda>s. \<not> am_acked e ack_sn s) (am_retransmit_list e))
         + mset (filter (\<lambda>s. am_acked e ack_sn s \<and> am_nacked e (concat (map (cur_nacks e) ks)) s) (am_wait_list e @ am_retransmit_list e))"
proof -
  let ?xs = "concat (map (cur_nacks e) ks)" and ?b = "am_sn_compare_tx e (am_poll_sn e) ack_sn < 0"
  note F = fair [unfolded am_fair_def] and W = am_windowD [OF am_invD(1) [OF inv]]
  have st: "is_sn (am_sn_modulus e) ack_sn" "\<forall>k \<in> set ks. \<forall>(sn, _, _) \<in> set (cur_nacks e k). is_sn (am_sn_modulus e) sn \<and> am_sn_compare_tx e sn ack_sn \<le> 0"
    using read_status_ok [OF W(1), of buffer] r by (auto simp: status_valid_def)
  have "nack_in e ack_sn x" if "k \<in> set ks" "x \<in> set (cur_nacks e k)" for k x
    using st that F amt.md_inject [OF W(2), of "fst x" ack_sn] by (fastforce simp: nack_in_def am_sn_compare_tx_def)
  then obtain c1 where c1: "process_nacks ack_sn ks \<lparr> ctl_entity = stop_t_poll_retransmit_if ?b e, ctl_prev = [], ctl_wait = am_wait_list e,
      ctl_hidden = [], ctl_retx = am_retransmit_list e, ctl_new = [], ctl_new_next = [], ctl_end = None \<rparr> = Inr c1" "ctl_inv e ack_sn ?xs ?xs c1"
    using process_nacks_ok [OF ctl_init [OF inv], of ks ack_sn ?xs ?b] F by auto
  obtain c2 where c2: "ack_wait_list ack_sn c1 = Inr c2" "ctl_inv e ack_sn ?xs ?xs c2" "ctl_wait c2 = [] \<or> \<not> am_acked e ack_sn (hd (ctl_wait c2))"
    using ack_wait_list_ok [OF c1(2)] by blast
  obtain c3 where c3: "ack_retransmit_list ack_sn c2 = Inr c3" "ctl_inv e ack_sn ?xs ?xs c3"
    "ctl_wait c3 = [] \<or> \<not> am_acked e ack_sn (hd (ctl_wait c3))" "ctl_retx c3 = [] \<or> \<not> am_acked e ack_sn (hd (ctl_retx c3))"
    using ack_retransmit_list_ok [OF c2(2,3)] by blast
  note C = ctl_invD [OF c3(2)]
  let ?v = "finish_lists c3"
  have md: "am_modulus_tx ?v = am_modulus_tx e" by (rule am_frame_modulus [OF C(2)])
  have m: "am_sn_modulus ?v = am_sn_modulus e" using C(2) by (simp add: am_frame_def)
  have "am_modulus_tx ?v ack_sn \<le> am_modulus_tx ?v (sn_of (am_heap ?v) s)" if s: "s \<in> set (am_tx_list ?v)" "am_sent ?v s" for s
  proof -
    have i: "s \<in> set (am_segs ?v)" using s(1) by (simp add: am_segs_def)
    have "\<not> am_acked e ack_sn s" using F s am_frameD(2) [OF C(2) i] C(3) by simp
    moreover have "sn_of (am_heap ?v) s = sn_of (am_heap e) s" using C(2) i by (simp add: am_frame_def)
    ultimately show ?thesis by (simp only: md am_acked_def not_less)
  qed
  then obtain t where t: "update_tx_next_ack ack_sn ?v = Inr (?v\<lparr>am_tx_next_ack := t\<rparr>)" "am_tx_ok (?v\<lparr>am_tx_next_ack := t\<rparr>)"
    using update_tx_next_ack_ok [OF ctl_okD(1) [OF C(1)], of ack_sn] st(1) m by auto
  have "process_control_pdu e buffer = Inr (?v\<lparr>am_tx_next_ack := t\<rparr>)"
    using r c1(1) c2(1) c3(1) t(1) by (simp add: process_control_pdu_def Let_def stop_t_poll_retransmit_if_def split: if_splits)
  then show ?thesis
    using t(2) C(3) ctl_result [OF c3(2-4)] ctl_okD(2) [OF C(1)] by (intro exI [of _ "?v\<lparr>am_tx_next_ack := t\<rparr>"]) simp
qed

end
