(* ===== verification/Rlc_Am_Reach.thy ===== *)
theory Rlc_Am_Reach
  imports Rlc_Am_Feedback
begin

text \<open>
  The acknowledged mode entity as a whole: the states it reaches by its operations with a peer that follows
  the protocol, and that every one of them satisfies the invariant of the transmitting side.
\<close>

section \<open>The receiving side leaves the transmitting side alone\<close>

lemma am_tx_ok_same: "am_same_tx e e' \<Longrightarrow> am_tx_ok e \<Longrightarrow> am_tx_ok e'"
  by (simp only: am_inv_cong)

lemma am_reassemble_same: "am_reassemble_and_deliver e sn = Inr e' \<Longrightarrow> am_same_tx e e'"
  by (auto simp: am_reassemble_and_deliver_def bindR_eq_Inr am_same_tx_def Let_def split: if_splits)

lemma am_advance_same: "am_advance_rx_next e = Inr e' \<Longrightarrow> am_same_tx e e'"
  by (auto simp: am_advance_rx_next_def bindR_eq_Inr am_same_tx_def split: option.splits)

lemma am_same_tx_timers [simp]:
  "am_same_tx e e" "am_same_tx e (e\<lparr>am_t_reassembly_start := t\<rparr>)"
  "am_same_tx e (e\<lparr>am_t_reassembly_start := t, am_rx_next_status_trigger := n\<rparr>)"
  "am_same_tx e (e\<lparr>am_t_reassembly_start := t, am_rx_highest_status := sn, am_status_triggered := True\<rparr>)"
  "am_same_tx e (e\<lparr>am_t_reassembly_start := t', am_rx_highest_status := sn, am_status_triggered := True, am_rx_next_status_trigger := n\<rparr>)"
  by (simp_all add: am_same_tx_def)

lemma bindR_choice: "bindR r (\<lambda>b. Inr (if P b then x else y)) = Inr z \<Longrightarrow> z = x \<or> z = y"
  by (auto simp: bindR_eq_Inr)

lemma am_stop_same:
  assumes "am_stop_t_reassembly e = Inr e'"
  shows "am_same_tx e e'"
proof -
  have "e' = e \<or> e' = e\<lparr>am_t_reassembly_start := 0\<rparr>"
    using assms unfolding am_stop_t_reassembly_def by (metis bindR_choice sum.inject(2))
  then show ?thesis by auto
qed

lemma am_start_same:
  assumes "am_start_t_reassembly e = Inr e'"
  shows "am_same_tx e e'"
proof (cases "am_t_reassembly_start e \<noteq> 0")
  case True
  then show ?thesis using assms by (simp add: am_start_t_reassembly_def)
next
  case False
  show ?thesis
    using bindR_choice [where P = "\<lambda>b. b", OF assms [unfolded am_start_t_reassembly_def Let_def if_not_P [OF False]]] by auto
qed

lemma am_reception_same:
  assumes "am_reception_actions e p = Inr e'"
  shows "am_same_tx e e'"
proof -
  define e0 where "e0 = (if am_sn_compare_rx e (pdu_sn p) (am_rx_next_highest e) \<ge> 0
    then e\<lparr>am_rx_next_highest := crem (pdu_sn p + 1) (am_sn_modulus e)\<rparr> else e)"
  have e0: "am_same_tx e e0" by (simp add: e0_def am_same_tx_def)
  obtain full e2 e3 where r: "am_sdu_full e0 (pdu_sn p) = Inr full"
    "(if full then bindR (am_reassemble_and_deliver e0 (pdu_sn p)) (\<lambda>e1.
        bindR (if pdu_sn p = am_rx_highest_status e1 then bindR (am_skip_delivered e1 (am_rx_highest_status e1)) (\<lambda>sn. Inr (e1\<lparr>am_rx_highest_status := sn\<rparr>))
               else Inr e1) (\<lambda>e2. if pdu_sn p = am_rx_next e2 then am_advance_rx_next e2 else Inr e2)) else Inr e0) = Inr e2"
    "am_stop_t_reassembly e2 = Inr e3" "am_start_t_reassembly e3 = Inr e'"
    using assms unfolding am_reception_actions_def Let_def e0_def [symmetric] by (auto simp: bindR_eq_Inr)
  have upd: "am_same_tx x (x\<lparr>am_rx_highest_status := sn\<rparr>)" for x sn by (simp add: am_same_tx_def)
  have "am_same_tx e0 e2"
  proof (cases full)
    case True
    obtain e1 e1' where s: "am_reassemble_and_deliver e0 (pdu_sn p) = Inr e1"
      "(if pdu_sn p = am_rx_highest_status e1 then bindR (am_skip_delivered e1 (am_rx_highest_status e1)) (\<lambda>sn. Inr (e1\<lparr>am_rx_highest_status := sn\<rparr>))
        else Inr e1) = Inr e1'" "(if pdu_sn p = am_rx_next e1' then am_advance_rx_next e1' else Inr e1') = Inr e2"
      using r(2) unfolding if_P [OF True] bindR_eq_Inr by blast
    have "am_same_tx e1 e1'" using s(2) upd by (auto simp: bindR_eq_Inr split: if_splits)
    moreover have "am_same_tx e1' e2" using s(3) am_advance_same by (auto split: if_splits)
    ultimately show ?thesis using am_reassemble_same [OF s(1)] am_same_tx_trans by blast
  qed (use r(2) in simp)
  then show ?thesis using am_same_tx_trans [OF e0] am_same_tx_trans [OF am_stop_same [OF r(3)] am_start_same [OF r(4)]] am_same_tx_trans by blast
qed

lemma am_discard_pdu_same: "am_same_tx e (am_discard_pdu e p n)"
  by (simp add: am_discard_pdu_def am_same_tx_def)

lemma am_recv_data_same:
  "postR (am_same_tx e) (am_recv_data_pdu e p sn so f l d n)"
proof -
  have 1: "am_same_tx e (am_discard_pdu (e\<lparr>am_common := with_stats g (am_common e)\<rparr>) p n)" for g
    by (rule am_same_tx_trans [OF am_same_tx_stats am_discard_pdu_same])
  have 2: "am_same_tx e (if p then x\<lparr>am_status_triggered := True\<rparr> else x)"
    if "am_reception_actions (e\<lparr>am_rx_size := a, am_rx := b\<rparr>) pdu = Inr x" for a b x pdu
    using am_reception_same [OF that] by (simp add: am_same_tx_def)
  show ?thesis
    unfolding am_recv_data_pdu_def Let_def by (intro postR_intros 1 am_discard_pdu_same) (rule 2)
qed

lemma am_check_t_reassembly_same: "postR (am_same_tx e) (am_check_t_reassembly e)"
  unfolding am_check_t_reassembly_def Let_def by (intro postR_intros) (simp_all add: am_same_tx_def)

lemma generate_status_same: "postR (\<lambda>(_, _, e'). am_same_tx e e') (generate_status e b)"
  unfolding generate_status_def Let_def split_beta by (intro postR_intros) (simp_all add: am_same_tx_def)

section \<open>Operations\<close>

lemma read_status_cong:
  assumes "am_same_tx e e'"
  shows "read_status e' = read_status e"
proof -
  note A = assms [unfolded am_same_tx_def]
  have c: "am_sn_compare_tx e' = am_sn_compare_tx e" using A by (intro am_order_cong(2)) auto
  have r: "read_nack e' = read_nack e" unfolding fun_eq_iff read_nack_def using A by simp
  have n: "nack_valid e' = nack_valid e" "cur_nacks e' = cur_nacks e"
    unfolding fun_eq_iff nack_valid_def cur_nacks_def c using A by simp_all
  have f: "am_sn_field_length e' = am_sn_field_length e" "am_tx_next e' = am_tx_next e" using A by simp_all
  have ns: "read_nacks fuel e' prev a = read_nacks fuel e prev a" for fuel prev a
  proof (induction fuel)
    case (Suc k)
    show ?case unfolding fun_eq_iff read_nacks.simps [of "Suc k"] r n nat.case Suc by simp
  qed (simp add: fun_eq_iff read_nacks.simps [of 0])
  show ?thesis unfolding fun_eq_iff read_status_def c f ns by simp
qed

lemma am_fair_cong:
  assumes "am_same_tx e e'"
  shows "am_fair e' = am_fair e"
proof -
  note A = assms [unfolded am_same_tx_def]
  have m: "am_modulus_tx e' = am_modulus_tx e" using A by (intro am_order_cong(1)) auto
  have q: "am_acked e' = am_acked e" "am_sent e' = am_sent e" "nack_le e' = nack_le e" "cur_nacks e' = cur_nacks e"
    unfolding fun_eq_iff am_acked_def am_sent_def nack_le_def cur_nacks_def m using A by simp_all
  have l: "am_tx_list e' = am_tx_list e" using A by simp
  show ?thesis by (rule ext, rule ext, simp only: am_fair_def q l)
qed

lemma process_control_pdu_none: "read_status e buffer = Inr None \<Longrightarrow> process_control_pdu e buffer = Inr e"
  by (simp add: process_control_pdu_def)

text \<open>A PDU of a peer that follows the protocol.\<close>

definition am_fair_pdu :: "nr_rlc_entity_am_t \<Rightarrow> bytes \<Rightarrow> bool" where
  "am_fair_pdu e pdu \<longleftrightarrow> (\<forall>ack_sn ks. am_parse_pdu e pdu = Inr Am_Control \<longrightarrow>
     read_status e pdu = Inr (Some (ack_sn, ks)) \<longrightarrow> am_fair e ack_sn ks)"

lemma am_control_ok:
  assumes inv: "am_tx_ok e" and fair: "\<forall>ack_sn ks. read_status e pdu = Inr (Some (ack_sn, ks)) \<longrightarrow> am_fair e ack_sn ks"
  shows "\<exists>e'. process_control_pdu e pdu = Inr e' \<and> am_tx_ok e'"
proof -
  obtain r where r: "read_status e pdu = Inr r" using read_status_ok [OF am_windowD(1) [OF am_invD(1) [OF inv]]] by blast
  show ?thesis
  proof (cases r)
    case None
    then show ?thesis using r inv process_control_pdu_none by blast
  next
    case (Some x)
    then obtain ack_sn ks where x: "read_status e pdu = Inr (Some (ack_sn, ks))" using r by (cases x) simp
    then show ?thesis using process_control_pdu_ok [OF inv x] fair by blast
  qed
qed

lemma am_parse_cong:
  assumes "am_sn_field_length e' = am_sn_field_length e"
  shows "am_parse_pdu e' = am_parse_pdu e"
  unfolding fun_eq_iff am_parse_pdu_def assms by simp

lemma am_recv_pdu_ok:
  assumes inv: "am_tx_ok e" and fair: "am_fair_pdu e pdu"
  shows "postR am_tx_ok (nr_rlc_entity_am_recv_pdu e pdu)"
proof -
  define e1 where "e1 = e\<lparr>am_common := with_stats (\<lambda>st. st\<lparr>rxpdu_pkts := rxpdu_pkts st + 1,
    rxpdu_bytes := rxpdu_bytes st + of_nat (length pdu)\<rparr>) (am_common e)\<rparr>"
  have same: "am_same_tx e e1" unfolding e1_def by (rule am_same_tx_stats)
  have ok1: "am_tx_ok e1" using inv am_inv_cong [OF same] by blast
  have keep: "am_same_tx e1 x \<Longrightarrow> am_tx_ok x" for x using ok1 am_inv_cong by blast
  have p: "am_parse_pdu e1 = am_parse_pdu e" by (rule am_parse_cong) (simp add: e1_def)
  have ctl: "postR am_tx_ok (process_control_pdu e1 pdu)" if "am_parse_pdu e pdu = Inr Am_Control"
    using am_control_ok [OF ok1, of pdu] fair that
    unfolding am_fair_pdu_def read_status_cong [OF same] am_fair_cong [OF same] by (auto simp: postR_def)
  have data: "postR am_tx_ok (am_recv_data_pdu e1 q sn so f l d n)" for q sn so f l d n
    using am_recv_data_same [of e1] keep by (auto simp: postR_def)
  show ?thesis
    unfolding nr_rlc_entity_am_recv_pdu_def Let_def e1_def [symmetric] p
    by (rule postR_intros(3), split am_parsed.split) (use ctl data keep [OF am_discard_pdu_same] in \<open>auto intro: postR_intros\<close>)
qed

lemma check_t_poll_post:
  assumes inv: "am_tx_ok e"
  shows "postR am_tx_ok (check_t_poll_retransmit e)"
proof -
  note C = check_t_poll_retransmit_ok [OF inv]
  show ?thesis
  proof (cases "(am_t_poll_retransmit_start e = 0 \<or> am_t_current e \<le> am_t_poll_retransmit_start e + word_of_int (am_t_poll_retransmit e))
      \<or> \<not> check_poll_after_pdu_assembly e")
    case True
    then show ?thesis using C [unfolded if_P [OF True]] inv am_inv_cong by (auto simp: postR_def)
  next
    case False
    then show ?thesis using C [unfolded if_not_P [OF False]] by (cases "am_wait_list e") (auto simp: postR_def)
  qed
qed

lemma am_set_time_ok:
  assumes inv: "am_tx_ok e"
  shows "postR am_tx_ok (nr_rlc_entity_am_set_time e now)"
proof -
  have "am_same_tx e (e\<lparr>am_t_current := now\<rparr>)" by (simp add: am_same_tx_def)
  then have poll: "postR am_tx_ok (check_t_poll_retransmit (e\<lparr>am_t_current := now\<rparr>))"
    using am_tx_ok_same inv by (intro check_t_poll_post)
  have "postR am_tx_ok (am_check_t_reassembly x)" if "am_tx_ok x" for x
    by (rule postR_mono [OF am_check_t_reassembly_same]) (rule am_tx_ok_same [OF _ that])
  then show ?thesis
    unfolding nr_rlc_entity_am_set_time_def by (intro postR_intros) (use postRD [OF poll] in blast)
qed

text \<open>The segment the next data PDU is made from: retransmissions first, then new data inside the window.\<close>

definition am_fits :: "nr_rlc_entity_am_t \<Rightarrow> nat \<Rightarrow> nr_rlc_sdu_segment_t list \<Rightarrow> nr_rlc_sdu_segment_t option" where
  "am_fits e n l = (case l of s # _ \<Rightarrow> if am_compute_pdu_header_size e s + 1 \<le> int n then Some s else None | [] \<Rightarrow> None)"

definition am_next_segment :: "nr_rlc_entity_am_t \<Rightarrow> nat \<Rightarrow> nr_rlc_sdu_segment_t option" where
  "am_next_segment e n = (case am_fits e n (am_retransmit_list e) of
     Some s \<Rightarrow> Some s | None \<Rightarrow> if is_window_stalling e then None else am_fits e n (am_tx_list e))"

definition am_data_spec :: "nr_rlc_entity_am_t \<Rightarrow> bytes \<Rightarrow> (int \<times> bytes \<times> nr_rlc_entity_am_t) res \<Rightarrow> bool" where
  "am_data_spec e buffer r \<longleftrightarrow> (case am_next_segment e (length buffer) of
     None \<Rightarrow> r = Inr (0, buffer, e)
   | Some s \<Rightarrow> \<exists>n buf e'. r = Inr (n, buf, e') \<and> am_emits e s buffer n buf e')"

lemma am_emits_pos: "am_emits e s buffer n buf e' \<Longrightarrow> am_compute_pdu_header_size e s + 1 \<le> int (length buffer) \<Longrightarrow> 0 < seg_size s \<Longrightarrow> n \<noteq> 0"
  by (auto simp: am_emits_def am_compute_pdu_header_size_def)

lemma am_data_part:
  assumes inv: "am_tx_ok e"
  shows "am_data_spec e buffer (bindR (if am_retransmit_list e \<noteq> [] then generate_retx_pdu e buffer else Inr (0, buffer, e))
     (\<lambda>(ret2, buffer2, e2). if ret2 \<noteq> 0 then Inr (ret2, buffer2, e2) else am_generate_tx_pdu now e2 buffer2))"
proof (cases "am_fits e (length buffer) (am_retransmit_list e)")
  case (Some s)
  then obtain rest where l: "am_retransmit_list e = s # rest" "am_compute_pdu_header_size e s + 1 \<le> int (length buffer)"
    by (auto simp: am_fits_def split: list.splits if_splits)
  then obtain n buf e' where g: "generate_retx_pdu e buffer = Inr (n, buf, e')" "am_emits e s buffer n buf e'"
    using generate_retx_pdu_ok [OF inv l(1), of buffer] by auto
  have "0 < seg_size s" using am_coreD(4) [OF am_invD(2) [OF inv], of s] l(1) by (simp add: am_segs_def)
  then show ?thesis using g am_emits_pos [OF g(2) l(2)] Some by (simp add: am_data_spec_def am_next_segment_def) (simp add: l(1))
next
  case None
  then have "(if am_retransmit_list e \<noteq> [] then generate_retx_pdu e buffer else Inr (0, buffer, e)) = Inr (0, buffer, e)"
    using generate_retx_pdu_ok [OF inv, of _ _ buffer] by (auto simp: am_fits_def split: list.splits if_splits)
  moreover have "am_next_segment e (length buffer) = (if is_window_stalling e then None else am_fits e (length buffer) (am_tx_list e))"
    by (simp add: am_next_segment_def None)
  ultimately show ?thesis
    using am_generate_tx_pdu_ok [OF inv, of now buffer]
    by (auto simp: am_data_spec_def am_fits_def split: list.splits if_splits)
qed

lemma am_generate_ok:
  assumes inv: "am_tx_ok e"
  shows "\<not> status_to_report e \<Longrightarrow> am_data_spec e buffer (nr_rlc_entity_am_generate_pdu now e buffer)"
    "postR (\<lambda>(_, _, e'). am_tx_ok e') (nr_rlc_entity_am_generate_pdu now e buffer)"
proof -
  show "am_data_spec e buffer (nr_rlc_entity_am_generate_pdu now e buffer)" if "\<not> status_to_report e"
    using am_data_part [OF inv, of buffer now] that by (simp add: nr_rlc_entity_am_generate_pdu_def)
  have data: "postR (\<lambda>(_, _, e'). am_tx_ok e') (bindR (if am_retransmit_list x \<noteq> [] then generate_retx_pdu x b else Inr (0, b, x))
     (\<lambda>(ret2, buffer2, e2). if ret2 \<noteq> 0 then Inr (ret2, buffer2, e2) else am_generate_tx_pdu now e2 buffer2))" if x: "am_tx_ok x" for x b
    using am_data_part [OF x, of b now] x by (auto simp: am_data_spec_def postR_def am_emits_def split: option.splits)
  have st: "am_tx_ok e1" if "(if status_to_report e then generate_status e buffer else Inr (0, buffer, e)) = Inr (n, b, e1)" for n b e1
    using that inv generate_status_same [of e buffer] am_tx_ok_same [of e e1] by (auto simp: postR_def split: if_splits)
  show "postR (\<lambda>(_, _, e'). am_tx_ok e') (nr_rlc_entity_am_generate_pdu now e buffer)"
    unfolding nr_rlc_entity_am_generate_pdu_def
    by (rule postR_intros(3), clarify, drule st, rule postR_intros(4)) (simp add: postR_intros(1), rule data)
qed

section \<open>Reachable states\<close>

text \<open>
  The steps of an entity whose peer follows the protocol: every call, with three limits. A status PDU that is
  accepted is one that a receiver built by the protocol (\<open>am_fair\<close>: no NACK for the number it acknowledges, the
  NACKs in order, and no acknowledgement of an SDU that is not sent completely); what another one does is
  shown with the properties of the entity. An SDU from the upper layer is not empty, and a reconfiguration does not change the length
  of the sequence number.
\<close>

inductive am_step :: "nr_rlc_entity_am_t \<Rightarrow> nr_rlc_entity_am_t \<Rightarrow> bool" where
  Sdu: "nr_rlc_entity_am_recv_sdu now e b i = Inr e' \<Longrightarrow> b \<noteq> [] \<Longrightarrow> am_step e e'"
| Generate: "nr_rlc_entity_am_generate_pdu now e buffer = Inr (n, buf, e') \<Longrightarrow> am_step e e'"
| Pdu: "nr_rlc_entity_am_recv_pdu e pdu = Inr e' \<Longrightarrow> am_fair_pdu e pdu \<Longrightarrow> am_step e e'"
| Time: "nr_rlc_entity_am_set_time e now = Inr e' \<Longrightarrow> am_step e e'"
| Discard: "nr_rlc_entity_am_discard_sdu e i = Inr e' \<Longrightarrow> am_step e e'"
| Reestablish: "nr_rlc_entity_am_reestablishment e = Inr e' \<Longrightarrow> am_step e e'"
| Reconfigure: "n = None \<or> n = Some (am_sn_field_length e) \<Longrightarrow> am_step e (nr_rlc_entity_am_reconfigure e tp tr ts pp pb mr n)"

inductive am_reach :: "nr_rlc_entity_am_t \<Rightarrow> bool" where
  New: "new_nr_rlc_entity_am rxm txm tp tr ts pp pb mr n = Inr e \<Longrightarrow> am_reach e"
| Step: "am_reach e \<Longrightarrow> am_step e e' \<Longrightarrow> am_reach e'"

lemma am_step_ok:
  assumes "am_step e e'" and inv: "am_tx_ok e"
  shows "am_tx_ok e'"
  using assms(1)
proof cases
  case (Sdu now b i)
  then have "int (length b) \<le> NR_SDU_MAX" by (auto simp: nr_rlc_entity_am_recv_sdu_def Let_def split: if_splits)
  then show ?thesis using am_recv_sdu_ok [OF inv Sdu(2), of now i] Sdu(1) by auto
next
  case (Generate now buffer n buf)
  then show ?thesis using postRD [OF am_generate_ok(2) [OF inv] Generate] by simp
next
  case (Pdu pdu)
  then show ?thesis using postRD [OF am_recv_pdu_ok [OF inv Pdu(2)] Pdu(1)] by simp
next
  case (Time now)
  then show ?thesis using postRD [OF am_set_time_ok [OF inv] Time] by simp
next
  case (Discard i)
  then show ?thesis using am_discard_sdu_ok [OF inv, of i] by auto
next
  case Reestablish
  then show ?thesis using am_clear_ok [OF inv] by (auto simp: nr_rlc_entity_am_reestablishment_def)
next
  case (Reconfigure n tp tr ts pp pb mr)
  then have "am_same_tx e e'" by (auto simp: am_same_tx_def nr_rlc_entity_am_reconfigure_def)
  then show ?thesis using inv am_inv_cong by blast
qed

lemma am_reach_ok: "am_reach e \<Longrightarrow> am_tx_ok e"
proof (induction rule: am_reach.induct)
  case (New rxm txm tp tr ts pp pb mr n e)
  then have "n = 12 \<or> n = 18" by (auto simp: new_nr_rlc_entity_am_def split: if_splits)
  then show ?case using am_new_ok [of n rxm txm tp tr ts pp pb mr] New by auto
next
  case (Step e e')
  then show ?case using am_step_ok by blast
qed

end
