(* ===== verification/Rlc_Am_Props.thy ===== *)
theory Rlc_Am_Props
  imports Rlc_Am_Reach
begin

text \<open>
  Properties of the transmitting side of the acknowledged mode entity, over the states it reaches with a peer
  that follows the protocol (\<open>am_reach\<close>), and what happens when the peer does not.
\<close>

section \<open>A run\<close>

text \<open>A new entity takes an SDU of three bytes.\<close>

lemma am_run_sdu:
  "\<exists>e0 e s. new_nr_rlc_entity_am 1000 1000 45 35 0 (-1) (-1) 8 12 = Inr e0 \<and> nr_rlc_entity_am_recv_sdu 0 e0 [1, 2, 3] 7 = Inr e
     \<and> am_tx_list e = [s] \<and> am_retransmit_list e = [] \<and> am_wait_list e = [] \<and> seg_size s = 3 \<and> seg_so s = 0 \<and> seg_is_first s
     \<and> am_sn_field_length e = 12 \<and> am_sn_modulus e = 4096 \<and> am_tx_next e = 0 \<and> am_tx_next_ack e = 0 \<and> am_window_size e = 2048
     \<and> \<not> am_status_triggered e"
  by (rule new_common_ok [of NR_RLC_AM])
    (simp add: new_nr_rlc_entity_am_def nr_rlc_entity_am_recv_sdu_def Let_def am_log_rejected_def NR_SDU_MAX_def nr_rlc_new_sdu_def
      nr_rlc_sdu_segment_list_append_def stamp_arrival_def)

lemma am_run:
  obtains e s where "am_reach e" "am_tx_list e = [s]" "am_retransmit_list e = []" "am_wait_list e = []"
    "am_compute_pdu_header_size e s = 2" "seg_size s = 3" "seg_so s = 0" "\<not> status_to_report e" "\<not> is_window_stalling e"
    "\<not> am_status_triggered e"
proof -
  obtain e0 e s where r: "new_nr_rlc_entity_am 1000 1000 45 35 0 (-1) (-1) 8 12 = Inr e0" "nr_rlc_entity_am_recv_sdu 0 e0 [1, 2, 3] 7 = Inr e"
    "am_tx_list e = [s]" "am_retransmit_list e = []" "am_wait_list e = []" "seg_size s = 3" "seg_so s = 0" "seg_is_first s"
    "am_sn_field_length e = 12" "am_sn_modulus e = 4096" "am_tx_next e = 0" "am_tx_next_ack e = 0" "am_window_size e = 2048"
    "\<not> am_status_triggered e"
    using am_run_sdu by blast
  have "am_reach e" by (rule am_reach.Step [OF am_reach.New [OF r(1)] am_step.Sdu [OF r(2)]]) simp
  then show ?thesis
    by (rule that [OF _ r(3-5)]) (use r in \<open>simp_all add: am_compute_pdu_header_size_def status_to_report_def is_window_stalling_def
      am_sn_compare_tx_def am_modulus_tx_def crem_def\<close>)
qed

text \<open>The SDU is sent in one PDU.\<close>

lemma am_run_header:
  "put_fields (nr_rlc_pdu_encoder_init [0, 0, 0, 0, 0]) [(1, Suc 0), (0, Suc 0), (0, Suc 0), (0, Suc 0), (0, 12)] =
     Inr \<lparr>enc_byte = 2, enc_bit = 0, enc_buffer = [128, 0, 0, 0, 0], enc_size = 5\<rparr>"
  by code_simp

lemmas am_run_defs = new_nr_rlc_entity_am_def nr_rlc_entity_am_recv_sdu_def am_log_rejected_def NR_SDU_MAX_def nr_rlc_new_sdu_def
  nr_rlc_sdu_segment_list_append_def stamp_arrival_def nr_rlc_entity_am_generate_pdu_def status_to_report_def am_generate_tx_pdu_def
  is_window_stalling_def am_sn_compare_tx_def am_modulus_tx_def crem_def am_compute_pdu_header_size_def assign_sn_def deref_def store_def
  put_in_wait_list_def after_wait_end_def poll_new_pdu_def take_force_poll_def check_poll_after_pdu_assembly_def Let_def

lemma am_run_pdu:
  "\<exists>e0 e e1 s buf. new_nr_rlc_entity_am 1000 1000 45 35 0 (-1) (-1) 8 12 = Inr e0 \<and> nr_rlc_entity_am_recv_sdu 0 e0 [1, 2, 3] 7 = Inr e
     \<and> nr_rlc_entity_am_generate_pdu 0 e [0, 0, 0, 0, 0] = Inr (5, buf, e1) \<and> am_wait_list e1 = [s] \<and> am_tx_list e1 = []
     \<and> am_retransmit_list e1 = [] \<and> am_sn_field_length e1 = 12 \<and> am_sn_modulus e1 = 4096 \<and> am_tx_next e1 = 1 \<and> am_tx_next_ack e1 = 0
     \<and> sn_of (am_heap e1) s = 0"
  apply (rule new_common_ok [of NR_RLC_AM])
  apply (simp add: am_run_defs)
  apply (simp add: am_serialize_sdu_def deref_def am_header_fields_def am_run_header del: put_fields.simps)
  apply (simp add: mem_read_def mem_write_def include_poll_def sdu_of_def)
  done

lemma am_run_sent:
  obtains e s where "am_reach e" "am_wait_list e = [s]" "am_tx_list e = []" "am_retransmit_list e = []" "am_sn_field_length e = 12"
    "am_sn_modulus e = 4096" "am_tx_next e = 1" "am_tx_next_ack e = 0" "sn_of (am_heap e) s = 0"
proof -
  obtain e0 e e1 s buf where r: "new_nr_rlc_entity_am 1000 1000 45 35 0 (-1) (-1) 8 12 = Inr e0" "nr_rlc_entity_am_recv_sdu 0 e0 [1, 2, 3] 7 = Inr e"
    "nr_rlc_entity_am_generate_pdu 0 e [0, 0, 0, 0, 0] = Inr (5, buf, e1)" "am_wait_list e1 = [s]" "am_tx_list e1 = []"
    "am_retransmit_list e1 = []" "am_sn_field_length e1 = 12" "am_sn_modulus e1 = 4096" "am_tx_next e1 = 1" "am_tx_next_ack e1 = 0"
    "sn_of (am_heap e1) s = 0" using am_run_pdu by blast
  have "am_reach e" by (rule am_reach.Step [OF am_reach.New [OF r(1)] am_step.Sdu [OF r(2)]]) simp
  then have "am_reach e1" by (rule am_reach.Step [OF _ am_step.Generate [OF r(3)]])
  then show ?thesis by (rule that [OF _ r(4-11)])
qed

text \<open>Status PDUs: one that acknowledges number 0, and one that has a NACK for bytes of the number it acknowledges.\<close>

lemmas status_eval = read_status_def Let_def read_field_def nr_rlc_pdu_decoder_get_bits_def eval_nat_numeral am_sn_compare_tx_def
  am_modulus_tx_def get_bit_def nr_rlc_pdu_decoder_init_def read_nacks.simps read_nack_def cur_nacks_def nack_valid_def crem_def

lemma status_ack:
  "am_sn_field_length e = 12 \<Longrightarrow> am_sn_modulus e = 4096 \<Longrightarrow> am_tx_next e = 1 \<Longrightarrow> am_tx_next_ack e = 0 \<Longrightarrow>
     read_status e [0, 1, 0] = Inr (Some (1, []))"
  by (simp add: status_eval)

lemma status_nack_at_ack:
  "am_sn_field_length e = 12 \<Longrightarrow> am_sn_modulus e = 4096 \<Longrightarrow> am_tx_next e = 1 \<Longrightarrow> am_tx_next_ack e = 0 \<Longrightarrow>
     read_status e [0, 0, 128, 0, 4, 0, 2, 255, 255] = Inr (Some (0, [\<lparr> nk_sn = 0, nk_so_start = 2, nk_so_end = -1, nk_range = 1 \<rparr>]))"
  by (simp add: status_eval)

section \<open>Properties\<close>

text \<open>
  C21. The books of the transmitting side are right in every state that an acknowledged mode entity reaches
  by any calls, in any order, as long as the status PDUs it accepts come from a peer that follows the
  protocol, the SDUs it is given are not empty and no reconfiguration changes the length of its sequence
  numbers (\<open>am_reach\<close>; C26 shows a status PDU after which they are wrong):
  \<^verbatim>\<open>tx_size\<close> is the sum of the sizes of the SDUs it holds, the buffer status is the bytes
  (with headers) of the new and of the retransmitted PDUs it would send, every segment refers to an SDU
  that is allocated and lies in it, every allocated SDU has a segment (nothing leaks), segments of an SDU do not overlap,
  and the numbers in use are inside the window.
\<close>

theorem am_tx_accounting:
  assumes "am_reach e"
  shows "am_tx_size e = heap_bytes (am_heap e)
     \<and> bs_tx_size (ent_bstatus (am_common e)) = (\<Sum>s\<leftarrow>am_tx_list e. am_compute_pdu_header_size e s + seg_size s)
     \<and> bs_retx_size (ent_bstatus (am_common e)) = (\<Sum>s\<leftarrow>am_retransmit_list e. am_compute_pdu_header_size e s + seg_size s)
     \<and> (\<forall>s \<in> set (am_segs e). \<exists>d. hp_sdu (am_heap e) (seg_sdu s) = Some d \<and> seg_in d s \<and> 0 < seg_size s)
     \<and> (\<forall>a d. hp_sdu (am_heap e) a = Some d \<longrightarrow> (\<exists>s \<in> set (am_segs e). seg_sdu s = a))
     \<and> parts_disjoint (set (am_segs e))
     \<and> am_modulus_tx e (am_tx_next e) \<le> am_window_size e
     \<and> (\<forall>s \<in> set (am_wait_list e) \<union> set (am_retransmit_list e). am_modulus_tx e (sn_of (am_heap e) s) < am_modulus_tx e (am_tx_next e))"
proof -
  note inv = am_reach_ok [OF assms]
  note I = am_invD [OF inv]
  have "\<exists>d. hp_sdu (am_heap e) (seg_sdu s) = Some d \<and> seg_in d s \<and> 0 < seg_size s" if "s \<in> set (am_segs e)" for s
    using am_core_live(1,3,5) [OF I(2), of s] that by auto
  moreover have "\<exists>s \<in> set (am_segs e). seg_sdu s = a" if "hp_sdu (am_heap e) a = Some d" for a d
    using heap_okD [OF am_coreD(1) [OF I(2)] that] seg_count_zero [of "am_segs e" a] by (force simp: sdu_ok_def)
  moreover have "parts_disjoint (set (am_segs e))" using am_coreD(3) [OF I(2)] by simp
  ultimately show ?thesis
    using I(3-5,8,9) am_windowD(5) [OF I(1)] by (auto simp: am_pdu_bytes_def am_sent_def)
qed

theorem am_tx_accounting_witness:
  "\<exists>e s. am_reach e \<and> am_wait_list e = [s] \<and> am_tx_size e = heap_bytes (am_heap e) \<and> (\<exists>d. hp_sdu (am_heap e) (seg_sdu s) = Some d)"
proof (rule am_run_sent)
  fix e s assume e: "am_reach e" "am_wait_list e = [s]"
  then show ?thesis using am_tx_accounting [OF e(1)] by (fastforce simp: am_segs_def)
qed

text \<open>
  C22. What an acknowledged mode entity sends when it has no status to report: the head of the retransmit
  list if the grant has room for its header and a byte, else the first new segment if the window is not
  stalled and there is room, else nothing and no change. The PDU is filled with as many bytes of the
  segment as fit, the rest goes back to the front of its list, the bytes sent are kept for
  retransmission, and every receiver with the same length of sequence numbers reads the segment's header
  fields and bytes from the PDU. An SDU that has no sequence number yet takes the next one, which moves on by
  one; an SDU that has one keeps it in all its PDUs, and the next one stays. The call never faults.
\<close>

theorem am_generate_refines:
  assumes "am_reach e" and "\<not> status_to_report e"
  shows "am_data_spec e buffer (nr_rlc_entity_am_generate_pdu now e buffer)"
  by (rule am_generate_ok(1) [OF am_reach_ok [OF assms(1)] assms(2)])

theorem am_generate_refines_witness:
  "\<exists>e s n buf e'. am_reach e \<and> nr_rlc_entity_am_generate_pdu 0 e [0, 0, 0, 0] = Inr (n, buf, e') \<and> am_emits e s [0, 0, 0, 0] n buf e' \<and> n = 4"
proof (rule am_run)
  fix e s assume e: "am_reach e" "am_tx_list e = [s]" "am_retransmit_list e = []" "am_compute_pdu_header_size e s = 2" "seg_size s = 3"
    "\<not> status_to_report e" "\<not> is_window_stalling e"
  then have "am_next_segment e (length [0, 0, 0, 0 :: u8]) = Some s" by (simp add: am_next_segment_def am_fits_def)
  then obtain n buf e' where r: "nr_rlc_entity_am_generate_pdu 0 e [0, 0, 0, 0] = Inr (n, buf, e')" "am_emits e s [0, 0, 0, 0] n buf e'"
    using am_generate_refines [OF e(1,6), of "[0, 0, 0, 0]" 0] by (auto simp: am_data_spec_def)
  then have "n = 4" using e(4,5) by (simp add: am_emits_def)
  then show ?thesis using r e(1) by blast
qed

text \<open>
  C23. A status PDU of a peer that follows the protocol is processed segment by segment: in the wait list
  stay the segments of numbers not acknowledged; the retransmit list has its segments of numbers not
  acknowledged and those segments of acknowledged numbers, from both lists, that a NACK asks for; all
  others are freed. New data is not touched, and the call never faults.
\<close>

theorem am_status_processed:
  assumes "am_reach e" and "read_status e buffer = Inr (Some (ack_sn, ks))" and "am_fair e ack_sn ks"
  shows "\<exists>e'. process_control_pdu e buffer = Inr e' \<and> am_tx_ok e' \<and> am_tx_list e' = am_tx_list e
     \<and> am_wait_list e' = filter (\<lambda>s. \<not> am_acked e ack_sn s) (am_wait_list e)
     \<and> mset (am_retransmit_list e') = mset (filter (\<lambda>s. \<not> am_acked e ack_sn s) (am_retransmit_list e))
         + mset (filter (\<lambda>s. am_acked e ack_sn s \<and> am_nacked e (concat (map (cur_nacks e) ks)) s) (am_wait_list e @ am_retransmit_list e))"
  by (rule process_control_pdu_ok [OF am_reach_ok [OF assms(1)] assms(2,3)])

theorem am_status_processed_witness:
  "\<exists>e s e'. am_reach e \<and> am_wait_list e = [s] \<and> process_control_pdu e [0, 1, 0] = Inr e' \<and> am_wait_list e' = [] \<and> am_retransmit_list e' = []"
proof (rule am_run_sent)
  fix e s assume e: "am_reach e" "am_wait_list e = [s]" "am_tx_list e = []" "am_retransmit_list e = []" "am_sn_field_length e = 12"
    "am_sn_modulus e = 4096" "am_tx_next e = 1" "am_tx_next_ack e = 0" "sn_of (am_heap e) s = 0"
  have "am_fair e 1 []" using e(3) by (simp add: am_fair_def)
  moreover have "am_acked e 1 s" using e(6,8,9) by (simp add: am_acked_def am_modulus_tx_def)
  ultimately show ?thesis using am_status_processed [OF e(1) status_ack [OF e(5-8)]] e(1,2,4) by (auto simp: am_nacked_def)
qed

text \<open>
  C24. The other operations return in every state reached with a peer that follows the protocol, from SDUs
  that are not empty and without a change of the length of the sequence numbers (\<open>am_reach\<close>): an SDU from the
  upper layer of at most
  \<^verbatim>\<open>NR_SDU_MAX\<close> bytes is taken or rejected, a discard removes an SDU that was not sent or does nothing, and
  re-establishment and deletion free every SDU: no double free, no use after free, no leak. Without the
  condition on the peer this fails: the segments that the status PDU of C26 cuts off are on no list, so that
  nothing frees them.
\<close>

theorem am_operations_return:
  assumes "am_reach e" and "b \<noteq> []" and "int (length b) \<le> NR_SDU_MAX"
  shows "(\<exists>e'. nr_rlc_entity_am_recv_sdu now e b i = Inr e'
           \<and> am_tx_size e' = (if am_tx_size e + int (length b) > am_tx_maxsize e then am_tx_size e else am_tx_size e + int (length b)))
     \<and> (\<exists>e'. nr_rlc_entity_am_discard_sdu e j = Inr e' \<and> (e' = e \<or> (\<exists>before cur behind. am_tx_list e = before @ cur # behind
           \<and> am_tx_list e' = before @ behind \<and> seg_is_first cur \<and> seg_is_last cur
           \<and> am_tx_size e' = am_tx_size e - sdu_size (sdu_of (am_heap e) cur))))
     \<and> (\<exists>e'. nr_rlc_entity_am_reestablishment e = Inr e' \<and> am_segs e' = [] \<and> am_tx_size e' = 0 \<and> hp_sdu (am_heap e') = Map.empty)
     \<and> (\<exists>h. nr_rlc_entity_am_delete e = Inr h \<and> hp_sdu h = Map.empty)"
proof -
  note inv = am_reach_ok [OF assms(1)]
  have clear: "\<exists>e'. nr_rlc_entity_am_reestablishment e = Inr e' \<and> am_segs e' = [] \<and> am_tx_size e' = 0 \<and> hp_sdu (am_heap e') = Map.empty"
    "\<exists>h. nr_rlc_entity_am_delete e = Inr h \<and> hp_sdu h = Map.empty"
    using am_clear_ok [OF inv] by (auto simp: nr_rlc_entity_am_reestablishment_def nr_rlc_entity_am_delete_def)
  then show ?thesis using am_recv_sdu_ok [OF inv assms(2,3), of now i] am_discard_sdu_ok [OF inv, of j] by blast
qed

theorem am_operations_return_witness:
  "\<exists>e s h. am_reach e \<and> am_wait_list e = [s] \<and> nr_rlc_entity_am_delete e = Inr h \<and> hp_sdu h = Map.empty"
proof (rule am_run_sent)
  fix e s assume "am_reach e" "am_wait_list e = [s]"
  then show ?thesis using am_operations_return [of e "[1]"] by (auto simp: NR_SDU_MAX_def)
qed

text \<open>
  C25. The only fault of the poll timer: when it has expired and either nothing is left to send or the
  window is stalled, \<^verbatim>\<open>check_t_poll_retransmit\<close> takes the first segment of the wait list
  without looking whether there is one. The list is empty when every unacknowledged segment is in the
  retransmit list, for instance after a status PDU that was cut below the polled number.
\<close>

theorem am_poll_timer_fault:
  assumes "am_reach e"
  shows "check_t_poll_retransmit e = Inl f \<longleftrightarrow> f = Null_Deref \<and> am_t_poll_retransmit_start e \<noteq> 0
     \<and> am_t_current e > am_t_poll_retransmit_start e + word_of_int (am_t_poll_retransmit e)
     \<and> (am_tx_list e = [] \<and> am_retransmit_list e = [] \<or> am_modulus_tx e (am_tx_next e) = am_window_size e) \<and> am_wait_list e = []"
proof -
  note inv = am_reach_ok [OF assms]
  note C = check_t_poll_retransmit_ok [OF inv]
  let ?idle = "(am_t_poll_retransmit_start e = 0 \<or> am_t_current e \<le> am_t_poll_retransmit_start e + word_of_int (am_t_poll_retransmit e))
    \<or> \<not> check_poll_after_pdu_assembly e"
  have "check_poll_after_pdu_assembly e \<longleftrightarrow> am_tx_list e = [] \<and> am_retransmit_list e = [] \<or> am_modulus_tx e (am_tx_next e) = am_window_size e"
    using am_stalling [OF am_invD(1) [OF inv]] by (simp add: check_poll_after_pdu_assembly_def)
  moreover have "check_t_poll_retransmit e = Inl f \<longleftrightarrow> \<not> ?idle \<and> am_wait_list e = [] \<and> f = Null_Deref"
  proof (cases ?idle)
    case True
    then show ?thesis using C [unfolded if_P [OF True]] by force
  next
    case False
    then show ?thesis using C [unfolded if_not_P [OF False]] by (cases "am_wait_list e") auto
  qed
  ultimately show ?thesis by (auto simp: not_le)
qed

theorem am_poll_timer_fault_witness: "\<exists>e s. am_reach e \<and> am_wait_list e = [s] \<and> (\<forall>f. check_t_poll_retransmit e \<noteq> Inl f)"
proof (rule am_run_sent)
  fix e s assume "am_reach e" "am_wait_list e = [s]"
  then show ?thesis using am_poll_timer_fault [of e] by (intro exI [of _ e] exI [of _ s]) simp
qed

text \<open>
  C26. A status PDU whose NACK is for the number it acknowledges empties the retransmit list: with an
  empty wait list, when the first segment of the retransmit list lies before the bytes the NACK asks
  for, the rest of the list is linked to the new one and then cut off again. No segment is freed, the
  buffer status still counts them, and they are never sent again.
\<close>

theorem am_nack_at_ack_loses:
  assumes "read_status e buffer = Inr (Some (ack_sn, [\<lparr> nk_sn = ack_sn, nk_so_start = so_start, nk_so_end = so_end, nk_range = 1 \<rparr>]))"
    and "is_sn (am_sn_modulus e) ack_sn" and "am_wait_list e = []" and "am_retransmit_list e = r # rest"
    and "hp_sdu (am_heap e) (seg_sdu r) = Some d" and "sdu_sn d = ack_sn"
    and "0 \<le> seg_so r" and "0 < seg_size r" and "seg_so r + seg_size r \<le> so_start"
  shows "\<exists>e'. process_control_pdu e buffer = Inr e' \<and> am_retransmit_list e' = [] \<and> am_wait_list e' = [] \<and> am_tx_list e' = am_tx_list e
     \<and> am_heap e' = am_heap e \<and> ent_bstatus (am_common e') = ent_bstatus (am_common e)"
proof -
  let ?x = "(ack_sn, so_start, so_end)"
  have nacks: "cur_nacks x \<lparr> nk_sn = ack_sn, nk_so_start = so_start, nk_so_end = so_end, nk_range = 1 \<rparr> = [?x]"
    if "am_sn_modulus x = am_sn_modulus e" for x
    using that assms(2) by (simp add: cur_nacks_def crem_mod is_sn_def)
  have step: "process_nack ack_sn ?x c = Inr (True, c\<lparr>ctl_new_next := ctl_retx c, ctl_retx := []\<rparr>)"
    if c: "ctl_wait c = []" "ctl_retx c = r # rest" "am_heap (ctl_entity c) = am_heap e" for c
    using c assms(5-9)
    by (subst process_nack.simps)
      (simp add: process_next_pdu_def process_retransmit_list_head_def ctl_sdu_def deref_def Let_def so_overlap_def am_sn_compare_tx_def)
  show ?thesis
    using assms(3,4) nacks step
    by (simp add: process_control_pdu_def assms(1) Let_def stop_t_poll_retransmit_if_def ack_wait_list.simps ack_retransmit_list.simps
        finish_lists_def update_tx_next_ack_def min_head_sn_def)
qed

theorem am_nack_at_ack_loses_witness:
  "\<exists>e r e'. am_retransmit_list e = [r] \<and> seg_size r = 2 \<and> process_control_pdu e [0, 0, 128, 0, 4, 0, 2, 255, 255] = Inr e'
     \<and> am_retransmit_list e' = []"
proof (rule am_run_sent)
  fix e s assume e: "am_reach e" "am_wait_list e = [s]" "am_sn_field_length e = 12" "am_sn_modulus e = 4096" "am_tx_next e = 1"
    "am_tx_next_ack e = 0" "sn_of (am_heap e) s = 0"
  define r where "r = s\<lparr>seg_so := 0, seg_size := 2\<rparr>"
  define e1 where "e1 = e\<lparr>am_wait_list := [], am_wait_end := None, am_retransmit_list := [r]\<rparr>"
  have live: "hp_sdu (am_heap e) (seg_sdu s) = Some (sdu_of (am_heap e) s)"
    by (rule am_core_live(1) [OF am_invD(2) [OF am_reach_ok [OF e(1)]]]) (simp add: am_segs_def e(2))
  have st: "read_status e1 [0, 0, 128, 0, 4, 0, 2, 255, 255] = Inr (Some (0, [\<lparr> nk_sn = 0, nk_so_start = 2, nk_so_end = -1, nk_range = 1 \<rparr>]))"
    by (rule status_nack_at_ack) (simp_all add: e1_def e)
  have "\<exists>e'. process_control_pdu e1 [0, 0, 128, 0, 4, 0, 2, 255, 255] = Inr e' \<and> am_retransmit_list e' = [] \<and> am_wait_list e' = []
      \<and> am_tx_list e' = am_tx_list e1 \<and> am_heap e' = am_heap e1 \<and> ent_bstatus (am_common e') = ent_bstatus (am_common e1)"
    by (rule am_nack_at_ack_loses [OF st, of r "[]" "sdu_of (am_heap e) s"])
      (use live e(4,7) in \<open>simp_all add: e1_def r_def is_sn_def\<close>)
  moreover have "am_retransmit_list e1 = [r]" "seg_size r = 2" by (simp_all add: e1_def r_def)
  ultimately show ?thesis by blast
qed

section \<open>Progress\<close>

text \<open>A sequence of grants of \<open>n\<close> bytes.\<close>

fun am_serve :: "u64 \<Rightarrow> nat \<Rightarrow> nat \<Rightarrow> nr_rlc_entity_am_t \<Rightarrow> nr_rlc_entity_am_t res" where
  "am_serve now n 0 e = Inr e"
| "am_serve now n (Suc k) e = bindR (nr_rlc_entity_am_generate_pdu now e (replicate n 0)) (\<lambda>(_, _, e'). am_serve now n k e')"

abbreviation seg_bytes :: "nr_rlc_sdu_segment_t list \<Rightarrow> int" where
  "seg_bytes l \<equiv> sum_list (map seg_size l)"

lemma am_rest_bytes: "am_rest s x l l' \<Longrightarrow> seg_bytes l' = seg_bytes l - seg_size x" "am_rest s x l l' \<Longrightarrow> l \<noteq> [] \<and> hd l = s"
  by (auto simp: am_rest_def split: if_splits)

text \<open>Data PDUs do not trigger a status report.\<close>

abbreviation same_trigger :: "nr_rlc_entity_am_t \<Rightarrow> nr_rlc_entity_am_t \<Rightarrow> bool" where
  "same_trigger e e' \<equiv> am_status_triggered e' = am_status_triggered e"

lemma postR_bind: "postR Q m \<Longrightarrow> (\<And>x. Q x \<Longrightarrow> postR P (f x)) \<Longrightarrow> postR P (bindR m f)"
  by (auto simp: postR_def bindR_eq_Inr)

lemma trigger_include: "postR (\<lambda>(e', _). same_trigger e e') (if p then include_poll e b else Inr (e, b))"
  by (cases b) (auto simp: include_poll_def postR_def)

lemma trigger_steps:
  "postR (\<lambda>(_, _, e'). same_trigger e e') (am_resegment s e n)" "postR (same_trigger e) (put_in_wait_list e s)"
  "postR (same_trigger e) (assign_sn e s)" "postR (\<lambda>(_, _, e'). same_trigger e e') (am_serialize_sdu e s b p)"
proof -
  show "postR (\<lambda>(_, _, e'). same_trigger e e') (am_resegment s e n)" "postR (same_trigger e) (put_in_wait_list e s)"
    "postR (same_trigger e) (assign_sn e s)"
    by (auto simp: am_resegment_def put_in_wait_list_def assign_sn_def Let_def postR_def bindR_eq_Inr split: if_splits)
  show "postR (\<lambda>(_, _, e'). same_trigger e e') (am_serialize_sdu e s b p)"
    unfolding am_serialize_sdu_def by (intro postR_intros postR_bind [OF trigger_include]) (auto intro: postR_intros)
qed

lemma trigger_poll: "same_trigger e (snd (take_force_poll e p))" "same_trigger e (snd (poll_new_pdu e s))"
  by (simp_all add: take_force_poll_def poll_new_pdu_def Let_def)

lemma trigger_retx: "postR (\<lambda>(_, _, e'). same_trigger e e') (generate_retx_pdu e buffer)"
proof (cases "am_retransmit_list e")
  case (Cons s rest)
  let ?e = "e\<lparr>am_retransmit_list := rest, am_common := add_bs_retx (- (am_compute_pdu_header_size e s + seg_size s)) (am_common e)\<rparr>"
  show ?thesis
    unfolding generate_retx_pdu_def Cons list.case Let_def split_beta
    apply (rule postR_intros(4))
     apply (simp add: postR_def)
    apply (rule postR_bind [where Q = "\<lambda>(_, e'). same_trigger e e'"])
     apply (rule postR_intros(4), rule postR_bind [OF trigger_steps(1)], simp add: postR_def split_beta, simp add: postR_def)
    apply (rule postR_bind [OF trigger_steps(2)], rule postR_bind [OF trigger_steps(4)])
    apply (simp add: postR_def split_beta trigger_poll)
    done
qed (simp add: generate_retx_pdu_def postR_def)

lemma trigger_tx: "postR (\<lambda>(_, _, e'). same_trigger e e') (am_generate_tx_pdu now e buffer)"
proof (cases "am_tx_list e")
  case (Cons s rest)
  show ?thesis
    unfolding am_generate_tx_pdu_def Cons list.case Let_def split_beta
    apply (rule postR_intros(4), simp add: postR_def, rule postR_intros(4), simp add: postR_def)
    apply (rule postR_bind [OF trigger_steps(3)])
    apply (rule postR_bind [where Q = "\<lambda>(_, e'). same_trigger e e'"])
     apply (rule postR_intros(4), rule postR_bind [OF trigger_steps(1)], simp add: postR_def split_beta, simp add: postR_def)
    apply (rule postR_bind [OF trigger_steps(2)], rule postR_bind [OF trigger_steps(4)], rule postR_intros(3))
    apply (simp add: postR_def split_beta trigger_poll)
    done
qed (simp add: am_generate_tx_pdu_def postR_def)

lemma trigger_generate:
  assumes "\<not> am_status_triggered e"
  shows "postR (\<lambda>(_, _, e'). same_trigger e e') (nr_rlc_entity_am_generate_pdu now e buffer)"
proof -
  have nst: "\<not> status_to_report e" using assms by (simp add: status_to_report_def)
  have "postR (\<lambda>(_, _, e'). same_trigger e e') (if am_retransmit_list e \<noteq> [] then generate_retx_pdu e buffer else Inr (0, buffer, e))"
    using trigger_retx by (simp add: postR_def)
  moreover have "postR (\<lambda>(_, _, e'). same_trigger e e') (if n \<noteq> 0 then Inr (n, b, x) else am_generate_tx_pdu now x b)" if "same_trigger e x" for n b x
    using trigger_tx [of x now b] that by (simp add: postR_def)
  ultimately show ?thesis
    unfolding nr_rlc_entity_am_generate_pdu_def if_not_P [OF nst] bindR_Inr split_conv
    by (simp only: refl if_False not_not simp_thms) (rule postR_bind, assumption, clarify)
qed

lemma am_grant:
  assumes reach: "am_reach e" and st: "\<not> am_status_triggered e" and n: "6 \<le> n"
  shows "\<exists>k buf e'. nr_rlc_entity_am_generate_pdu now e (replicate n 0) = Inr (k, buf, e') \<and> am_reach e' \<and> \<not> am_status_triggered e'
     \<and> (am_retransmit_list e = [] \<longrightarrow> am_retransmit_list e' = [])
     \<and> (am_retransmit_list e \<noteq> [] \<longrightarrow> seg_bytes (am_retransmit_list e') < seg_bytes (am_retransmit_list e))"
proof -
  note inv = am_reach_ok [OF reach]
  have nst: "\<not> status_to_report e" using st by (simp add: status_to_report_def)
  have room: "am_compute_pdu_header_size e s + 1 \<le> int n" for s using n by (simp add: am_compute_pdu_header_size_def)
  note G = am_generate_ok(1) [OF inv nst, of "replicate n 0" now]
  obtain k buf e' where r: "nr_rlc_entity_am_generate_pdu now e (replicate n 0) = Inr (k, buf, e')"
    using G by (auto simp: am_data_spec_def split: option.splits)
  have reach': "am_reach e'" by (rule am_reach.Step [OF reach am_step.Generate [OF r]])
  have trig: "\<not> am_status_triggered e'" using postRD [OF trigger_generate [OF st] r] st by simp
  have retx: "seg_bytes (am_retransmit_list e') < seg_bytes (am_retransmit_list e)" if l: "am_retransmit_list e = s # rest" for s rest
  proof -
    have "am_emits e s (replicate n 0) k buf e'"
      using G r l room [of s] by (auto simp: am_data_spec_def am_next_segment_def am_fits_def)
    then obtain x where x: "seg_size x = k - am_compute_pdu_header_size e s" "k = min (am_compute_pdu_header_size e s + seg_size s) (int n)"
      "am_taken e s x e'" by (auto simp: am_emits_def)
    have "0 < seg_size s" using am_coreD(4) [OF am_invD(2) [OF inv], of s] l by (simp add: am_segs_def)
    then have "0 < seg_size x" using x(1,2) room [of s] by simp
    moreover have "s \<notin> set (am_tx_list e)" using am_inv_addrs(1) [OF inv] l by auto
    then have "am_rest s x (am_retransmit_list e) (am_retransmit_list e')"
      using x(3) am_rest_bytes(2) [of s x "am_tx_list e" "am_tx_list e'"] hd_in_set by (fastforce simp: am_taken_def)
    ultimately show ?thesis using am_rest_bytes(1) by fastforce
  qed
  have "am_retransmit_list e' = []" if l: "am_retransmit_list e = []"
    using G r l by (auto simp: am_data_spec_def am_emits_def am_taken_def am_rest_def split: option.splits if_splits)
  then show ?thesis using r reach' trig retx by (cases "am_retransmit_list e") auto
qed

lemma seg_bytes_pos: "\<forall>s \<in> set l. 0 < seg_size s \<Longrightarrow> 0 \<le> seg_bytes l \<and> (l \<noteq> [] \<longrightarrow> 0 < seg_bytes l)"
  by (induction l) auto

text \<open>
  C27. Retransmission makes progress: when no status report is triggered, grants of six bytes or more empty the
  retransmit list after at most as many grants as it has bytes, with no fault on the way. (A report that is
  due takes the grant before the retransmissions.)
\<close>

theorem am_retransmissions_sent:
  assumes "am_reach e" and "\<not> am_status_triggered e" and "6 \<le> n" and "sum_list (map seg_size (am_retransmit_list e)) \<le> int k"
  shows "\<exists>e'. am_serve now n k e = Inr e' \<and> am_reach e' \<and> am_retransmit_list e' = []"
  using assms(1,2,4)
proof (induction k arbitrary: e)
  case 0
  note inv = am_reach_ok [OF 0(1)]
  have "am_retransmit_list e = []"
    using seg_bytes_pos [of "am_retransmit_list e"] am_coreD(4) [OF am_invD(2) [OF inv]] 0(3) by (auto simp: am_segs_def)
  then show ?case using 0(1) by simp
next
  case (Suc k)
  obtain r buf e1 where g: "nr_rlc_entity_am_generate_pdu now e (replicate n 0) = Inr (r, buf, e1)" "am_reach e1" "\<not> am_status_triggered e1"
    "am_retransmit_list e = [] \<longrightarrow> am_retransmit_list e1 = []"
    "am_retransmit_list e \<noteq> [] \<longrightarrow> seg_bytes (am_retransmit_list e1) < seg_bytes (am_retransmit_list e)"
    using am_grant [OF Suc.prems(1,2) assms(3), of now] by blast
  have "seg_bytes (am_retransmit_list e1) \<le> int k" using g(4,5) Suc.prems(3) by (cases "am_retransmit_list e") auto
  then show ?case using Suc.IH [OF g(2,3)] g(1) by simp
qed

text \<open>An SDU is sent at time 1, and the poll timer expires: the SDU is to be retransmitted.\<close>

lemmas am_timer_defs = nr_rlc_entity_am_set_time_def check_t_poll_retransmit_def am_check_t_reassembly_def

lemma am_run_polled:
  "\<exists>e0 e1 e2 buf e3 s. new_nr_rlc_entity_am 1000 1000 45 35 0 (-1) (-1) 8 12 = Inr e0 \<and> nr_rlc_entity_am_set_time e0 1 = Inr e1
     \<and> nr_rlc_entity_am_recv_sdu 0 e1 [1, 2, 3] 7 = Inr e2 \<and> nr_rlc_entity_am_generate_pdu 0 e2 [0, 0, 0, 0, 0] = Inr (5, buf, e3)
     \<and> am_wait_list e3 = [s] \<and> am_tx_list e3 = [] \<and> am_retransmit_list e3 = [] \<and> seg_size s = 3 \<and> \<not> am_status_triggered e3
     \<and> am_t_poll_retransmit_start e3 = 1 \<and> am_t_poll_retransmit e3 = 45 \<and> am_t_reassembly_start e3 = 0"
  apply (rule new_common_ok [of NR_RLC_AM])
  apply (simp add: am_run_defs am_timer_defs)
  apply (simp add: am_serialize_sdu_def deref_def am_header_fields_def am_run_header del: put_fields.simps)
  apply (simp add: mem_read_def mem_write_def include_poll_def sdu_of_def)
  done

lemma am_poll_timeout:
  assumes "am_wait_list e = [s]" "am_tx_list e = []" "am_retransmit_list e = []" "\<not> am_status_triggered e"
    "am_t_poll_retransmit_start e = 1" "am_t_poll_retransmit e = 45" "am_t_reassembly_start e = 0"
    "hp_sdu (am_heap e) (seg_sdu s) = Some d"
  shows "\<exists>e'. nr_rlc_entity_am_set_time e 100 = Inr e' \<and> am_retransmit_list e' = [s] \<and> \<not> am_status_triggered e'"
  using assms by (simp add: am_timer_defs check_poll_after_pdu_assembly_def deref_def store_def Let_def move_to_retransmit_def)

theorem am_retransmissions_sent_witness:
  "\<exists>e s e'. am_reach e \<and> am_retransmit_list e = [s] \<and> seg_size s = 3 \<and> am_serve 0 6 3 e = Inr e' \<and> am_retransmit_list e' = []"
proof -
  obtain e0 e1 e2 buf e3 s where r: "new_nr_rlc_entity_am 1000 1000 45 35 0 (-1) (-1) 8 12 = Inr e0" "nr_rlc_entity_am_set_time e0 1 = Inr e1"
    "nr_rlc_entity_am_recv_sdu 0 e1 [1, 2, 3] 7 = Inr e2" "nr_rlc_entity_am_generate_pdu 0 e2 [0, 0, 0, 0, 0] = Inr (5, buf, e3)"
    and e3: "am_wait_list e3 = [s]" "am_tx_list e3 = []" "am_retransmit_list e3 = []" "seg_size s = 3" "\<not> am_status_triggered e3"
      "am_t_poll_retransmit_start e3 = 1" "am_t_poll_retransmit e3 = 45" "am_t_reassembly_start e3 = 0"
    using am_run_polled by blast
  have "am_reach e1" by (rule am_reach.Step [OF am_reach.New [OF r(1)] am_step.Time [OF r(2)]])
  then have "am_reach e2" by (rule am_reach.Step [OF _ am_step.Sdu [OF r(3)]]) simp
  then have reach3: "am_reach e3" by (rule am_reach.Step [OF _ am_step.Generate [OF r(4)]])
  have "hp_sdu (am_heap e3) (seg_sdu s) = Some (sdu_of (am_heap e3) s)"
    by (rule am_core_live(1) [OF am_invD(2) [OF am_reach_ok [OF reach3]]]) (simp add: am_segs_def e3(1))
  then obtain e4 where e4: "nr_rlc_entity_am_set_time e3 100 = Inr e4" "am_retransmit_list e4 = [s]" "\<not> am_status_triggered e4"
    using am_poll_timeout [OF e3(1-3,5-8)] by blast
  have reach: "am_reach e4" by (rule am_reach.Step [OF reach3 am_step.Time [OF e4(1)]])
  obtain e' where "am_serve 0 6 3 e4 = Inr e'" "am_retransmit_list e' = []"
    using am_retransmissions_sent [OF reach e4(3), of 6 3 0] e4(2) e3(4) by auto
  then show ?thesis using reach e4(2) e3(4) by blast
qed

end
