(* ===== verification/Snow3g.thy ===== *)
theory Snow3g
  imports Snow3g_Tables
begin

unbundle bit_operations_syntax

text \<open>
  Model of \<^verbatim>\<open>openair3/SECU/snow3g.c\<close>: the SNOW 3G stream cipher, the ciphering function of the
  algorithms 128-EEA1/128-NEA1 and the integrity function of 128-EIA1/128-NIA1.

  Two routines of the source are optimised, and the lemmas relate them to the plain ones. The feedback
  register is kept twice in an array of double size, so that a step moves a pointer instead of sixteen
  words; \<open>lfsr_keystream_spec\<close> is the code that the source keeps under \<^verbatim>\<open>#if 0\<close>. The
  integrity function multiplies through a precomputed table of 8 times 256 words; \<open>MUL64\<close> is the plain
  multiplication.
\<close>

section \<open>State\<close>

record snow3g_t =
  sn_arr :: "u32 list"
  sn_s :: nat
  sn_r1 :: u32
  sn_r2 :: u32
  sn_r3 :: u32

text \<open>
  \<^verbatim>\<open>s->s[i]\<close>: the pointer \<^verbatim>\<open>s\<close> is an index into \<^verbatim>\<open>_s\<close>. It is below 16 and
  \<open>i\<close> at most 16 (\<open>snow_ok\<close> below), so no access leaves the array.
\<close>

definition sget :: "snow3g_t \<Rightarrow> nat \<Rightarrow> u32" where
  "sget s i = sn_arr s ! (sn_s s + i)"

definition byte_of :: "u32 \<Rightarrow> nat \<Rightarrow> u32" where
  "byte_of w k = drop_bit k w AND 0xff"

definition s1 :: "u32 \<Rightarrow> u32" where
  "s1 w = (let w0 = byte_of w 24; w1 = byte_of w 16; w2 = byte_of w 8; w3 = w AND 0xff
           in s1_t0 ! unat w3 XOR s1_t1 ! unat w2 XOR s1_t2 ! unat w1 XOR s1_t3 ! unat w0)"

definition s2 :: "u32 \<Rightarrow> u32" where
  "s2 w = (let w0 = byte_of w 24; w1 = byte_of w 16; w2 = byte_of w 8; w3 = w AND 0xff
           in s2_t0 ! unat w3 XOR s2_t1 ! unat w2 XOR s2_t2 ! unat w1 XOR s2_t3 ! unat w0)"

definition MULa :: "u32 \<Rightarrow> u32" where
  "MULa c = mula ! unat c"

definition DIVa :: "u32 \<Rightarrow> u32" where
  "DIVa c = diva ! unat c"

text \<open>The feedback word of the register, from its words 0, 2 and 11.\<close>

definition feedback :: "u32 \<Rightarrow> u32 \<Rightarrow> u32 \<Rightarrow> u32" where
  "feedback x0 x2 x11 =
     (let s0_0 = byte_of x0 24; s0_1 = byte_of x0 16; s0_2 = byte_of x0 8; s0_3 = x0 AND 0xff;
          s11_0 = byte_of x11 24; s11_1 = byte_of x11 16; s11_2 = byte_of x11 8; s11_3 = x11 AND 0xff;
          v0 = push_bit 24 s0_1 OR push_bit 16 s0_2 OR push_bit 8 s0_3;
          v11 = push_bit 16 s11_0 OR push_bit 8 s11_1 OR s11_2
      in v0 XOR MULa s0_0 XOR x2 XOR v11 XOR DIVa s11_3)"

definition push_word :: "snow3g_t \<Rightarrow> u32 \<Rightarrow> snow3g_t" where
  "push_word s v =
     (let p = sn_s s + 1
      in s\<lparr>sn_arr := (sn_arr s)[sn_s s := v, sn_s s + 16 := v], sn_s := (if p = 16 then 0 else p)\<rparr>)"

definition lfsr_init :: "snow3g_t \<Rightarrow> u32 \<Rightarrow> snow3g_t" where
  "lfsr_init s f = push_word s (feedback (sget s 0) (sget s 2) (sget s 11) XOR f)"

definition lfsr_keystream :: "snow3g_t \<Rightarrow> snow3g_t" where
  "lfsr_keystream s = push_word s (feedback (sget s 0) (sget s 2) (sget s 11))"

definition clock_fsm :: "snow3g_t \<Rightarrow> u32 \<times> snow3g_t" where
  "clock_fsm s =
     (let f = (sget s 15 + sn_r1 s) XOR sn_r2 s;
          r = sn_r2 s + (sn_r3 s XOR sget s 5)
      in (f, s\<lparr>sn_r3 := s2 (sn_r2 s), sn_r2 := s1 (sn_r1 s), sn_r1 := r\<rparr>))"

definition GET32 :: "bytes \<Rightarrow> nat \<Rightarrow> u32" where
  "GET32 b i = push_bit 24 (ucast (b ! i)) OR push_bit 16 (ucast (b ! (i + 1)))
             OR push_bit 8 (ucast (b ! (i + 2))) OR ucast (b ! (i + 3))"

text \<open>
  The upper half of the array is not initialised by the source; \<open>junk\<close> stands for its contents.
\<close>

definition snow3g_load :: "u32 list \<Rightarrow> bytes \<Rightarrow> bytes \<Rightarrow> snow3g_t" where
  "snow3g_load junk key iv =
     (let k = (\<lambda>i. GET32 key (4 * i)); v = (\<lambda>i. GET32 iv (4 * i))
      in \<lparr> sn_arr = [k 0 XOR 0xffffffff, k 1 XOR 0xffffffff, k 2 XOR 0xffffffff, k 3 XOR 0xffffffff,
                     k 0, k 1, k 2, k 3,
                     k 0 XOR 0xffffffff, k 1 XOR 0xffffffff XOR v 3, k 2 XOR 0xffffffff XOR v 2, k 3 XOR 0xffffffff,
                     k 0 XOR v 1, k 1, k 2, k 3 XOR v 0] @ junk,
           sn_s = 0, sn_r1 = 0, sn_r2 = 0, sn_r3 = 0 \<rparr>)"

definition init_round :: "snow3g_t \<Rightarrow> snow3g_t" where
  "init_round s = (let (f, s') = clock_fsm s in lfsr_init s' f)"

definition snow3g_init :: "u32 list \<Rightarrow> bytes \<Rightarrow> bytes \<Rightarrow> snow3g_t" where
  "snow3g_init junk key iv =
     (let s = (init_round ^^ 32) (snow3g_load junk key iv) in lfsr_keystream (snd (clock_fsm s)))"

definition generate_keystream_step :: "snow3g_t \<Rightarrow> u32 \<times> snow3g_t" where
  "generate_keystream_step s = (let (f, s') = clock_fsm s in (f XOR sget s' 0, lfsr_keystream s'))"

fun keystream_words :: "nat \<Rightarrow> snow3g_t \<Rightarrow> u32 list" where
  "keystream_words 0 s = []"
| "keystream_words (Suc n) s = (let (z, s') = generate_keystream_step s in z # keystream_words n s')"

section \<open>Ciphering\<close>

definition swap_key :: "bytes \<Rightarrow> bytes" where
  "swap_key key = map ((!) key) [12, 13, 14, 15, 8, 9, 10, 11, 4, 5, 6, 7, 0, 1, 2, 3]"

text \<open>A 32 bit word in network order: what \<^verbatim>\<open>htonl\<close> stores, and the counter in the vectors.\<close>

definition be_bytes :: "u32 \<Rightarrow> bytes" where
  "be_bytes w = [ucast (byte_of w 24), ucast (byte_of w 16), ucast (byte_of w 8), ucast (w AND 0xff)]"

definition cipher_iv :: "u32 \<Rightarrow> int \<Rightarrow> int \<Rightarrow> bytes" where
  "cipher_iv cnt bearer direction =
     (let b = word_of_int (push_bit 3 bearer OR push_bit 2 direction)
      in [b, 0, 0, 0] @ be_bytes cnt @ [b, 0, 0, 0] @ be_bytes cnt)"

definition snow3g_ciphering :: "u32 list \<Rightarrow> u32 \<Rightarrow> int \<Rightarrow> int \<Rightarrow> bytes \<Rightarrow> bytes \<Rightarrow> bytes" where
  "snow3g_ciphering junk cnt bearer direction key inp =
     (let s = snow3g_init junk (swap_key key) (cipher_iv cnt bearer direction);
          keystream = concat (map be_bytes (keystream_words ((length inp + 3) div 4) s))
      in map2 (XOR) inp keystream)"

section \<open>Integrity\<close>

definition MULx64 :: "u64 \<Rightarrow> u64 \<Rightarrow> u64" where
  "MULx64 v c = (if v AND push_bit 63 1 \<noteq> 0 then push_bit 1 v XOR c else push_bit 1 v)"

fun MULxPOW64 :: "u64 \<Rightarrow> nat \<Rightarrow> u64 \<Rightarrow> u64" where
  "MULxPOW64 v 0 c = v"
| "MULxPOW64 v (Suc i) c = MULx64 (MULxPOW64 v i c) c"

definition MUL64 :: "u64 \<Rightarrow> u64 \<Rightarrow> u64 \<Rightarrow> u64" where
  "MUL64 v p c =
     fold (\<lambda>i result. if drop_bit i p AND 1 \<noteq> 0 then result XOR MULxPOW64 v i c else result) [0 ..< 64] 0"

definition mul_p :: "u64 list list \<Rightarrow> u64 \<Rightarrow> u64" where
  "mul_p pm x =
     (let g = (\<lambda>i. pm ! i ! unat (drop_bit (8 * i) x AND 255))
      in g 0 XOR g 1 XOR g 2 XOR g 3 XOR g 4 XOR g 5 XOR g 6 XOR g 7)"

text \<open>
  The precomputed table, in the order of the loops: the powers of \<open>x\<close> go to the entries with one bit,
  then the other entries are sums of two smaller ones. The entries are not initialised before.
\<close>

definition pm_set :: "u64 list list \<Rightarrow> nat \<Rightarrow> nat \<Rightarrow> u64 \<Rightarrow> u64 list list" where
  "pm_set pm i j v = pm[i := (pm ! i)[j := v]]"

definition pm_power :: "nat \<Rightarrow> u64 list list \<Rightarrow> u64 list list" where
  "pm_power i pm =
     (let prev = pm ! ((i - 1) div 8) ! (2 ^ ((i - 1) mod 8));
          v = push_bit 1 prev
      in pm_set pm (i div 8) (2 ^ (i mod 8)) (if prev AND 0x8000000000000000 \<noteq> 0 then v XOR 0x1b else v))"

definition row_sum :: "nat \<Rightarrow> nat \<Rightarrow> u64 list \<Rightarrow> u64 list" where
  "row_sum j k row = row[2 ^ j + k := row ! (2 ^ j) XOR row ! k]"

definition row_sums :: "u64 list \<Rightarrow> u64 list" where
  "row_sums row = fold (\<lambda>j. fold (row_sum j) [1 ..< 2 ^ j]) [1 ..< 8] row"

definition pm_table :: "u64 list list \<Rightarrow> u64 \<Rightarrow> u64 list list" where
  "pm_table junk p =
     (let pm0 = map (\<lambda>row. row[0 := 0]) junk;
          pm1 = fold pm_power [1 ..< 64] (pm_set pm0 0 1 p)
      in map row_sums pm1)"

definition GET64 :: "bytes \<Rightarrow> u64" where
  "GET64 b = fold (\<lambda>i acc. acc OR push_bit (56 - 8 * i) (ucast (b ! i))) [0 ..< length b] 0"

definition integrity_iv :: "u32 \<Rightarrow> u32 \<Rightarrow> int \<Rightarrow> bytes" where
  "integrity_iv cnt fresh direction =
     (let dir = word_of_int (push_bit 7 (direction AND 1)); c = be_bytes cnt; f = be_bytes fresh
      in [f ! 0, f ! 1, f ! 2 XOR dir, f ! 3] @ [c ! 0 XOR dir, c ! 1, c ! 2, c ! 3] @ f @ c)"

definition word64 :: "u32 \<Rightarrow> u32 \<Rightarrow> u64" where
  "word64 hi lo = push_bit 32 (ucast hi) OR ucast lo"

text \<open>
  Block \<open>i\<close> of the message, and the last one, which may have fewer than 8 bytes. The last block of an
  empty message would start at offset -8.
\<close>

fun eval_blocks :: "u64 list list \<Rightarrow> bytes \<Rightarrow> nat list \<Rightarrow> u64 \<Rightarrow> u64 res" where
  "eval_blocks pm inp [] eval = Inr eval"
| "eval_blocks pm inp (i # is) eval =
     bindR (mem_read inp (int i * 8) 8) (\<lambda>b. eval_blocks pm inp is (mul_p pm (eval XOR GET64 b)))"

definition snow3g_integrity_fresh ::
    "u32 list \<Rightarrow> u64 list list \<Rightarrow> u32 \<Rightarrow> u32 \<Rightarrow> int \<Rightarrow> bytes \<Rightarrow> bytes \<Rightarrow> bytes res" where
  "snow3g_integrity_fresh junk pm_junk cnt fresh direction key inp =
     (let n = int (length inp);
          z = keystream_words 5 (snow3g_init junk (swap_key key) (integrity_iv cnt fresh direction));
          d = (n * 8 + 63) div 64 + 1;
          p = word64 (z ! 0) (z ! 1); q = word64 (z ! 2) (z ! 3); otp = z ! 4;
          pm = pm_table pm_junk p
      in bindR (eval_blocks pm inp [0 ..< nat (d - 2)] 0) (\<lambda>eval0.
         bindR (mem_read inp ((d - 2) * 8) (min 8 (n - (d - 2) * 8))) (\<lambda>b.
         let eval1 = mul_p pm (eval0 XOR GET64 b);
             eval2 = MUL64 (eval1 XOR word_of_int (n * 8)) q 0x1b;
             r = ucast (drop_bit 32 eval2) XOR otp
         in Inr (be_bytes r))))"

definition snow3g_integrity ::
    "u32 list \<Rightarrow> u64 list list \<Rightarrow> u32 \<Rightarrow> int \<Rightarrow> int \<Rightarrow> bytes \<Rightarrow> bytes \<Rightarrow> bytes res" where
  "snow3g_integrity junk pm_junk cnt bearer direction key inp =
     snow3g_integrity_fresh junk pm_junk cnt (push_bit 27 (word_of_int bearer)) direction key inp"

end
