(* ===== verification/Snow3g_Spec.thy ===== *)
theory Snow3g_Spec
  imports Snow3g
begin

unbundle bit_operations_syntax

text \<open>
  The optimised routines of SNOW 3G against plain ones: the register with sixteen words that are moved in
  every step, and the multiplication without a table.
\<close>

section \<open>The feedback register\<close>

type_synonym snow_spec = "u32 list \<times> u32 \<times> u32 \<times> u32"

text \<open>The code under \<^verbatim>\<open>#if 0\<close>: the words move down by one, the new one comes last.\<close>

definition shift_in :: "u32 list \<Rightarrow> u32 \<Rightarrow> u32 list" where
  "shift_in l v = tl l @ [v]"

fun clock_spec :: "snow_spec \<Rightarrow> u32 \<times> snow_spec" where
  "clock_spec (l, r1, r2, r3) =
     ((l ! 15 + r1) XOR r2, (l, r2 + (r3 XOR l ! 5), s1 r1, s2 r2))"

definition feedback_spec :: "u32 list \<Rightarrow> u32" where
  "feedback_spec l = feedback (l ! 0) (l ! 2) (l ! 11)"

definition init_round_spec :: "snow_spec \<Rightarrow> snow_spec" where
  "init_round_spec t = (case clock_spec t of (f, l, rs) \<Rightarrow> (shift_in l (feedback_spec l XOR f), rs))"

definition keystream_step_spec :: "snow_spec \<Rightarrow> u32 \<times> snow_spec" where
  "keystream_step_spec t = (case clock_spec t of (f, l, rs) \<Rightarrow> (f XOR l ! 0, shift_in l (feedback_spec l), rs))"

fun keystream_spec :: "nat \<Rightarrow> snow_spec \<Rightarrow> u32 list" where
  "keystream_spec 0 t = []"
| "keystream_spec (Suc n) t = (case keystream_step_spec t of (z, t') \<Rightarrow> z # keystream_spec n t')"

definition load_spec :: "bytes \<Rightarrow> bytes \<Rightarrow> snow_spec" where
  "load_spec key iv = (take 16 (sn_arr (snow3g_load [] key iv)), 0, 0, 0)"

definition snow3g_spec :: "bytes \<Rightarrow> bytes \<Rightarrow> snow_spec" where
  "snow3g_spec key iv =
     (case clock_spec ((init_round_spec ^^ 32) (load_spec key iv)) of (_, l, rs) \<Rightarrow> (shift_in l (feedback_spec l), rs))"

definition lfsr :: "snow3g_t \<Rightarrow> u32 list" where
  "lfsr s = map (sget s) [0 ..< 16]"

definition snow_abs :: "snow3g_t \<Rightarrow> snow_spec" where
  "snow_abs s = (lfsr s, sn_r1 s, sn_r2 s, sn_r3 s)"

text \<open>The words that were written twice are equal in both halves, and the pointer stays in the lower half.\<close>

definition snow_ok :: "snow3g_t \<Rightarrow> bool" where
  "snow_ok s \<longleftrightarrow> length (sn_arr s) = 32 \<and> sn_s s < 16 \<and> (\<forall>i < sn_s s. sn_arr s ! i = sn_arr s ! (i + 16))"

lemma length_lfsr [simp]: "length (lfsr s) = 16"
  by (simp add: lfsr_def)

lemma lfsr_nth [simp]: "i < 16 \<Longrightarrow> lfsr s ! i = sget s i"
  by (simp add: lfsr_def)

lemma push_word_ok:
  assumes "snow_ok s"
  shows "snow_ok (push_word s v)" and "lfsr (push_word s v) = shift_in (lfsr s) v"
proof -
  have s: "length (sn_arr s) = 32" "sn_s s < 16" "\<And>i. i < sn_s s \<Longrightarrow> sn_arr s ! i = sn_arr s ! (i + 16)"
    using assms by (auto simp: snow_ok_def)
  show "snow_ok (push_word s v)"
    using s by (auto simp: snow_ok_def push_word_def Let_def nth_list_update less_Suc_eq)
  show "lfsr (push_word s v) = shift_in (lfsr s) v"
  proof (rule nth_equalityI)
    fix i assume "i < length (lfsr (push_word s v))"
    then have i: "i < 16" by simp
    have "sget (push_word s v) i = (if i = 15 then v else sget s (i + 1))"
      using i s(1,2) s(3) [of i] by (auto simp: sget_def push_word_def Let_def nth_list_update add.commute)
    then show "lfsr (push_word s v) ! i = shift_in (lfsr s) v ! i"
      using i by (auto simp: shift_in_def nth_append nth_tl)
  qed (simp add: shift_in_def)
qed

lemma clock_fsm_abs:
  "fst (clock_fsm s) = fst (clock_spec (snow_abs s))" "snow_abs (snd (clock_fsm s)) = snd (clock_spec (snow_abs s))"
  "snow_ok (snd (clock_fsm s)) = snow_ok s"
  by (simp_all add: clock_fsm_def snow_abs_def Let_def lfsr_def sget_def snow_ok_def)

lemma push_word_abs:
  "snow_ok s \<Longrightarrow> snow_abs (push_word s v) = (case snow_abs s of (l, rs) \<Rightarrow> (shift_in l v, rs))"
  by (simp add: snow_abs_def push_word_ok(2)) (simp add: push_word_def Let_def)

lemma feedback_abs: "feedback (sget s 0) (sget s 2) (sget s 11) = feedback_spec (fst (snow_abs s))"
  by (simp add: feedback_spec_def snow_abs_def)

lemma lfsr_keystream_abs:
  assumes "snow_ok s"
  shows "snow_ok (lfsr_keystream s)"
    and "snow_abs (lfsr_keystream s) = (case snow_abs s of (l, rs) \<Rightarrow> (shift_in l (feedback_spec l), rs))"
  using assms by (simp_all add: lfsr_keystream_def push_word_ok push_word_abs feedback_abs split: prod.splits)

lemma init_round_abs:
  assumes "snow_ok s"
  shows "snow_ok (init_round s)" and "snow_abs (init_round s) = init_round_spec (snow_abs s)"
proof -
  obtain f s' where c: "clock_fsm s = (f, s')" by force
  have s': "snow_ok s'" "clock_spec (snow_abs s) = (f, snow_abs s')"
    using clock_fsm_abs [of s] assms by (simp_all add: c prod_eq_iff)
  then show "snow_ok (init_round s)" "snow_abs (init_round s) = init_round_spec (snow_abs s)"
    by (simp_all add: init_round_def init_round_spec_def c lfsr_init_def push_word_ok push_word_abs feedback_abs
        split: prod.splits)
qed

lemma init_rounds_abs:
  assumes "snow_ok s"
  shows "snow_ok ((init_round ^^ n) s) \<and> snow_abs ((init_round ^^ n) s) = (init_round_spec ^^ n) (snow_abs s)"
  by (induction n) (simp_all add: assms init_round_abs)

lemma snow3g_load_ok:
  assumes "length junk = 16"
  shows "snow_ok (snow3g_load junk key iv)" and "snow_abs (snow3g_load junk key iv) = load_spec key iv"
proof -
  show "snow_ok (snow3g_load junk key iv)"
    using assms by (simp add: snow_ok_def snow3g_load_def Let_def)
  have "lfsr (snow3g_load junk key iv) = take 16 (sn_arr (snow3g_load [] key iv))"
    by (simp add: lfsr_def sget_def snow3g_load_def Let_def upt_rec numeral_eq_Suc)
  then show "snow_abs (snow3g_load junk key iv) = load_spec key iv"
    by (simp add: snow_abs_def load_spec_def snow3g_load_def Let_def)
qed

lemma snow3g_init_abs:
  assumes "length junk = 16"
  shows "snow_ok (snow3g_init junk key iv)" and "snow_abs (snow3g_init junk key iv) = snow3g_spec key iv"
proof -
  define s where "s = (init_round ^^ 32) (snow3g_load junk key iv)"
  have s: "snow_ok s" "snow_abs s = (init_round_spec ^^ 32) (load_spec key iv)"
    unfolding s_def using init_rounds_abs [OF snow3g_load_ok(1) [OF assms]] snow3g_load_ok(2) [OF assms] by simp_all
  have i: "snow3g_init junk key iv = lfsr_keystream (snd (clock_fsm s))"
    by (simp add: snow3g_init_def s_def Let_def)
  have ok: "snow_ok (snd (clock_fsm s))" using s(1) by (simp add: clock_fsm_abs)
  show "snow_ok (snow3g_init junk key iv)" unfolding i by (rule lfsr_keystream_abs(1) [OF ok])
  show "snow_abs (snow3g_init junk key iv) = snow3g_spec key iv"
    unfolding i lfsr_keystream_abs(2) [OF ok] snow3g_spec_def clock_fsm_abs(2) s(2)
    by (simp split: prod.splits)
qed

lemma keystream_words_spec:
  "snow_ok s \<Longrightarrow> keystream_words n s = keystream_spec n (snow_abs s)"
proof (induction n arbitrary: s)
  case (Suc n)
  obtain f s' where c: "clock_fsm s = (f, s')" by force
  have s': "snow_ok s'" "clock_spec (snow_abs s) = (f, snow_abs s')"
    using clock_fsm_abs [of s] Suc.prems by (simp_all add: c prod_eq_iff)
  have l0: "sget s' 0 = fst (snow_abs s') ! 0" by (simp add: snow_abs_def)
  show ?case
    using Suc.IH [OF lfsr_keystream_abs(1) [OF s'(1)]] lfsr_keystream_abs(2) [OF s'(1)]
    by (simp add: generate_keystream_step_def keystream_step_spec_def c s'(2) l0 split: prod.splits)
qed simp

lemma length_keystream_words [simp]: "length (keystream_words n s) = n"
  by (induction n arbitrary: s) (simp_all split: prod.splits)

lemma keystream_init:
  "length junk = 16 \<Longrightarrow> keystream_words n (snow3g_init junk key iv) = keystream_spec n (snow3g_spec key iv)"
  by (simp add: keystream_words_spec snow3g_init_abs)

section \<open>Ciphering\<close>

lemma length_be_bytes [simp]: "length (be_bytes w) = 4"
  by (simp add: be_bytes_def)

lemma length_concat_be: "length (concat (map be_bytes ws)) = 4 * length ws"
  by (induction ws) simp_all

lemma map2_xor_cancel:
  fixes xs ks :: "'a::len word list"
  assumes "length xs \<le> length ks"
  shows "map2 (XOR) (map2 (XOR) xs ks) ks = xs"
  using assms
proof (induction xs arbitrary: ks)
  case (Cons x xs)
  then show ?case by (cases ks) (simp_all add: xor.assoc)
qed simp

lemma cipher_keystream:
  assumes "length junk = 16"
  shows "snow3g_ciphering junk cnt bearer direction key inp =
    map2 (XOR) inp (concat (map be_bytes (keystream_spec ((length inp + 3) div 4)
      (snow3g_spec (swap_key key) (cipher_iv cnt bearer direction)))))"
  by (simp add: snow3g_ciphering_def keystream_init assms Let_def)

lemma length_keystream_spec [simp]: "length (keystream_spec n t) = n"
  by (induction n arbitrary: t) (simp_all split: prod.splits)

lemma length_snow3g_ciphering:
  "length (snow3g_ciphering junk cnt bearer direction key inp) = length inp"
  by (simp add: snow3g_ciphering_def Let_def length_concat_be)

lemma snow3g_decipher:
  assumes "length junk = 16" and "length junk' = 16"
  shows "snow3g_ciphering junk' cnt bearer direction key (snow3g_ciphering junk cnt bearer direction key inp) = inp"
  using length_snow3g_ciphering [of junk cnt bearer direction key inp]
  by (simp add: cipher_keystream [OF assms(2)]) (simp add: cipher_keystream [OF assms(1)] map2_xor_cancel length_concat_be)

section \<open>Multiplication\<close>

primrec xsum :: "(nat \<Rightarrow> u64) \<Rightarrow> nat \<Rightarrow> u64" where
  "xsum f 0 = 0"
| "xsum f (Suc n) = xsum f n XOR f n"

lemma xsum_cong: "(\<And>i. i < n \<Longrightarrow> f i = g i) \<Longrightarrow> xsum f n = xsum g n"
  by (induction n) simp_all

lemma xsum_add: "xsum f (m + n) = xsum f m XOR xsum (\<lambda>i. f (m + i)) n"
  by (induction n) (simp_all add: xor.assoc)

lemma xsum_xor: "xsum (\<lambda>i. f i XOR g i) n = xsum f n XOR xsum g n"
  by (induction n) (simp_all add: ac_simps)

lemma xsum_zero: "(\<And>i. i < n \<Longrightarrow> f i = 0) \<Longrightarrow> xsum f n = 0"
  by (induction n) simp_all

lemma xsum_single: "j < n \<Longrightarrow> xsum (\<lambda>i. if i = j then v else 0) n = v"
  by (induction n) (auto simp: less_Suc_eq xsum_zero)

lemma xsum_8: "xsum f 8 = f 0 XOR f 1 XOR f 2 XOR f 3 XOR f 4 XOR f 5 XOR f 6 XOR f 7"
  by (simp add: eval_nat_numeral xor.assoc)

lemma fold_select:
  "fold (\<lambda>i r. if c i then r XOR g i else r) [0 ..< n] a = a XOR xsum (\<lambda>i. if c i then g i else 0) n"
  by (induction n) (simp_all add: xor.assoc)

lemma drop_bit_1_bit: "drop_bit i (x::u64) AND 1 \<noteq> 0 \<longleftrightarrow> bit x i"
  by (simp add: and_one_eq bit_iff_odd_drop_bit [of x i] odd_iff_mod_2_eq_one)

lemma MUL64_xsum: "MUL64 v p c = xsum (\<lambda>i. if bit p i then MULxPOW64 v i c else 0) 64"
  unfolding MUL64_def drop_bit_1_bit fold_select by simp

text \<open>An entry of a row as the sum of the entries with one bit.\<close>

definition row_lin :: "u64 list \<Rightarrow> nat \<Rightarrow> u64" where
  "row_lin row n = xsum (\<lambda>b. if bit n b then row ! (2 ^ b) else 0) 8"

lemma bit_nat_above:
  assumes "(k::nat) < 2 ^ j" and "j \<le> b"
  shows "\<not> bit k b"
proof -
  have "k < 2 ^ b" using assms power_increasing [of j b "2::nat"] by linarith
  then show ?thesis by (simp add: bit_iff_odd)
qed

lemma bit_add_power:
  assumes "k < 2 ^ j"
  shows "bit (2 ^ j + k :: nat) b \<longleftrightarrow> b = j \<or> bit k b"
proof -
  have "\<not> bit (2 ^ j :: nat) n \<or> \<not> bit k n" for n
    using bit_nat_above [OF assms, of j] by (auto simp: bit_exp_iff)
  then have "2 ^ j + k = 2 ^ j OR k" by (rule disjunctive_add)
  then show ?thesis by (auto simp: bit_or_iff bit_exp_iff)
qed

lemma row_lin_simps:
  "row_lin row 0 = 0"
  "j < 8 \<Longrightarrow> k < 2 ^ j \<Longrightarrow> row_lin row (2 ^ j + k) = row ! (2 ^ j) XOR row_lin row k"
proof -
  show "row_lin row 0 = 0" by (simp add: row_lin_def xsum_zero)
  assume j: "j < 8" and k: "k < 2 ^ j"
  have "(if bit (2 ^ j + k) b then row ! (2 ^ b) else 0)
      = (if b = j then row ! (2 ^ j) else 0) XOR (if bit k b then row ! (2 ^ b) else 0)" for b
    using bit_nat_above [OF k, of j] by (auto simp: bit_add_power [OF k])
  then show "row_lin row (2 ^ j + k) = row ! (2 ^ j) XOR row_lin row k"
    using j by (simp add: row_lin_def xsum_xor xsum_single)
qed

lemma row_lin_power: "j < 8 \<Longrightarrow> row_lin row (2 ^ j) = row ! (2 ^ j)"
  using row_lin_simps(2) [of j 0 row] by (simp add: row_lin_simps(1))

lemma row_lin_cong: "(\<And>b. b < 8 \<Longrightarrow> row ! (2 ^ b) = row' ! (2 ^ b)) \<Longrightarrow> row_lin row n = row_lin row' n"
  unfolding row_lin_def by (rule xsum_cong) auto

text \<open>A row is filled below \<open>n\<close>.\<close>

definition filled :: "u64 list \<Rightarrow> nat \<Rightarrow> u64 list \<Rightarrow> bool" where
  "filled row0 n row \<longleftrightarrow> length row = 256 \<and> (\<forall>b < 8. row ! (2 ^ b) = row0 ! (2 ^ b))
     \<and> (\<forall>i < n. row ! i = row_lin row0 i)"

lemma power_not_between: "k < 2 ^ j \<Longrightarrow> 0 < k \<Longrightarrow> (2::nat) ^ j + k \<noteq> 2 ^ b"
proof
  assume "k < 2 ^ j" "0 < k" and eq: "(2::nat) ^ j + k = 2 ^ b"
  then have "(2::nat) ^ j < 2 ^ b" unfolding eq [symmetric] by simp
  moreover have "(2::nat) ^ b < 2 ^ Suc j" unfolding eq [symmetric] using \<open>k < 2 ^ j\<close> by simp
  ultimately show False
    using power_less_imp_less_exp [of "2::nat" j b] power_less_imp_less_exp [of "2::nat" b "Suc j"] by simp
qed

lemma row_sum_filled:
  assumes "filled row0 (2 ^ j + k) row" and "j < 8" and "0 < k" and "k < 2 ^ j"
  shows "filled row0 (2 ^ j + Suc k) (row_sum j k row)"
proof -
  have le: "2 ^ j + k < 256"
    using assms(2,4) power_increasing [of "Suc j" 8 "2::nat"] by simp
  have "row ! (2 ^ j) XOR row ! k = row_lin row0 (2 ^ j + k)"
    using assms by (simp add: filled_def row_lin_simps(2) row_lin_power)
  then show ?thesis
    using assms(1) le power_not_between [OF assms(4,3)]
    by (auto simp: filled_def row_sum_def nth_list_update less_Suc_eq)
qed

lemma row_sum_fold:
  assumes "filled row0 (Suc (2 ^ j)) row" and "j < 8" and "n \<le> 2 ^ j"
  shows "0 < n \<Longrightarrow> filled row0 (2 ^ j + n) (fold (row_sum j) [1 ..< n] row)"
  using assms(3)
proof (induction n)
  case (Suc n)
  then show ?case
    using assms row_sum_filled [of row0 j n] by (cases "n = 0") (simp_all)
qed simp

lemma row_sums_filled:
  assumes "length row = 256" and "row ! 0 = 0"
  shows "filled row 256 (row_sums row)"
proof -
  have base: "filled row 2 row"
    using assms row_lin_simps(1) [of row] row_lin_power [of 0 row] by (auto simp: filled_def less_2_cases_iff)
  have "n \<le> 8 \<Longrightarrow> 0 < n \<Longrightarrow> filled row (2 ^ n) (fold (\<lambda>j. fold (row_sum j) [1 ..< 2 ^ j]) [1 ..< n] row)" for n
  proof (induction n)
    case (Suc n)
    show ?case
    proof (cases "n = 0")
      case False
      let ?r = "fold (\<lambda>j. fold (row_sum j) [1 ..< 2 ^ j]) [1 ..< n] row"
      have "filled row (2 ^ n) ?r" using Suc False by simp
      then have "filled row (Suc (2 ^ n)) ?r"
        using Suc.prems row_lin_power [of n row] by (auto simp: filled_def less_Suc_eq)
      then have "filled row (2 ^ n + 2 ^ n) (fold (row_sum n) [1 ..< 2 ^ n] ?r)"
        by (rule row_sum_fold) (use Suc.prems in simp_all)
      then show ?thesis using False by (simp add: mult_2)
    qed (use base in simp)
  qed simp
  from this [of 8] have "filled row (2 ^ 8) (row_sums row)" unfolding row_sums_def by (simp only: order_refl) 
  moreover have "(2::nat) ^ 8 = 256" by simp
  ultimately show ?thesis by (simp only:)
qed

text \<open>The entries with one bit hold the multiples of \<open>p\<close> by the powers of \<open>x\<close>, below \<open>n\<close>.\<close>

definition powers_ok :: "u64 \<Rightarrow> nat \<Rightarrow> u64 list list \<Rightarrow> bool" where
  "powers_ok p n pm \<longleftrightarrow> length pm = 8 \<and> (\<forall>i < 8. length (pm ! i) = 256 \<and> pm ! i ! 0 = 0)
     \<and> (\<forall>i < n. pm ! (i div 8) ! (2 ^ (i mod 8)) = MULxPOW64 p i 0x1b)"

lemma pm_set_simps:
  assumes "i < length pm"
  shows "length (pm_set pm i j v) = length pm" "length (pm_set pm i j v ! a) = length (pm ! a)"
    and "j < length (pm ! i) \<Longrightarrow> pm_set pm i j v ! a ! b = (if a = i \<and> b = j then v else pm ! a ! b)"
  using assms by (auto simp: pm_set_def nth_list_update)

lemma pm_set_ok:
  assumes "powers_ok p n pm" and "n < 64" and v: "v = MULxPOW64 p n 0x1b"
  shows "powers_ok p (Suc n) (pm_set pm (n div 8) (2 ^ (n mod 8)) v)"
proof -
  let ?i = "n div 8" and ?j = "(2::nat) ^ (n mod 8)"
  have len: "?i < length pm" using assms by (simp add: powers_ok_def)
  have "?j < 256" using power_strict_increasing [of "n mod 8" 8 "2::nat"] by simp
  then have j: "?j < length (pm ! ?i)" using assms(1,2) by (simp add: powers_ok_def)
  have eq: "i = n" if "i div 8 = n div 8" "(2::nat) ^ (i mod 8) = ?j" for i
    using that power_inject_exp [of "2::nat" "i mod 8" "n mod 8"] by (metis div_mult_mod_eq one_less_numeral_iff semiring_norm(76))
  have "pm_set pm ?i ?j v ! (i div 8) ! (2 ^ (i mod 8)) = MULxPOW64 p i 0x1b" if "i < Suc n" for i
  proof (cases "i = n")
    case False
    then have "\<not> (i div 8 = ?i \<and> (2::nat) ^ (i mod 8) = ?j)" using eq by blast
    then show ?thesis
      unfolding pm_set_simps(3) [OF len j] using assms(1) that False by (auto simp: powers_ok_def)
  qed (use v in \<open>simp add: pm_set_simps(3) [OF len j]\<close>)
  then show ?thesis
    using assms(1) by (simp add: powers_ok_def pm_set_simps(1,2) [OF len] pm_set_simps(3) [OF len j])
qed

lemma MULx64_top:
  "MULx64 v c = (if v AND 0x8000000000000000 \<noteq> 0 then push_bit 1 v XOR c else push_bit 1 v)"
  by (simp add: MULx64_def)

lemma pm_power_ok:
  assumes "powers_ok p n pm" and "0 < n" and "n < 64"
  shows "powers_ok p (Suc n) (pm_power n pm)"
proof -
  obtain m where n: "n = Suc m" using assms(2) by (cases n) auto
  have "pm ! (m div 8) ! (2 ^ (m mod 8)) = MULxPOW64 p m 0x1b" using assms(1) n by (simp add: powers_ok_def)
  then have "pm_power n pm = pm_set pm (n div 8) (2 ^ (n mod 8)) (MULxPOW64 p n 0x1b)"
    by (simp add: pm_power_def n MULx64_top Let_def)
  then show ?thesis using pm_set_ok [OF assms(1,3) refl] by simp
qed

lemma pm_powers_ok:
  assumes "powers_ok p 1 pm"
  shows "n < 64 \<Longrightarrow> powers_ok p (Suc n) (fold pm_power [1 ..< Suc n] pm)"
proof (induction n)
  case (Suc n)
  then show ?case using pm_power_ok [of p "Suc n"] by simp
qed (use assms in simp)

text \<open>Memory for the table: eight rows of 256 words.\<close>

definition pm_memory :: "u64 list list \<Rightarrow> bool" where
  "pm_memory junk \<longleftrightarrow> length junk = 8 \<and> (\<forall>i < 8. length (junk ! i) = 256)"

lemma pm_table_row:
  assumes "pm_memory junk" and i: "i < 8" and n: "n < 256"
  shows "pm_table junk p ! i ! n = xsum (\<lambda>b. if bit n b then MULxPOW64 p (8 * i + b) 0x1b else 0) 8"
proof -
  define pm0 where "pm0 = map (\<lambda>row. row[0 := 0]) junk"
  define pm1 where "pm1 = fold pm_power [1 ..< 64] (pm_set pm0 0 1 p)"
  have "powers_ok p 0 pm0" using assms(1) by (simp add: powers_ok_def pm0_def pm_memory_def)
  then have "powers_ok p 1 (pm_set pm0 0 1 p)" using pm_set_ok [of p 0 pm0 p] by simp
  then have "powers_ok p (Suc 63) (fold pm_power [1 ..< Suc 63] (pm_set pm0 0 1 p))" by (rule pm_powers_ok) simp
  moreover have "Suc 63 = 64" by simp
  ultimately have "powers_ok p 64 pm1" unfolding pm1_def by (simp only:)
  then have ok: "length pm1 = 8" "\<forall>i < 8. length (pm1 ! i) = 256 \<and> pm1 ! i ! 0 = 0"
    "\<forall>i < 64. pm1 ! (i div 8) ! (2 ^ (i mod 8)) = MULxPOW64 p i 0x1b"
    by (simp_all add: powers_ok_def)
  have pow: "pm1 ! i ! (2 ^ b) = MULxPOW64 p (8 * i + b) 0x1b" if "b < 8" for b
    using ok(3) [rule_format, of "8 * i + b"] that i by simp
  have pm1: "length (pm1 ! i) = 256" "pm1 ! i ! 0 = 0" using ok(2) i by simp_all
  have "pm_table junk p ! i = row_sums (pm1 ! i)"
    unfolding pm_table_def Let_def pm0_def [symmetric] pm1_def [symmetric] using i ok(1) by simp
  then have "pm_table junk p ! i ! n = row_lin (pm1 ! i) n"
    using row_sums_filled [OF pm1] n by (simp add: filled_def)
  then show ?thesis unfolding row_lin_def by (auto simp: pow intro!: xsum_cong)
qed

lemma mul_p_table:
  assumes "pm_memory junk"
  shows "mul_p (pm_table junk p) x = MUL64 p x 0x1b"
proof -
  define g where "g i = xsum (\<lambda>b. if bit x (8 * i + b) then MULxPOW64 p (8 * i + b) 0x1b else 0) 8" for i
  have bits: "bit (unat (drop_bit (8 * i) x AND 255)) b \<longleftrightarrow> bit x (8 * i + b)" if "b < 8" for i b
  proof -
    have m: "(255::u64) = mask 8" by (simp add: mask_eq_exp_minus_1)
    show ?thesis unfolding m using that by (simp add: bit_simps add.commute)
  qed
  have lt: "unat (drop_bit (8 * i) x AND 255) < 256" for i
  proof -
    have "(255::u64) = mask 8" by (simp add: mask_eq_exp_minus_1)
    then show ?thesis using and_mask_less' [of 8 "drop_bit (8 * i) x"] by (simp add: word_less_nat_alt)
  qed
  have row: "pm_table junk p ! i ! unat (drop_bit (8 * i) x AND 255) = g i" if "i < 8" for i
    using pm_table_row [OF assms that lt] by (simp add: g_def bits cong: xsum_cong)
  have "n \<le> 8 \<Longrightarrow> xsum (\<lambda>i. if bit x i then MULxPOW64 p i 0x1b else 0) (8 * n) = xsum g n" for n
    by (induction n) (simp_all add: xsum_add g_def add.commute [of 8])
  from this [of 8] have "MUL64 p x 0x1b = xsum g 8" by (simp add: MUL64_xsum)
  also have "\<dots> = mul_p (pm_table junk p) x"
    unfolding mul_p_def Let_def xsum_8 by (subst row, simp)+ (rule refl)
  finally show ?thesis by simp
qed

section \<open>The integrity function with plain multiplication\<close>

fun eval_spec :: "u64 \<Rightarrow> u64 list \<Rightarrow> u64 \<Rightarrow> u64" where
  "eval_spec p [] eval = eval"
| "eval_spec p (m # ms) eval = eval_spec p ms (MUL64 p (eval XOR m) 0x1b)"

text \<open>The message in blocks of 8 bytes; the last one is filled up with zeros by \<^const>\<open>GET64\<close>.\<close>

definition blocks :: "bytes \<Rightarrow> u64 list" where
  "blocks inp = map (\<lambda>i. GET64 (take 8 (drop (8 * i) inp))) [0 ..< (length inp + 7) div 8]"

definition integrity_spec :: "u32 \<Rightarrow> u32 \<Rightarrow> int \<Rightarrow> bytes \<Rightarrow> bytes \<Rightarrow> bytes" where
  "integrity_spec cnt fresh direction key inp =
     (let z = keystream_spec 5 (snow3g_spec (swap_key key) (integrity_iv cnt fresh direction));
          eval = eval_spec (word64 (z ! 0) (z ! 1)) (blocks inp) 0
      in be_bytes (ucast (drop_bit 32 (MUL64 (eval XOR of_nat (8 * length inp)) (word64 (z ! 2) (z ! 3)) 0x1b)) XOR z ! 4))"

lemma eval_spec_append: "eval_spec p (ms @ ms') e = eval_spec p ms' (eval_spec p ms e)"
  by (induction ms arbitrary: e) simp_all

lemma eval_blocks_spec:
  assumes "pm_memory junk" and "\<forall>i \<in> set is. 8 * i + 8 \<le> length inp"
  shows "eval_blocks (pm_table junk p) inp is e = Inr (eval_spec p (map (\<lambda>i. GET64 (take 8 (drop (8 * i) inp))) is) e)"
  using assms(2)
proof (induction "is" arbitrary: e)
  case (Cons i "is")
  have "mem_read inp (int i * 8) 8 = Inr (take 8 (drop (8 * i) inp))"
    using Cons.prems by (subst mem_read_ok) (auto simp: nat_mult_distrib mult.commute)
  then show ?case using Cons by (simp add: mul_p_table [OF assms(1)])
qed simp

lemma integrity_fresh_spec:
  assumes "length junk = 16" and pm: "pm_memory pm_junk" and inp: "inp \<noteq> []"
  shows "snow3g_integrity_fresh junk pm_junk cnt fresh direction key inp = Inr (integrity_spec cnt fresh direction key inp)"
proof -
  define k where "k = (length inp - 1) div 8"
  have len: "8 * k < length inp" "length inp \<le> 8 * k + 8" "(length inp + 7) div 8 = Suc k"
    using inp by (cases inp; simp add: k_def; linarith)+
  have d: "(int (length inp) * 8 + 63) div 64 + 1 - 2 = int k"
    using len(1,2) by linarith
  let ?z = "keystream_spec 5 (snow3g_spec (swap_key key) (integrity_iv cnt fresh direction))"
  let ?p = "word64 (?z ! 0) (?z ! 1)"
  have b: "eval_blocks (pm_table pm_junk ?p) inp [0 ..< k] 0
      = Inr (eval_spec ?p (map (\<lambda>i. GET64 (take 8 (drop (8 * i) inp))) [0 ..< k]) 0)"
    by (rule eval_blocks_spec [OF pm]) (use len in auto)
  have r: "mem_read inp (int k * 8) (min 8 (int (length inp) - int k * 8)) = Inr (take 8 (drop (8 * k) inp))"
    using len by (subst mem_read_ok) (auto simp: nat_mult_distrib mult.commute min_def nat_diff_distrib)
  have n: "word_of_int (int (length inp) * 8) = (of_nat (8 * length inp) :: u64)"
    by (simp add: mult.commute)
  show ?thesis
    unfolding snow3g_integrity_fresh_def Let_def keystream_init [OF assms(1)] d nat_int b bindR_Inr r n
    by (simp add: integrity_spec_def Let_def blocks_def len(3) eval_spec_append mul_p_table [OF pm])
qed

section \<open>Properties\<close>

text \<open>
  C7: the keystream of the register that is kept twice with a moving pointer is the keystream of the
  plain register whose sixteen words are shifted in every step, for every key and vector; it does not
  depend on the contents of the uninitialised half of the array.
\<close>

theorem snow3g_keystream_equivalence:
  assumes "length junk = 16"
  shows "keystream_words n (snow3g_init junk key iv) = keystream_spec n (snow3g_spec key iv)"
  using keystream_init [OF assms] .

theorem snow3g_keystream_equivalence_witness:
  "keystream_words 3 (snow3g_init (replicate 16 7) (replicate 16 1) (replicate 16 2))
     = keystream_words 3 (snow3g_init (replicate 16 0) (replicate 16 1) (replicate 16 2))"
  using snow3g_keystream_equivalence [of "replicate 16 7" 3 "replicate 16 1" "replicate 16 2"]
    snow3g_keystream_equivalence [of "replicate 16 0" 3 "replicate 16 1" "replicate 16 2"] by simp

text \<open>
  C8: the multiplication of the integrity function through the precomputed table of \<^verbatim>\<open>_snow3g_integrity\<close>
  is the plain multiplication \<^verbatim>\<open>MUL64\<close> by the table's factor, for every word.
\<close>

theorem mul_p_is_MUL64:
  assumes "pm_memory junk"
  shows "mul_p (pm_table junk p) x = MUL64 p x 0x1b"
  using mul_p_table [OF assms] .

theorem mul_p_is_MUL64_witness:
  "mul_p (pm_table (replicate 8 (replicate 256 5)) 3) 6 = MUL64 3 6 0x1b"
  using mul_p_is_MUL64 [of "replicate 8 (replicate 256 5)" 3 6] by (simp add: pm_memory_def)

text \<open>
  C9: ciphering twice with the same counter, bearer, direction and key gives the message back: the same
  function deciphers.
\<close>

theorem snow3g_ciphering_involution:
  assumes "length junk = 16" and "length junk' = 16"
  shows "snow3g_ciphering junk' cnt bearer direction key (snow3g_ciphering junk cnt bearer direction key inp) = inp"
  using snow3g_decipher [OF assms] .

theorem snow3g_ciphering_involution_witness:
  "snow3g_ciphering (replicate 16 1) 5 2 1 (replicate 16 9) (snow3g_ciphering (replicate 16 0) 5 2 1 (replicate 16 9) [1, 2, 3])
     = [1, 2, 3]"
  using snow3g_ciphering_involution [of "replicate 16 0" "replicate 16 1" 5 2 1 "replicate 16 9" "[1, 2, 3]"] by simp

text \<open>
  C10: the integrity function is total on nonempty messages and equals the polynomial evaluation with
  plain multiplication; on an empty message it reads in front of the message.
\<close>

theorem snow3g_integrity_correct:
  assumes "length junk = 16" and "pm_memory pm_junk"
  shows "snow3g_integrity junk pm_junk cnt bearer direction key inp =
    (if inp = [] then Inl Out_Of_Bounds
     else Inr (integrity_spec cnt (push_bit 27 (word_of_int bearer)) direction key inp))"
  using assms
  by (simp add: snow3g_integrity_def integrity_fresh_spec)
     (simp add: snow3g_integrity_fresh_def Let_def mem_read_def)

theorem snow3g_integrity_correct_witness:
  "snow3g_integrity (replicate 16 0) (replicate 8 (replicate 256 0)) 5 2 1 (replicate 16 9) [] = Inl Out_Of_Bounds"
  using snow3g_integrity_correct [of "replicate 16 0" "replicate 8 (replicate 256 0)" 5 2 1 "replicate 16 9" "[]"]
  by (simp add: pm_memory_def)

end
