(* ===== verification/Pdcp_Sdu.thy ===== *)
theory Pdcp_Sdu
  imports Prelude
begin

text \<open>
  Model of \<^verbatim>\<open>openair2/LAYER2/nr_pdcp/nr_pdcp_sdu.c\<close>: the SDUs a receiving PDCP entity holds
  back, in a list ordered by their COUNT value.
\<close>

record nr_pdcp_integrity_data_t =
  id_count :: u32
  id_mac :: bytes
  id_header_size :: nat
  id_header :: bytes

record nr_pdcp_sdu_t =
  ps_count :: u32
  ps_buffer :: bytes
  ps_size :: int
  ps_msg_integrity :: nr_pdcp_integrity_data_t

definition nr_pdcp_new_sdu :: "u32 \<Rightarrow> bytes \<Rightarrow> nr_pdcp_integrity_data_t \<Rightarrow> nr_pdcp_sdu_t" where
  "nr_pdcp_new_sdu cnt buffer msg_integrity =
     \<lparr> ps_count = cnt, ps_buffer = buffer, ps_size = int (length buffer), ps_msg_integrity = msg_integrity \<rparr>"

fun nr_pdcp_sdu_list_add :: "nr_pdcp_sdu_t list \<Rightarrow> nr_pdcp_sdu_t \<Rightarrow> nr_pdcp_sdu_t list" where
  "nr_pdcp_sdu_list_add [] sdu = [sdu]"
| "nr_pdcp_sdu_list_add (cur # l) sdu =
     (if ps_count sdu < ps_count cur then sdu # cur # l else cur # nr_pdcp_sdu_list_add l sdu)"

fun nr_pdcp_sdu_in_list :: "nr_pdcp_sdu_t list \<Rightarrow> u32 \<Rightarrow> bool" where
  "nr_pdcp_sdu_in_list [] cnt = False"
| "nr_pdcp_sdu_in_list (l # ls) cnt = (ps_count l = cnt \<or> nr_pdcp_sdu_in_list ls cnt)"

section \<open>Lemmas\<close>

definition sdu_after :: "nr_pdcp_sdu_t \<Rightarrow> nr_pdcp_sdu_t \<Rightarrow> bool" where
  "sdu_after cur sdu \<longleftrightarrow> ps_count sdu < ps_count cur"

lemma nr_pdcp_sdu_list_add_eq: "nr_pdcp_sdu_list_add l sdu = ordered_add sdu_after l sdu"
  by (induction l) (auto simp: sdu_after_def)

abbreviation counts :: "nr_pdcp_sdu_t list \<Rightarrow> u32 list" where
  "counts l \<equiv> map ps_count l"

lemma in_list_iff: "nr_pdcp_sdu_in_list l cnt \<longleftrightarrow> cnt \<in> set (counts l)"
  by (induction l) auto

lemma set_sdu_list_add [simp]: "set (nr_pdcp_sdu_list_add l sdu) = insert sdu (set l)"
  by (induction l) auto

lemma mset_sdu_list_add: "mset (nr_pdcp_sdu_list_add l sdu) = add_mset sdu (mset l)"
  by (induction l) auto

interpretation pdl: ordered_list "\<lambda>_::unit. \<lambda>_. True" "\<lambda>_. sdu_after"
  by unfold_locales (auto simp: sdu_after_def)

lemma sorted_counts_iff: "sorted_wrt (<) (counts l) \<longleftrightarrow> pdl.ordered () l \<and> distinct (counts l)"
  by (induction l) (auto simp: sdu_after_def not_less le_less)

lemma sorted_sdu_list_add:
  assumes "sorted_wrt (<) (counts l)" and "\<not> nr_pdcp_sdu_in_list l (ps_count sdu)"
  shows "sorted_wrt (<) (counts (nr_pdcp_sdu_list_add l sdu))"
proof -
  have "pdl.ordered () (nr_pdcp_sdu_list_add l sdu)"
    unfolding nr_pdcp_sdu_list_add_eq using assms(1) by (auto simp: sorted_counts_iff intro!: pdl.ordered_add_ordered)
  moreover have "distinct (counts (nr_pdcp_sdu_list_add l sdu)) \<longleftrightarrow> distinct (counts (sdu # l))"
    using mset_sdu_list_add [of l sdu] by (metis mset.simps(2) mset_eq_imp_distinct_iff mset_map)
  ultimately show ?thesis
    using assms by (simp add: sorted_counts_iff in_list_iff)
qed

end
