(* ===== verification/Pdcp_Security.thy ===== *)
theory Pdcp_Security
  imports Snow3g_Spec
begin

unbundle bit_operations_syntax

text \<open>
  Model of the ciphering and integrity functions a PDCP entity calls:
  \<^verbatim>\<open>nr_pdcp_security_nea1.c\<close>, \<^verbatim>\<open>nr_pdcp_security_nea2.c\<close>,
  \<^verbatim>\<open>nr_pdcp_integrity_nia1.c\<close> and \<^verbatim>\<open>nr_pdcp_integrity_nia2.c\<close> of
  \<^verbatim>\<open>openair2/LAYER2/nr_pdcp\<close>, with the parts of \<^verbatim>\<open>openair3/SECU\<close> they use.

  NEA1 and NIA1 run the SNOW 3G code of \<^verbatim>\<open>Snow3g\<close>. NEA2 and NIA2 call AES in OpenSSL: AES-128 in
  counter mode and the CMAC over AES-128 are arguments of the model, in the record \<open>secu_env\<close>
  together with the contents of the stack memory that the SNOW 3G code does not initialise.
\<close>

record secu_env =
  se_stack32 :: "u32 list"
  se_stack64 :: "u64 list list"
  se_aes_ctr :: "bytes \<Rightarrow> bytes \<Rightarrow> bytes \<Rightarrow> bytes"
  se_aes_cmac :: "bytes \<Rightarrow> bytes \<Rightarrow> bytes"

text \<open>
  \<^verbatim>\<open>nas_stream_cipher_t\<close> keeps the bearer and the direction in 8 bits and the length in bits in
  32 bits; the length is divided by 8 again.
\<close>

definition u8_int :: "int \<Rightarrow> int" where
  "u8_int a = a mod 256"

definition nas_stream_encrypt_eea1 :: "secu_env \<Rightarrow> bytes \<Rightarrow> u32 \<Rightarrow> int \<Rightarrow> int \<Rightarrow> bytes \<Rightarrow> bytes" where
  "nas_stream_encrypt_eea1 env key cnt bearer direction message =
     snow3g_ciphering (se_stack32 env) cnt bearer direction key message"

definition nas_stream_encrypt_eia1 :: "secu_env \<Rightarrow> bytes \<Rightarrow> u32 \<Rightarrow> int \<Rightarrow> int \<Rightarrow> bytes \<Rightarrow> bytes res" where
  "nas_stream_encrypt_eia1 env key cnt bearer direction message =
     snow3g_integrity (se_stack32 env) (se_stack64 env) cnt bearer direction key message"

definition nr_pdcp_security_nea1_cipher ::
    "secu_env \<Rightarrow> bytes \<Rightarrow> bytes \<Rightarrow> int \<Rightarrow> u32 \<Rightarrow> int \<Rightarrow> bytes res" where
  "nr_pdcp_security_nea1_cipher env key buffer bearer cnt direction =
     Inr (nas_stream_encrypt_eea1 env key cnt (u8_int (bearer - 1)) (u8_int direction) buffer)"

definition nr_pdcp_integrity_nia1_integrity ::
    "secu_env \<Rightarrow> bytes \<Rightarrow> bytes \<Rightarrow> int \<Rightarrow> u32 \<Rightarrow> int \<Rightarrow> bytes res" where
  "nr_pdcp_integrity_nia1_integrity env key buffer bearer cnt direction =
     nas_stream_encrypt_eia1 env key cnt (u8_int (bearer - 1)) (u8_int direction) buffer"

text \<open>
  The initialisation vectors are structures with bit fields: two bits of padding, one of direction and
  five of bearer in the fifth byte.
\<close>

definition iv_byte :: "int \<Rightarrow> int \<Rightarrow> u8" where
  "iv_byte bearer direction = word_of_int (push_bit 3 (bearer mod 32) OR push_bit 2 (direction mod 2))"

definition data_iv16_t :: "u32 \<Rightarrow> int \<Rightarrow> int \<Rightarrow> bytes" where
  "data_iv16_t cnt bearer direction = be_bytes cnt @ [iv_byte bearer direction] @ replicate 11 0"

definition data_iv8_t :: "u32 \<Rightarrow> int \<Rightarrow> int \<Rightarrow> bytes" where
  "data_iv8_t cnt bearer direction = be_bytes cnt @ [iv_byte bearer direction] @ replicate 3 0"

definition nr_pdcp_security_nea2_cipher ::
    "secu_env \<Rightarrow> bytes \<Rightarrow> bytes \<Rightarrow> int \<Rightarrow> u32 \<Rightarrow> int \<Rightarrow> bytes res" where
  "nr_pdcp_security_nea2_cipher env key buffer bearer cnt direction =
     (if \<not> length buffer > 0 \<or> \<not> (bearer > -1 \<and> bearer < 32) \<or> \<not> (direction > -1 \<and> direction < 2) then Inl Abort
      else Inr (se_aes_ctr env key (data_iv16_t cnt (bearer - 1) direction) buffer))"

definition cipher_aes_128_cbc_cmac :: "secu_env \<Rightarrow> bytes \<Rightarrow> bytes \<Rightarrow> bytes \<Rightarrow> bytes" where
  "cipher_aes_128_cbc_cmac env key iv msg = se_aes_cmac env key (iv @ msg)"

definition nr_pdcp_integrity_nia2_integrity ::
    "secu_env \<Rightarrow> bytes \<Rightarrow> bytes \<Rightarrow> int \<Rightarrow> u32 \<Rightarrow> int \<Rightarrow> bytes res" where
  "nr_pdcp_integrity_nia2_integrity env key buffer bearer cnt direction =
     (if \<not> (bearer > 0 \<and> bearer < 33) then Inl Abort
      else Inr (take 4 (cipher_aes_128_cbc_cmac env key (data_iv8_t cnt (bearer - 1) direction) buffer)))"

section \<open>The contract of the algorithms\<close>

text \<open>
  What is documented of OpenSSL: counter mode keeps the length and is its own inverse, and a CMAC over
  AES-128 has 16 bytes.
\<close>

definition secu_ok :: "secu_env \<Rightarrow> bool" where
  "secu_ok env \<longleftrightarrow> length (se_stack32 env) = 16 \<and> pm_memory (se_stack64 env)
     \<and> (\<forall>key iv m. length (se_aes_ctr env key iv m) = length m \<and> se_aes_ctr env key iv (se_aes_ctr env key iv m) = m)
     \<and> (\<forall>key m. length (se_aes_cmac env key m) = 16)"

text \<open>
  A stream cipher: for every admitted call it succeeds, keeps the length and is its own inverse. An
  integrity algorithm gives four bytes.
\<close>

locale pdcp_cipher =
  fixes admit :: "'e \<Rightarrow> bytes \<Rightarrow> int \<Rightarrow> bool"
    and cipher :: "'e \<Rightarrow> bytes \<Rightarrow> bytes \<Rightarrow> int \<Rightarrow> u32 \<Rightarrow> int \<Rightarrow> bytes res"
  assumes cipher_inverse: "admit e m bearer \<Longrightarrow> direction \<in> {0, 1} \<Longrightarrow>
      \<exists>c. cipher e key m bearer cnt direction = Inr c \<and> length c = length m
        \<and> cipher e key c bearer cnt direction = Inr m"
begin

lemma cipher_ok:
  assumes "admit e m bearer" and "direction \<in> {0, 1}"
  obtains c where "cipher e key m bearer cnt direction = Inr c" "length c = length m"
    "cipher e key c bearer cnt direction = Inr m"
  using cipher_inverse [OF assms] by blast

end

locale pdcp_integrity =
  fixes admit_mac :: "'e \<Rightarrow> bytes \<Rightarrow> int \<Rightarrow> bool"
    and integrity :: "'e \<Rightarrow> bytes \<Rightarrow> bytes \<Rightarrow> int \<Rightarrow> u32 \<Rightarrow> int \<Rightarrow> bytes res"
  assumes integrity_mac: "admit_mac e m bearer \<Longrightarrow> \<exists>mac. integrity e key m bearer cnt direction = Inr mac \<and> length mac = 4"

interpretation nea1: pdcp_cipher "\<lambda>env _ _. secu_ok env" nr_pdcp_security_nea1_cipher
  by unfold_locales
     (auto simp: nr_pdcp_security_nea1_cipher_def nas_stream_encrypt_eea1_def secu_ok_def
        length_snow3g_ciphering snow3g_decipher)

interpretation nea2: pdcp_cipher "\<lambda>env m bearer. secu_ok env \<and> m \<noteq> [] \<and> 0 \<le> bearer \<and> bearer < 32" nr_pdcp_security_nea2_cipher
proof unfold_locales
  fix env :: secu_env and m key :: bytes and bearer direction :: int and cnt :: u32
  assume a: "secu_ok env \<and> m \<noteq> [] \<and> 0 \<le> bearer \<and> bearer < 32" and d: "direction \<in> {0, 1}"
  let ?c = "se_aes_ctr env key (data_iv16_t cnt (bearer - 1) direction) m"
  have "length ?c = length m" "se_aes_ctr env key (data_iv16_t cnt (bearer - 1) direction) ?c = m"
    using a by (auto simp: secu_ok_def)
  then show "\<exists>c. nr_pdcp_security_nea2_cipher env key m bearer cnt direction = Inr c \<and> length c = length m
      \<and> nr_pdcp_security_nea2_cipher env key c bearer cnt direction = Inr m"
    using a d by (auto simp: nr_pdcp_security_nea2_cipher_def intro!: exI [of _ ?c])
qed

interpretation nia1: pdcp_integrity "\<lambda>env m _. secu_ok env \<and> m \<noteq> []" nr_pdcp_integrity_nia1_integrity
proof unfold_locales
  fix env :: secu_env and m key :: bytes and bearer direction :: int and cnt :: u32
  assume a: "secu_ok env \<and> m \<noteq> []"
  then have "\<exists>mac. snow3g_integrity (se_stack32 env) (se_stack64 env) cnt b d key m = Inr mac \<and> length mac = 4" for b d
    by (simp add: snow3g_integrity_def integrity_fresh_spec secu_ok_def integrity_spec_def Let_def)
  then show "\<exists>mac. nr_pdcp_integrity_nia1_integrity env key m bearer cnt direction = Inr mac \<and> length mac = 4"
    by (simp add: nr_pdcp_integrity_nia1_integrity_def nas_stream_encrypt_eia1_def)
qed

interpretation nia2: pdcp_integrity "\<lambda>env _ bearer. secu_ok env \<and> 0 < bearer \<and> bearer < 33" nr_pdcp_integrity_nia2_integrity
  by unfold_locales (auto simp: nr_pdcp_integrity_nia2_integrity_def cipher_aes_128_cbc_cmac_def secu_ok_def)

end
