(* ===== verification/Pdcp_Entity.thy ===== *)
theory Pdcp_Entity
  imports Pdcp_Sdu Pdcp_Security
begin

unbundle bit_operations_syntax

text \<open>
  Model of \<^verbatim>\<open>openair2/LAYER2/nr_pdcp/nr_pdcp_entity.c\<close>: header compression is not used in this
  code, so an entity numbers SDUs with a COUNT value, protects and ciphers them on one side, and checks,
  deciphers and reorders them on the other.

  COUNT values are 32 bit words that wrap. The delivery callback is recorded in
  \<open>pe_delivered\<close>: the SDUs it was called for, in the order of the calls. The
  ciphering and integrity contexts with their function pointers are the algorithm with its key; the
  context of NEA2 is a pointer to the key inside the entity.
\<close>

definition SHORT_SN_SIZE :: nat where "SHORT_SN_SIZE = 12"
definition LONG_SN_SIZE :: nat where "LONG_SN_SIZE = 18"
definition SHORT_PDCP_HEADER_SIZE :: nat where "SHORT_PDCP_HEADER_SIZE = 2"
definition LONG_PDCP_HEADER_SIZE :: nat where "LONG_PDCP_HEADER_SIZE = 3"
definition PDCP_INTEGRITY_SIZE :: nat where "PDCP_INTEGRITY_SIZE = 4"

lemmas pdcp_sizes = SHORT_SN_SIZE_def LONG_SN_SIZE_def SHORT_PDCP_HEADER_SIZE_def LONG_PDCP_HEADER_SIZE_def
  PDCP_INTEGRITY_SIZE_def

datatype nr_pdcp_entity_type_t = NR_PDCP_DRB_AM | NR_PDCP_DRB_UM | NR_PDCP_SRB

record nr_pdcp_entity_security_keys_and_algos_t =
  sp_integrity_algorithm :: int
  sp_ciphering_algorithm :: int
  sp_integrity_key :: bytes
  sp_ciphering_key :: bytes

record nr_pdcp_count_t =
  pc_sn :: u32
  pc_hfn :: u32

record nr_pdcp_statistics_t =
  pst_txpdu_pkts :: u32
  pst_txpdu_bytes :: u32
  pst_txpdu_sn :: u32
  pst_rxpdu_pkts :: u32
  pst_rxpdu_bytes :: u32
  pst_rxpdu_sn :: u32
  pst_rxpdu_oo_pkts :: u32
  pst_rxpdu_oo_bytes :: u32
  pst_rxpdu_dd_pkts :: u32
  pst_rxpdu_dd_bytes :: u32
  pst_rxpdu_ro_count :: u32
  pst_txsdu_pkts :: u32
  pst_txsdu_bytes :: u32
  pst_rxsdu_pkts :: u32
  pst_rxsdu_bytes :: u32
  pst_mode :: u8

datatype security_context = Nea1 bytes | Nea2
datatype integrity_context = Nia1 bytes | Nia2 bytes

record nr_pdcp_entity_t =
  pe_type :: nr_pdcp_entity_type_t
  pe_delivered :: "nr_pdcp_sdu_t list"
  pe_rb_id :: int
  pe_pdusession_id :: int
  pe_has_sdap_rx :: bool
  pe_has_sdap_tx :: bool
  pe_sn_size :: nat
  pe_t_reordering :: int
  pe_discard_timer :: int
  pe_sn_max :: int
  pe_window_size :: int
  pe_tx_next :: u32
  pe_rx_next :: u32
  pe_rx_deliv :: u32
  pe_rx_reord :: u32
  pe_t_current :: u64
  pe_t_reordering_start :: u64
  pe_has_ciphering :: bool
  pe_has_integrity :: bool
  pe_security_keys_and_algos :: nr_pdcp_entity_security_keys_and_algos_t
  pe_security :: "security_context option"
  pe_integrity :: "integrity_context option"
  pe_is_gnb :: bool
  pe_rx_list :: "nr_pdcp_sdu_t list"
  pe_rx_size :: int
  pe_rx_maxsize :: int
  pe_stats :: nr_pdcp_statistics_t
  pe_entity_suspended :: bool

definition nr_max_pdcp_pdu_size :: "int \<Rightarrow> int" where
  "nr_max_pdcp_pdu_size sdu_sz = sdu_sz + int LONG_PDCP_HEADER_SIZE + int PDCP_INTEGRITY_SIZE"

definition with_pstats :: "(nr_pdcp_statistics_t \<Rightarrow> nr_pdcp_statistics_t) \<Rightarrow> nr_pdcp_entity_t \<Rightarrow> nr_pdcp_entity_t" where
  "with_pstats f e = e\<lparr>pe_stats := f (pe_stats e)\<rparr>"

section \<open>Calls through the function pointers\<close>

definition pdcp_cipher_call :: "secu_env \<Rightarrow> nr_pdcp_entity_t \<Rightarrow> bytes \<Rightarrow> u32 \<Rightarrow> int \<Rightarrow> bytes res" where
  "pdcp_cipher_call env e buffer cnt direction =
     (case pe_security e of
        None \<Rightarrow> Inl Null_Deref
      | Some (Nea1 key) \<Rightarrow> nr_pdcp_security_nea1_cipher env key buffer (pe_rb_id e) cnt direction
      | Some Nea2 \<Rightarrow> nr_pdcp_security_nea2_cipher env (sp_ciphering_key (pe_security_keys_and_algos e)) buffer
                       (pe_rb_id e) cnt direction)"

definition pdcp_integrity_call :: "secu_env \<Rightarrow> nr_pdcp_entity_t \<Rightarrow> bytes \<Rightarrow> u32 \<Rightarrow> int \<Rightarrow> bytes res" where
  "pdcp_integrity_call env e buffer cnt direction =
     (case pe_integrity e of
        None \<Rightarrow> Inl Null_Deref
      | Some (Nia1 key) \<Rightarrow> nr_pdcp_integrity_nia1_integrity env key buffer (pe_rb_id e) cnt direction
      | Some (Nia2 key) \<Rightarrow> nr_pdcp_integrity_nia2_integrity env key buffer (pe_rb_id e) cnt direction)"

text \<open>Ciphering in place, from offset \<open>k\<close> on.\<close>

definition cipher_from :: "secu_env \<Rightarrow> nr_pdcp_entity_t \<Rightarrow> nat \<Rightarrow> bytes \<Rightarrow> u32 \<Rightarrow> int \<Rightarrow> bytes res" where
  "cipher_from env e k buffer cnt direction =
     (if pe_has_ciphering e
      then bindR (pdcp_cipher_call env e (drop k buffer) cnt direction) (\<lambda>c. Inr (take k buffer @ c))
      else Inr buffer)"

section \<open>Reception\<close>

definition deliver_head :: "nr_pdcp_entity_t \<Rightarrow> nr_pdcp_sdu_t \<Rightarrow> nr_pdcp_sdu_t list \<Rightarrow> nr_pdcp_entity_t" where
  "deliver_head e cur rest =
     with_pstats (\<lambda>st. st\<lparr>pst_txsdu_pkts := pst_txsdu_pkts st + 1,
                         pst_txsdu_bytes := pst_txsdu_bytes st + word_of_int (ps_size cur)\<rparr>)
       (e\<lparr>pe_delivered := pe_delivered e @ [cur],
          pe_rx_list := rest, pe_rx_size := pe_rx_size e - ps_size cur\<rparr>)"

text \<open>The loops walk the reception list; the list argument is \<^verbatim>\<open>rx_list\<close>.\<close>

fun deliver_in_order :: "nr_pdcp_entity_t \<Rightarrow> u32 \<Rightarrow> nr_pdcp_sdu_t list \<Rightarrow> nr_pdcp_entity_t \<times> u32" where
  "deliver_in_order e cnt [] = (e, cnt)"
| "deliver_in_order e cnt (cur # l) =
     (if cnt = ps_count cur then deliver_in_order (deliver_head e cur l) (cnt + 1) l else (e, cnt))"

fun deliver_below :: "nr_pdcp_entity_t \<Rightarrow> nr_pdcp_sdu_t list \<Rightarrow> nr_pdcp_entity_t" where
  "deliver_below e [] = e"
| "deliver_below e (cur # l) =
     (if ps_count cur < pe_rx_reord e then deliver_below (deliver_head e cur l) l else e)"

definition pdcp_header_size :: "nr_pdcp_entity_t \<Rightarrow> nat" where
  "pdcp_header_size e = (if pe_sn_size e = SHORT_SN_SIZE then SHORT_PDCP_HEADER_SIZE else LONG_PDCP_HEADER_SIZE)"

definition pdcp_integrity_size :: "nr_pdcp_entity_t \<Rightarrow> nat" where
  "pdcp_integrity_size e = (if pe_has_integrity e \<or> pe_type e = NR_PDCP_SRB then PDCP_INTEGRITY_SIZE else 0)"

text \<open>The sequence number is read before the length of the PDU is checked.\<close>

definition pdcp_rcvd_sn :: "nr_pdcp_entity_t \<Rightarrow> bytes \<Rightarrow> int res" where
  "pdcp_rcvd_sn e buffer =
     bindR (mem_read buffer 0 (int (pdcp_header_size e))) (\<lambda>h.
       Inr (if pe_sn_size e = SHORT_SN_SIZE
            then push_bit 8 (uint (h ! 0) AND 0xf) OR uint (h ! 1)
            else push_bit 16 (uint (h ! 0) AND 0x3) OR push_bit 8 (uint (h ! 1)) OR uint (h ! 2)))"

definition pdcp_rcvd_count :: "nr_pdcp_entity_t \<Rightarrow> int \<Rightarrow> u32" where
  "pdcp_rcvd_count e rcvd_sn =
     (let rx_deliv_sn = sint (pe_rx_deliv e AND word_of_int (pe_sn_max e));
          rx_deliv_hfn = drop_bit (pe_sn_size e) (pe_rx_deliv e);
          rcvd_hfn = (if rcvd_sn < rx_deliv_sn - pe_window_size e then rx_deliv_hfn + 1
                      else if rcvd_sn \<ge> rx_deliv_sn + pe_window_size e then rx_deliv_hfn - 1
                      else rx_deliv_hfn)
      in push_bit (pe_sn_size e) rcvd_hfn OR word_of_int rcvd_sn)"

definition zero_integrity_data :: nr_pdcp_integrity_data_t where
  "zero_integrity_data = \<lparr> id_count = 0, id_mac = replicate 4 0, id_header_size = 0, id_header = replicate 3 0 \<rparr>"

definition pdcp_msg_integrity :: "nr_pdcp_entity_t \<Rightarrow> bytes \<Rightarrow> u32 \<Rightarrow> nr_pdcp_integrity_data_t" where
  "pdcp_msg_integrity e buffer cnt =
     (if pe_has_integrity e \<or> pe_type e = NR_PDCP_SRB
      then \<lparr> id_count = cnt, id_mac = drop (length buffer - 4) buffer, id_header_size = pdcp_header_size e,
             id_header = take (pdcp_header_size e) buffer @ replicate (3 - pdcp_header_size e) 0 \<rparr>
      else zero_integrity_data)"

definition pdcp_discard :: "nr_pdcp_entity_t \<Rightarrow> nat \<Rightarrow> nr_pdcp_entity_t" where
  "pdcp_discard e n =
     with_pstats (\<lambda>st. st\<lparr>pst_rxpdu_dd_pkts := pst_rxpdu_dd_pkts st + 1,
                         pst_rxpdu_dd_bytes := pst_rxpdu_dd_bytes st + of_nat n\<rparr>) e"

definition pdcp_timers :: "nr_pdcp_entity_t \<Rightarrow> nr_pdcp_entity_t" where
  "pdcp_timers e =
     (let e1 = (if pe_t_reordering_start e \<noteq> 0 \<and> pe_rx_deliv e \<ge> pe_rx_reord e
                then e\<lparr>pe_t_reordering_start := 0\<rparr> else e)
      in if pe_t_reordering_start e1 = 0 \<and> pe_rx_deliv e1 < pe_rx_next e1
         then e1\<lparr>pe_rx_reord := pe_rx_next e1, pe_t_reordering_start := pe_t_current e1\<rparr> else e1)"

text \<open>A PDU that passed all checks: \<open>n\<close> is its size without the header.\<close>

definition pdcp_accept :: "nr_pdcp_entity_t \<Rightarrow> u32 \<Rightarrow> nr_pdcp_sdu_t \<Rightarrow> nat \<Rightarrow> nr_pdcp_entity_t" where
  "pdcp_accept e rcvd_count sdu n =
     (let e1 = e\<lparr>pe_rx_list := nr_pdcp_sdu_list_add (pe_rx_list e) sdu, pe_rx_size := pe_rx_size e + int n\<rparr>;
          e2 = (if rcvd_count \<ge> pe_rx_next e1 then e1\<lparr>pe_rx_next := rcvd_count + 1\<rparr> else e1);
          e3 = (if rcvd_count = pe_rx_deliv e2
                then (let (e', cnt) = deliver_in_order e2 (pe_rx_deliv e2) (pe_rx_list e2) in e'\<lparr>pe_rx_deliv := cnt\<rparr>)
                else e2)
      in pdcp_timers e3)"

text \<open>A PDU of sufficient length with its COUNT value: deciphering, integrity, duplicates.\<close>

definition pdcp_recv_counted :: "secu_env \<Rightarrow> nr_pdcp_entity_t \<Rightarrow> bytes \<Rightarrow> nat \<Rightarrow> u32 \<Rightarrow> nr_pdcp_entity_t res" where
  "pdcp_recv_counted env e buffer sdap_header_size rcvd_count =
     (let n = length buffer;
          header_size = pdcp_header_size e;
          integrity_size = pdcp_integrity_size e;
          direction = (if pe_is_gnb e then 0 else 1);
          msg_integrity = pdcp_msg_integrity e buffer rcvd_count
      in bindR (cipher_from env e (header_size + sdap_header_size) buffer rcvd_count direction) (\<lambda>plain.
         bindR (if pe_has_integrity e
                then bindR (pdcp_integrity_call env e (take (n - integrity_size) plain) rcvd_count direction)
                       (\<lambda>mac. Inr (mac = drop (n - integrity_size) plain))
                else Inr True) (\<lambda>integrity_ok.
           Inr (if \<not> integrity_ok then pdcp_discard e n
                else if rcvd_count < pe_rx_deliv e \<or> nr_pdcp_sdu_in_list (pe_rx_list e) rcvd_count
                then pdcp_discard e n
                else pdcp_accept e rcvd_count
                       (nr_pdcp_new_sdu rcvd_count (drop header_size (take (n - integrity_size) plain)) msg_integrity)
                       (n - header_size)))))"

definition nr_pdcp_entity_recv_pdu :: "secu_env \<Rightarrow> nr_pdcp_entity_t \<Rightarrow> bytes \<Rightarrow> nr_pdcp_entity_t res" where
  "nr_pdcp_entity_recv_pdu env entity buffer0 =
     (if pe_entity_suspended entity then Inr entity
      else case buffer0 of
        [] \<Rightarrow> Inr entity
      | b0 # bs \<Rightarrow>
          let buffer = (if pe_type entity \<noteq> NR_PDCP_SRB \<and> b0 AND 0x80 = 0 then (b0 OR 128) # bs else b0 # bs);
              n = length buffer;
              e0 = with_pstats (\<lambda>st. st\<lparr>pst_rxpdu_pkts := pst_rxpdu_pkts st + 1,
                                       pst_rxpdu_bytes := pst_rxpdu_bytes st + of_nat n\<rparr>) entity;
              sdap_header_size = (if pe_has_sdap_rx e0 then 1 else 0)
          in bindR (pdcp_rcvd_sn e0 buffer) (\<lambda>rcvd_sn.
             let e1 = with_pstats (\<lambda>st. st\<lparr>pst_rxpdu_sn := word_of_int rcvd_sn\<rparr>) e0
             in if n < pdcp_header_size e1 + sdap_header_size + pdcp_integrity_size e1 + 1 then Inr (pdcp_discard e1 n)
                else pdcp_recv_counted env e1 buffer sdap_header_size (pdcp_rcvd_count e1 rcvd_sn)))"

section \<open>Transmission\<close>

definition pdcp_header :: "nr_pdcp_entity_t \<Rightarrow> int \<Rightarrow> bytes" where
  "pdcp_header e sn =
     (let dc_bit = (if pe_type e = NR_PDCP_DRB_AM \<or> pe_type e = NR_PDCP_DRB_UM then 0x80 else 0)
      in if pe_sn_size e = SHORT_SN_SIZE
         then [word_of_int (dc_bit OR (drop_bit 8 sn AND 0xf)), word_of_int (sn AND 0xff)]
         else [word_of_int (dc_bit OR (drop_bit 16 sn AND 0x3)), word_of_int (drop_bit 8 sn AND 0xff),
               word_of_int (sn AND 0xff)])"

text \<open>\<open>pdu_buffer\<close> is the memory of \<^verbatim>\<open>pdu_max_size\<close> bytes; the result is the return value and the memory.\<close>

definition nr_pdcp_entity_process_sdu ::
    "secu_env \<Rightarrow> nr_pdcp_entity_t \<Rightarrow> bytes \<Rightarrow> bytes \<Rightarrow> (int \<times> bytes \<times> nr_pdcp_entity_t) res" where
  "nr_pdcp_entity_process_sdu env entity buffer pdu_buffer =
     (let n = length buffer
      in if \<not> nr_max_pdcp_pdu_size (int n) \<le> int (length pdu_buffer) then Inl Abort
         else if pe_entity_suspended entity then Inr (-1, pdu_buffer, entity)
         else
           let e = with_pstats (\<lambda>st. st\<lparr>pst_rxsdu_pkts := pst_rxsdu_pkts st + 1,
                                       pst_rxsdu_bytes := pst_rxsdu_bytes st + of_nat n\<rparr>) entity;
               cnt = pe_tx_next e;
               sn = sint (pe_tx_next e AND word_of_int (pe_sn_max e));
               sdap_header_size = (if pe_has_sdap_tx e then 1 else 0);
               header = pdcp_header e sn;
               header_size = pdcp_header_size e;
               integrity_size = pdcp_integrity_size e;
               direction = (if pe_is_gnb e then 1 else 0)
           in bindR (if pe_has_integrity e then pdcp_integrity_call env e (header @ buffer) cnt direction
                     else Inr (replicate integrity_size 0)) (\<lambda>mac.
              bindR (cipher_from env e (header_size + sdap_header_size) (header @ buffer @ mac) cnt direction) (\<lambda>pdu.
              bindR (mem_write pdu_buffer 0 pdu) (\<lambda>pdu_buffer'.
                let ret = header_size + n + integrity_size
                in Inr (int ret, pdu_buffer',
                        with_pstats (\<lambda>st. st\<lparr>pst_txpdu_pkts := pst_txpdu_pkts st + 1,
                                            pst_txpdu_bytes := pst_txpdu_bytes st + of_nat ret,
                                            pst_txpdu_sn := word_of_int sn\<rparr>)
                          (e\<lparr>pe_tx_next := pe_tx_next e + 1\<rparr>))))))"

definition nr_pdcp_entity_check_integrity ::
    "secu_env \<Rightarrow> nr_pdcp_entity_t \<Rightarrow> bytes \<Rightarrow> nr_pdcp_integrity_data_t \<Rightarrow> bool res" where
  "nr_pdcp_entity_check_integrity env entity buffer msg_integrity =
     (if \<not> pe_has_integrity entity then Inr False
      else bindR (pdcp_integrity_call env entity (take (id_header_size msg_integrity) (id_header msg_integrity) @ buffer)
                    (id_count msg_integrity) (if pe_is_gnb entity then 0 else 1))
             (\<lambda>mac. Inr (mac = id_mac msg_integrity)))"

section \<open>Security\<close>

definition store_keys ::
    "nr_pdcp_entity_security_keys_and_algos_t \<Rightarrow> nr_pdcp_entity_security_keys_and_algos_t
      \<Rightarrow> nr_pdcp_entity_security_keys_and_algos_t" where
  "store_keys parameters k =
     (let k1 = (if sp_integrity_algorithm parameters \<noteq> -1
                then k\<lparr>sp_integrity_algorithm := sp_integrity_algorithm parameters,
                       sp_integrity_key := sp_integrity_key parameters\<rparr> else k)
      in if sp_ciphering_algorithm parameters \<noteq> -1
         then k1\<lparr>sp_ciphering_algorithm := sp_ciphering_algorithm parameters,
                 sp_ciphering_key := sp_ciphering_key parameters\<rparr> else k1)"

definition set_integrity :: "int \<Rightarrow> nr_pdcp_entity_t \<Rightarrow> nr_pdcp_entity_t res" where
  "set_integrity alg e =
     (let key = sp_integrity_key (pe_security_keys_and_algos e)
      in if alg = 0 then Inr (e\<lparr>pe_has_integrity := False, pe_integrity := None\<rparr>)
         else if alg = -1 then Inr e
         else if alg = 2 then Inr (e\<lparr>pe_has_integrity := True, pe_integrity := Some (Nia2 key)\<rparr>)
         else if alg = 1 then Inr (e\<lparr>pe_has_integrity := True, pe_integrity := Some (Nia1 key)\<rparr>)
         else Inl Abort)"

definition set_ciphering :: "int \<Rightarrow> nr_pdcp_entity_t \<Rightarrow> nr_pdcp_entity_t res" where
  "set_ciphering alg e =
     (if alg = 0 then Inr (e\<lparr>pe_has_ciphering := False, pe_security := None\<rparr>)
      else if alg = -1 then Inr e
      else if alg = 2 then Inr (e\<lparr>pe_has_ciphering := True, pe_security := Some Nea2\<rparr>)
      else if alg = 1
      then Inr (e\<lparr>pe_has_ciphering := True,
                  pe_security := Some (Nea1 (sp_ciphering_key (pe_security_keys_and_algos e)))\<rparr>)
      else Inl Abort)"

definition nr_pdcp_entity_set_security ::
    "nr_pdcp_entity_t \<Rightarrow> nr_pdcp_entity_security_keys_and_algos_t \<Rightarrow> nr_pdcp_entity_t res" where
  "nr_pdcp_entity_set_security entity parameters =
     bindR (set_integrity (sp_integrity_algorithm parameters)
              (entity\<lparr>pe_security_keys_and_algos := store_keys parameters (pe_security_keys_and_algos entity)\<rparr>))
       (set_ciphering (sp_ciphering_algorithm parameters))"

section \<open>Time, suspension, re-establishment\<close>

definition check_t_reordering :: "nr_pdcp_entity_t \<Rightarrow> nr_pdcp_entity_t" where
  "check_t_reordering entity =
     (if pe_t_reordering entity = -1 then entity
      else if pe_t_reordering_start entity = 0
         \<or> pe_t_current entity \<le> pe_t_reordering_start entity + word_of_int (pe_t_reordering entity)
      then entity
      else
        let e0 = entity\<lparr>pe_t_reordering_start := 0\<rparr>;
            e1 = deliver_below e0 (pe_rx_list e0);
            (e2, cnt) = deliver_in_order e1 (pe_rx_reord e1) (pe_rx_list e1);
            e3 = e2\<lparr>pe_rx_deliv := cnt\<rparr>
        in if pe_rx_deliv e3 < pe_rx_next e3
           then e3\<lparr>pe_rx_reord := pe_rx_next e3, pe_t_reordering_start := pe_t_current e3\<rparr> else e3)"

definition nr_pdcp_entity_set_time :: "nr_pdcp_entity_t \<Rightarrow> u64 \<Rightarrow> nr_pdcp_entity_t" where
  "nr_pdcp_entity_set_time entity now = check_t_reordering (entity\<lparr>pe_t_current := now\<rparr>)"

fun deliver_all_loop :: "nr_pdcp_entity_t \<Rightarrow> nr_pdcp_sdu_t list \<Rightarrow> nr_pdcp_entity_t" where
  "deliver_all_loop e [] = e"
| "deliver_all_loop e (cur # l) = deliver_all_loop (deliver_head e cur l) l"

definition deliver_all_sdus :: "nr_pdcp_entity_t \<Rightarrow> nr_pdcp_entity_t" where
  "deliver_all_sdus entity = deliver_all_loop entity (pe_rx_list entity)"

definition nr_pdcp_entity_suspend :: "nr_pdcp_entity_t \<Rightarrow> nr_pdcp_entity_t" where
  "nr_pdcp_entity_suspend entity =
     (let e0 = entity\<lparr>pe_tx_next := 0\<rparr>;
          e1 = (if pe_t_reordering_start e0 \<noteq> 0 then deliver_all_sdus (e0\<lparr>pe_t_reordering_start := 0\<rparr>) else e0)
      in e1\<lparr>pe_rx_next := 0, pe_rx_deliv := 0, pe_entity_suspended := True\<rparr>)"

definition free_rx_list :: "nr_pdcp_entity_t \<Rightarrow> nr_pdcp_entity_t" where
  "free_rx_list entity =
     fold (\<lambda>cur e. with_pstats (\<lambda>st. st\<lparr>pst_rxpdu_dd_pkts := pst_rxpdu_dd_pkts st + 1,
              pst_rxpdu_dd_bytes := pst_rxpdu_dd_bytes st + word_of_int (ps_size cur)\<rparr>) e)
       (pe_rx_list entity) entity\<lparr>pe_rx_list := [], pe_rx_size := 0\<rparr>"

definition nr_pdcp_entity_reestablish_drb_am ::
    "nr_pdcp_entity_t \<Rightarrow> nr_pdcp_entity_security_keys_and_algos_t \<Rightarrow> nr_pdcp_entity_t res" where
  "nr_pdcp_entity_reestablish_drb_am entity security_parameters =
     bindR (nr_pdcp_entity_set_security entity security_parameters) (\<lambda>e. Inr (e\<lparr>pe_entity_suspended := False\<rparr>))"

definition nr_pdcp_entity_reestablish_drb_um ::
    "nr_pdcp_entity_t \<Rightarrow> nr_pdcp_entity_security_keys_and_algos_t \<Rightarrow> nr_pdcp_entity_t res" where
  "nr_pdcp_entity_reestablish_drb_um entity security_parameters =
     (let e0 = entity\<lparr>pe_tx_next := 0\<rparr>;
          e1 = (if pe_t_reordering_start e0 \<noteq> 0 then deliver_all_sdus e0 else e0);
          e2 = e1\<lparr>pe_t_reordering_start := 0, pe_rx_next := 0, pe_rx_deliv := 0\<rparr>
      in bindR (nr_pdcp_entity_set_security e2 security_parameters) (\<lambda>e. Inr (e\<lparr>pe_entity_suspended := False\<rparr>)))"

definition nr_pdcp_entity_reestablish_srb ::
    "nr_pdcp_entity_t \<Rightarrow> nr_pdcp_entity_security_keys_and_algos_t \<Rightarrow> nr_pdcp_entity_t res" where
  "nr_pdcp_entity_reestablish_srb entity security_parameters =
     (let e1 = free_rx_list (entity\<lparr>pe_tx_next := 0\<rparr>);
          e2 = e1\<lparr>pe_t_reordering_start := 0, pe_rx_next := 0, pe_rx_deliv := 0\<rparr>
      in bindR (nr_pdcp_entity_set_security e2 security_parameters) (\<lambda>e. Inr (e\<lparr>pe_entity_suspended := False\<rparr>)))"

definition reestablish_entity ::
    "nr_pdcp_entity_t \<Rightarrow> nr_pdcp_entity_security_keys_and_algos_t \<Rightarrow> nr_pdcp_entity_t res" where
  "reestablish_entity entity =
     (case pe_type entity of
        NR_PDCP_DRB_AM \<Rightarrow> nr_pdcp_entity_reestablish_drb_am entity
      | NR_PDCP_DRB_UM \<Rightarrow> nr_pdcp_entity_reestablish_drb_um entity
      | NR_PDCP_SRB \<Rightarrow> nr_pdcp_entity_reestablish_srb entity)"

definition nr_pdcp_entity_release :: "nr_pdcp_entity_t \<Rightarrow> nr_pdcp_entity_t" where
  "nr_pdcp_entity_release entity = deliver_all_sdus entity"

definition nr_pdcp_entity_get_stats :: "nr_pdcp_entity_t \<Rightarrow> nr_pdcp_statistics_t" where
  "nr_pdcp_entity_get_stats entity = pe_stats entity"

section \<open>COUNT values\<close>

definition nr_pdcp_entity_get_count_dl :: "nr_pdcp_entity_t \<Rightarrow> nr_pdcp_count_t" where
  "nr_pdcp_entity_get_count_dl entity =
     \<lparr> pc_sn = pe_rx_deliv entity AND word_of_int (pe_sn_max entity),
       pc_hfn = drop_bit (pe_sn_size entity) (pe_rx_deliv entity) \<rparr>"

definition nr_pdcp_entity_get_count_ul :: "nr_pdcp_entity_t \<Rightarrow> nr_pdcp_count_t" where
  "nr_pdcp_entity_get_count_ul entity =
     \<lparr> pc_sn = pe_tx_next entity AND word_of_int (pe_sn_max entity),
       pc_hfn = drop_bit (pe_sn_size entity) (pe_tx_next entity) \<rparr>"

definition compose_count :: "nr_pdcp_count_t \<Rightarrow> nat \<Rightarrow> u32" where
  "compose_count pdcp_count sn_size =
     push_bit sn_size (pc_hfn pdcp_count) OR (pc_sn pdcp_count AND (push_bit sn_size 1 - 1))"

definition nr_pdcp_entity_set_count_dl :: "nr_pdcp_entity_t \<Rightarrow> nr_pdcp_count_t \<Rightarrow> nat \<Rightarrow> nr_pdcp_entity_t" where
  "nr_pdcp_entity_set_count_dl entity pdcp_count sn_size =
     (let cnt = compose_count pdcp_count sn_size in entity\<lparr>pe_rx_next := cnt + 1, pe_rx_deliv := cnt\<rparr>)"

definition nr_pdcp_entity_set_count_ul :: "nr_pdcp_entity_t \<Rightarrow> nr_pdcp_count_t \<Rightarrow> nat \<Rightarrow> nr_pdcp_entity_t" where
  "nr_pdcp_entity_set_count_ul entity pdcp_count sn_size =
     entity\<lparr>pe_tx_next := compose_count pdcp_count sn_size\<rparr>"

section \<open>Construction\<close>

definition zero_pstats :: nr_pdcp_statistics_t where
  "zero_pstats = \<lparr> pst_txpdu_pkts = 0, pst_txpdu_bytes = 0, pst_txpdu_sn = 0, pst_rxpdu_pkts = 0,
     pst_rxpdu_bytes = 0, pst_rxpdu_sn = 0, pst_rxpdu_oo_pkts = 0, pst_rxpdu_oo_bytes = 0,
     pst_rxpdu_dd_pkts = 0, pst_rxpdu_dd_bytes = 0, pst_rxpdu_ro_count = 0, pst_txsdu_pkts = 0,
     pst_txsdu_bytes = 0, pst_rxsdu_pkts = 0, pst_rxsdu_bytes = 0, pst_mode = 0 \<rparr>"

definition new_nr_pdcp_entity ::
    "nr_pdcp_entity_type_t \<Rightarrow> bool \<Rightarrow> int \<Rightarrow> int \<Rightarrow> bool \<Rightarrow> bool \<Rightarrow> nat \<Rightarrow> int \<Rightarrow> int
      \<Rightarrow> nr_pdcp_entity_security_keys_and_algos_t \<Rightarrow> nr_pdcp_entity_t res" where
  "new_nr_pdcp_entity ty is_gnb rb_id pdusession_id has_sdap_rx has_sdap_tx sn_size t_reordering discard_timer
       security_parameters =
     nr_pdcp_entity_set_security
       \<lparr> pe_type = ty, pe_delivered = [], pe_rb_id = rb_id, pe_pdusession_id = pdusession_id,
         pe_has_sdap_rx = has_sdap_rx, pe_has_sdap_tx = has_sdap_tx, pe_sn_size = sn_size,
         pe_t_reordering = t_reordering, pe_discard_timer = discard_timer,
         pe_sn_max = push_bit sn_size 1 - 1, pe_window_size = push_bit (sn_size - 1) 1,
         pe_tx_next = 0, pe_rx_next = 0, pe_rx_deliv = 0, pe_rx_reord = 0,
         pe_t_current = 0, pe_t_reordering_start = 0, pe_has_ciphering = False, pe_has_integrity = False,
         pe_security_keys_and_algos =
           \<lparr> sp_integrity_algorithm = 0, sp_ciphering_algorithm = 0,
             sp_integrity_key = replicate 16 0, sp_ciphering_key = replicate 16 0 \<rparr>,
         pe_security = None, pe_integrity = None, pe_is_gnb = is_gnb, pe_rx_list = [], pe_rx_size = 0,
         pe_rx_maxsize = 0, pe_stats = zero_pstats, pe_entity_suspended = False \<rparr> security_parameters"

end
