(* ===== verification/Pdcp_Count.thy ===== *)
theory Pdcp_Count
  imports Pdcp_Entity
begin

unbundle bit_operations_syntax

text \<open>
  COUNT values and PDU headers: a PDU carries only the lower bits of the COUNT value, and the receiver
  finds the upper bits from its window.
\<close>

definition pdcp_cfg :: "nr_pdcp_entity_t \<Rightarrow> bool" where
  "pdcp_cfg e \<longleftrightarrow> pe_sn_size e \<in> {12, 18} \<and> pe_sn_max e = 2 ^ pe_sn_size e - 1
     \<and> pe_window_size e = 2 ^ (pe_sn_size e - 1)"

lemma pdcp_cfg_cases:
  assumes "pdcp_cfg e"
  obtains "pe_sn_size e = 12" "pe_sn_max e = 4095" "pe_window_size e = 2048"
  | "pe_sn_size e = 18" "pe_sn_max e = 262143" "pe_window_size e = 131072"
  using assms by (auto simp: pdcp_cfg_def)

section \<open>Words\<close>

lemma push_or_word:
  assumes "s < 2 ^ n" and "n \<le> 32"
  shows "push_bit n (w::u32) OR of_nat s = of_nat (2 ^ n * unat w + s)"
proof -
  have "\<not> bit (push_bit n w) i \<or> \<not> bit (of_nat s :: u32) i" for i
  proof (cases "i < n")
    case False
    then have "s < 2 ^ i" using assms(1) power_increasing [of n i "2::nat"] by linarith
    then have "\<not> bit s i" by (simp add: bit_iff_odd)
    then show ?thesis by (simp add: bit_of_nat_iff)
  qed (simp add: bit_push_bit_iff)
  then have "push_bit n w OR of_nat s = push_bit n w + of_nat s"
    by (rule disjunctive_add [symmetric])
  then show ?thesis by (simp add: push_bit_eq_mult mult.commute)
qed

lemma and_mask_sn:
  assumes "n \<le> 31"
  shows "sint ((w::u32) AND word_of_int (2 ^ n - 1)) = int (unat w mod 2 ^ n)"
proof -
  have m: "word_of_int (2 ^ n - 1) = (mask n :: u32)" by (simp add: mask_eq_exp_minus_1)
  have u: "uint (w AND mask n) = int (unat w mod 2 ^ n)"
    unfolding take_bit_eq_mask [symmetric] unsigned_take_bit_eq by (simp add: take_bit_eq_mod zmod_int)
  moreover have "unat w mod 2 ^ n < 2 ^ 31"
    using mod_less_divisor [of "2 ^ n" "unat w"] power_increasing [OF assms, of "2::nat"]
    by (meson less_le_trans one_le_numeral zero_less_numeral zero_less_power)
  ultimately have "uint (w AND mask n) < 2 ^ 31" by simp
  then have "sint (w AND mask n) = uint (w AND mask n)"
    unfolding sint_uint by (intro signed_take_bit_int_eq_self order_trans [OF _ uint_ge_0]) simp_all
  then show ?thesis unfolding m u .
qed

lemma drop_bit_hfn: "unat (drop_bit n (w::u32)) = unat w div 2 ^ n"
  unfolding unat_drop_bit_eq by (rule drop_bit_eq_div)

section \<open>Reconstruction of the COUNT value\<close>

text \<open>A COUNT value \<open>c\<close> is in the window of the receiver, without wrap-around of the 32 bits.\<close>

definition count_in_window :: "nr_pdcp_entity_t \<Rightarrow> nat \<Rightarrow> bool" where
  "count_in_window e c \<longleftrightarrow> c < 2 ^ 32 \<and> int (unat (pe_rx_deliv e)) - pe_window_size e \<le> int c
     \<and> int c < int (unat (pe_rx_deliv e)) + pe_window_size e"

lemma hfn_choice:
  fixes D c :: nat and M W :: int
  assumes M: "(M = 4096 \<and> W = 2048) \<or> (M = 262144 \<and> W = 131072)"
    and w: "int D - W \<le> int c" "int c < int D + W"
  shows "int c mod M < int D mod M - W \<Longrightarrow> int c div M = int D div M + 1"
    and "\<not> int c mod M < int D mod M - W \<Longrightarrow> int c mod M \<ge> int D mod M + W \<Longrightarrow> int c div M = int D div M - 1"
    and "\<not> int c mod M < int D mod M - W \<Longrightarrow> \<not> int c mod M \<ge> int D mod M + W \<Longrightarrow> int c div M = int D div M"
proof -
  define h s H S where "h = int c div M" and "s = int c mod M" and "H = int D div M" and "S = int D mod M"
  have M0: "0 < M" using M by auto
  have "int c = M * h + s" "int D = M * H + S" "0 \<le> s" "s < M" "0 \<le> S" "S < M"
    using M0 by (simp_all add: h_def s_def H_def S_def)
  then have lin: "(s < S - W \<longrightarrow> h = H + 1) \<and> (\<not> s < S - W \<longrightarrow> s \<ge> S + W \<longrightarrow> h = H - 1)
      \<and> (\<not> s < S - W \<longrightarrow> \<not> s \<ge> S + W \<longrightarrow> h = H)"
    using M w by (elim disjE conjE; hypsubst; intro conjI impI; linarith)
  show "int c mod M < int D mod M - W \<Longrightarrow> int c div M = int D div M + 1"
    "\<not> int c mod M < int D mod M - W \<Longrightarrow> int c mod M \<ge> int D mod M + W \<Longrightarrow> int c div M = int D div M - 1"
    "\<not> int c mod M < int D mod M - W \<Longrightarrow> \<not> int c mod M \<ge> int D mod M + W \<Longrightarrow> int c div M = int D div M"
    using lin unfolding h_def s_def H_def S_def by blast+
qed

lemma rcvd_count_eq:
  assumes cfg: "pdcp_cfg e" and w: "count_in_window e c"
  shows "pdcp_rcvd_count e (int (c mod 2 ^ pe_sn_size e)) = of_nat c"
proof -
  define n where "n = pe_sn_size e"
  define D where "D = unat (pe_rx_deliv e)"
  define h where "h = (if int (c mod 2 ^ n) < int (D mod 2 ^ n) - pe_window_size e
      then drop_bit n (pe_rx_deliv e) + 1
      else if int (c mod 2 ^ n) \<ge> int (D mod 2 ^ n) + pe_window_size e then drop_bit n (pe_rx_deliv e) - 1
      else drop_bit n (pe_rx_deliv e))"
  have n: "n \<le> 31" "pe_sn_max e = 2 ^ n - 1" using cfg by (auto simp: pdcp_cfg_def n_def)
  have MW: "((2::int) ^ n = 4096 \<and> pe_window_size e = 2048) \<or> ((2::int) ^ n = 262144 \<and> pe_window_size e = 131072)"
    using cfg by (auto simp: pdcp_cfg_def n_def)
  have DW: "int D - pe_window_size e \<le> int c" "int c < int D + pe_window_size e"
    using w by (simp_all add: count_in_window_def D_def)
  have hd: "drop_bit n (pe_rx_deliv e) = of_nat (D div 2 ^ n)"
    unfolding D_def drop_bit_hfn [symmetric] by simp
  have h: "h = of_nat (c div 2 ^ n)"
  proof -
    have i: "int (x div 2 ^ n) = int x div 2 ^ n" for x by (simp add: zdiv_int)
    have "(of_nat (D div 2 ^ n) :: u32) = word_of_int (int D div 2 ^ n)" by (simp flip: i)
    then have "h = word_of_int (int c div 2 ^ n)"
      using hfn_choice [OF MW DW] unfolding h_def hd by (auto simp: zmod_int)
    then show ?thesis by (simp flip: i)
  qed
  have "c div 2 ^ n < 2 ^ 32" using w div_le_dividend [of c "2 ^ n"] by (simp add: count_in_window_def del: div_le_dividend)
  then have u: "unat (of_nat (c div 2 ^ n) :: u32) = c div 2 ^ n" by (simp add: unat_of_nat take_bit_nat_eq_self)
  have "pdcp_rcvd_count e (int (c mod 2 ^ n)) = push_bit n h OR of_nat (c mod 2 ^ n)"
    unfolding pdcp_rcvd_count_def Let_def n_def [symmetric] n(2) and_mask_sn [OF n(1)] D_def [symmetric] h_def
    by simp
  also have "\<dots> = of_nat (2 ^ n * unat h + c mod 2 ^ n)"
    by (rule push_or_word) (use n in simp_all)
  also have "2 ^ n * unat h + c mod 2 ^ n = c" unfolding h u by simp
  finally show ?thesis by (simp add: n_def)
qed

section \<open>Headers\<close>

lemma masks: "(0xf::int) = mask 4" "(0x3::int) = mask 2" "(0xff::int) = mask 8" "(0x80::int) = push_bit 7 1"
  by (simp_all add: mask_eq_exp_minus_1)

lemma bit_int_above:
  assumes "0 \<le> (k::int)" and "k < 2 ^ n" and "n \<le> i"
  shows "\<not> bit k i"
proof -
  have "take_bit n k = k" using assms by (simp add: take_bit_int_eq_self)
  then show ?thesis using assms(3) by (metis bit_take_bit_iff not_le)
qed

text \<open>\<open>dc\<close> has at most bit 7: the D/C bit is not part of the sequence number.\<close>

lemma sn_bytes_short:
  assumes "0 \<le> (sn::int)" and "sn < 4096" and dc: "\<And>i. bit dc i \<Longrightarrow> i = 7"
  shows "push_bit 8 (uint (word_of_int (dc OR (drop_bit 8 sn AND mask 4)) :: u8) AND mask 4)
    OR uint (word_of_int (sn AND mask 8) :: u8) = sn"
proof (rule bit_eqI)
  fix i
  have hi: "\<not> bit sn i" if "12 \<le> i" using bit_int_above [of sn 12 i] assms that by simp
  consider "i < 8" | "8 \<le> i" "i - 8 < 4" | "12 \<le> i" by linarith
  then show "bit (push_bit 8 (uint (word_of_int (dc OR (drop_bit 8 sn AND mask 4)) :: u8) AND mask 4)
      OR uint (word_of_int (sn AND mask 8) :: u8)) i = bit sn i"
    by cases (auto simp: bit_simps hi dest: dc)
qed

lemma sn_bytes_long:
  assumes "0 \<le> (sn::int)" and "sn < 262144" and dc: "\<And>i. bit dc i \<Longrightarrow> i = 7"
  shows "push_bit 16 (uint (word_of_int (dc OR (drop_bit 16 sn AND mask 2)) :: u8) AND mask 2)
    OR push_bit 8 (uint (word_of_int (drop_bit 8 sn AND mask 8) :: u8))
    OR uint (word_of_int (sn AND mask 8) :: u8) = sn"
proof (rule bit_eqI)
  fix i
  have hi: "\<not> bit sn i" if "18 \<le> i" using bit_int_above [of sn 18 i] assms that by simp
  consider "i < 8" | "8 \<le> i" "i - 8 < 8" | "16 \<le> i" "i - 16 < 2" | "18 \<le> i" by linarith
  then show "bit (push_bit 16 (uint (word_of_int (dc OR (drop_bit 16 sn AND mask 2)) :: u8) AND mask 2)
      OR push_bit 8 (uint (word_of_int (drop_bit 8 sn AND mask 8) :: u8))
      OR uint (word_of_int (sn AND mask 8) :: u8)) i = bit sn i"
    by cases (auto simp: bit_simps hi dest: dc)
qed

lemma length_pdcp_header: "length (pdcp_header e sn) = pdcp_header_size e"
  by (simp add: pdcp_header_def pdcp_header_size_def pdcp_sizes Let_def)

lemma pdcp_header_roundtrip:
  assumes "pdcp_cfg e" and "0 \<le> sn" and "sn < 2 ^ pe_sn_size e"
    and r: "pe_sn_size r = pe_sn_size e"
  shows "pdcp_rcvd_sn r (pdcp_header e sn @ data) = Inr sn"
proof -
  have "mem_read (pdcp_header e sn @ data) 0 (int (pdcp_header_size e)) = Inr (pdcp_header e sn)"
    by (simp add: mem_read_ok length_pdcp_header)
  note facts = this
  have "pdcp_header_size r = pdcp_header_size e" by (simp add: pdcp_header_size_def r)
  note facts = facts this
  define dc :: int where "dc = (if pe_type e = NR_PDCP_DRB_AM \<or> pe_type e = NR_PDCP_DRB_UM then 0x80 else 0)"
  have "bit (push_bit 7 1 :: int) i \<longleftrightarrow> i = 7" for i unfolding bit_push_bit_iff by (auto simp: bit_1_iff)
  then have dc: "bit dc i \<Longrightarrow> i = 7" for i
    unfolding dc_def masks by (auto split: if_splits simp del: push_bit_of_1)
  show ?thesis
    using assms(1)
  proof (cases rule: pdcp_cfg_cases)
    case 1
    then have h: "pdcp_header e sn = [word_of_int (dc OR (drop_bit 8 sn AND mask 4)), word_of_int (sn AND mask 8)]"
      unfolding pdcp_header_def Let_def dc_def [symmetric] masks(1,3) by (simp add: pdcp_sizes)
    have "sn < 4096" using 1 assms(3) by simp
    from sn_bytes_short [OF assms(2) this dc] show ?thesis
      using 1 unfolding pdcp_rcvd_sn_def facts bindR_Inr r masks(1) by (simp add: h pdcp_sizes del: push_bit_and)
  next
    case 2
    then have h: "pdcp_header e sn = [word_of_int (dc OR (drop_bit 16 sn AND mask 2)),
        word_of_int (drop_bit 8 sn AND mask 8), word_of_int (sn AND mask 8)]"
      unfolding pdcp_header_def Let_def dc_def [symmetric] masks(2,3) by (simp add: pdcp_sizes)
    have "sn < 262144" using 2 assms(3) by simp
    from sn_bytes_long [OF assms(2) this dc] show ?thesis
      using 2 unfolding pdcp_rcvd_sn_def facts bindR_Inr r masks(2) by (simp add: h pdcp_sizes del: push_bit_and)
  qed
qed

end
