(* ===== verification/Pdcp_Link.thy ===== *)
theory Pdcp_Link
  imports Pdcp_Count
begin

unbundle bit_operations_syntax

text \<open>
  Two PDCP entities with the same configuration, one at each end of a bearer: what one sends with
  \<^verbatim>\<open>process_sdu\<close> the other receives with \<^verbatim>\<open>recv_pdu\<close>.
\<close>

definition pdcp_peers :: "nr_pdcp_entity_t \<Rightarrow> nr_pdcp_entity_t \<Rightarrow> bool" where
  "pdcp_peers a b \<longleftrightarrow> pdcp_cfg a \<and> pdcp_cfg b \<and> pe_sn_size b = pe_sn_size a \<and> pe_type b = pe_type a
     \<and> pe_rb_id b = pe_rb_id a \<and> 0 < pe_rb_id a \<and> pe_rb_id a < 32 \<and> (pe_is_gnb b \<longleftrightarrow> \<not> pe_is_gnb a)
     \<and> pe_has_sdap_rx b = pe_has_sdap_tx a \<and> pe_has_integrity b = pe_has_integrity a
     \<and> pe_has_ciphering b = pe_has_ciphering a \<and> \<not> pe_entity_suspended a \<and> \<not> pe_entity_suspended b
     \<and> (pe_has_ciphering a \<longrightarrow> pe_security b = pe_security a \<and> pe_security a \<noteq> None
          \<and> sp_ciphering_key (pe_security_keys_and_algos b) = sp_ciphering_key (pe_security_keys_and_algos a))
     \<and> (pe_has_integrity a \<longrightarrow> pe_integrity b = pe_integrity a \<and> pe_integrity a \<noteq> None)"

lemma with_pstats_simps [simp]:
  "pe_type (with_pstats f e) = pe_type e" "pe_delivered (with_pstats f e) = pe_delivered e"
  "pe_rb_id (with_pstats f e) = pe_rb_id e" "pe_has_sdap_rx (with_pstats f e) = pe_has_sdap_rx e"
  "pe_has_sdap_tx (with_pstats f e) = pe_has_sdap_tx e" "pe_sn_size (with_pstats f e) = pe_sn_size e"
  "pe_sn_max (with_pstats f e) = pe_sn_max e" "pe_window_size (with_pstats f e) = pe_window_size e"
  "pe_tx_next (with_pstats f e) = pe_tx_next e" "pe_rx_next (with_pstats f e) = pe_rx_next e"
  "pe_rx_deliv (with_pstats f e) = pe_rx_deliv e" "pe_rx_reord (with_pstats f e) = pe_rx_reord e"
  "pe_t_current (with_pstats f e) = pe_t_current e" "pe_t_reordering (with_pstats f e) = pe_t_reordering e"
  "pe_t_reordering_start (with_pstats f e) = pe_t_reordering_start e"
  "pe_has_ciphering (with_pstats f e) = pe_has_ciphering e" "pe_has_integrity (with_pstats f e) = pe_has_integrity e"
  "pe_security (with_pstats f e) = pe_security e" "pe_integrity (with_pstats f e) = pe_integrity e"
  "pe_security_keys_and_algos (with_pstats f e) = pe_security_keys_and_algos e"
  "pe_is_gnb (with_pstats f e) = pe_is_gnb e" "pe_rx_list (with_pstats f e) = pe_rx_list e"
  "pe_rx_size (with_pstats f e) = pe_rx_size e" "pe_entity_suspended (with_pstats f e) = pe_entity_suspended e"
  by (simp_all add: with_pstats_def)

lemma with_pstats_ops [simp]:
  "pdcp_header_size (with_pstats f e) = pdcp_header_size e"
  "pdcp_integrity_size (with_pstats f e) = pdcp_integrity_size e"
  "pdcp_header (with_pstats f e) sn = pdcp_header e sn"
  "pdcp_rcvd_sn (with_pstats f e) buffer = pdcp_rcvd_sn e buffer"
  "pdcp_rcvd_count (with_pstats f e) sn = pdcp_rcvd_count e sn"
  "pdcp_msg_integrity (with_pstats f e) buffer cnt = pdcp_msg_integrity e buffer cnt"
  "cipher_from env (with_pstats f e) k buffer cnt d = cipher_from env e k buffer cnt d"
  "pdcp_integrity_call env (with_pstats f e) buffer cnt d = pdcp_integrity_call env e buffer cnt d"
  unfolding pdcp_msg_integrity_def pdcp_rcvd_sn_def pdcp_header_size_def pdcp_integrity_size_def pdcp_header_def
    pdcp_rcvd_count_def cipher_from_def pdcp_cipher_call_def pdcp_integrity_call_def with_pstats_simps
  by (rule refl)+

section \<open>Ciphering and integrity of peers\<close>

lemma peersD:
  assumes "pdcp_peers a b"
  shows "pdcp_cfg a" "pdcp_cfg b" "pe_sn_size b = pe_sn_size a" "pe_type b = pe_type a" "pe_rb_id b = pe_rb_id a"
    "0 < pe_rb_id a" "pe_rb_id a < 32" "pe_is_gnb b \<longleftrightarrow> \<not> pe_is_gnb a" "pe_has_sdap_rx b = pe_has_sdap_tx a"
    "pe_has_integrity b = pe_has_integrity a" "pe_has_ciphering b = pe_has_ciphering a"
    "\<not> pe_entity_suspended a" "\<not> pe_entity_suspended b"
    "pe_has_ciphering a \<Longrightarrow> pe_security b = pe_security a \<and> pe_security a \<noteq> None
       \<and> sp_ciphering_key (pe_security_keys_and_algos b) = sp_ciphering_key (pe_security_keys_and_algos a)"
    "pe_has_integrity a \<Longrightarrow> pe_integrity b = pe_integrity a \<and> pe_integrity a \<noteq> None"
  using assms unfolding pdcp_peers_def by simp_all

lemma cipher_call_inverse:
  assumes "secu_ok env" and "pe_security a \<noteq> None" and "0 < pe_rb_id a" and "pe_rb_id a < 32" and "m \<noteq> []" and "d \<in> {0, 1}"
  shows "\<exists>c. pdcp_cipher_call env a m cnt d = Inr c \<and> length c = length m \<and> pdcp_cipher_call env a c cnt d = Inr m"
proof -
  from assms(2) obtain s where s: "pe_security a = Some s" by blast
  show ?thesis
  proof (cases s)
    case (Nea1 key)
    show ?thesis unfolding pdcp_cipher_call_def s Nea1 option.case security_context.case
      by (rule nea1.cipher_inverse) (use assms in auto)
  next
    case Nea2
    show ?thesis unfolding pdcp_cipher_call_def s Nea2 option.case security_context.case
      by (rule nea2.cipher_inverse) (use assms in auto)
  qed
qed

lemma cipher_from_peers:
  assumes "secu_ok env" and p: "pdcp_peers a b" and k: "k < length m" and d: "d \<in> {0, 1}"
  obtains c where "cipher_from env a k m cnt d = Inr c" "length c = length m" "take k c = take k m"
    "cipher_from env b k c cnt d = Inr m"
proof (cases "pe_has_ciphering a")
  case True
  note P = peersD [OF p]
  have "drop k m \<noteq> []" using k by simp
  then obtain c where c: "pdcp_cipher_call env a (drop k m) cnt d = Inr c" "length c = length (drop k m)"
    "pdcp_cipher_call env a c cnt d = Inr (drop k m)"
    using cipher_call_inverse [OF assms(1) _ P(6,7) _ d] P(14) [OF True] by meson
  have b: "pdcp_cipher_call env b c cnt d = pdcp_cipher_call env a c cnt d"
    unfolding pdcp_cipher_call_def P(5) by (simp only: P(14) [OF True])
  show ?thesis
    using that [of "take k m @ c"] c k True P(11) by (simp add: cipher_from_def b)
next
  case False
  then show ?thesis using that [of m] peersD(11) [OF p] by (simp add: cipher_from_def)
qed

lemma integrity_call_peers:
  assumes "secu_ok env" and p: "pdcp_peers a b" and i: "pe_has_integrity a" and "m \<noteq> []"
  obtains mac where "pdcp_integrity_call env a m cnt d = Inr mac" "length mac = 4"
    "pdcp_integrity_call env b m cnt d = Inr mac"
proof -
  note P = peersD [OF p]
  have eq: "pdcp_integrity_call env b m cnt d = pdcp_integrity_call env a m cnt d"
    unfolding pdcp_integrity_call_def P(5) by (simp only: P(15) [OF i])
  from P(15) [OF i] obtain s where s: "pe_integrity a = Some s" by blast
  have "\<exists>mac. pdcp_integrity_call env a m cnt d = Inr mac \<and> length mac = 4"
  proof (cases s)
    case (Nia1 key)
    show ?thesis unfolding pdcp_integrity_call_def s Nia1 option.case integrity_context.case
      by (rule nia1.integrity_mac) (use assms in auto)
  next
    case (Nia2 key)
    show ?thesis unfolding pdcp_integrity_call_def s Nia2 option.case integrity_context.case
      by (rule nia2.integrity_mac) (use assms P in auto)
  qed
  then show ?thesis using that eq by auto
qed

text \<open>The D/C bit of a data PDU is set.\<close>

lemma header_dc_bit:
  assumes "pe_type a \<noteq> NR_PDCP_SRB"
  obtains b bs where "pdcp_header a sn = b # bs" "b AND 0x80 \<noteq> 0"
proof -
  have "(word_of_int (0x80 OR x) :: u8) AND 0x80 \<noteq> 0" for x :: int
  proof -
    have "bit ((word_of_int (0x80 OR x) :: u8) AND 0x80) 7" by (simp add: bit_simps)
    then show ?thesis by (metis bit_0_eq bot_apply bot_bool_def)
  qed
  then show ?thesis
    using assms by (cases "pe_type a"; cases "pe_sn_size a = SHORT_SN_SIZE") (auto simp: pdcp_header_def Let_def intro!: that)
qed

end
