(* ===== verification/Pdcp_Order.thy ===== *)
theory Pdcp_Order
  imports Pdcp_Link
begin

text \<open>
  The receiving side of a PDCP entity: reordering. \<open>rx_ok\<close> is its invariant; reception, time and the
  calls that start the numbering anew keep it.
\<close>

section \<open>The delivery loops\<close>

text \<open>Delivery of the first SDUs of the list changes only the record of deliveries, the list, its size and the statistics.\<close>

definition delivers :: "nr_pdcp_entity_t \<Rightarrow> nr_pdcp_sdu_t list \<Rightarrow> nr_pdcp_entity_t \<Rightarrow> bool" where
  "delivers e ds e' \<longleftrightarrow> pe_rx_list e = ds @ pe_rx_list e'
     \<and> e' = e\<lparr>pe_delivered := pe_delivered e @ ds, pe_rx_list := pe_rx_list e',
               pe_rx_size := pe_rx_size e - sum_list (map ps_size ds), pe_stats := pe_stats e'\<rparr>"

lemma deliversD:
  assumes "delivers e ds e'"
  shows "pe_rx_list e = ds @ pe_rx_list e'" "pe_delivered e' = pe_delivered e @ ds"
    "pe_rx_deliv e' = pe_rx_deliv e" "pe_rx_next e' = pe_rx_next e" "pe_rx_reord e' = pe_rx_reord e"
    "pe_t_current e' = pe_t_current e" "pe_t_reordering_start e' = pe_t_reordering_start e"
    "pe_rx_size e' = pe_rx_size e - sum_list (map ps_size ds)"
    "pe_t_reordering e' = pe_t_reordering e" "pe_entity_suspended e' = pe_entity_suspended e"
proof -
  have e': "e' = e\<lparr>pe_delivered := pe_delivered e @ ds, pe_rx_list := pe_rx_list e',
               pe_rx_size := pe_rx_size e - sum_list (map ps_size ds), pe_stats := pe_stats e'\<rparr>"
    using assms by (simp add: delivers_def)
  show "pe_rx_list e = ds @ pe_rx_list e'" using assms by (simp add: delivers_def)
  show "pe_delivered e' = pe_delivered e @ ds" by (subst e') simp
  show "pe_rx_deliv e' = pe_rx_deliv e" by (subst e') simp
  show "pe_rx_next e' = pe_rx_next e" by (subst e') simp
  show "pe_rx_reord e' = pe_rx_reord e" by (subst e') simp
  show "pe_t_current e' = pe_t_current e" by (subst e') simp
  show "pe_t_reordering_start e' = pe_t_reordering_start e" by (subst e') simp
  show "pe_rx_size e' = pe_rx_size e - sum_list (map ps_size ds)" by (subst e') simp
  show "pe_t_reordering e' = pe_t_reordering e" by (subst e') simp
  show "pe_entity_suspended e' = pe_entity_suspended e" by (subst e') simp
qed

lemma delivers_refl: "delivers e [] e"
  by (simp add: delivers_def)

lemma delivers_head:
  assumes "pe_rx_list e = cur # l" and "delivers (deliver_head e cur l) ds e'"
  shows "delivers e (cur # ds) e'"
  using assms unfolding delivers_def deliver_head_def with_pstats_def by (simp add: diff_diff_eq)

fun count_run :: "u32 \<Rightarrow> nat \<Rightarrow> u32 list" where
  "count_run c 0 = []"
| "count_run c (Suc n) = c # count_run (c + 1) n"

lemma deliver_in_order_delivers:
  "pe_rx_list e = l \<Longrightarrow> deliver_in_order e c l = (e', c') \<Longrightarrow>
     \<exists>ds. delivers e ds e' \<and> counts ds = count_run c (length ds) \<and> c' = c + of_nat (length ds)
       \<and> (\<forall>s r. pe_rx_list e' = s # r \<longrightarrow> ps_count s \<noteq> c')"
proof (induction e c l rule: deliver_in_order.induct)
  case (1 e c)
  then show ?case by (intro exI [of _ "[]"]) (simp add: delivers_refl)
next
  case (2 e c cur l)
  show ?case
  proof (cases "c = ps_count cur")
    case True
    have "pe_rx_list (deliver_head e cur l) = l" by (simp add: deliver_head_def)
    moreover have "deliver_in_order (deliver_head e cur l) (c + 1) l = (e', c')" using 2(3) True by simp
    ultimately obtain ds where "delivers (deliver_head e cur l) ds e'" "counts ds = count_run (c + 1) (length ds)"
      "c' = c + 1 + of_nat (length ds)" "\<forall>s r. pe_rx_list e' = s # r \<longrightarrow> ps_count s \<noteq> c'"
      using 2(1) [OF True] by blast
    then show ?thesis
      using delivers_head [OF 2(2)] True by (intro exI [of _ "cur # ds"]) (simp add: algebra_simps)
  next
    case False
    then show ?thesis using 2 by (intro exI [of _ "[]"]) (auto simp: delivers_refl)
  qed
qed

lemma deliver_below_delivers:
  "pe_rx_list e = l \<Longrightarrow> \<exists>ds. delivers e ds (deliver_below e l) \<and> (\<forall>s \<in> set ds. ps_count s < pe_rx_reord e)
     \<and> (\<forall>s r. pe_rx_list (deliver_below e l) = s # r \<longrightarrow> \<not> ps_count s < pe_rx_reord e)"
proof (induction e l rule: deliver_below.induct)
  case (1 e)
  then show ?case by (intro exI [of _ "[]"]) (simp add: delivers_refl)
next
  case (2 e cur l)
  show ?case
  proof (cases "ps_count cur < pe_rx_reord e")
    case True
    have h: "pe_rx_list (deliver_head e cur l) = l" "pe_rx_reord (deliver_head e cur l) = pe_rx_reord e"
      by (simp_all add: deliver_head_def)
    then obtain ds where "delivers (deliver_head e cur l) ds (deliver_below (deliver_head e cur l) l)"
      "\<forall>s \<in> set ds. ps_count s < pe_rx_reord e"
      "\<forall>s r. pe_rx_list (deliver_below (deliver_head e cur l) l) = s # r \<longrightarrow> \<not> ps_count s < pe_rx_reord e"
      using 2(1) [OF True h(1)] by auto
    then show ?thesis
      using delivers_head [OF 2(2)] True by (intro exI [of _ "cur # ds"]) simp
  next
    case False
    then show ?thesis using 2 by (intro exI [of _ "[]"]) (auto simp: delivers_refl)
  qed
qed

lemma word_succ:
  fixes x y :: u32
  assumes "x < y"
  shows "x + 1 \<le> y" and "unat (x + 1) = unat x + 1"
proof -
  have "unat y < 2 ^ 32" using unsigned_less [of y] by simp
  then have "unat x + 1 < 2 ^ 32" using assms by (simp add: word_less_nat_alt)
  then show "unat (x + 1) = unat x + 1" by (simp add: unat_word_ariths)
  then show "x + 1 \<le> y" using assms by (simp add: word_less_nat_alt word_le_nat_alt)
qed

lemma count_run_snoc: "count_run c (Suc n) = count_run c n @ [c + of_nat n]"
proof (induction n arbitrary: c)
  case (Suc n)
  show ?case using Suc.IH [of "c + 1"] by (simp add: algebra_simps)
qed simp

lemma count_run_bound:
  "\<forall>x \<in> set (count_run c n). x < b \<Longrightarrow> c \<le> b \<Longrightarrow>
     unat (c + of_nat n) = unat c + n \<and> c + of_nat n \<le> b \<and> (\<forall>x \<in> set (count_run c n). x < c + of_nat n)"
proof (induction n arbitrary: c)
  case (Suc n)
  then have cb: "c < b" by simp
  have "unat (c + 1 + of_nat n) = unat (c + 1) + n \<and> c + 1 + of_nat n \<le> b
      \<and> (\<forall>x \<in> set (count_run (c + 1) n). x < c + 1 + of_nat n)"
    using Suc.prems by (intro Suc.IH) (simp_all add: word_succ(1) [OF cb])
  moreover from this have "c < c + 1 + of_nat n"
    using word_succ(2) [OF cb] by (simp add: word_less_nat_alt)
  ultimately show ?case using word_succ(2) [OF cb] by (simp add: algebra_simps)
qed simp

section \<open>Invariant\<close>

text \<open>
  The numbering restarts when the entity is suspended or re-established: \<open>k\<close> is the number of SDUs that
  were delivered before. The counts of the SDUs delivered since and of the list are increasing; \<open>c\<close>
  separates them. In the list everything is below \<^verbatim>\<open>rx_next\<close>.
\<close>

definition split_at :: "nat \<Rightarrow> nr_pdcp_entity_t \<Rightarrow> u32 \<Rightarrow> bool" where
  "split_at k e c \<longleftrightarrow> k \<le> length (pe_delivered e)
     \<and> sorted_wrt (<) (counts (drop k (pe_delivered e) @ pe_rx_list e))
     \<and> (\<forall>s \<in> set (drop k (pe_delivered e)). ps_count s < c)
     \<and> (\<forall>s \<in> set (pe_rx_list e). c \<le> ps_count s \<and> ps_count s < pe_rx_next e) \<and> c \<le> pe_rx_next e"

text \<open>
  The reordering timer does not run while its start time is 0, so a gap that is found at time 0 does not
  start it: the invariant has the timer only when \<open>timed\<close> holds, that is when the entity knew the time
  whenever it received.
\<close>

definition rx_ok :: "bool \<Rightarrow> nat \<Rightarrow> nr_pdcp_entity_t \<Rightarrow> bool" where
  "rx_ok timed k e \<longleftrightarrow> split_at k e (pe_rx_deliv e) \<and> pe_rx_deliv e \<notin> set (counts (pe_rx_list e))
     \<and> (timed \<and> pe_rx_list e \<noteq> [] \<longrightarrow> pe_t_reordering_start e \<noteq> 0)
     \<and> (pe_t_reordering_start e \<noteq> 0 \<longrightarrow> pe_rx_deliv e < pe_rx_reord e \<and> pe_rx_reord e \<le> pe_rx_next e)"

lemma split_below: "split_at k e c \<Longrightarrow> pe_rx_list e \<noteq> [] \<Longrightarrow> c < pe_rx_next e"
  by (cases "pe_rx_list e") (auto simp: split_at_def)

lemma deliver_in_order_split:
  assumes s: "split_at k e c" and d: "deliver_in_order e c (pe_rx_list e) = (e', c')"
  shows "split_at k e' c'" "c' \<notin> set (counts (pe_rx_list e'))" "c \<le> c'" "\<exists>ds. delivers e ds e'"
proof -
  obtain ds where ds: "delivers e ds e'" "counts ds = count_run c (length ds)" "c' = c + of_nat (length ds)"
    and hd: "\<forall>s r. pe_rx_list e' = s # r \<longrightarrow> ps_count s \<noteq> c'"
    using deliver_in_order_delivers [OF refl d] by blast
  note D = deliversD [OF ds(1)]
  have k: "k \<le> length (pe_delivered e)" "k \<le> length (pe_delivered e')" using s by (simp_all add: split_at_def D(2))
  have sorted: "sorted_wrt (<) (counts (drop k (pe_delivered e') @ pe_rx_list e'))"
    using s k by (simp add: split_at_def D(1,2))
  have l: "\<forall>x \<in> set ds. ps_count x < pe_rx_next e" "\<forall>x \<in> set (pe_rx_list e'). c \<le> ps_count x \<and> ps_count x < pe_rx_next e"
    "c \<le> pe_rx_next e"
    using s by (simp_all add: split_at_def D(1))
  have "\<forall>x \<in> set (count_run c (length ds)). x < pe_rx_next e" using l(1) ds(2) by (metis (no_types, lifting) imageE list.set_map)
  then have c': "unat c' = unat c + length ds" "c' \<le> pe_rx_next e" "\<forall>x \<in> set (count_run c (length ds)). x < c'"
    using count_run_bound [of c "length ds" "pe_rx_next e"] l(3) ds(3) by simp_all
  show "c \<le> c'" using c'(1) by (simp add: word_le_nat_alt)
  have del: "\<forall>x \<in> set (drop k (pe_delivered e')). ps_count x < c'"
  proof
    fix x assume "x \<in> set (drop k (pe_delivered e'))"
    then consider "x \<in> set (drop k (pe_delivered e))" | "ps_count x \<in> set (counts ds)" using k by (auto simp: D(2))
    then show "ps_count x < c'"
    proof cases
      case 1
      then have "ps_count x < c" using s by (simp add: split_at_def)
      then show ?thesis using \<open>c \<le> c'\<close> by (rule order_less_le_trans)
    qed (use c'(3) ds(2) in simp)
  qed
  have above: "c' < ps_count x" if x: "x \<in> set (pe_rx_list e')" for x
  proof -
    obtain h r where hr: "pe_rx_list e' = h # r" using x by (cases "pe_rx_list e'") auto
    have "c' \<le> ps_count h"
    proof (cases "length ds")
      case 0
      then show ?thesis using l(2) hr ds(3) by simp
    next
      case (Suc n)
      then obtain ds' d where dd: "ds = ds' @ [d]" by (metis length_0_conv nat.distinct(1) rev_exhaust)
      have "ps_count d < ps_count h" using sorted k(1) by (simp add: D(2) dd hr sorted_wrt_append)
      moreover have "ps_count d + 1 = c'"
        using ds(2,3) by (simp add: dd count_run_snoc algebra_simps del: count_run.simps(2))
      ultimately show ?thesis using word_succ(1) by metis
    qed
    then have "c' < ps_count h" using hd hr by (simp add: less_le)
    moreover have "ps_count h \<le> ps_count x" using x sorted by (auto simp: hr sorted_wrt_append)
    ultimately show ?thesis by (rule order_less_le_trans)
  qed
  show "split_at k e' c'"
    unfolding split_at_def D(4) using k sorted del above l(2) c'(2) by (simp add: order_less_imp_le)
  show "c' \<notin> set (counts (pe_rx_list e'))" using above by fastforce
  show "\<exists>ds. delivers e ds e'" using ds(1) by blast
qed

text \<open>The last part of the invariant is what the timers establish.\<close>

lemma pdcp_timers_ok:
  assumes "split_at k e (pe_rx_deliv e)" and "pe_rx_deliv e \<notin> set (counts (pe_rx_list e))"
    and "timed \<Longrightarrow> pe_t_current e \<noteq> 0" and "pe_t_reordering_start e \<noteq> 0 \<Longrightarrow> pe_rx_reord e \<le> pe_rx_next e"
  shows "rx_ok timed k (pdcp_timers e)" and "pe_delivered (pdcp_timers e) = pe_delivered e"
    and "pe_rx_deliv (pdcp_timers e) = pe_rx_deliv e" and "pe_rx_list (pdcp_timers e) = pe_rx_list e"
proof -
  have "pe_rx_deliv e < pe_rx_next e" if "pe_rx_list e \<noteq> []"
    using split_below [OF assms(1) that] .
  then show "rx_ok timed k (pdcp_timers e)"
    using assms by (auto simp: pdcp_timers_def rx_ok_def split_at_def Let_def not_less not_le)
qed (simp_all add: pdcp_timers_def Let_def)

lemma pdcp_accept_ok:
  assumes ok: "rx_ok timed k e" and c: "pe_rx_deliv e \<le> ps_count sdu" "\<not> nr_pdcp_sdu_in_list (pe_rx_list e) (ps_count sdu)"
    and wrap: "ps_count sdu \<noteq> - 1"
  shows "rx_ok (timed \<and> pe_t_current e \<noteq> 0) k (pdcp_accept e (ps_count sdu) sdu n)"
    and "sdu \<in> set (pe_rx_list (pdcp_accept e (ps_count sdu) sdu n)) \<union> set (pe_delivered (pdcp_accept e (ps_count sdu) sdu n))"
    and "pe_rx_deliv e \<le> pe_rx_deliv (pdcp_accept e (ps_count sdu) sdu n)"
proof -
  let ?c = "ps_count sdu"
  define e2 where "e2 = (let e1 = e\<lparr>pe_rx_list := nr_pdcp_sdu_list_add (pe_rx_list e) sdu, pe_rx_size := pe_rx_size e + int n\<rparr>
    in if ?c \<ge> pe_rx_next e1 then e1\<lparr>pe_rx_next := ?c + 1\<rparr> else e1)"
  have f: "pe_rx_deliv e2 = pe_rx_deliv e" "pe_delivered e2 = pe_delivered e" "pe_t_current e2 = pe_t_current e"
    "pe_rx_list e2 = nr_pdcp_sdu_list_add (pe_rx_list e) sdu" "pe_t_reordering_start e2 = pe_t_reordering_start e"
    "pe_rx_reord e2 = pe_rx_reord e" "pe_rx_next e2 = (if ?c \<ge> pe_rx_next e then ?c + 1 else pe_rx_next e)"
    by (simp_all add: e2_def Let_def)
  have cn: "?c < pe_rx_next e2 \<and> pe_rx_next e \<le> pe_rx_next e2"
  proof (cases "?c \<ge> pe_rx_next e")
    case True
    have "?c < - 1" using wrap word_n1_ge [of ?c] by (simp add: less_le)
    then have "?c < ?c + 1" using word_succ(2) by (simp add: word_less_nat_alt)
    then show ?thesis using True f(7) by auto
  qed (use f(7) in auto)
  have split: "split_at k e2 (pe_rx_deliv e)"
  proof -
    have k: "k \<le> length (pe_delivered e)" using ok by (simp add: rx_ok_def split_at_def)
    have s: "sorted_wrt (<) (counts (pe_rx_list e))" "sorted_wrt (<) (counts (drop k (pe_delivered e)))"
      "\<forall>s \<in> set (drop k (pe_delivered e)). ps_count s < pe_rx_deliv e"
      "\<forall>s \<in> set (pe_rx_list e). pe_rx_deliv e \<le> ps_count s \<and> ps_count s < pe_rx_next e" "pe_rx_deliv e \<le> pe_rx_next e"
      using ok by (auto simp: rx_ok_def split_at_def sorted_wrt_append)
    have l: "\<forall>s \<in> set (pe_rx_list e2). pe_rx_deliv e \<le> ps_count s \<and> ps_count s < pe_rx_next e2"
      using s(4) cn c(1) by (auto simp: f(4) dest: order_less_le_trans)
    moreover have "sorted_wrt (<) (counts (drop k (pe_delivered e2) @ pe_rx_list e2))"
      using s(2,3) sorted_sdu_list_add [OF s(1) c(2)] l
      by (auto simp: sorted_wrt_append f(2,4) intro: order_less_le_trans)
    ultimately show ?thesis using k s(3,5) cn by (auto simp: split_at_def f(2))
  qed
  have reord: "pe_t_reordering_start e \<noteq> 0 \<Longrightarrow> pe_rx_reord e \<le> pe_rx_next e2"
    using ok cn by (auto simp: rx_ok_def)
  have acc: "pdcp_accept e ?c sdu n = pdcp_timers
      (if ?c = pe_rx_deliv e2 then (let (e', cnt) = deliver_in_order e2 (pe_rx_deliv e2) (pe_rx_list e2) in e'\<lparr>pe_rx_deliv := cnt\<rparr>) else e2)"
    by (simp add: pdcp_accept_def Let_def e2_def)
  show "rx_ok (timed \<and> pe_t_current e \<noteq> 0) k (pdcp_accept e ?c sdu n)"
    "sdu \<in> set (pe_rx_list (pdcp_accept e ?c sdu n)) \<union> set (pe_delivered (pdcp_accept e ?c sdu n))"
    "pe_rx_deliv e \<le> pe_rx_deliv (pdcp_accept e ?c sdu n)"
  proof (atomize (full), cases "?c = pe_rx_deliv e2")
    case True
    obtain e' c' where d: "deliver_in_order e2 (pe_rx_deliv e2) (pe_rx_list e2) = (e', c')" by fastforce
    note S = deliver_in_order_split [OF split [folded f(1)] d]
    from S(4) obtain ds where ds: "delivers e2 ds e'" by blast
    note D = deliversD [OF ds]
    let ?e3 = "e'\<lparr>pe_rx_deliv := c'\<rparr>"
    have "split_at k ?e3 (pe_rx_deliv ?e3)" using S(1) by (simp add: split_at_def)
    then have T: "rx_ok (timed \<and> pe_t_current e \<noteq> 0) k (pdcp_timers ?e3)" "pe_delivered (pdcp_timers ?e3) = pe_delivered ?e3"
      "pe_rx_deliv (pdcp_timers ?e3) = c'" "pe_rx_list (pdcp_timers ?e3) = pe_rx_list ?e3"
      using S(2) reord pdcp_timers_ok [of k ?e3 "timed \<and> pe_t_current e \<noteq> 0"] by (simp_all add: D f)
    have "sdu \<in> set (pe_rx_list e') \<union> set (pe_delivered e')"
      using D(1,2) f(4) set_sdu_list_add [of "pe_rx_list e" sdu] by auto
    then show "rx_ok (timed \<and> pe_t_current e \<noteq> 0) k (pdcp_accept e ?c sdu n) \<and>
      sdu \<in> set (pe_rx_list (pdcp_accept e ?c sdu n)) \<union> set (pe_delivered (pdcp_accept e ?c sdu n)) \<and>
      pe_rx_deliv e \<le> pe_rx_deliv (pdcp_accept e ?c sdu n)"
      unfolding acc using True T S(3) by (simp add: d [unfolded f(1)] f(1))
  next
    case False
    have "pe_rx_deliv e2 \<notin> set (counts (pe_rx_list e2))"
      using ok False by (auto simp: f(1,4) rx_ok_def)
    then show "rx_ok (timed \<and> pe_t_current e \<noteq> 0) k (pdcp_accept e ?c sdu n) \<and>
      sdu \<in> set (pe_rx_list (pdcp_accept e ?c sdu n)) \<union> set (pe_delivered (pdcp_accept e ?c sdu n)) \<and>
      pe_rx_deliv e \<le> pe_rx_deliv (pdcp_accept e ?c sdu n)"
      unfolding acc using False pdcp_timers_ok [of k e2 "timed \<and> pe_t_current e \<noteq> 0"] split reord by (simp add: f)
  qed
qed

section \<open>Reception and time\<close>

text \<open>The received COUNT value is not the last one, after which \<^verbatim>\<open>rx_next\<close> would wrap to 0.\<close>

definition no_wrap :: "nr_pdcp_entity_t \<Rightarrow> bytes \<Rightarrow> bool" where
  "no_wrap e buffer \<longleftrightarrow> (\<forall>sn. pdcp_rcvd_sn e buffer = Inr sn \<longrightarrow> pdcp_rcvd_count e sn \<noteq> - 1)"

lemma rx_ok_with_pstats [simp]: "rx_ok timed k (with_pstats f e) = rx_ok timed k e"
  by (simp add: rx_ok_def split_at_def)

lemma rx_ok_discard [simp]: "rx_ok timed k (pdcp_discard e n) = rx_ok timed k e" "pe_delivered (pdcp_discard e n) = pe_delivered e"
  "pe_rx_deliv (pdcp_discard e n) = pe_rx_deliv e"
  by (simp_all add: pdcp_discard_def)

lemma set_dc_bit_nibble:
  "uint ((b OR 128) :: u8) AND 15 = uint b AND 15" "uint ((b OR 128) :: u8) AND 3 = uint b AND 3"
  by (simp_all add: unsigned_or_eq bit.conj_disj_distrib2)

lemma rcvd_sn_dc_bit: "pdcp_rcvd_sn e ((b OR 128) # bs) = pdcp_rcvd_sn e (b # bs)"
proof -
  obtain k where "pdcp_header_size e = Suc k"
    by (cases "pe_sn_size e = SHORT_SN_SIZE") (simp_all add: pdcp_header_size_def pdcp_sizes)
  then show ?thesis by (simp add: pdcp_rcvd_sn_def mem_read_def set_dc_bit_nibble nat_add_distrib)
qed

text \<open>What reception does: nothing but counting, or the acceptance of a new SDU.\<close>

lemma with_pstats_twice: "with_pstats f (with_pstats g e) = with_pstats (f \<circ> g) e"
  by (simp add: with_pstats_def)

lemma recv_counted_cases:
  assumes "pdcp_recv_counted env e buffer k c = Inr e'"
  obtains (count) f where "e' = with_pstats f e"
  | (accept) sdu n where "ps_count sdu = c" "pe_rx_deliv e \<le> c" "\<not> nr_pdcp_sdu_in_list (pe_rx_list e) c"
      "e' = pdcp_accept e c sdu n"
proof -
  obtain plain ok where e': "e' = (if \<not> ok then pdcp_discard e (length buffer)
      else if c < pe_rx_deliv e \<or> nr_pdcp_sdu_in_list (pe_rx_list e) c then pdcp_discard e (length buffer)
      else pdcp_accept e c
         (nr_pdcp_new_sdu c (drop (pdcp_header_size e) (take (length buffer - pdcp_integrity_size e) plain))
           (pdcp_msg_integrity e buffer c)) (length buffer - pdcp_header_size e))"
    using assms by (auto simp: pdcp_recv_counted_def Let_def bindR_eq_Inr)
  show ?thesis
  proof (cases "ok \<and> \<not> (c < pe_rx_deliv e \<or> nr_pdcp_sdu_in_list (pe_rx_list e) c)")
    case True
    then have "e' = pdcp_accept e c
         (nr_pdcp_new_sdu c (drop (pdcp_header_size e) (take (length buffer - pdcp_integrity_size e) plain))
           (pdcp_msg_integrity e buffer c)) (length buffer - pdcp_header_size e)"
      by (auto simp: e')
    from accept [OF _ _ _ this] True show ?thesis by (simp add: nr_pdcp_new_sdu_def not_less)
  next
    case False
    then have "e' = pdcp_discard e (length buffer)" by (auto simp: e')
    then show ?thesis using count by (simp add: pdcp_discard_def)
  qed
qed

lemma recv_pdu_cases:
  assumes r: "nr_pdcp_entity_recv_pdu env e buffer = Inr e'"
  obtains (count) f where "e' = with_pstats f e"
  | (accept) f sn sdu n where "pdcp_rcvd_sn e buffer = Inr sn" "ps_count sdu = pdcp_rcvd_count e sn"
      "pe_rx_deliv e \<le> ps_count sdu" "\<not> nr_pdcp_sdu_in_list (pe_rx_list e) (ps_count sdu)"
      "e' = pdcp_accept (with_pstats f e) (ps_count sdu) sdu n"
proof (cases "pe_entity_suspended e \<or> buffer = []")
  case True
  then have "e' = with_pstats id e"
    using r by (auto simp: nr_pdcp_entity_recv_pdu_def with_pstats_def split: list.splits)
  then show ?thesis by (rule count)
next
  case False
  then obtain b bs where b: "buffer = b # bs" by (cases buffer) auto
  define buf where "buf = (if pe_type e \<noteq> NR_PDCP_SRB \<and> b AND 0x80 = 0 then (b OR 128) # bs else b # bs)"
  have sn: "pdcp_rcvd_sn e buf = pdcp_rcvd_sn e buffer" by (simp add: buf_def b rcvd_sn_dc_bit)
  obtain sn f where "pdcp_rcvd_sn e buffer = Inr sn"
    and "e' = with_pstats f e \<or> (\<exists>k. pdcp_recv_counted env (with_pstats f e) buf k (pdcp_rcvd_count e sn) = Inr e')"
    using r False unfolding nr_pdcp_entity_recv_pdu_def b list.case Let_def buf_def [symmetric] pdcp_discard_def
    by (auto simp: bindR_eq_Inr with_pstats_twice sn [unfolded b] split: if_splits)
  then show ?thesis
    by (auto simp: with_pstats_twice elim!: recv_counted_cases intro: count accept)
qed

lemma rx_ok_mono: "rx_ok timed k e \<Longrightarrow> rx_ok (timed \<and> b) k e"
  by (simp add: rx_ok_def)

lemma recv_pdu_ok:
  assumes "rx_ok timed k e" and "nr_pdcp_entity_recv_pdu env e buffer = Inr e'" and "no_wrap e buffer"
  shows "rx_ok (timed \<and> pe_t_current e \<noteq> 0) k e'"
  using assms(2)
proof (cases rule: recv_pdu_cases)
  case (accept f sn sdu n)
  then have "ps_count sdu \<noteq> - 1" using assms(3) by (simp add: no_wrap_def)
  then show ?thesis using accept assms(1) pdcp_accept_ok(1) [of timed k "with_pstats f e" sdu n] by simp
qed (use assms(1) in \<open>simp add: rx_ok_mono\<close>)

text \<open>Expiry of the reordering timer.\<close>

lemma check_t_reordering_expired:
  assumes ok: "split_at k e (pe_rx_deliv e)" "pe_rx_reord e \<le> pe_rx_next e" "pe_rx_deliv e \<le> pe_rx_reord e"
    and x: "pe_t_reordering e \<noteq> -1" "pe_t_reordering_start e \<noteq> 0"
      "\<not> pe_t_current e \<le> pe_t_reordering_start e + word_of_int (pe_t_reordering e)"
  shows "rx_ok timed k (check_t_reordering e)" and "pe_rx_reord e \<le> pe_rx_deliv (check_t_reordering e)"
    and "\<exists>ds. pe_rx_list e = ds @ pe_rx_list (check_t_reordering e)
           \<and> pe_delivered (check_t_reordering e) = pe_delivered e @ ds"
proof -
  define e0 where "e0 = e\<lparr>pe_t_reordering_start := 0\<rparr>"
  define e1 where "e1 = deliver_below e0 (pe_rx_list e0)"
  obtain ds where ds: "delivers e0 ds e1" "\<forall>s \<in> set ds. ps_count s < pe_rx_reord e"
    "\<forall>s r. pe_rx_list e1 = s # r \<longrightarrow> \<not> ps_count s < pe_rx_reord e"
    using deliver_below_delivers [OF refl, of e0] by (auto simp: e1_def e0_def)
  note D = deliversD [OF ds(1)]
  have r1: "pe_rx_reord e1 = pe_rx_reord e" "pe_rx_next e1 = pe_rx_next e" "pe_t_current e1 = pe_t_current e"
    "pe_t_reordering_start e1 = 0" by (simp_all add: D e0_def)
  have cur: "pe_t_current e \<noteq> 0" using x(3) by auto
  have split: "split_at k e1 (pe_rx_reord e)"
  proof -
    have k: "k \<le> length (pe_delivered e)" "k \<le> length (pe_delivered e1)"
      using ok(1) D(2) by (simp_all add: split_at_def e0_def)
    have s: "sorted_wrt (<) (counts (drop k (pe_delivered e1) @ pe_rx_list e1))"
      "\<forall>s \<in> set (drop k (pe_delivered e)). ps_count s < pe_rx_deliv e" "\<forall>s \<in> set (pe_rx_list e1). ps_count s < pe_rx_next e"
      using ok(1) D(1,2) k by (simp_all add: split_at_def e0_def)
    have "\<forall>s \<in> set (drop k (pe_delivered e1)). ps_count s < pe_rx_reord e"
      using s(2) ds(2) ok(3) k by (auto simp: D(2) e0_def dest: order_less_le_trans)
    moreover have "pe_rx_reord e \<le> ps_count s" if "s \<in> set (pe_rx_list e1)" for s
    proof -
      obtain h r where hr: "pe_rx_list e1 = h # r" using \<open>s \<in> _\<close> by (cases "pe_rx_list e1") auto
      have "pe_rx_reord e \<le> ps_count h" using ds(3) hr by (simp add: not_less)
      also have "ps_count h \<le> ps_count s" using that s(1) by (auto simp: hr sorted_wrt_append)
      finally show ?thesis .
    qed
    ultimately show ?thesis using s k ok(2) by (simp add: split_at_def r1)
  qed
  obtain e2 c where d: "deliver_in_order e1 (pe_rx_reord e1) (pe_rx_list e1) = (e2, c)" by fastforce
  note S = deliver_in_order_split [OF split [folded r1(1)] d]
  from S(4) obtain ds2 where ds2: "delivers e1 ds2 e2" by blast
  note D2 = deliversD [OF ds2]
  define e3 where "e3 = e2\<lparr>pe_rx_deliv := c\<rparr>"
  have ch: "check_t_reordering e = (if pe_rx_deliv e3 < pe_rx_next e3
      then e3\<lparr>pe_rx_reord := pe_rx_next e3, pe_t_reordering_start := pe_t_current e3\<rparr> else e3)"
    using x by (simp add: check_t_reordering_def e0_def [symmetric] e1_def [symmetric] d e3_def Let_def)
  have "split_at k e3 c" "c \<notin> set (counts (pe_rx_list e3))" "pe_t_current e3 \<noteq> 0" "pe_t_reordering_start e3 = 0"
    using S(1,2) cur by (simp_all add: e3_def split_at_def D2 r1)
  then show "rx_ok timed k (check_t_reordering e)"
    unfolding ch using split_below [of k e3 c] by (auto simp: rx_ok_def split_at_def e3_def)
  show "pe_rx_reord e \<le> pe_rx_deliv (check_t_reordering e)"
    unfolding ch using S(3) by (simp add: e3_def r1)
  show "\<exists>ds. pe_rx_list e = ds @ pe_rx_list (check_t_reordering e)
      \<and> pe_delivered (check_t_reordering e) = pe_delivered e @ ds"
    unfolding ch using D(1,2) D2(1,2) by (intro exI [of _ "ds @ ds2"]) (simp add: e3_def e0_def)
qed

lemma set_time_ok:
  assumes "rx_ok timed k e"
  shows "rx_ok timed k (nr_pdcp_entity_set_time e now)"
proof (cases "pe_t_reordering e = -1 \<or> pe_t_reordering_start e = 0
    \<or> now \<le> pe_t_reordering_start e + word_of_int (pe_t_reordering e)")
  case True
  then show ?thesis
    using assms by (auto simp: nr_pdcp_entity_set_time_def check_t_reordering_def rx_ok_def split_at_def)
next
  case False
  let ?e = "e\<lparr>pe_t_current := now\<rparr>"
  have "split_at k ?e (pe_rx_deliv ?e)" "pe_rx_reord ?e \<le> pe_rx_next ?e" "pe_rx_deliv ?e \<le> pe_rx_reord ?e"
    using assms False by (auto simp: rx_ok_def split_at_def)
  from check_t_reordering_expired(1) [OF this] show ?thesis
    using assms False by (simp add: nr_pdcp_entity_set_time_def)
qed

section \<open>Restart of the numbering\<close>

lemma deliver_all_loop_delivers: "pe_rx_list e = l \<Longrightarrow> delivers e l (deliver_all_loop e l) \<and> pe_rx_list (deliver_all_loop e l) = []"
proof (induction e l rule: deliver_all_loop.induct)
  case (2 e cur l)
  have "pe_rx_list (deliver_head e cur l) = l" by (simp add: deliver_head_def)
  from 2(1) [OF this] show ?case using delivers_head [OF 2(2)] by simp
qed (simp add: delivers_refl)

lemma deliver_all_sdus_delivers: "delivers e (pe_rx_list e) (deliver_all_sdus e)" "pe_rx_list (deliver_all_sdus e) = []"
  using deliver_all_loop_delivers [OF refl] by (simp_all add: deliver_all_sdus_def)

text \<open>With nothing held back and the timer off a new numbering starts at any COUNT value but the last.\<close>

lemma rx_ok_restart:
  assumes "pe_rx_list e = []" and "pe_t_reordering_start e = 0" and "pe_rx_deliv e \<le> pe_rx_next e"
  shows "rx_ok True (length (pe_delivered e)) e"
  using assms by (simp add: rx_ok_def split_at_def)

definition restartable :: "bool \<Rightarrow> nr_pdcp_entity_t \<Rightarrow> bool" where
  "restartable timed e \<longleftrightarrow> timed \<or> pe_rx_list e = []"

lemma suspend_ok:
  assumes "rx_ok timed k e" and "restartable timed e"
  shows "rx_ok True (length (pe_delivered (nr_pdcp_entity_suspend e))) (nr_pdcp_entity_suspend e)"
proof (rule rx_ok_restart)
  show "pe_rx_list (nr_pdcp_entity_suspend e) = []"
    using assms by (auto simp: nr_pdcp_entity_suspend_def Let_def deliver_all_sdus_delivers(2) rx_ok_def restartable_def)
  show "pe_t_reordering_start (nr_pdcp_entity_suspend e) = 0"
    by (simp add: nr_pdcp_entity_suspend_def Let_def deliversD(7) [OF deliver_all_sdus_delivers(1)])
qed (simp add: nr_pdcp_entity_suspend_def Let_def)

end
