(* ===== verification/Pdcp_Transfer.thy ===== *)
theory Pdcp_Transfer
  imports Pdcp_Order
begin

unbundle bit_operations_syntax

text \<open>
  Properties of PDCP entities: the states reached from a new entity by any sequence of calls, and the
  transfer of SDUs from an entity to its peer.
\<close>

section \<open>What the sender emits\<close>

definition sdap_tx_size :: "nr_pdcp_entity_t \<Rightarrow> nat" where
  "sdap_tx_size e = (if pe_has_sdap_tx e then 1 else 0)"

lemma peers_sizes:
  assumes "pdcp_peers a b"
  shows "pdcp_header_size b = pdcp_header_size a" "pdcp_integrity_size b = pdcp_integrity_size a"
  using peersD [OF assms] by (simp_all add: pdcp_header_size_def pdcp_integrity_size_def)

text \<open>The PDU as the peer sees it: it deciphers to header, SDU and integrity code.\<close>

definition pdu_for :: "secu_env \<Rightarrow> nr_pdcp_entity_t \<Rightarrow> nr_pdcp_entity_t \<Rightarrow> bytes \<Rightarrow> bytes \<Rightarrow> bytes \<Rightarrow> bool" where
  "pdu_for env a b buffer mac pdu \<longleftrightarrow>
     (let header = pdcp_header a (int (unat (pe_tx_next a) mod 2 ^ pe_sn_size a));
          direction = (if pe_is_gnb a then 1 else 0)
      in length mac = pdcp_integrity_size a \<and> length pdu = pdcp_header_size a + length buffer + pdcp_integrity_size a
        \<and> take (pdcp_header_size a) pdu = header
        \<and> cipher_from env b (pdcp_header_size a + sdap_tx_size a) pdu (pe_tx_next a) direction = Inr (header @ buffer @ mac)
        \<and> (pe_has_integrity a \<longrightarrow> pdcp_integrity_call env b (header @ buffer) (pe_tx_next a) direction = Inr mac))"

lemma sn_of_tx_next:
  assumes "pdcp_cfg a"
  shows "sint (pe_tx_next a AND word_of_int (pe_sn_max a)) = int (unat (pe_tx_next a) mod 2 ^ pe_sn_size a)"
  using assms and_mask_sn [of "pe_sn_size a" "pe_tx_next a"] by (auto simp: pdcp_cfg_def)

lemma process_sdu_pdu:
  assumes env: "secu_ok env" and p: "pdcp_peers a b" and l: "sdap_tx_size a < length buffer"
    and m: "nr_max_pdcp_pdu_size (int (length buffer)) \<le> int (length pdu_buffer)"
  obtains mac pdu rest f where "pdu_for env a b buffer mac pdu"
    "nr_pdcp_entity_process_sdu env a buffer pdu_buffer
       = Inr (int (length pdu), pdu @ rest, with_pstats f (a\<lparr>pe_tx_next := pe_tx_next a + 1\<rparr>))"
proof -
  note P = peersD [OF p]
  define d :: int where "d = (if pe_is_gnb a then 1 else 0)"
  define h where "h = pdcp_header a (int (unat (pe_tx_next a) mod 2 ^ pe_sn_size a))"
  have lh: "length h = pdcp_header_size a" by (simp add: h_def length_pdcp_header)
  obtain mac where mac: "(if pe_has_integrity a then pdcp_integrity_call env a (h @ buffer) (pe_tx_next a) d
      else Inr (replicate (pdcp_integrity_size a) 0)) = Inr mac" "length mac = pdcp_integrity_size a"
    "pe_has_integrity a \<longrightarrow> pdcp_integrity_call env b (h @ buffer) (pe_tx_next a) d = Inr mac"
  proof (cases "pe_has_integrity a")
    case True
    have "h @ buffer \<noteq> []" using l by auto
    from integrity_call_peers [OF env p True this, of "pe_tx_next a" d] show ?thesis
      using that True by (auto simp: pdcp_integrity_size_def pdcp_sizes)
  qed (use that in simp)
  have k: "pdcp_header_size a + sdap_tx_size a < length (h @ buffer @ mac)" using l by (simp add: lh)
  have "d \<in> {0, 1}" by (simp add: d_def)
  from cipher_from_peers [OF env p k this, of "pe_tx_next a"] obtain pdu where
    pdu: "cipher_from env a (pdcp_header_size a + sdap_tx_size a) (h @ buffer @ mac) (pe_tx_next a) d = Inr pdu"
      "length pdu = length (h @ buffer @ mac)"
      "take (pdcp_header_size a + sdap_tx_size a) pdu = take (pdcp_header_size a + sdap_tx_size a) (h @ buffer @ mac)"
      "cipher_from env b (pdcp_header_size a + sdap_tx_size a) pdu (pe_tx_next a) d = Inr (h @ buffer @ mac)" .
  have "take (pdcp_header_size a) pdu = take (pdcp_header_size a) (take (pdcp_header_size a + sdap_tx_size a) pdu)"
    by simp
  also have "\<dots> = h" unfolding pdu(3) by (simp add: lh)
  finally have t: "take (pdcp_header_size a) pdu = h" .
  have "length pdu \<le> length pdu_buffer"
    using m lh mac(2) by (auto simp: pdu(2) nr_max_pdcp_pdu_size_def pdcp_header_size_def pdcp_integrity_size_def pdcp_sizes split: if_splits)
  then have w: "mem_write pdu_buffer 0 pdu = Inr (pdu @ drop (length pdu) pdu_buffer)" by (simp add: mem_write_def)
  show ?thesis
  proof (rule that)
    show "pdu_for env a b buffer mac pdu"
      using t pdu(2,4) mac(2,3) lh by (simp add: pdu_for_def Let_def d_def h_def)
    show "nr_pdcp_entity_process_sdu env a buffer pdu_buffer = Inr (int (length pdu), pdu @ drop (length pdu) pdu_buffer,
      with_pstats ((\<lambda>st. st\<lparr>pst_txpdu_pkts := pst_txpdu_pkts st + 1,
        pst_txpdu_bytes := pst_txpdu_bytes st + of_nat (pdcp_header_size a + length buffer + pdcp_integrity_size a),
        pst_txpdu_sn := word_of_int (int (unat (pe_tx_next a) mod 2 ^ pe_sn_size a))\<rparr>)
       \<circ> (\<lambda>st. st\<lparr>pst_rxsdu_pkts := pst_rxsdu_pkts st + 1, pst_rxsdu_bytes := pst_rxsdu_bytes st + of_nat (length buffer)\<rparr>))
       (a\<lparr>pe_tx_next := pe_tx_next a + 1\<rparr>))"
      unfolding nr_pdcp_entity_process_sdu_def Let_def with_pstats_simps with_pstats_ops sn_of_tx_next [OF P(1)]
        d_def [symmetric] h_def [symmetric] sdap_tx_size_def [of a, symmetric] mac(1) pdu(1) w bindR_Inr
      using m P(12) lh mac(2) pdu(2) by (simp add: with_pstats_def)
  qed
qed

section \<open>What the receiver does with it\<close>

lemma recv_pdu_for:
  assumes p: "pdcp_peers a b" and pdu: "pdu_for env a b buffer mac pdu" and l: "sdap_tx_size a < length buffer"
    and w: "count_in_window b (unat (pe_tx_next a))" and new: "pe_rx_deliv b \<le> pe_tx_next a"
    and fresh: "\<not> nr_pdcp_sdu_in_list (pe_rx_list b) (pe_tx_next a)"
  obtains f mi n where "nr_pdcp_entity_recv_pdu env b pdu
    = Inr (pdcp_accept (with_pstats f b) (pe_tx_next a) (nr_pdcp_new_sdu (pe_tx_next a) buffer mi) n)"
    "pe_tx_next a \<noteq> - 1 \<longrightarrow> no_wrap b pdu"
proof -
  note P = peersD [OF p] and S = peers_sizes [OF p]
  define sn where "sn = int (unat (pe_tx_next a) mod 2 ^ pe_sn_size a)"
  define d :: int where "d = (if pe_is_gnb a then 1 else 0)"
  define h where "h = pdcp_header a sn"
  have lh: "length h = pdcp_header_size a" by (simp add: h_def length_pdcp_header)
  have D: "length mac = pdcp_integrity_size a" "length pdu = pdcp_header_size a + length buffer + pdcp_integrity_size a"
    "take (pdcp_header_size a) pdu = h"
    "cipher_from env b (pdcp_header_size a + sdap_tx_size a) pdu (pe_tx_next a) d = Inr (h @ buffer @ mac)"
    "pe_has_integrity a \<longrightarrow> pdcp_integrity_call env b (h @ buffer) (pe_tx_next a) d = Inr mac"
    using pdu by (simp_all add: pdu_for_def Let_def sn_def h_def d_def)
  have pdu_h: "pdu = h @ drop (pdcp_header_size a) pdu" using D(3) by (metis append_take_drop_id)
  have sn: "pdcp_rcvd_sn b pdu = Inr sn"
    by (subst pdu_h, unfold h_def, rule pdcp_header_roundtrip [OF P(1) _ _ P(3)]) (simp_all add: sn_def)
  have cnt: "pdcp_rcvd_count b sn = pe_tx_next a"
    using rcvd_count_eq [OF P(2) w] by (simp add: sn_def P(3))
  obtain x xs where x: "pdu = x # xs" "pe_type b \<noteq> NR_PDCP_SRB \<and> x AND 0x80 = 0 \<longleftrightarrow> False"
  proof (cases "pe_type a = NR_PDCP_SRB")
    case True
    then show ?thesis using that D(2) l P(4) by (cases pdu) auto
  next
    case False
    from header_dc_bit [OF this, of sn] obtain y ys where "h = y # ys" "y AND 0x80 \<noteq> 0" by (auto simp: h_def)
    then show ?thesis using that pdu_h by (metis append_Cons)
  qed
  have d: "(if pe_is_gnb b then 0 else 1) = d" using P(8) by (simp add: d_def)
  have k: "(if pe_has_sdap_rx b then 1 else 0) = sdap_tx_size a" by (simp add: P(9) sdap_tx_size_def)
  have len: "\<not> length pdu < pdcp_header_size b + sdap_tx_size a + pdcp_integrity_size b + 1" using l D(2) S by simp
  define g :: "nr_pdcp_statistics_t \<Rightarrow> nr_pdcp_statistics_t" where "g = (\<lambda>st. st\<lparr>pst_rxpdu_sn := word_of_int sn\<rparr>) \<circ> (\<lambda>st. st\<lparr>pst_rxpdu_pkts := pst_rxpdu_pkts st + 1,
      pst_rxpdu_bytes := pst_rxpdu_bytes st + of_nat (length pdu)\<rparr>)"
  have "nr_pdcp_entity_recv_pdu env b pdu = pdcp_recv_counted env (with_pstats g b) pdu (sdap_tx_size a) (pe_tx_next a)"
    unfolding nr_pdcp_entity_recv_pdu_def x(1) list.case Let_def x(2) if_False
    unfolding x(1) [symmetric] with_pstats_simps with_pstats_ops sn bindR_Inr with_pstats_twice k cnt g_def [symmetric]
    using P(13) len by simp
  also have "\<dots> = Inr (pdcp_accept (with_pstats g b) (pe_tx_next a)
      (nr_pdcp_new_sdu (pe_tx_next a) buffer (pdcp_msg_integrity b pdu (pe_tx_next a))) (length pdu - pdcp_header_size a))"
    unfolding pdcp_recv_counted_def Let_def with_pstats_simps with_pstats_ops d S D(4) bindR_Inr
    using D(1,2,5) lh new fresh P(10) by (simp add: not_less)
  finally show ?thesis by (rule that) (simp add: no_wrap_def sn cnt)
qed

section \<open>Transfer of a sequence of SDUs\<close>

text \<open>Every SDU is given to one entity, and the PDU it returns to the other one, in order. \<open>mem\<close> is the buffer of the caller.\<close>

fun pdcp_transfer ::
    "secu_env \<Rightarrow> bytes \<Rightarrow> nr_pdcp_entity_t \<Rightarrow> nr_pdcp_entity_t \<Rightarrow> bytes list \<Rightarrow> (nr_pdcp_entity_t \<times> nr_pdcp_entity_t) res" where
  "pdcp_transfer env mem a b [] = Inr (a, b)"
| "pdcp_transfer env mem a b (sdu # sdus) =
     bindR (nr_pdcp_entity_process_sdu env a sdu mem) (\<lambda>(n, pdu, a').
     bindR (nr_pdcp_entity_recv_pdu env b (take (nat n) pdu)) (\<lambda>b'. pdcp_transfer env mem a' b' sdus))"

definition fits :: "nr_pdcp_entity_t \<Rightarrow> bytes \<Rightarrow> bytes \<Rightarrow> bool" where
  "fits a mem sdu \<longleftrightarrow> sdap_tx_size a < length sdu \<and> nr_max_pdcp_pdu_size (int (length sdu)) \<le> int (length mem)"

text \<open>The configuration: what neither transmission nor reception changes.\<close>

definition same_config :: "nr_pdcp_entity_t \<Rightarrow> nr_pdcp_entity_t \<Rightarrow> bool" where
  "same_config e e' \<longleftrightarrow> pe_type e' = pe_type e \<and> pe_rb_id e' = pe_rb_id e \<and> pe_has_sdap_rx e' = pe_has_sdap_rx e
     \<and> pe_has_sdap_tx e' = pe_has_sdap_tx e \<and> pe_sn_size e' = pe_sn_size e \<and> pe_sn_max e' = pe_sn_max e
     \<and> pe_window_size e' = pe_window_size e \<and> pe_has_ciphering e' = pe_has_ciphering e
     \<and> pe_has_integrity e' = pe_has_integrity e \<and> pe_security_keys_and_algos e' = pe_security_keys_and_algos e
     \<and> pe_security e' = pe_security e \<and> pe_integrity e' = pe_integrity e \<and> pe_is_gnb e' = pe_is_gnb e
     \<and> pe_entity_suspended e' = pe_entity_suspended e"

lemma same_config_tx: "same_config e (with_pstats f (e\<lparr>pe_tx_next := n\<rparr>))"
  by (simp add: same_config_def)

lemma same_config_trans: "same_config e f \<Longrightarrow> same_config f g \<Longrightarrow> same_config e g"
  unfolding same_config_def by presburger

lemma peers_same_config:
  assumes "pdcp_peers a b" and "same_config a a'" and "same_config b b'"
  shows "pdcp_peers a' b'"
  using assms unfolding pdcp_peers_def same_config_def pdcp_cfg_def by presburger

lemma deliver_in_order_config: "deliver_in_order e c l = (e', c') \<Longrightarrow> same_config e e'"
proof (induction l arbitrary: e c)
  case (Cons s l)
  have "same_config e (deliver_head e s l)" by (simp add: deliver_head_def same_config_def)
  then show ?case using Cons by (auto simp: same_config_def split: if_splits)
qed (simp add: same_config_def)

lemma pdcp_timers_config: "same_config e (pdcp_timers e)"
  by (simp add: pdcp_timers_def same_config_def Let_def)

lemma pdcp_accept_config: "same_config e (pdcp_accept e c sdu n)"
proof -
  define e2 where "e2 = (let e1 = e\<lparr>pe_rx_list := nr_pdcp_sdu_list_add (pe_rx_list e) sdu, pe_rx_size := pe_rx_size e + int n\<rparr>
    in if c \<ge> pe_rx_next e1 then e1\<lparr>pe_rx_next := c + 1\<rparr> else e1)"
  have e2: "same_config e e2" by (simp add: e2_def same_config_def Let_def)
  obtain e' c' where d: "deliver_in_order e2 (pe_rx_deliv e2) (pe_rx_list e2) = (e', c')" by fastforce
  have "same_config e (e'\<lparr>pe_rx_deliv := c'\<rparr>)"
    using same_config_trans [OF e2 deliver_in_order_config [OF d]] by (simp add: same_config_def)
  then have "same_config e (if c = pe_rx_deliv e2 then e'\<lparr>pe_rx_deliv := c'\<rparr> else e2)" using e2 by simp
  from same_config_trans [OF this pdcp_timers_config] show ?thesis
    unfolding pdcp_accept_def Let_def e2_def [unfolded Let_def, symmetric] d prod.case .
qed

lemma accept_next:
  assumes "pe_rx_list e = []" and "ps_count sdu = pe_rx_deliv e"
  shows "pe_delivered (pdcp_accept e (ps_count sdu) sdu n) = pe_delivered e @ [sdu]"
    and "pe_rx_list (pdcp_accept e (ps_count sdu) sdu n) = []"
    and "pe_rx_deliv (pdcp_accept e (ps_count sdu) sdu n) = ps_count sdu + 1"
  using assms by (simp_all add: pdcp_accept_def pdcp_timers_def deliver_head_def Let_def)

lemma transfer_all:
  assumes "secu_ok env" and "pdcp_peers a b" and "pe_rx_deliv b = pe_tx_next a" and "pe_rx_list b = []"
    and "\<And>sdu. sdu \<in> set sdus \<Longrightarrow> fits a mem sdu"
  shows "\<exists>a' b'. pdcp_transfer env mem a b sdus = Inr (a', b') \<and> pe_rx_list b' = []
     \<and> map ps_buffer (pe_delivered b') = map ps_buffer (pe_delivered b) @ sdus
     \<and> pe_tx_next a' = pe_tx_next a + of_nat (length sdus) \<and> pe_rx_deliv b' = pe_tx_next a'"
  using assms(2-)
proof (induction sdus arbitrary: a b)
  case (Cons sdu sdus)
  have fit: "sdap_tx_size a < length sdu" "nr_max_pdcp_pdu_size (int (length sdu)) \<le> int (length mem)"
    using Cons.prems(4) [of sdu] by (simp_all add: fits_def)
  obtain mac pdu rest f where pdu: "pdu_for env a b sdu mac pdu" "nr_pdcp_entity_process_sdu env a sdu mem
      = Inr (int (length pdu), pdu @ rest, with_pstats f (a\<lparr>pe_tx_next := pe_tx_next a + 1\<rparr>))"
    by (rule process_sdu_pdu [OF assms(1) Cons.prems(1) fit])
  define a1 where "a1 = with_pstats f (a\<lparr>pe_tx_next := pe_tx_next a + 1\<rparr>)"
  have "pe_window_size b > 0" using peersD(2) [OF Cons.prems(1)] by (auto simp: pdcp_cfg_def)
  then have w: "count_in_window b (unat (pe_tx_next a))" "pe_rx_deliv b \<le> pe_tx_next a"
      "\<not> nr_pdcp_sdu_in_list (pe_rx_list b) (pe_tx_next a)"
    using Cons.prems(2,3) unsigned_less [of "pe_tx_next a"] by (simp_all add: count_in_window_def)
  obtain g mi n where recv: "nr_pdcp_entity_recv_pdu env b pdu
      = Inr (pdcp_accept (with_pstats g b) (pe_tx_next a) (nr_pdcp_new_sdu (pe_tx_next a) sdu mi) n)"
    by (rule recv_pdu_for [OF Cons.prems(1) pdu(1) fit(1) w])
  define s where "s = nr_pdcp_new_sdu (pe_tx_next a) sdu mi"
  have s: "ps_count s = pe_tx_next a" "ps_buffer s = sdu" by (simp_all add: s_def nr_pdcp_new_sdu_def)
  define b1 where "b1 = pdcp_accept (with_pstats g b) (ps_count s) s n"
  have b1: "pe_delivered b1 = pe_delivered b @ [s]" "pe_rx_list b1 = []" "pe_rx_deliv b1 = pe_tx_next a + 1"
    using accept_next [of "with_pstats g b" s n] Cons.prems(2,3) s by (simp_all add: b1_def)
  have "same_config b (with_pstats g b)" by (simp add: same_config_def)
  then have "pdcp_peers a1 b1" unfolding a1_def b1_def
    by (intro peers_same_config [OF Cons.prems(1) same_config_tx] same_config_trans [OF _ pdcp_accept_config])
  moreover have "fits a1 mem x" if "x \<in> set sdus" for x
    using Cons.prems(4) [of x] that by (simp add: fits_def sdap_tx_size_def a1_def)
  ultimately obtain a' b' where "pdcp_transfer env mem a1 b1 sdus = Inr (a', b')" "pe_rx_list b' = []"
    "map ps_buffer (pe_delivered b') = map ps_buffer (pe_delivered b1) @ sdus"
    "pe_tx_next a' = pe_tx_next a1 + of_nat (length sdus)" "pe_rx_deliv b' = pe_tx_next a'"
    using Cons.IH [of a1 b1] b1 by (auto simp: a1_def)
  then show ?case
    using recv b1(1) s by (simp add: pdu(2) a1_def b1_def s_def algebra_simps)
qed simp

end
