(* ===== verification/Pdcp_Props.thy ===== *)
theory Pdcp_Props
  imports Pdcp_Transfer
begin

unbundle bit_operations_syntax

text \<open>
  The properties of a PDCP entity: order of delivery, progress of reordering, transfer between peers,
  COUNT values, integrity, and faults of reception.
\<close>

section \<open>Reachable states\<close>

text \<open>
  The states of an entity in use: created, then any calls in any order. The two arguments before the
  state record its past. \<open>k\<close> is the number of SDUs delivered before the numbering last started anew, which
  suspension, re-establishment of an SRB or of a DRB in UM mode and \<^verbatim>\<open>set_pdcp_count_dl\<close> do.
  \<open>timed\<close> holds when since then every PDU was received at a time other than 0: an entity has time 0 until
  its first \<^verbatim>\<open>set_time\<close>, which the timer thread calls for the SRBs and for the DRBs 1 to 5 only.

  The limits of these runs: the last COUNT value \<open>2 ^ 32 - 1\<close> is not received; suspension and the
  re-establishment in UM mode, which deliver what is held back only while the timer runs, find nothing
  held back if the time was not known; and \<^verbatim>\<open>set_pdcp_count_dl\<close> is called with nothing held back and the
  timer off.
\<close>

inductive pdcp_reach :: "secu_env \<Rightarrow> bool \<Rightarrow> nat \<Rightarrow> nr_pdcp_entity_t \<Rightarrow> bool" for env where
  start: "new_nr_pdcp_entity ty is_gnb rb_id pdusession_id has_sdap_rx has_sdap_tx sn_size t_reordering discard_timer
      security_parameters = Inr e \<Longrightarrow> pdcp_reach env True 0 e"
| recv: "pdcp_reach env timed k e \<Longrightarrow> no_wrap e buffer \<Longrightarrow> nr_pdcp_entity_recv_pdu env e buffer = Inr e'
    \<Longrightarrow> pdcp_reach env (timed \<and> pe_t_current e \<noteq> 0) k e'"
| time: "pdcp_reach env timed k e \<Longrightarrow> pdcp_reach env timed k (nr_pdcp_entity_set_time e now)"
| send: "pdcp_reach env timed k e \<Longrightarrow> nr_pdcp_entity_process_sdu env e buffer pdu_buffer = Inr (n, pdu_buffer', e')
    \<Longrightarrow> pdcp_reach env timed k e'"
| security: "pdcp_reach env timed k e \<Longrightarrow> nr_pdcp_entity_set_security e security_parameters = Inr e'
    \<Longrightarrow> pdcp_reach env timed k e'"
| set_count_ul: "pdcp_reach env timed k e \<Longrightarrow> pdcp_reach env timed k (nr_pdcp_entity_set_count_ul e pdcp_count sn_size)"
| set_count_dl: "pdcp_reach env timed k e \<Longrightarrow> pe_rx_list e = [] \<Longrightarrow> pe_t_reordering_start e = 0
    \<Longrightarrow> compose_count pdcp_count sn_size \<noteq> - 1
    \<Longrightarrow> pdcp_reach env True (length (pe_delivered e)) (nr_pdcp_entity_set_count_dl e pdcp_count sn_size)"
| suspend: "pdcp_reach env timed k e \<Longrightarrow> restartable timed e
    \<Longrightarrow> pdcp_reach env True (length (pe_delivered (nr_pdcp_entity_suspend e))) (nr_pdcp_entity_suspend e)"
| reestablish_am: "pdcp_reach env timed k e \<Longrightarrow> nr_pdcp_entity_reestablish_drb_am e security_parameters = Inr e'
    \<Longrightarrow> pdcp_reach env timed k e'"
| reestablish_um: "pdcp_reach env timed k e \<Longrightarrow> restartable timed e
    \<Longrightarrow> nr_pdcp_entity_reestablish_drb_um e security_parameters = Inr e'
    \<Longrightarrow> pdcp_reach env True (length (pe_delivered e')) e'"
| reestablish_srb: "pdcp_reach env timed k e \<Longrightarrow> nr_pdcp_entity_reestablish_srb e security_parameters = Inr e'
    \<Longrightarrow> pdcp_reach env True (length (pe_delivered e')) e'"

text \<open>Transmission and security do not touch what the receiver works on.\<close>

definition same_rx :: "nr_pdcp_entity_t \<Rightarrow> nr_pdcp_entity_t \<Rightarrow> bool" where
  "same_rx e e' \<longleftrightarrow> pe_delivered e' = pe_delivered e \<and> pe_rx_list e' = pe_rx_list e \<and> pe_rx_deliv e' = pe_rx_deliv e
     \<and> pe_rx_next e' = pe_rx_next e \<and> pe_rx_reord e' = pe_rx_reord e \<and> pe_t_current e' = pe_t_current e
     \<and> pe_t_reordering_start e' = pe_t_reordering_start e"

lemma same_rx_ok: "same_rx e e' \<Longrightarrow> rx_ok timed k e' = rx_ok timed k e"
  by (simp add: same_rx_def rx_ok_def split_at_def)

lemma set_security_same_rx:
  assumes "nr_pdcp_entity_set_security e p = Inr e'"
  shows "same_rx e e'"
proof -
  obtain e1 where "set_integrity (sp_integrity_algorithm p)
      (e\<lparr>pe_security_keys_and_algos := store_keys p (pe_security_keys_and_algos e)\<rparr>) = Inr e1"
    "set_ciphering (sp_ciphering_algorithm p) e1 = Inr e'"
    using assms by (auto simp: nr_pdcp_entity_set_security_def bindR_eq_Inr)
  then show ?thesis
    by (auto simp: set_integrity_def set_ciphering_def same_rx_def Let_def split: if_splits)
qed

lemma process_sdu_same_rx:
  assumes "nr_pdcp_entity_process_sdu env e buffer pdu_buffer = Inr (n, m, e')"
  shows "same_rx e e'"
  using assms by (auto simp: nr_pdcp_entity_process_sdu_def Let_def bindR_eq_Inr same_rx_def split: if_splits)

lemma reestablish_am_same_rx:
  assumes "nr_pdcp_entity_reestablish_drb_am e p = Inr e'"
  shows "same_rx e e'"
  using assms set_security_same_rx
  by (fastforce simp: nr_pdcp_entity_reestablish_drb_am_def bindR_eq_Inr same_rx_def)

lemma reestablish_um_ok:
  assumes "rx_ok timed k e" and "restartable timed e" and "nr_pdcp_entity_reestablish_drb_um e p = Inr e'"
  shows "rx_ok True (length (pe_delivered e')) e'"
proof -
  define e1 where "e1 = (if pe_t_reordering_start e \<noteq> 0 then deliver_all_sdus (e\<lparr>pe_tx_next := 0\<rparr>) else e\<lparr>pe_tx_next := 0\<rparr>)"
  obtain e3 where e3: "nr_pdcp_entity_set_security (e1\<lparr>pe_t_reordering_start := 0, pe_rx_next := 0, pe_rx_deliv := 0\<rparr>) p = Inr e3"
    "e' = e3\<lparr>pe_entity_suspended := False\<rparr>"
    using assms(3) by (auto simp: nr_pdcp_entity_reestablish_drb_um_def Let_def bindR_eq_Inr e1_def)
  have "pe_rx_list e1 = []"
    using assms(1,2) by (auto simp: e1_def deliver_all_sdus_delivers(2) rx_ok_def restartable_def)
  then show ?thesis
    using set_security_same_rx [OF e3(1)] by (intro rx_ok_restart) (simp_all add: same_rx_def e3(2))
qed

lemma reestablish_srb_ok:
  assumes "nr_pdcp_entity_reestablish_srb e p = Inr e'"
  shows "rx_ok True (length (pe_delivered e')) e'"
proof -
  obtain e3 where e3: "nr_pdcp_entity_set_security ((free_rx_list (e\<lparr>pe_tx_next := 0\<rparr>))
      \<lparr>pe_t_reordering_start := 0, pe_rx_next := 0, pe_rx_deliv := 0\<rparr>) p = Inr e3" "e' = e3\<lparr>pe_entity_suspended := False\<rparr>"
    using assms by (auto simp: nr_pdcp_entity_reestablish_srb_def Let_def bindR_eq_Inr)
  have "pe_rx_list (free_rx_list (e\<lparr>pe_tx_next := 0\<rparr>)) = []" by (simp add: free_rx_list_def)
  then show ?thesis
    using set_security_same_rx [OF e3(1)] by (intro rx_ok_restart) (simp_all add: same_rx_def e3(2))
qed

lemma set_count_dl_ok:
  assumes "pe_rx_list e = []" and "pe_t_reordering_start e = 0" and "compose_count pdcp_count sn_size \<noteq> - 1"
  shows "rx_ok True (length (pe_delivered e)) (nr_pdcp_entity_set_count_dl e pdcp_count sn_size)"
proof -
  let ?c = "compose_count pdcp_count sn_size"
  have "?c < - 1" using assms(3) word_n1_ge [of ?c] by (simp add: less_le)
  then have "unat (?c + 1) = unat ?c + 1" by (rule word_succ(2))
  then have "?c \<le> ?c + 1" by (simp add: word_le_nat_alt)
  then show ?thesis
    using rx_ok_restart [of "nr_pdcp_entity_set_count_dl e pdcp_count sn_size"] assms(1,2)
    by (simp add: nr_pdcp_entity_set_count_dl_def Let_def)
qed

lemma set_count_ul_same_rx: "same_rx e (nr_pdcp_entity_set_count_ul e pdcp_count sn_size)"
  by (simp add: same_rx_def nr_pdcp_entity_set_count_ul_def)

lemma new_entity_rx:
  assumes "new_nr_pdcp_entity ty is_gnb rb_id pdusession_id has_sdap_rx has_sdap_tx sn_size t_reordering discard_timer
      security_parameters = Inr e"
  shows "rx_ok True 0 e"
  using set_security_same_rx [OF assms [unfolded new_nr_pdcp_entity_def]]
  by (simp add: same_rx_def rx_ok_def split_at_def)

lemma reach_rx_ok: "pdcp_reach env timed k e \<Longrightarrow> rx_ok timed k e"
proof (induction rule: pdcp_reach.induct)
  case (suspend timed k e)
  then show ?case by (simp add: suspend_ok)
qed (auto simp: same_rx_ok new_entity_rx set_time_ok set_count_dl_ok reestablish_srb_ok
      same_rx_ok [OF set_count_ul_same_rx] intro: reestablish_um_ok
      dest: recv_pdu_ok process_sdu_same_rx set_security_same_rx reestablish_am_same_rx)

section \<open>Faults of reception\<close>

text \<open>An entity whose algorithms are set up.\<close>

definition pdcp_ready :: "nr_pdcp_entity_t \<Rightarrow> bool" where
  "pdcp_ready e \<longleftrightarrow> pdcp_cfg e \<and> 0 < pe_rb_id e \<and> pe_rb_id e < 32
     \<and> (pe_has_ciphering e \<longrightarrow> pe_security e \<noteq> None) \<and> (pe_has_integrity e \<longrightarrow> pe_integrity e \<noteq> None)"

lemma ready_cipher:
  assumes "secu_ok env" and "pdcp_ready e" and "k < length m" and "d \<in> {0, 1}"
  shows "\<exists>c. cipher_from env e k m cnt d = Inr c \<and> length c = length m"
proof (cases "pe_has_ciphering e")
  case True
  have "drop k m \<noteq> []" using assms(3) by simp
  then show ?thesis
    using cipher_call_inverse [OF assms(1), of e "drop k m" d cnt] True assms
    by (auto simp: cipher_from_def pdcp_ready_def)
qed (simp add: cipher_from_def)

lemma ready_integrity:
  assumes "secu_ok env" and "pdcp_ready e" and "pe_has_integrity e" and "m \<noteq> []"
  shows "\<exists>mac. pdcp_integrity_call env e m cnt d = Inr mac"
proof -
  have "\<exists>i. pe_integrity e = Some i" using assms(2,3) by (auto simp: pdcp_ready_def)
  then obtain i where i: "pe_integrity e = Some i" ..
  show ?thesis
  proof (cases i)
    case (Nia1 key)
    show ?thesis unfolding pdcp_integrity_call_def i Nia1 option.case integrity_context.case
      using nia1.integrity_mac [of env m] assms(1,4) by blast
  next
    case (Nia2 key)
    show ?thesis unfolding pdcp_integrity_call_def i Nia2 option.case integrity_context.case
      using nia2.integrity_mac [of env "pe_rb_id e"] assms(1,2) by (fastforce simp: pdcp_ready_def)
  qed
qed

lemma recv_counted_total:
  assumes env: "secu_ok env" and e: "pdcp_ready e" and n: "pdcp_header_size e + k + pdcp_integrity_size e < length buffer"
  shows "\<exists>e'. pdcp_recv_counted env e buffer k cnt = Inr e'"
proof -
  define d :: int where "d = (if pe_is_gnb e then 0 else 1)"
  have "d \<in> {0, 1}" by (simp add: d_def)
  with n obtain plain where plain: "cipher_from env e (pdcp_header_size e + k) buffer cnt d = Inr plain"
      "length plain = length buffer"
    using ready_cipher [OF env e, of "pdcp_header_size e + k" buffer d cnt] by auto
  have "take (length buffer - pdcp_integrity_size e) plain \<noteq> []" using n plain(2) by (cases plain) auto
  then show ?thesis
    unfolding pdcp_recv_counted_def Let_def d_def [symmetric] plain(1) bindR_Inr
    using ready_integrity [OF env e, of "take (length buffer - pdcp_integrity_size e) plain" cnt d]
    by (cases "pe_has_integrity e") auto
qed

lemma ready_with_pstats [simp]: "pdcp_ready (with_pstats f e) = pdcp_ready e"
  by (simp add: pdcp_ready_def pdcp_cfg_def)

text \<open>The D/C bit is set in a data PDU that arrives without it.\<close>

definition dc_fixed :: "nr_pdcp_entity_t \<Rightarrow> bytes \<Rightarrow> bytes" where
  "dc_fixed e buffer = (if pe_type e \<noteq> NR_PDCP_SRB \<and> hd buffer AND 0x80 = 0 then (hd buffer OR 128) # tl buffer else buffer)"

lemma dc_fixed_eq:
  assumes "buffer \<noteq> []"
  shows "length (dc_fixed e buffer) = length buffer" "pdcp_rcvd_sn e (dc_fixed e buffer) = pdcp_rcvd_sn e buffer"
  using assms by (cases buffer; simp add: dc_fixed_def rcvd_sn_dc_bit)+

lemma recv_pdu_unfold:
  assumes "\<not> (pe_entity_suspended e \<or> buffer = [])"
  obtains f g where "nr_pdcp_entity_recv_pdu env e buffer = bindR (pdcp_rcvd_sn e buffer) (\<lambda>sn.
     if length buffer < pdcp_header_size e + (if pe_has_sdap_rx e then 1 else 0) + pdcp_integrity_size e + 1
     then Inr (with_pstats (f sn) e)
     else pdcp_recv_counted env (with_pstats (g sn) e) (dc_fixed e buffer) (if pe_has_sdap_rx e then 1 else 0)
            (pdcp_rcvd_count e sn))"
proof -
  from assms obtain b bs where b: "buffer = b # bs" by (cases buffer) auto
  have buf: "(if pe_type e \<noteq> NR_PDCP_SRB \<and> b AND 0x80 = 0 then (b OR 128) # bs else b # bs) = dc_fixed e buffer"
    by (simp add: dc_fixed_def b)
  show ?thesis
    by (rule that, unfold nr_pdcp_entity_recv_pdu_def b list.case Let_def buf [unfolded b] pdcp_discard_def with_pstats_twice
        with_pstats_simps with_pstats_ops dc_fixed_eq [OF list.distinct(2)])
      (use assms in \<open>simp add: b\<close>)
qed

lemma recv_pdu_outcome:
  assumes env: "secu_ok env" and e: "pdcp_ready e"
  shows "if pe_entity_suspended e \<or> buffer = [] \<or> pdcp_header_size e \<le> length buffer
    then \<exists>e'. nr_pdcp_entity_recv_pdu env e buffer = Inr e'
    else nr_pdcp_entity_recv_pdu env e buffer = Inl Out_Of_Bounds"
proof (cases "pe_entity_suspended e \<or> buffer = []")
  case False
  define k :: nat where "k = (if pe_has_sdap_rx e then 1 else 0)"
  from recv_pdu_unfold [OF False, of env] obtain f g where
    r: "nr_pdcp_entity_recv_pdu env e buffer = bindR (pdcp_rcvd_sn e buffer) (\<lambda>sn.
     if length buffer < pdcp_header_size e + k + pdcp_integrity_size e + 1 then Inr (with_pstats (f sn) e)
     else pdcp_recv_counted env (with_pstats (g sn) e) (dc_fixed e buffer) k (pdcp_rcvd_count e sn))"
    unfolding k_def by blast
  show ?thesis
  proof (cases "pdcp_header_size e \<le> length buffer")
    case True
    then obtain sn where sn: "pdcp_rcvd_sn e buffer = Inr sn" by (auto simp: pdcp_rcvd_sn_def mem_read_ok)
    show ?thesis
      using True recv_counted_total [OF env, of "with_pstats (g sn) e" k "dc_fixed e buffer"] e False
      by (simp add: r sn not_less dc_fixed_eq)
  next
    case short: False
    then have "pdcp_rcvd_sn e buffer = Inl Out_Of_Bounds" by (simp add: pdcp_rcvd_sn_def mem_read_def bindR_def)
    then show ?thesis using False short by (simp add: r bindR_def)
  qed
qed (auto simp: nr_pdcp_entity_recv_pdu_def)

section \<open>Authenticity\<close>

text \<open>The integrity code at the end of a deciphered PDU is the one of the rest of the PDU.\<close>

definition authentic :: "secu_env \<Rightarrow> nr_pdcp_entity_t \<Rightarrow> u32 \<Rightarrow> bytes \<Rightarrow> bool" where
  "authentic env e cnt plain \<longleftrightarrow>
     pdcp_integrity_call env e (take (length plain - 4) plain) cnt (if pe_is_gnb e then 0 else 1)
       = Inr (drop (length plain - 4) plain)"

lemma recv_counted_authentic:
  assumes env: "secu_ok env" and e: "pdcp_ready e" and i: "pe_has_integrity e"
    and n: "pdcp_header_size e + k + pdcp_integrity_size e < length buffer"
    and r: "pdcp_recv_counted env e buffer k cnt = Inr e'"
  shows "(\<exists>f. e' = with_pstats f e)
    \<or> (\<exists>plain sdu m. cipher_from env e (pdcp_header_size e + k) buffer cnt (if pe_is_gnb e then 0 else 1) = Inr plain
         \<and> length plain = length buffer \<and> authentic env e cnt plain \<and> e' = pdcp_accept e cnt sdu m \<and> ps_count sdu = cnt
         \<and> ps_buffer sdu = drop (pdcp_header_size e) (take (length plain - 4) plain))"
proof -
  define d :: int where "d = (if pe_is_gnb e then 0 else 1)"
  have "d \<in> {0, 1}" by (simp add: d_def)
  with n obtain plain where plain: "cipher_from env e (pdcp_header_size e + k) buffer cnt d = Inr plain"
      "length plain = length buffer"
    using ready_cipher [OF env e, of "pdcp_header_size e + k" buffer d cnt] by auto
  have is4: "pdcp_integrity_size e = 4" using i by (simp add: pdcp_integrity_size_def pdcp_sizes)
  show ?thesis
    using r i unfolding pdcp_recv_counted_def Let_def d_def [symmetric] plain(1) bindR_Inr authentic_def
    by (auto simp: bindR_eq_Inr is4 plain(2) nr_pdcp_new_sdu_def pdcp_discard_def split: if_splits)
qed

section \<open>Examples\<close>

text \<open>Two entities with 12 bit sequence numbers, integrity and ciphering by AES, at time 1; AES is a fixed pattern.\<close>

definition example_env :: secu_env where
  "example_env = \<lparr> se_stack32 = replicate 16 0, se_stack64 = replicate 8 (replicate 256 0),
     se_aes_ctr = (\<lambda>key iv. map (\<lambda>b. b XOR 0x55)), se_aes_cmac = (\<lambda>key m. replicate 16 7) \<rparr>"

definition example_entity :: "bool \<Rightarrow> nr_pdcp_entity_t" where
  "example_entity is_gnb =
     \<lparr> pe_type = NR_PDCP_DRB_AM, pe_delivered = [], pe_rb_id = 1, pe_pdusession_id = 1,
       pe_has_sdap_rx = False, pe_has_sdap_tx = False, pe_sn_size = 12, pe_t_reordering = 100, pe_discard_timer = 0,
       pe_sn_max = 4095, pe_window_size = 2048, pe_tx_next = 0, pe_rx_next = 0, pe_rx_deliv = 0, pe_rx_reord = 0,
       pe_t_current = 1, pe_t_reordering_start = 0, pe_has_ciphering = True, pe_has_integrity = True,
       pe_security_keys_and_algos = \<lparr> sp_integrity_algorithm = 2, sp_ciphering_algorithm = 2,
         sp_integrity_key = replicate 16 3, sp_ciphering_key = replicate 16 4 \<rparr>,
       pe_security = Some Nea2, pe_integrity = Some (Nia2 (replicate 16 3)), pe_is_gnb = is_gnb, pe_rx_list = [],
       pe_rx_size = 0, pe_rx_maxsize = 0, pe_stats = zero_pstats, pe_entity_suspended = False \<rparr>"

lemma example_env_ok: "secu_ok example_env"
  by (auto simp: secu_ok_def example_env_def pm_memory_def bit_simps intro!: map_idI simp: xor.assoc)

lemma example_new:
  "bindR (new_nr_pdcp_entity NR_PDCP_DRB_AM is_gnb 1 1 False False 12 100 0
     \<lparr> sp_integrity_algorithm = 2, sp_ciphering_algorithm = 2,
       sp_integrity_key = replicate 16 3, sp_ciphering_key = replicate 16 4 \<rparr>) (\<lambda>e. Inr (nr_pdcp_entity_set_time e 1))
   = Inr (example_entity is_gnb)"
  by (simp add: new_nr_pdcp_entity_def nr_pdcp_entity_set_security_def store_keys_def set_integrity_def set_ciphering_def
      Let_def nr_pdcp_entity_set_time_def check_t_reordering_def example_entity_def)

lemma example_reach: "pdcp_reach env True 0 (example_entity is_gnb)"
proof -
  obtain e where e: "new_nr_pdcp_entity NR_PDCP_DRB_AM is_gnb 1 1 False False 12 100 0
     \<lparr> sp_integrity_algorithm = 2, sp_ciphering_algorithm = 2,
       sp_integrity_key = replicate 16 3, sp_ciphering_key = replicate 16 4 \<rparr> = Inr e"
    "nr_pdcp_entity_set_time e 1 = example_entity is_gnb"
    using example_new [of is_gnb] by (auto simp: bindR_eq_Inr simp del: replicate.simps)
  show ?thesis using pdcp_reach.time [OF pdcp_reach.start [OF e(1)], of env 1] by (simp add: e(2))
qed

lemma example_peers: "pdcp_peers (example_entity True) (example_entity False)"
  by (simp add: pdcp_peers_def pdcp_cfg_def example_entity_def)

text \<open>The PDU with COUNT value 1 arrives first: it is held back.\<close>

lemma example_held:
  obtains e s where "pdcp_reach example_env True 0 e" "pe_rx_list e = [s]" "ps_count s = 1" "ps_buffer s = [9]" "pe_delivered e = []"
    "pe_rx_deliv e = 0" "pe_rx_reord e = 2" "pe_t_reordering_start e = 1" "pe_t_reordering e = 100"
proof -
  let ?a = "example_entity True\<lparr>pe_tx_next := 1\<rparr>" and ?b = "example_entity False"
  have p: "pdcp_peers ?a ?b" by (simp add: pdcp_peers_def pdcp_cfg_def example_entity_def)
  have l: "sdap_tx_size ?a < length [9::u8]" by (simp add: sdap_tx_size_def example_entity_def)
  have "nr_max_pdcp_pdu_size (int (length [9::u8])) \<le> int (length (replicate 8 (0::u8)))"
    by (simp add: nr_max_pdcp_pdu_size_def pdcp_sizes)
  from process_sdu_pdu [OF example_env_ok p l this] obtain mac pdu where pdu: "pdu_for example_env ?a ?b [9] mac pdu" by metis
  have "count_in_window ?b (unat (pe_tx_next ?a))" "pe_rx_deliv ?b \<le> pe_tx_next ?a"
    "\<not> nr_pdcp_sdu_in_list (pe_rx_list ?b) (pe_tx_next ?a)"
    by (simp_all add: count_in_window_def example_entity_def)
  from recv_pdu_for [OF p pdu l this] obtain f mi n where recv: "nr_pdcp_entity_recv_pdu example_env ?b pdu
      = Inr (pdcp_accept (with_pstats f ?b) 1 (nr_pdcp_new_sdu 1 [9] mi) n)" "no_wrap ?b pdu"
    by (auto simp: example_entity_def)
  have r: "pdcp_reach example_env True 0 (pdcp_accept (with_pstats f ?b) 1 (nr_pdcp_new_sdu 1 [9] mi) n)"
    using pdcp_reach.recv [OF example_reach recv(2,1)] by (simp add: example_entity_def)
  show ?thesis
    by (rule that [OF r, of "nr_pdcp_new_sdu 1 [9] mi"])
      (simp_all add: pdcp_accept_def pdcp_timers_def example_entity_def nr_pdcp_new_sdu_def Let_def with_pstats_def)
qed

section \<open>Properties\<close>

text \<open>
  C11. An entity may be sent PDUs and given the time in any order, and be suspended, re-established or given
  a COUNT value in between (\<open>pdcp_reach\<close> lists the calls and their limits). In every state so reached the
  SDUs delivered since the numbering last started anew and the SDUs held back have strictly increasing
  COUNT values, in this order: deliveries are in order and no SDU is delivered twice. Whatever is held back
  lies above \<^verbatim>\<open>rx_deliv\<close> and below \<^verbatim>\<open>rx_next\<close>. Provided that the entity knew the time at
  every reception, the reordering timer runs while something is held back. Release delivers the SDUs held
  back, after the others.
\<close>

theorem pdcp_delivery_order:
  assumes "pdcp_reach env timed k e"
  shows "sorted_wrt (<) (map ps_count (drop k (pe_delivered e) @ pe_rx_list e))
    \<and> (\<forall>s \<in> set (drop k (pe_delivered e)). ps_count s < pe_rx_deliv e)
    \<and> (\<forall>s \<in> set (pe_rx_list e). pe_rx_deliv e < ps_count s \<and> ps_count s < pe_rx_next e)
    \<and> (timed \<and> pe_rx_list e \<noteq> [] \<longrightarrow> pe_t_reordering_start e \<noteq> 0)
    \<and> pe_delivered (nr_pdcp_entity_release e) = pe_delivered e @ pe_rx_list e"
proof -
  have ok: "rx_ok timed k e" by (rule reach_rx_ok [OF assms])
  then have d: "sorted_wrt (<) (map ps_count (drop k (pe_delivered e) @ pe_rx_list e))
      \<and> (\<forall>s \<in> set (drop k (pe_delivered e)). ps_count s < pe_rx_deliv e)"
    by (auto simp: rx_ok_def split_at_def)
  have r: "\<forall>s \<in> set (pe_rx_list e). pe_rx_deliv e < ps_count s \<and> ps_count s < pe_rx_next e"
    using ok by (force simp: rx_ok_def split_at_def less_le)
  have "timed \<and> pe_rx_list e \<noteq> [] \<longrightarrow> pe_t_reordering_start e \<noteq> 0" using ok by (simp add: rx_ok_def)
  moreover have "pe_delivered (nr_pdcp_entity_release e) = pe_delivered e @ pe_rx_list e"
    unfolding nr_pdcp_entity_release_def by (rule deliversD(2) [OF deliver_all_sdus_delivers(1)])
  ultimately show ?thesis using d r by blast
qed

theorem pdcp_delivery_order_witness:
  "\<exists>e. pdcp_reach example_env True 0 e \<and> map ps_count (pe_rx_list e) = [1] \<and> pe_t_reordering_start e \<noteq> 0
     \<and> map ps_buffer (pe_delivered (nr_pdcp_entity_release e)) = [[9]]"
proof -
  obtain e s where e: "pdcp_reach example_env True 0 e" "pe_rx_list e = [s]" "ps_count s = 1" "ps_buffer s = [9]"
    "pe_delivered e = []" by (rule example_held)
  show ?thesis using pdcp_delivery_order [OF e(1)] e by (intro exI [of _ e]) simp
qed

text \<open>
  C12. Reordering makes progress: when the time passes the end of the running reordering timer, every
  SDU held back with a COUNT value below \<^verbatim>\<open>rx_reord\<close> is delivered, the deliveries continue
  in the order of the list, and \<^verbatim>\<open>rx_deliv\<close> is at least \<^verbatim>\<open>rx_reord\<close>.
\<close>

theorem pdcp_reordering_expires:
  assumes "pdcp_reach env timed k e" and "pe_t_reordering e \<noteq> -1" and "pe_t_reordering_start e \<noteq> 0" and "now \<noteq> 0"
    and "pe_t_reordering_start e + word_of_int (pe_t_reordering e) < now"
  shows "\<exists>ds. pe_delivered (nr_pdcp_entity_set_time e now) = pe_delivered e @ ds
     \<and> pe_rx_list e = ds @ pe_rx_list (nr_pdcp_entity_set_time e now)
     \<and> {s \<in> set (pe_rx_list e). ps_count s < pe_rx_reord e} \<subseteq> set ds
     \<and> pe_rx_reord e \<le> pe_rx_deliv (nr_pdcp_entity_set_time e now)"
proof -
  let ?e = "e\<lparr>pe_t_current := now\<rparr>" and ?e' = "nr_pdcp_entity_set_time e now"
  have ok: "rx_ok timed k e" by (rule reach_rx_ok [OF assms(1)])
  have "split_at k ?e (pe_rx_deliv ?e)" "pe_rx_reord ?e \<le> pe_rx_next ?e" "pe_rx_deliv ?e \<le> pe_rx_reord ?e"
    using ok assms(3) by (auto simp: rx_ok_def split_at_def)
  note X = check_t_reordering_expired [OF this]
  have ok': "rx_ok timed k ?e'" and d: "pe_rx_reord e \<le> pe_rx_deliv ?e'"
    using X(1,2) assms by (simp_all add: nr_pdcp_entity_set_time_def not_le)
  obtain ds where ds: "pe_rx_list e = ds @ pe_rx_list ?e'" "pe_delivered ?e' = pe_delivered e @ ds"
    using X(3) assms by (auto simp: nr_pdcp_entity_set_time_def not_le)
  have "s \<in> set ds" if "s \<in> set (pe_rx_list e)" "ps_count s < pe_rx_reord e" for s
  proof (rule ccontr)
    assume "s \<notin> set ds"
    then have "pe_rx_deliv ?e' \<le> ps_count s" using that(1) ds(1) ok' by (auto simp: rx_ok_def split_at_def)
    then show False using that(2) d by (meson leD order_trans)
  qed
  then show ?thesis using ds d by blast
qed

theorem pdcp_reordering_expires_witness:
  "\<exists>e. pdcp_reach example_env True 0 e \<and> map ps_buffer (pe_rx_list e) = [[9]]
     \<and> map ps_buffer (pe_delivered (nr_pdcp_entity_set_time e 102)) = [[9]]"
proof -
  obtain e s where e: "pdcp_reach example_env True 0 e" "pe_rx_list e = [s]" "ps_count s = 1" "ps_buffer s = [9]" "pe_delivered e = []"
    "pe_rx_deliv e = 0" "pe_rx_reord e = 2" "pe_t_reordering_start e = 1" "pe_t_reordering e = 100"
    by (rule example_held)
  then obtain ds where ds: "pe_delivered (nr_pdcp_entity_set_time e 102) = ds"
    "[s] = ds @ pe_rx_list (nr_pdcp_entity_set_time e 102)" "s \<in> set ds"
    using pdcp_reordering_expires [OF e(1), of 102] by auto
  then have "ds = [s]" by (cases ds) auto
  then show ?thesis using ds(1) e(1,2,4) by (intro exI [of _ e]) simp
qed

text \<open>
  C13. Two entities with the same configuration transfer any sequence of SDUs: when the receiver expects
  the next COUNT value of the sender and holds nothing back, every call on both sides succeeds and the
  receiver delivers exactly the SDUs that were sent, in their order, with integrity and ciphering by any
  of the algorithms, also across the wrap-around of the sequence numbers.
\<close>

theorem pdcp_transfer_in_order:
  assumes "secu_ok env" and "pdcp_peers a b" and "pe_rx_deliv b = pe_tx_next a" and "pe_rx_list b = []"
    and "\<forall>sdu \<in> set sdus. fits a mem sdu"
  shows "\<exists>a' b'. pdcp_transfer env mem a b sdus = Inr (a', b') \<and> pe_rx_list b' = []
     \<and> map ps_buffer (pe_delivered b') = map ps_buffer (pe_delivered b) @ sdus
     \<and> pe_tx_next a' = pe_tx_next a + of_nat (length sdus) \<and> pe_rx_deliv b' = pe_tx_next a'"
  using transfer_all [OF assms(1-4)] assms(5) by blast

theorem pdcp_transfer_in_order_witness:
  "\<exists>a' b'. pdcp_transfer example_env (replicate 16 0) (example_entity True) (example_entity False) [[1, 2], [3], [4, 5, 6]]
     = Inr (a', b') \<and> map ps_buffer (pe_delivered b') = [[1, 2], [3], [4, 5, 6]]"
proof -
  let ?m = "replicate 16 (0::u8)" and ?l = "[[1, 2], [3], [4, 5, 6]] :: bytes list"
  have "\<forall>sdu \<in> set ?l. fits (example_entity True) ?m sdu"
    by (simp add: fits_def sdap_tx_size_def nr_max_pdcp_pdu_size_def pdcp_sizes example_entity_def)
  from pdcp_transfer_in_order [OF example_env_ok example_peers _ _ this] show ?thesis
    by (auto simp: example_entity_def simp del: pdcp_transfer.simps)
qed

text \<open>
  C14. A PDU may also arrive out of order: as long as its COUNT value is in the window of the receiver, not
  below \<^verbatim>\<open>rx_deliv\<close> and not received before, the SDU is recovered unchanged with its COUNT value, it is
  delivered or held back, and it is delivered at once when it is the expected one.
\<close>

theorem pdcp_sdu_recovered:
  assumes "secu_ok env" and "pdcp_peers a b" and "pdcp_reach env timed k b" and "fits a mem sdu"
    and "count_in_window b (unat (pe_tx_next a))" and "pe_rx_deliv b \<le> pe_tx_next a" and "pe_tx_next a \<noteq> - 1"
    and "pe_tx_next a \<notin> ps_count ` set (pe_rx_list b)"
  shows "\<exists>n pdu a' b' s. nr_pdcp_entity_process_sdu env a sdu mem = Inr (n, pdu, a')
     \<and> nr_pdcp_entity_recv_pdu env b (take (nat n) pdu) = Inr b' \<and> pe_tx_next a' = pe_tx_next a + 1
     \<and> ps_buffer s = sdu \<and> ps_count s = pe_tx_next a \<and> s \<in> set (pe_rx_list b') \<union> set (pe_delivered b')
     \<and> (pe_tx_next a = pe_rx_deliv b \<longrightarrow> s \<in> set (pe_delivered b'))"
proof -
  have fit: "sdap_tx_size a < length sdu" "nr_max_pdcp_pdu_size (int (length sdu)) \<le> int (length mem)"
    using assms(4) by (simp_all add: fits_def)
  obtain mac pdu rest f where pdu: "pdu_for env a b sdu mac pdu" "nr_pdcp_entity_process_sdu env a sdu mem
      = Inr (int (length pdu), pdu @ rest, with_pstats f (a\<lparr>pe_tx_next := pe_tx_next a + 1\<rparr>))"
    by (rule process_sdu_pdu [OF assms(1,2) fit])
  have fresh: "\<not> nr_pdcp_sdu_in_list (pe_rx_list b) (pe_tx_next a)" using assms(8) by (auto simp: in_list_iff)
  obtain g mi n where recv: "nr_pdcp_entity_recv_pdu env b pdu
      = Inr (pdcp_accept (with_pstats g b) (pe_tx_next a) (nr_pdcp_new_sdu (pe_tx_next a) sdu mi) n)"
    by (rule recv_pdu_for [OF assms(2) pdu(1) fit(1) assms(5,6) fresh])
  define s where "s = nr_pdcp_new_sdu (pe_tx_next a) sdu mi"
  have s: "ps_count s = pe_tx_next a" "ps_buffer s = sdu" by (simp_all add: s_def nr_pdcp_new_sdu_def)
  define b' where "b' = pdcp_accept (with_pstats g b) (ps_count s) s n"
  have in': "s \<in> set (pe_rx_list b') \<union> set (pe_delivered b')" "rx_ok (timed \<and> pe_t_current b \<noteq> 0) k b'"
    using pdcp_accept_ok(1,2) [of timed k "with_pstats g b" s n] reach_rx_ok [OF assms(3)] assms(6,7) fresh s by (simp_all add: b'_def)
  have "s \<in> set (pe_delivered b')" if "pe_tx_next a = pe_rx_deliv b"
  proof -
    have "pe_rx_deliv b' < ps_count s" if "s \<in> set (pe_rx_list b')"
      using in'(2) that by (force simp: rx_ok_def split_at_def less_le)
    moreover have "ps_count s \<le> pe_rx_deliv b'"
      using pdcp_accept_ok(3) [of timed k "with_pstats g b" s n] reach_rx_ok [OF assms(3)] assms(6,7) fresh s that by (simp add: b'_def)
    ultimately have "s \<notin> set (pe_rx_list b')" by (auto simp: not_less [symmetric])
    then show ?thesis using in'(1) by blast
  qed
  then show ?thesis using pdu(2) recv s in'
    by (intro exI [of _ "int (length pdu)"] exI [of _ "pdu @ rest"] exI [of _ "with_pstats f (a\<lparr>pe_tx_next := pe_tx_next a + 1\<rparr>)"]
        exI [of _ b'] exI [of _ s]) (simp add: b'_def s_def)
qed

theorem pdcp_sdu_recovered_witness:
  "\<exists>n pdu a' b'. nr_pdcp_entity_process_sdu example_env (example_entity True\<lparr>pe_tx_next := 7\<rparr>) [5, 6] (replicate 16 0) = Inr (n, pdu, a')
     \<and> nr_pdcp_entity_recv_pdu example_env (example_entity False) (take (nat n) pdu) = Inr b'
     \<and> (\<exists>s \<in> set (pe_rx_list b') \<union> set (pe_delivered b'). ps_buffer s = [5, 6] \<and> ps_count s = 7)"
proof -
  let ?a = "example_entity True\<lparr>pe_tx_next := 7\<rparr>" and ?b = "example_entity False" and ?m = "replicate 16 (0::u8)"
  have "pdcp_peers ?a ?b" by (simp add: pdcp_peers_def pdcp_cfg_def example_entity_def)
  moreover have "fits ?a ?m [5, 6]"
    by (simp add: fits_def sdap_tx_size_def nr_max_pdcp_pdu_size_def pdcp_sizes example_entity_def)
  moreover have "count_in_window ?b (unat (pe_tx_next ?a))" "pe_rx_deliv ?b \<le> pe_tx_next ?a" "pe_tx_next ?a \<noteq> - 1"
    "pe_tx_next ?a \<notin> ps_count ` set (pe_rx_list ?b)"
    by (simp_all add: count_in_window_def example_entity_def)
  ultimately show ?thesis
    using pdcp_sdu_recovered [OF example_env_ok _ example_reach, of ?a False ?m "[5, 6]"] by (auto simp: example_entity_def)
qed

text \<open>
  C15. The receiver reconstructs the COUNT value: for every COUNT value less than a window away from
  \<^verbatim>\<open>rx_deliv\<close>, on either side and also when the hyper frame number differs, the value found
  from the sequence number in the header that the sender wrote is the COUNT value of the sender.
\<close>

theorem pdcp_count_reconstructed:
  assumes "pdcp_cfg a" and "pdcp_cfg b" and "pe_sn_size b = pe_sn_size a"
    and "count_in_window b (unat (pe_tx_next a))"
  shows "\<exists>sn. pdcp_rcvd_sn b (pdcp_header a (sint (pe_tx_next a AND word_of_int (pe_sn_max a))) @ data) = Inr sn
     \<and> pdcp_rcvd_count b sn = pe_tx_next a"
proof (intro exI conjI)
  let ?sn = "int (unat (pe_tx_next a) mod 2 ^ pe_sn_size a)"
  show "pdcp_rcvd_sn b (pdcp_header a (sint (pe_tx_next a AND word_of_int (pe_sn_max a))) @ data) = Inr ?sn"
    unfolding sn_of_tx_next [OF assms(1)] by (rule pdcp_header_roundtrip [OF assms(1) _ _ assms(3)]) simp_all
  show "pdcp_rcvd_count b ?sn = pe_tx_next a"
    using rcvd_count_eq [OF assms(2,4)] by (simp add: assms(3))
qed

theorem pdcp_count_reconstructed_witness:
  "\<exists>sn. pdcp_rcvd_sn (example_entity False\<lparr>pe_rx_deliv := 4094\<rparr>)
       (pdcp_header (example_entity True) (sint ((4097::u32) AND 4095)) @ [1, 2]) = Inr sn
     \<and> pdcp_rcvd_count (example_entity False\<lparr>pe_rx_deliv := 4094\<rparr>) sn = 4097"
proof -
  let ?a = "example_entity True\<lparr>pe_tx_next := 4097\<rparr>" and ?b = "example_entity False\<lparr>pe_rx_deliv := 4094\<rparr>"
  have "pdcp_cfg ?a" "pdcp_cfg ?b" "pe_sn_size ?b = pe_sn_size ?a" "count_in_window ?b (unat (pe_tx_next ?a))"
    by (simp_all add: pdcp_cfg_def count_in_window_def example_entity_def)
  from pdcp_count_reconstructed [OF this, of "[1, 2]"] show ?thesis
    by (simp add: example_entity_def pdcp_header_def)
qed

text \<open>
  C16. With integrity protection only authentic SDUs get in: a received PDU changes nothing but the
  statistics, or the PDU deciphers to a message whose last four bytes are the integrity code of the rest
  under the key of the entity and the COUNT value, and the SDU is the rest without its header.
\<close>

theorem pdcp_only_authentic:
  assumes "secu_ok env" and "pdcp_ready e" and "pe_has_integrity e" and "nr_pdcp_entity_recv_pdu env e buffer = Inr e'"
  shows "(\<exists>f. e' = with_pstats f e)
    \<or> (\<exists>f sn plain sdu m. pdcp_rcvd_sn e buffer = Inr sn
         \<and> cipher_from env e (pdcp_header_size e + (if pe_has_sdap_rx e then 1 else 0)) (dc_fixed e buffer)
             (pdcp_rcvd_count e sn) (if pe_is_gnb e then 0 else 1) = Inr plain
         \<and> authentic env e (pdcp_rcvd_count e sn) plain \<and> length plain = length buffer
         \<and> e' = pdcp_accept (with_pstats f e) (pdcp_rcvd_count e sn) sdu m \<and> ps_count sdu = pdcp_rcvd_count e sn
         \<and> ps_buffer sdu = drop (pdcp_header_size e) (take (length plain - 4) plain))"
proof (cases "pe_entity_suspended e \<or> buffer = []")
  case True
  then have "e' = with_pstats id e"
    using assms(4) by (auto simp: nr_pdcp_entity_recv_pdu_def with_pstats_def split: list.splits)
  then show ?thesis by blast
next
  case False
  define buf where "buf = dc_fixed e buffer"
  define k :: nat where "k = (if pe_has_sdap_rx e then 1 else 0)"
  have l: "length buf = length buffer" and sn: "pdcp_rcvd_sn e buf = pdcp_rcvd_sn e buffer"
    using False by (simp_all add: buf_def dc_fixed_eq)
  from recv_pdu_unfold [OF False, of env] obtain g f where
    "nr_pdcp_entity_recv_pdu env e buffer = bindR (pdcp_rcvd_sn e buffer) (\<lambda>sn.
     if length buffer < pdcp_header_size e + k + pdcp_integrity_size e + 1 then Inr (with_pstats (g sn) e)
     else pdcp_recv_counted env (with_pstats (f sn) e) buf k (pdcp_rcvd_count e sn))"
    unfolding k_def buf_def by blast
  with assms(4) have "bindR (pdcp_rcvd_sn e buffer) (\<lambda>sn.
     if length buffer < pdcp_header_size e + k + pdcp_integrity_size e + 1 then Inr (with_pstats (g sn) e)
     else pdcp_recv_counted env (with_pstats (f sn) e) buf k (pdcp_rcvd_count e sn)) = Inr e'" by simp
  then obtain sn where "pdcp_rcvd_sn e buffer = Inr sn"
    and r: "(if length buffer < pdcp_header_size e + k + pdcp_integrity_size e + 1 then Inr (with_pstats (g sn) e)
       else pdcp_recv_counted env (with_pstats (f sn) e) buf k (pdcp_rcvd_count e sn)) = Inr e'"
    unfolding bindR_eq_Inr by blast
  note sn' = this(1)
  show ?thesis
  proof (cases "length buffer < pdcp_header_size e + k + pdcp_integrity_size e + 1")
    case False
    let ?P = "\<lambda>f plain sdu m. cipher_from env e (pdcp_header_size e + k) buf (pdcp_rcvd_count e sn) (if pe_is_gnb e then 0 else 1) = Inr plain
      \<and> length plain = length buffer \<and> authentic env e (pdcp_rcvd_count e sn) plain
      \<and> e' = pdcp_accept (with_pstats f e) (pdcp_rcvd_count e sn) sdu m \<and> ps_count sdu = pdcp_rcvd_count e sn
      \<and> ps_buffer sdu = drop (pdcp_header_size e) (take (length plain - 4) plain)"
    have R: "pdcp_recv_counted env (with_pstats (f sn) e) buf k (pdcp_rcvd_count e sn) = Inr e'"
      and n: "pdcp_header_size e + k + pdcp_integrity_size e < length buf" using r False l by simp_all
    from recv_counted_authentic [OF assms(1) _ _ _ R, unfolded authentic_def with_pstats_twice with_pstats_simps with_pstats_ops
        ready_with_pstats, OF assms(2,3) n]
    have "(\<exists>f. e' = with_pstats f e) \<or> (\<exists>plain sdu m. ?P (f sn) plain sdu m)"
      unfolding authentic_def l by blast
    then show ?thesis using sn' unfolding k_def buf_def by blast
  qed (use r in auto)
qed

lemma replicate_4: "replicate 4 x = [x, x, x, x]"
  by (simp add: eval_nat_numeral)

theorem pdcp_only_authentic_witness:
  "\<exists>e'. nr_pdcp_entity_recv_pdu example_env (example_entity False) [0x80, 0, 9, 1, 1, 1, 1] = Inr e'
     \<and> (\<exists>f. e' = with_pstats f (example_entity False))"
proof -
  let ?e = "example_entity False" and ?pdu = "[0x80, 0, 9, 1, 1, 1, 1] :: bytes"
  have r: "pdcp_ready ?e" "pe_has_integrity ?e" by (simp_all add: pdcp_ready_def pdcp_cfg_def example_entity_def)
  have "pdcp_header_size ?e \<le> length ?pdu" by (simp add: pdcp_header_size_def pdcp_sizes example_entity_def)
  then obtain e' where e': "nr_pdcp_entity_recv_pdu example_env ?e ?pdu = Inr e'"
    using recv_pdu_outcome [OF example_env_ok r(1), of ?pdu] by auto
  have "\<not> authentic example_env ?e cnt plain"
    if "cipher_from example_env ?e (pdcp_header_size ?e + (if pe_has_sdap_rx ?e then 1 else 0)) (dc_fixed ?e ?pdu)
          cnt (if pe_is_gnb ?e then 0 else 1) = Inr plain" for cnt plain
    using that by (auto simp: cipher_from_def pdcp_cipher_call_def nr_pdcp_security_nea2_cipher_def authentic_def dc_fixed_def
        example_entity_def example_env_def pdcp_header_size_def pdcp_sizes replicate_4 pdcp_integrity_call_def
        nr_pdcp_integrity_nia2_integrity_def cipher_aes_128_cbc_cmac_def)
  then show ?thesis
    using pdcp_only_authentic [OF example_env_ok r e'] e' by blast
qed

text \<open>
  C17. What reception does with every PDU: with the algorithms set up it returns for every buffer except
  a nonempty one shorter than the header, where the sequence number is read behind the end of the
  buffer before the length is checked.
\<close>

theorem pdcp_recv_faults:
  assumes "secu_ok env" and "pdcp_ready e"
  shows "if pe_entity_suspended e \<or> buffer = [] \<or> pdcp_header_size e \<le> length buffer
    then \<exists>e'. nr_pdcp_entity_recv_pdu env e buffer = Inr e'
    else nr_pdcp_entity_recv_pdu env e buffer = Inl Out_Of_Bounds"
  using recv_pdu_outcome [OF assms] .

theorem pdcp_recv_faults_witness:
  "nr_pdcp_entity_recv_pdu example_env (example_entity False) [0x80] = Inl Out_Of_Bounds"
  using pdcp_recv_faults [OF example_env_ok, of "example_entity False" "[0x80]"]
  by (simp add: pdcp_ready_def pdcp_cfg_def example_entity_def pdcp_header_size_def pdcp_sizes)

lemma hfn_wrap:
  "s < 4096 \<Longrightarrow> (17592186040320 + s) mod 4294967296 = 4294963200 + (s::nat)"
  "s < 262144 \<Longrightarrow> (1125899906580480 + s) mod 4294967296 = 4294705152 + (s::nat)"
  using mod_mult_self3 [of 4095 4294967296 "4294963200 + s"] mod_mult_self3 [of 262143 4294967296 "4294705152 + s"]
  by simp_all

text \<open>
  C18. Near the start of the numbering the hyper frame number of an old sequence number is taken as
  minus one: when \<^verbatim>\<open>rx_deliv\<close> is below the window size, a PDU with a sequence number a window or
  more above gets a COUNT value at the end of the 32 bit range, which is not recognised as old. Once the
  reordering timer runs out, \<^verbatim>\<open>rx_deliv\<close> is above it.
\<close>

theorem pdcp_count_underflow:
  assumes "pdcp_cfg e" and "int (unat (pe_rx_deliv e)) + pe_window_size e \<le> sn" and "sn < 2 ^ pe_sn_size e"
  shows "unat (pdcp_rcvd_count e sn) = 2 ^ 32 - 2 ^ pe_sn_size e + nat sn \<and> pe_rx_deliv e < pdcp_rcvd_count e sn"
proof -
  define n where "n = pe_sn_size e"
  define D where "D = unat (pe_rx_deliv e)"
  have n: "n \<le> 31" "pe_sn_max e = 2 ^ n - 1" using assms(1) by (auto simp: pdcp_cfg_def n_def)
  have W: "int D + pe_window_size e \<le> sn" "sn < 2 ^ n" "0 < pe_window_size e" "2 * pe_window_size e = 2 ^ n" "(2::int) ^ n \<le> 2 ^ 18"
    using assms by (auto simp: D_def n_def pdcp_cfg_def)
  then have "int D < 2 ^ n" by linarith
  then have "int D < int (2 ^ n)" by simp
  then have D: "D < 2 ^ n" by (simp only: of_nat_less_iff)
  have hfn: "drop_bit n (pe_rx_deliv e) = 0"
    using drop_bit_hfn [of n "pe_rx_deliv e"] D by (simp add: D_def unsigned_eq_0_iff)
  have "pdcp_rcvd_count e sn = push_bit n (- 1) OR of_nat (nat sn)"
    unfolding pdcp_rcvd_count_def Let_def n_def [symmetric] n(2) and_mask_sn [OF n(1)] D_def [symmetric] hfn
    using W D by simp
  also have "\<dots> = of_nat (2 ^ n * unat (- 1 :: u32) + nat sn)"
    by (rule push_or_word) (use n W in \<open>simp_all add: nat_less_iff\<close>)
  finally have c: "pdcp_rcvd_count e sn = of_nat (2 ^ n * unat (- 1 :: u32) + nat sn)" .
  have n': "n = 12 \<or> n = 18" using assms(1) by (auto simp: pdcp_cfg_def n_def)
  then have "(2 ^ n * unat (- 1 :: u32) + nat sn) mod 2 ^ 32 = 2 ^ 32 - 2 ^ n + nat sn"
    using W by (auto simp: unsigned_minus_1_eq_mask mask_eq_exp_minus_1 nat_less_iff hfn_wrap)
  moreover have "unat (of_nat k :: u32) = k mod 2 ^ 32" for k by (simp add: unat_of_nat)
  ultimately have "unat (pdcp_rcvd_count e sn) = 2 ^ 32 - 2 ^ n + nat sn" unfolding c by (simp only:)
  moreover have "D < 2 ^ 32 - 2 ^ n + nat sn" using D W by (cases "n = 12") (use n' in auto)
  ultimately show ?thesis by (simp add: word_less_nat_alt D_def n_def)
qed

theorem pdcp_count_underflow_witness:
  "unat (pdcp_rcvd_count (example_entity False) 2048) = 4294965248
     \<and> pe_rx_deliv (example_entity False) < pdcp_rcvd_count (example_entity False) 2048"
  using pdcp_count_underflow [of "example_entity False" 2048] by (simp add: pdcp_cfg_def example_entity_def)

end
