(* ===== verification/Pdcp_Queue.thy ===== *)
theory Pdcp_Queue
  imports Prelude
begin

text \<open>
  Model of the two work queues of \<^verbatim>\<open>openair2/LAYER2/nr_pdcp/nr_pdcp_oai_api.c\<close>: the requests
  PDCP leaves for RLC (\<^verbatim>\<open>rlc_data_req_queue\<close>) and the PDUs RLC leaves for PDCP
  (\<^verbatim>\<open>pdcp_data_ind_queue\<close>). Both are ring buffers with a mutex and one condition variable;
  any number of threads put items in, one thread takes them out. The consumer reads the item outside of the
  mutex and gives the slot back afterwards.

  The threads interleave at the granularity of the sections that hold the mutex: \<open>rq_step\<close> is one such
  section, the unprotected use of the item, or a wake-up of a waiting thread.
\<close>

definition RLC_DATA_REQ_QUEUE_SIZE :: nat where "RLC_DATA_REQ_QUEUE_SIZE = 10000"
definition PDCP_DATA_IND_QUEUE_SIZE :: nat where "PDCP_DATA_IND_QUEUE_SIZE = 10000"

text \<open>The array \<^verbatim>\<open>q\<close> as a function of the index.\<close>

record 'x ring_queue =
  rq_q :: "nat \<Rightarrow> 'x"
  rq_start :: nat
  rq_length :: nat

text \<open>
  One attempt of a producer that holds the mutex: \<open>None\<close> when the queue is full and it has to wait. The
  size of the ring is the first argument.
\<close>

definition ring_enqueue :: "nat \<Rightarrow> 'x ring_queue \<Rightarrow> 'x \<Rightarrow> 'x ring_queue option" where
  "ring_enqueue n q x =
     (if rq_length q = n then None
      else let i = (rq_start q + rq_length q) mod n
           in Some (q\<lparr>rq_length := rq_length q + 1, rq_q := (rq_q q)(i := x)\<rparr>))"

text \<open>The consumer: the index of the item it will use, or \<open>None\<close> when it has to wait; the end of its use.\<close>

definition ring_front :: "'x ring_queue \<Rightarrow> nat option" where
  "ring_front q = (if rq_length q = 0 then None else Some (rq_start q))"

definition ring_release :: "nat \<Rightarrow> 'x ring_queue \<Rightarrow> 'x ring_queue" where
  "ring_release n q = q\<lparr>rq_length := rq_length q - 1, rq_start := (rq_start q + 1) mod n\<rparr>"

definition enqueue_rlc_data_req :: "'x ring_queue \<Rightarrow> 'x \<Rightarrow> 'x ring_queue option" where
  "enqueue_rlc_data_req = ring_enqueue RLC_DATA_REQ_QUEUE_SIZE"

definition enqueue_pdcp_data_ind :: "'x ring_queue \<Rightarrow> 'x \<Rightarrow> 'x ring_queue option" where
  "enqueue_pdcp_data_ind = ring_enqueue PDCP_DATA_IND_QUEUE_SIZE"

section \<open>Threads\<close>

text \<open>
  Where a thread is: a producer is outside, waits on the condition variable with its item, or was woken
  and competes for the mutex. The consumer is about to look at the queue, waits, was woken, uses the item at
  an index, or has used it and is about to give the slot back.
\<close>

datatype 'x producer = P_Out | P_Wait 'x | P_Woken 'x
datatype consumer = C_Look | C_Wait | C_Woken | C_Use nat | C_Used nat

fun pending :: "consumer \<Rightarrow> 'x list \<Rightarrow> 'x list" where
  "pending (C_Used i) l = tl l"
| "pending _ l = l"

record ('q, 'x) rq_state =
  rs_queue :: 'q
  rs_prod :: "nat \<Rightarrow> 'x producer"
  rs_cons :: consumer
  rs_sent :: "'x list"
  rs_used :: "'x list"

definition waiting :: "('q, 'x) rq_state \<Rightarrow> nat set" where
  "waiting s = {p. \<exists>x. rs_prod s p = P_Wait x}"

text \<open>
  \<^verbatim>\<open>pthread_cond_signal\<close> wakes one of the waiting threads, whichever, and nobody when no thread
  waits; a waiting thread may also wake up by itself.
\<close>

inductive wakes :: "('q, 'x) rq_state \<Rightarrow> ('q, 'x) rq_state \<Rightarrow> bool" where
  wake_producer: "rs_prod s p = P_Wait x \<Longrightarrow> wakes s (s\<lparr>rs_prod := (rs_prod s)(p := P_Woken x)\<rparr>)"
| wake_consumer: "rs_cons s = C_Wait \<Longrightarrow> wakes s (s\<lparr>rs_cons := C_Woken\<rparr>)"

definition signalled :: "('q, 'x) rq_state \<Rightarrow> ('q, 'x) rq_state \<Rightarrow> bool" where
  "signalled s s' \<longleftrightarrow> (if waiting s = {} \<and> rs_cons s \<noteq> C_Wait then s' = s else wakes s s')"

text \<open>
  The sections of a producer with item \<open>x\<close> and of the consumer, over the operations of the queue: the
  attempt to put an item in, the front index, the slot at an index, and giving a slot back. \<open>rs_sent\<close>
  and \<open>rs_used\<close> are the items put in and the items used so far.
\<close>

definition enqueued :: "('q, 'x) rq_state \<Rightarrow> 'x \<Rightarrow> nat \<Rightarrow> 'q \<Rightarrow> ('q, 'x) rq_state" where
  "enqueued s x p q = s\<lparr>rs_queue := q, rs_prod := (rs_prod s)(p := P_Out), rs_sent := rs_sent s @ [x]\<rparr>"

inductive producer_step ::
    "('q \<Rightarrow> 'x \<Rightarrow> 'q option) \<Rightarrow> nat \<Rightarrow> ('q, 'x) rq_state \<Rightarrow> ('q, 'x) rq_state \<Rightarrow> bool" for enq p where
  full: "rs_prod s p = P_Out \<or> rs_prod s p = P_Woken x \<Longrightarrow> enq (rs_queue s) x = None \<Longrightarrow>
    producer_step enq p s (s\<lparr>rs_prod := (rs_prod s)(p := P_Wait x)\<rparr>)"
| put: "rs_prod s p = P_Out \<or> rs_prod s p = P_Woken x \<Longrightarrow> enq (rs_queue s) x = Some q \<Longrightarrow>
    signalled (enqueued s x p q) s' \<Longrightarrow> producer_step enq p s s'"

inductive consumer_step ::
    "('q \<Rightarrow> nat option) \<Rightarrow> ('q \<Rightarrow> nat \<Rightarrow> 'x) \<Rightarrow> ('q \<Rightarrow> 'q) \<Rightarrow> ('q, 'x) rq_state \<Rightarrow> ('q, 'x) rq_state \<Rightarrow> bool"
  for frt slt rls where
  empty: "rs_cons s = C_Look \<or> rs_cons s = C_Woken \<Longrightarrow> frt (rs_queue s) = None \<Longrightarrow>
    consumer_step frt slt rls s (s\<lparr>rs_cons := C_Wait\<rparr>)"
| front: "rs_cons s = C_Look \<or> rs_cons s = C_Woken \<Longrightarrow> frt (rs_queue s) = Some i \<Longrightarrow>
    consumer_step frt slt rls s (s\<lparr>rs_cons := C_Use i\<rparr>)"
| serve: "rs_cons s = C_Use i \<Longrightarrow>
    consumer_step frt slt rls s (s\<lparr>rs_cons := C_Used i, rs_used := rs_used s @ [slt (rs_queue s) i]\<rparr>)"
| release: "rs_cons s = C_Used i \<Longrightarrow>
    signalled (s\<lparr>rs_cons := C_Look, rs_queue := rls (rs_queue s)\<rparr>) s' \<Longrightarrow> consumer_step frt slt rls s s'"

definition rq_init :: "'q \<Rightarrow> ('q, 'x) rq_state" where
  "rq_init q = \<lparr> rs_queue = q, rs_prod = (\<lambda>_. P_Out), rs_cons = C_Look, rs_sent = [], rs_used = [] \<rparr>"

definition empty_ring :: "'x \<Rightarrow> 'x ring_queue" where
  "empty_ring z = \<lparr> rq_q = (\<lambda>_. z), rq_start = 0, rq_length = 0 \<rparr>"

text \<open>All interleavings of a number of producer threads with the consumer.\<close>

inductive rq_reach ::
    "('q \<Rightarrow> 'x \<Rightarrow> 'q option) \<Rightarrow> ('q \<Rightarrow> nat option) \<Rightarrow> ('q \<Rightarrow> nat \<Rightarrow> 'x) \<Rightarrow> ('q \<Rightarrow> 'q) \<Rightarrow> 'q \<Rightarrow> nat
      \<Rightarrow> ('q, 'x) rq_state \<Rightarrow> bool" for enq frt slt rls q0 threads where
  init: "rq_reach enq frt slt rls q0 threads (rq_init q0)"
| produce: "rq_reach enq frt slt rls q0 threads s \<Longrightarrow> p < threads \<Longrightarrow> producer_step enq p s s' \<Longrightarrow>
    rq_reach enq frt slt rls q0 threads s'"
| consume: "rq_reach enq frt slt rls q0 threads s \<Longrightarrow> consumer_step frt slt rls s s' \<Longrightarrow>
    rq_reach enq frt slt rls q0 threads s'"
| spurious: "rq_reach enq frt slt rls q0 threads s \<Longrightarrow> wakes s s' \<Longrightarrow> rq_reach enq frt slt rls q0 threads s'"

section \<open>The ring is a queue\<close>

definition ring_items :: "nat \<Rightarrow> 'x ring_queue \<Rightarrow> 'x list" where
  "ring_items n q = map (\<lambda>k. rq_q q ((rq_start q + k) mod n)) [0 ..< rq_length q]"

definition ring_ok :: "nat \<Rightarrow> 'x ring_queue \<Rightarrow> bool" where
  "ring_ok n q \<longleftrightarrow> rq_start q < n \<and> rq_length q \<le> n"

text \<open>The contract of a bounded queue whose front item is used in place and then given back.\<close>

locale bounded_queue =
  fixes bound :: nat
    and ok :: "'q \<Rightarrow> bool"
    and items :: "'q \<Rightarrow> 'x list"
    and put_item :: "'q \<Rightarrow> 'x \<Rightarrow> 'q option"
    and front_slot :: "'q \<Rightarrow> nat option"
    and slot :: "'q \<Rightarrow> nat \<Rightarrow> 'x"
    and give_back :: "'q \<Rightarrow> 'q"
  assumes put_full: "ok q \<Longrightarrow> put_item q x = None \<longleftrightarrow> length (items q) = bound"
    and put_ok: "ok q \<Longrightarrow> put_item q x = Some q' \<Longrightarrow> ok q' \<and> items q' = items q @ [x]"
    and put_keeps: "ok q \<Longrightarrow> put_item q x = Some q' \<Longrightarrow> front_slot q = Some i \<Longrightarrow> front_slot q' = Some i"
    and front_empty: "ok q \<Longrightarrow> front_slot q = None \<longleftrightarrow> items q = []"
    and front_hd: "ok q \<Longrightarrow> front_slot q = Some i \<Longrightarrow> slot q i = hd (items q)"
    and give_back_tl: "ok q \<Longrightarrow> items q \<noteq> [] \<Longrightarrow> ok (give_back q) \<and> items (give_back q) = tl (items q)"
    and items_bound: "ok q \<Longrightarrow> length (items q) \<le> bound"

begin

text \<open>What is in the queue and not yet used by the consumer.\<close>

definition unused :: "('q, 'x) rq_state \<Rightarrow> 'x list" where
  "unused s = pending (rs_cons s) (items (rs_queue s))"

definition fifo_inv :: "('q, 'x) rq_state \<Rightarrow> bool" where
  "fifo_inv s \<longleftrightarrow> ok (rs_queue s) \<and> rs_sent s = rs_used s @ unused s
     \<and> (\<forall>i. rs_cons s = C_Use i \<or> rs_cons s = C_Used i \<longrightarrow> front_slot (rs_queue s) = Some i)"

definition wake_inv :: "nat \<Rightarrow> ('q, 'x) rq_state \<Rightarrow> bool" where
  "wake_inv threads s \<longleftrightarrow> waiting s \<subseteq> {..< threads} \<and> card (waiting s) \<le> length (items (rs_queue s))
     \<and> (rs_cons s = C_Wait \<longrightarrow> items (rs_queue s) = [])"

lemma front_items: "ok q \<Longrightarrow> front_slot q = Some i \<Longrightarrow> items q \<noteq> []"
  using front_empty by fastforce

lemma fifo_wakes: "wakes s s' \<Longrightarrow> fifo_inv s' \<longleftrightarrow> fifo_inv s"
  by (auto simp: fifo_inv_def unused_def elim!: wakes.cases)

lemma fifo_signalled: "signalled s s' \<Longrightarrow> fifo_inv s' \<longleftrightarrow> fifo_inv s"
  by (auto simp: signalled_def fifo_wakes split: if_splits)

lemma fifo_enqueued:
  assumes "fifo_inv s" and "put_item (rs_queue s) x = Some q"
  shows "fifo_inv (enqueued s x p q)"
proof -
  have q: "ok q" "items q = items (rs_queue s) @ [x]" using put_ok assms by (auto simp: fifo_inv_def)
  have "unused (enqueued s x p q) = unused s @ [x]"
    using assms(1) q(2) by (cases "rs_cons s") (auto simp: unused_def enqueued_def fifo_inv_def front_items)
  then show ?thesis using assms q put_keeps by (auto simp: fifo_inv_def enqueued_def)
qed

lemma fifo_producer: "producer_step put_item p s s' \<Longrightarrow> fifo_inv s \<Longrightarrow> fifo_inv s'"
proof (erule producer_step.cases, goal_cases)
  case (2 t x q t')
  then show ?case using fifo_signalled [of "enqueued s x p q" s'] fifo_enqueued [of s x q p] by simp
qed (simp add: fifo_inv_def unused_def)

lemma fifo_consumer:
  assumes "consumer_step front_slot slot give_back s s'" and "fifo_inv s"
  shows "fifo_inv s'"
  using assms(1)
proof cases
  case (serve i)
  then have "ok (rs_queue s)" "front_slot (rs_queue s) = Some i" using assms(2) by (auto simp: fifo_inv_def)
  then have "slot (rs_queue s) i # tl (items (rs_queue s)) = items (rs_queue s)"
    by (simp add: front_hd front_items)
  then show ?thesis using assms(2) serve by (auto simp: fifo_inv_def unused_def)
next
  case (release i)
  then have "items (rs_queue s) \<noteq> []" "ok (rs_queue s)" using assms(2) front_items by (auto simp: fifo_inv_def)
  then show ?thesis using assms(2) release(1) give_back_tl
    unfolding fifo_signalled [OF release(2)] by (auto simp: fifo_inv_def unused_def)
qed (use assms(2) in \<open>auto simp: fifo_inv_def unused_def\<close>)

lemma reach_fifo:
  assumes "rq_reach put_item front_slot slot give_back q0 threads s" and "ok q0" and "items q0 = []"
  shows "fifo_inv s"
  using assms(1)
proof induction
  case init
  then show ?case using assms(2,3) by (simp add: fifo_inv_def rq_init_def unused_def)
qed (auto intro: fifo_producer fifo_consumer simp: fifo_wakes)

lemma waiting_finite: "wake_inv threads s \<Longrightarrow> finite (waiting s)"
  by (auto simp: wake_inv_def intro: finite_subset)

lemma waiting_woken: "rs_prod s p = P_Wait x \<Longrightarrow> waiting (s\<lparr>rs_prod := (rs_prod s)(p := P_Woken x)\<rparr>) = waiting s - {p}"
  by (auto simp: waiting_def)

lemma wake_wakes:
  assumes "wakes s s'" and "wake_inv threads s"
  shows "wake_inv threads s'"
  using assms(1)
proof cases
  case (wake_producer p x)
  have "card (waiting s - {p}) \<le> card (waiting s)" by (rule card_mono) (use waiting_finite [OF assms(2)] in auto)
  then show ?thesis using assms(2) unfolding wake_producer(1) wake_inv_def waiting_woken [OF wake_producer(2)] by auto
next
  case wake_consumer
  then show ?thesis using assms(2) by (auto simp: wake_inv_def waiting_def)
qed

lemma wake_signalled: "signalled s s' \<Longrightarrow> wake_inv threads s \<Longrightarrow> wake_inv threads s'"
  by (auto simp: signalled_def intro: wake_wakes split: if_splits)

lemma wake_producer:
  assumes "producer_step put_item p s s'" and "wake_inv threads s" and "fifo_inv s" and "p < threads" and "threads \<le> bound"
  shows "wake_inv threads s'"
  using assms(1)
proof cases
  case (full x)
  let ?s = "s\<lparr>rs_prod := (rs_prod s)(p := P_Wait x)\<rparr>"
  have w: "waiting ?s \<subseteq> {..< threads}" using assms(2,4) by (auto simp: wake_inv_def waiting_def split: if_splits)
  then have "card (waiting ?s) \<le> threads" using card_mono [OF _ w] by simp
  moreover have "length (items (rs_queue s)) = bound" using full(3) put_full assms(3) by (auto simp: fifo_inv_def)
  ultimately show ?thesis using w assms(2,4,5) full(1) by (auto simp: wake_inv_def)
next
  case (put x q)
  let ?t = "enqueued s x p q"
  have w: "waiting ?t = waiting s" using put(1) by (auto simp: waiting_def enqueued_def)
  have q: "items q = items (rs_queue s) @ [x]" using put(2) put_ok assms(3) by (auto simp: fifo_inv_def)
  show ?thesis
  proof (cases "rs_cons s = C_Wait")
    case True
    then have "waiting ?t = {}" using assms(2) waiting_finite [OF assms(2)] w by (auto simp: wake_inv_def)
    moreover have "rs_cons ?t = C_Wait" using True by (simp add: enqueued_def)
    ultimately have "s' = ?t\<lparr>rs_cons := C_Woken\<rparr>"
      using put(3) by (auto simp: signalled_def waiting_def elim!: wakes.cases)
    then show ?thesis using \<open>waiting ?t = {}\<close> by (simp add: wake_inv_def waiting_def)
  next
    case False
    then have "wake_inv threads ?t" using assms(2) w q by (simp add: wake_inv_def enqueued_def)
    then show ?thesis by (rule wake_signalled [OF put(3)])
  qed
qed

lemma wake_consumer:
  assumes "consumer_step front_slot slot give_back s s'" and "wake_inv threads s" and "fifo_inv s"
  shows "wake_inv threads s'"
  using assms(1)
proof cases
  case empty
  then show ?thesis using assms(2,3) front_empty by (auto simp: wake_inv_def fifo_inv_def waiting_def)
next
  case (release i)
  let ?t = "s\<lparr>rs_cons := C_Look, rs_queue := give_back (rs_queue s)\<rparr>"
  have w: "waiting ?t = waiting s" by (simp add: waiting_def)
  have "items (rs_queue s) \<noteq> []" "ok (rs_queue s)" using release(1) assms(3) front_items by (auto simp: fifo_inv_def)
  then have l: "length (items (rs_queue ?t)) = length (items (rs_queue s)) - 1" using give_back_tl by simp
  show ?thesis
  proof (cases "waiting s = {}")
    case True
    then have "s' = ?t" using release(2) w by (simp add: signalled_def)
    then show ?thesis using True w by (simp add: wake_inv_def)
  next
    case False
    then have "wakes ?t s'" using release(2) w by (simp add: signalled_def)
    then obtain p x where p: "rs_prod s p = P_Wait x" "s' = ?t\<lparr>rs_prod := (rs_prod ?t)(p := P_Woken x)\<rparr>"
      by (auto elim!: wakes.cases)
    then have "waiting s' = waiting s - {p}" "p \<in> waiting s" using waiting_woken [of ?t p x] w by (auto simp: waiting_def)
    then show ?thesis using assms(2) p(2) l waiting_finite [OF assms(2)] by (auto simp: wake_inv_def card_Diff_singleton)
  qed
qed (use assms(2) in \<open>auto simp: wake_inv_def waiting_def\<close>)

lemma reach_wake:
  assumes "rq_reach put_item front_slot slot give_back q0 threads s" and "ok q0" and "items q0 = []" and "threads \<le> bound"
  shows "wake_inv threads s"
  using assms(1)
proof induction
  case init
  then show ?case by (simp add: wake_inv_def rq_init_def waiting_def)
next
  case (produce s p s')
  then show ?case using wake_producer reach_fifo assms by blast
next
  case (consume s s')
  then show ?case using wake_consumer reach_fifo assms by blast
qed (rule wake_wakes)

lemma consumer_looks:
  assumes "fifo_inv s" and "rs_cons s = C_Look \<or> rs_cons s = C_Woken" and "items (rs_queue s) \<noteq> []"
  shows "\<exists>s'. (consumer_step front_slot slot give_back)\<^sup>*\<^sup>* s s' \<and> rs_used s' = rs_used s @ [hd (items (rs_queue s))]"
proof -
  have ok: "ok (rs_queue s)" using assms(1) by (simp add: fifo_inv_def)
  then obtain i where i: "front_slot (rs_queue s) = Some i" using assms(3) front_empty by auto
  let ?t = "s\<lparr>rs_cons := C_Use i\<rparr>"
  have t: "consumer_step front_slot slot give_back s ?t" by (rule consumer_step.front) (use assms(2) i in auto)
  have u: "consumer_step front_slot slot give_back ?t (?t\<lparr>rs_cons := C_Used i, rs_used := rs_used ?t @ [slot (rs_queue ?t) i]\<rparr>)"
    by (rule consumer_step.serve) simp
  have "slot (rs_queue ?t) i = hd (items (rs_queue s))" using front_hd [OF ok i] by simp
  with converse_rtranclp_into_rtranclp [of "consumer_step front_slot slot give_back", OF t r_into_rtranclp, OF u]
  show ?thesis by (intro exI conjI) auto
qed

text \<open>The consumer, left alone, uses the next unused item after at most three sections.\<close>

lemma consumer_serves:
  assumes "fifo_inv s" and "rs_cons s \<noteq> C_Wait" and "unused s \<noteq> []"
  shows "\<exists>s'. (consumer_step front_slot slot give_back)\<^sup>*\<^sup>* s s' \<and> rs_used s' = rs_used s @ [hd (unused s)]"
proof (cases "rs_cons s")
  case (C_Use i)
  then have "slot (rs_queue s) i = hd (unused s)" using assms(1) front_hd by (simp add: fifo_inv_def unused_def)
  then show ?thesis 
    using r_into_rtranclp [of "consumer_step front_slot slot give_back", OF consumer_step.serve [OF C_Use]]
    by (intro exI conjI) auto
next
  case (C_Used i)
  let ?t = "s\<lparr>rs_cons := C_Look, rs_queue := give_back (rs_queue s)\<rparr>"
  have ok: "ok (rs_queue s)" "items (rs_queue s) \<noteq> []" using assms(1) C_Used front_items by (auto simp: fifo_inv_def)
  obtain t where t: "signalled ?t t" "rs_cons t = C_Look" "rs_queue t = give_back (rs_queue s)" "rs_used t = rs_used s"
  proof (cases "waiting ?t = {}")
    case False
    then obtain p x where "rs_prod ?t p = P_Wait x" by (auto simp: waiting_def)
    from wakes.wake_producer [OF this] False show ?thesis
      by (intro that [of "?t\<lparr>rs_prod := (rs_prod ?t)(p := P_Woken x)\<rparr>"]) (auto simp: signalled_def)
  qed (auto simp: signalled_def intro: that [of ?t])
  have st: "consumer_step front_slot slot give_back s t" by (rule consumer_step.release) (use C_Used t(1) in auto)
  have "items (rs_queue t) = unused s" using give_back_tl [OF ok] t(3) C_Used by (simp add: unused_def)
  then obtain s' where "(consumer_step front_slot slot give_back)\<^sup>*\<^sup>* t s'" "rs_used s' = rs_used s @ [hd (unused s)]"
    using consumer_looks [OF fifo_consumer [OF st assms(1)]] t assms(3) by auto
  then show ?thesis using converse_rtranclp_into_rtranclp [of "consumer_step front_slot slot give_back", OF st] by blast
qed (use assms consumer_looks in \<open>auto simp: unused_def\<close>)

end

lemma ring_items_put:
  assumes "ring_ok n q" and "ring_enqueue n q x = Some q'"
  shows "ring_ok n q'" and "ring_items n q' = ring_items n q @ [x]"
proof -
  have q': "q' = q\<lparr>rq_length := rq_length q + 1, rq_q := (rq_q q)((rq_start q + rq_length q) mod n := x)\<rparr>"
    and l: "rq_length q < n"
    using assms by (auto simp: ring_enqueue_def Let_def ring_ok_def split: if_splits)
  then show "ring_ok n q'" using assms(1) by (simp add: ring_ok_def)
  have "(rq_start q + k) mod n \<noteq> (rq_start q + rq_length q) mod n" if "k < rq_length q" for k
  proof
    assume "(rq_start q + k) mod n = (rq_start q + rq_length q) mod n"
    then have "n dvd (rq_start q + rq_length q) - (rq_start q + k)"
      using that by (intro mod_eq_dvd_iff_nat [THEN iffD1]) simp_all
    then show False using that l by (auto dest: dvd_imp_le)
  qed
  then show "ring_items n q' = ring_items n q @ [x]" by (auto simp: ring_items_def q')
qed

lemma ring_items_release:
  assumes "ring_ok n q" and "ring_items n q \<noteq> []"
  shows "ring_ok n (ring_release n q)" and "ring_items n (ring_release n q) = tl (ring_items n q)"
proof -
  obtain l where l: "rq_length q = Suc l" using assms(2) by (cases "rq_length q") (auto simp: ring_items_def)
  then show "ring_ok n (ring_release n q)" using assms(1) by (auto simp: ring_ok_def ring_release_def)
  have "(Suc (rq_start q) mod n + k) mod n = (rq_start q + Suc k) mod n" for k by (simp add: mod_simps)
  then show "ring_items n (ring_release n q) = tl (ring_items n q)"
    unfolding ring_items_def ring_release_def l
    by (simp add: upt_conv_Cons map_Suc_upt [symmetric] del: upt_Suc map_Suc_upt)
qed

lemma ring_is_queue:
  assumes "0 < n"
  shows "bounded_queue n (ring_ok n) (ring_items n) (ring_enqueue n) ring_front rq_q (ring_release n)"
proof
  fix q q' :: "'a ring_queue" and x :: 'a and i
  assume ok: "ring_ok n q"
  show "ring_enqueue n q x = None \<longleftrightarrow> length (ring_items n q) = n" by (simp add: ring_enqueue_def ring_items_def Let_def)
  show "ring_front q = None \<longleftrightarrow> ring_items n q = []" by (simp add: ring_front_def ring_items_def)
  show "length (ring_items n q) \<le> n" using ok by (simp add: ring_items_def ring_ok_def)
  show "rq_q q i = hd (ring_items n q)" if "ring_front q = Some i"
    using that ok by (auto simp: ring_front_def ring_items_def hd_map ring_ok_def split: if_splits)
  show "ring_front q' = Some i" if "ring_enqueue n q x = Some q'" "ring_front q = Some i"
    using that by (auto simp: ring_enqueue_def ring_front_def Let_def split: if_splits)
  show "ring_ok n q' \<and> ring_items n q' = ring_items n q @ [x]" if "ring_enqueue n q x = Some q'"
    using ring_items_put [OF ok that] by simp
  show "ring_ok n (ring_release n q) \<and> ring_items n (ring_release n q) = tl (ring_items n q)" if "ring_items n q \<noteq> []"
    using ring_items_release [OF ok that] by simp
qed

interpretation rlcq: bounded_queue RLC_DATA_REQ_QUEUE_SIZE "ring_ok RLC_DATA_REQ_QUEUE_SIZE"
  "ring_items RLC_DATA_REQ_QUEUE_SIZE" enqueue_rlc_data_req ring_front rq_q "ring_release RLC_DATA_REQ_QUEUE_SIZE"
  unfolding enqueue_rlc_data_req_def by (rule ring_is_queue) (simp add: RLC_DATA_REQ_QUEUE_SIZE_def)

interpretation pdcpq: bounded_queue PDCP_DATA_IND_QUEUE_SIZE "ring_ok PDCP_DATA_IND_QUEUE_SIZE"
  "ring_items PDCP_DATA_IND_QUEUE_SIZE" enqueue_pdcp_data_ind ring_front rq_q "ring_release PDCP_DATA_IND_QUEUE_SIZE"
  unfolding enqueue_pdcp_data_ind_def by (rule ring_is_queue) (simp add: PDCP_DATA_IND_QUEUE_SIZE_def)

section \<open>Properties\<close>

text \<open>The systems of threads around the two queues, started with a zeroed ring.\<close>

definition rlcq_reach :: "nat \<Rightarrow> 'x \<Rightarrow> ('x ring_queue, 'x) rq_state \<Rightarrow> bool" where
  "rlcq_reach threads z = rq_reach enqueue_rlc_data_req ring_front rq_q (ring_release RLC_DATA_REQ_QUEUE_SIZE) (empty_ring z) threads"

definition pdcpq_reach :: "nat \<Rightarrow> 'x \<Rightarrow> ('x ring_queue, 'x) rq_state \<Rightarrow> bool" where
  "pdcpq_reach threads z = rq_reach enqueue_pdcp_data_ind ring_front rq_q (ring_release PDCP_DATA_IND_QUEUE_SIZE) (empty_ring z) threads"

lemma empty_ring_ok:
  "ring_ok RLC_DATA_REQ_QUEUE_SIZE (empty_ring z)" "ring_items RLC_DATA_REQ_QUEUE_SIZE (empty_ring z) = []"
  "ring_ok PDCP_DATA_IND_QUEUE_SIZE (empty_ring z)" "ring_items PDCP_DATA_IND_QUEUE_SIZE (empty_ring z) = []"
  by (simp_all add: ring_ok_def ring_items_def empty_ring_def RLC_DATA_REQ_QUEUE_SIZE_def PDCP_DATA_IND_QUEUE_SIZE_def)

text \<open>
  C28. The work queues between PDCP and RLC lose, duplicate and reorder nothing, for every number of
  producer threads and every interleaving with the consumer, although the consumer reads the slot without
  holding the mutex: what was put in is what was used followed by what is still in the ring, where the item
  in use counts as used once it was read, and the ring never holds more than its size.
\<close>

theorem work_queues_are_fifo:
  fixes s :: "('x ring_queue, 'x) rq_state"
  shows "(rlcq_reach threads z s \<longrightarrow>
       rs_sent s = rs_used s @ pending (rs_cons s) (ring_items RLC_DATA_REQ_QUEUE_SIZE (rs_queue s))
       \<and> rq_length (rs_queue s) \<le> RLC_DATA_REQ_QUEUE_SIZE)
     \<and> (pdcpq_reach threads z s \<longrightarrow>
       rs_sent s = rs_used s @ pending (rs_cons s) (ring_items PDCP_DATA_IND_QUEUE_SIZE (rs_queue s))
       \<and> rq_length (rs_queue s) \<le> PDCP_DATA_IND_QUEUE_SIZE)"
  unfolding rlcq_reach_def pdcpq_reach_def
  by (auto dest!: rlcq.reach_fifo [OF _ empty_ring_ok(1,2)] pdcpq.reach_fifo [OF _ empty_ring_ok(3,4)]
      simp: rlcq.fifo_inv_def pdcpq.fifo_inv_def rlcq.unused_def pdcpq.unused_def ring_ok_def)

text \<open>
  C29. No wake-up is lost: with at most as many producer threads as the ring has slots, whenever an item
  is not yet used or a producer waits for space, the consumer does not wait, and its own next steps use the
  next item, although producers and consumer share one condition variable and \<^verbatim>\<open>pthread_cond_signal\<close>
  may wake the wrong thread. When the consumer waits, the ring is empty and no producer waits.
\<close>

theorem work_queues_progress:
  fixes s :: "('x ring_queue, 'x) rq_state"
  assumes "rlcq_reach threads z s" and "threads \<le> RLC_DATA_REQ_QUEUE_SIZE"
  shows "(rs_cons s = C_Wait \<longrightarrow> rs_used s = rs_sent s \<and> waiting s = {})
     \<and> (rs_used s \<noteq> rs_sent s \<longrightarrow> (\<exists>s'. (consumer_step ring_front rq_q (ring_release RLC_DATA_REQ_QUEUE_SIZE))\<^sup>*\<^sup>* s s'
          \<and> rs_used s' = rs_used s @ [rs_sent s ! length (rs_used s)]))"
proof -
  note R = assms(1) [unfolded rlcq_reach_def]
  have f: "rlcq.fifo_inv s" by (rule rlcq.reach_fifo [OF R empty_ring_ok(1,2)])
  have w: "rlcq.wake_inv threads s" by (rule rlcq.reach_wake [OF R empty_ring_ok(1,2) assms(2)])
  have sent: "rs_sent s = rs_used s @ rlcq.unused s" using f by (simp add: rlcq.fifo_inv_def)
  have wait: "rlcq.unused s = [] \<and> waiting s = {}" if "rs_cons s = C_Wait"
    using that w rlcq.waiting_finite [OF w] by (auto simp: rlcq.wake_inv_def rlcq.unused_def)
  show ?thesis
  proof (intro conjI impI)
    assume "rs_used s \<noteq> rs_sent s"
    then have ne: "rlcq.unused s \<noteq> []" using sent by simp
    then have "rs_sent s ! length (rs_used s) = hd (rlcq.unused s)" using sent by (simp add: hd_conv_nth nth_append)
    with rlcq.consumer_serves [OF f _ ne] wait ne
    show "\<exists>s'. (consumer_step ring_front rq_q (ring_release RLC_DATA_REQ_QUEUE_SIZE))\<^sup>*\<^sup>* s s'
        \<and> rs_used s' = rs_used s @ [rs_sent s ! length (rs_used s)]" by auto
  qed (use wait sent in auto)
qed

text \<open>One thread puts an item in while the consumer waits.\<close>

lemma rlcq_example:
  obtains s :: "(nat ring_queue, nat) rq_state"
    where "rlcq_reach 1 0 s" "rs_cons s = C_Woken" "rs_sent s = [7]" "rs_used s = []" "rq_length (rs_queue s) = 1"
proof -
  let ?n = RLC_DATA_REQ_QUEUE_SIZE and ?i = "rq_init (empty_ring 0) :: (nat ring_queue, nat) rq_state"
  let ?w = "?i\<lparr>rs_cons := C_Wait\<rparr>" and ?q = "(empty_ring 0)\<lparr>rq_length := 1, rq_q := (\<lambda>_. 0)(0 := 7 :: nat)\<rparr>"
  let ?e = "enqueued ?w 7 0 ?q"
  have w: "rlcq_reach 1 0 ?w" unfolding rlcq_reach_def
    by (rule rq_reach.consume [OF rq_reach.init], rule consumer_step.empty) (simp_all add: rq_init_def empty_ring_def ring_front_def)
  have "enqueue_rlc_data_req (rs_queue ?w) 7 = Some ?q"
    by (simp add: enqueue_rlc_data_req_def ring_enqueue_def rq_init_def empty_ring_def RLC_DATA_REQ_QUEUE_SIZE_def)
  moreover have "signalled ?e (?e\<lparr>rs_cons := C_Woken\<rparr>)"
    using wakes.wake_consumer [of ?e] by (simp add: signalled_def enqueued_def)
  ultimately have "producer_step enqueue_rlc_data_req 0 ?w (?e\<lparr>rs_cons := C_Woken\<rparr>)"
    by (intro producer_step.put) (simp_all add: rq_init_def)
  then have "rlcq_reach 1 0 (?e\<lparr>rs_cons := C_Woken\<rparr>)"
    using w rq_reach.produce [of enqueue_rlc_data_req ring_front rq_q "ring_release ?n" "empty_ring 0" 1 ?w 0]
    unfolding rlcq_reach_def by simp
  then show thesis by (rule that) (simp_all add: enqueued_def rq_init_def)
qed

theorem work_queues_are_fifo_witness:
  "\<exists>s :: (nat ring_queue, nat) rq_state. rlcq_reach 1 0 s \<and> ring_items RLC_DATA_REQ_QUEUE_SIZE (rs_queue s) = [7]"
proof -
  obtain s where s: "rlcq_reach 1 (0::nat) s" "rs_cons s = C_Woken" "rs_sent s = [7]" "rs_used s = []" by (rule rlcq_example)
  then show ?thesis using work_queues_are_fifo [of 1 0 s] by (intro exI [of _ s]) simp
qed

theorem work_queues_progress_witness:
  "\<exists>s s' :: (nat ring_queue, nat) rq_state. rlcq_reach 1 0 s \<and> rs_used s = [] \<and> rs_used s' = [7]
     \<and> (consumer_step ring_front rq_q (ring_release RLC_DATA_REQ_QUEUE_SIZE))\<^sup>*\<^sup>* s s'"
proof -
  obtain s where s: "rlcq_reach 1 (0::nat) s" "rs_sent s = [7]" "rs_used s = []" by (rule rlcq_example)
  then show ?thesis using work_queues_progress [OF s(1)] by (auto simp: RLC_DATA_REQ_QUEUE_SIZE_def)
qed

end
