(* ===== verification/Platform.thy ===== *)
theory Platform
  imports Prelude
begin

text \<open>
  What the layers above RLC share: the constants of \<^verbatim>\<open>common/platform_constants.h\<close>, the
  types of \<^verbatim>\<open>common/platform_types.h\<close> that their interfaces use, and loops over calls that can
  fail. Of \<^verbatim>\<open>MAX_MOBILES_PER_ENB\<close> the value without the build options
  \<^verbatim>\<open>UE_EXPANSION\<close> and \<^verbatim>\<open>LARGE_SCALE\<close> is taken.
\<close>

definition MAX_DRBS_PER_UE :: nat where "MAX_DRBS_PER_UE = 32"
definition MAX_MOBILES_PER_ENB :: nat where "MAX_MOBILES_PER_ENB = 40"
definition NGAP_MAX_PDU_SESSION :: int where "NGAP_MAX_PDU_SESSION = 256"

datatype nr_lcid_rb_t = NR_LCID_NONE | NR_LCID_SRB int | NR_LCID_DRB int

record protocol_ctxt_t =
  ct_module_id :: int
  ct_enb_flag :: bool
  ct_instance :: int
  ct_rntiMaybeUEid :: u64
  ct_eNB_index :: int
  ct_brOption :: bool

text \<open>A context with the designated initialisers for the flag and the UE; the other fields are zero.\<close>

definition ctxt_for :: "bool \<Rightarrow> u64 \<Rightarrow> protocol_ctxt_t" where
  "ctxt_for enb_flag ue_id = \<lparr> ct_module_id = 0, ct_enb_flag = enb_flag, ct_instance = 0, ct_rntiMaybeUEid = ue_id,
     ct_eNB_index = 0, ct_brOption = False \<rparr>"

text \<open>A loop over a list whose body can fail.\<close>

fun foldR :: "('x \<Rightarrow> 'y \<Rightarrow> 'y res) \<Rightarrow> 'x list \<Rightarrow> 'y \<Rightarrow> 'y res" where
  "foldR f [] y = Inr y"
| "foldR f (x # xs) y = bindR (f x y) (foldR f xs)"

lemma foldR_append: "foldR f (xs @ ys) y = bindR (foldR f xs y) (foldR f ys)"
  by (induction xs arbitrary: y) (auto simp: bindR_def split: sum.split)

lemma foldR_invariant:
  assumes "\<And>x y y'. x \<in> set xs \<Longrightarrow> I y \<Longrightarrow> f x y = Inr y' \<Longrightarrow> I y'" and "I y" and "foldR f xs y = Inr z"
  shows "I z"
  using assms by (induction xs arbitrary: y) (auto simp: bindR_eq_Inr)

text \<open>A relation that every round of a loop respects.\<close>

lemma foldR_postR:
  assumes "\<And>x y. x \<in> set xs \<Longrightarrow> K a y \<Longrightarrow> postR (K y) (f x y)" and "\<And>x y z. K x y \<Longrightarrow> K y z \<Longrightarrow> K x z" and "K a a"
  shows "postR (K a) (foldR f xs a)"
proof -
  have "postR (K a) (foldR f xs b)" if "K a b" for b
    using assms(1) that
  proof (induction xs arbitrary: b)
    case Nil
    then show ?case by (simp add: postR_def)
  next
    case (Cons x xs)
    have "postR (K a) (bindR (f x b) (foldR f xs))"
    proof (rule postR_intros(3))
      fix c assume "f x b = Inr c"
      then have "K a c" using Cons.prems(1) [of x b] Cons.prems(2) assms(2) [of a b c] by (simp add: postR_def)
      then show "postR (K a) (foldR f xs c)" using Cons by simp
    qed
    then show ?case by simp
  qed
  then show ?thesis using assms(3) by blast
qed

end
