(* ===== verification/Ue_Managers.thy ===== *)
theory Ue_Managers
  imports Platform Pdcp_Entity Rlc_Tm Rlc_Um Rlc_Am_Control
begin

text \<open>
  Model of \<^verbatim>\<open>openair2/LAYER2/nr_pdcp/nr_pdcp_ue_manager.c\<close> and
  \<^verbatim>\<open>openair2/LAYER2/nr_rlc/nr_rlc_ue_manager.c\<close>: the tables of UEs and the radio bearers of a UE.
  Every function is called with the lock of the manager held, so the operations of a manager are a
  sequence; locking itself is not modelled. \<^verbatim>\<open>exit(1)\<close> is the fault \<open>Abort\<close>. The entities a
  removal deletes are part of its result, in the order of the calls of \<^verbatim>\<open>delete_entity\<close>.
\<close>

section \<open>PDCP\<close>

record nr_pdcp_ue_t =
  pu_ue_id :: u64
  pu_srb :: "nr_pdcp_entity_t option list"
  pu_drb :: "nr_pdcp_entity_t option list"

record nr_pdcp_ue_manager_internal_t =
  pm_ue_list :: "nr_pdcp_ue_t list"
  pm_enb_flag :: bool

definition new_nr_pdcp_ue_manager :: "bool \<Rightarrow> nr_pdcp_ue_manager_internal_t" where
  "new_nr_pdcp_ue_manager enb_flag = \<lparr> pm_ue_list = [], pm_enb_flag = enb_flag \<rparr>"

definition nr_pdcp_manager_get_enb_flag :: "nr_pdcp_ue_manager_internal_t \<Rightarrow> bool" where
  "nr_pdcp_manager_get_enb_flag m = pm_enb_flag m"

text \<open>The result is the index of the UE in the list; a new UE has no bearers.\<close>

fun find_index :: "('x \<Rightarrow> bool) \<Rightarrow> 'x list \<Rightarrow> nat option" where
  "find_index P [] = None"
| "find_index P (x # xs) = (if P x then Some 0 else map_option Suc (find_index P xs))"

definition nr_pdcp_manager_get_ue ::
    "nr_pdcp_ue_manager_internal_t \<Rightarrow> u64 \<Rightarrow> nat \<times> nr_pdcp_ue_manager_internal_t" where
  "nr_pdcp_manager_get_ue m ue_id =
     (case find_index (\<lambda>ue. pu_ue_id ue = ue_id) (pm_ue_list m) of
        Some i \<Rightarrow> (i, m)
      | None \<Rightarrow> (length (pm_ue_list m),
                 m\<lparr>pm_ue_list := pm_ue_list m @ [\<lparr> pu_ue_id = ue_id, pu_srb = replicate 3 None,
                                                    pu_drb = replicate MAX_DRBS_PER_UE None \<rparr>]\<rparr>))"

definition nr_pdcp_manager_remove_ue ::
    "nr_pdcp_ue_manager_internal_t \<Rightarrow> u64 \<Rightarrow> nr_pdcp_entity_t list \<times> nr_pdcp_ue_manager_internal_t" where
  "nr_pdcp_manager_remove_ue m ue_id =
     (case find_index (\<lambda>ue. pu_ue_id ue = ue_id) (pm_ue_list m) of
        None \<Rightarrow> ([], m)
      | Some i \<Rightarrow>
          let ue = pm_ue_list m ! i
          in (List.map_filter id (map ((!) (pu_srb ue)) [0 ..< 2]) @ List.map_filter id (map ((!) (pu_drb ue)) [0 ..< 5]),
              m\<lparr>pm_ue_list := take i (pm_ue_list m) @ drop (i + 1) (pm_ue_list m)\<rparr>))"

definition nr_pdcp_ue_add_srb_pdcp_entity :: "nr_pdcp_ue_t \<Rightarrow> int \<Rightarrow> nr_pdcp_entity_t \<Rightarrow> nr_pdcp_ue_t res" where
  "nr_pdcp_ue_add_srb_pdcp_entity ue srb_id entity =
     (if srb_id < 1 \<or> srb_id > 2 then Inl Abort
      else if pu_srb ue ! nat (srb_id - 1) \<noteq> None then Inl Abort
      else Inr (ue\<lparr>pu_srb := (pu_srb ue)[nat (srb_id - 1) := Some entity]\<rparr>))"

definition nr_pdcp_ue_add_drb_pdcp_entity :: "nr_pdcp_ue_t \<Rightarrow> int \<Rightarrow> nr_pdcp_entity_t \<Rightarrow> nr_pdcp_ue_t res" where
  "nr_pdcp_ue_add_drb_pdcp_entity ue drb_id entity =
     (if drb_id < 1 \<or> drb_id > int MAX_DRBS_PER_UE then Inl Abort
      else if pu_drb ue ! nat (drb_id - 1) \<noteq> None then Inl Abort
      else Inr (ue\<lparr>pu_drb := (pu_drb ue)[nat (drb_id - 1) := Some entity]\<rparr>))"

definition nr_pdcp_manager_get_ue_list :: "nr_pdcp_ue_manager_internal_t \<Rightarrow> nr_pdcp_ue_t list" where
  "nr_pdcp_manager_get_ue_list m = pm_ue_list m"

definition nr_pdcp_manager_get_ue_count :: "nr_pdcp_ue_manager_internal_t \<Rightarrow> nat" where
  "nr_pdcp_manager_get_ue_count m = length (pm_ue_list m)"

definition nr_pdcp_get_first_ue_id :: "nr_pdcp_ue_manager_internal_t \<Rightarrow> u64 option" where
  "nr_pdcp_get_first_ue_id m = (case pm_ue_list m of [] \<Rightarrow> None | ue # _ \<Rightarrow> Some (pu_ue_id ue))"

section \<open>RLC\<close>

text \<open>An RLC entity of any mode: the structure with its table of function pointers.\<close>

datatype rlc_entity = Rlc_AM nr_rlc_entity_am_t | Rlc_UM nr_rlc_entity_um_t | Rlc_TM nr_rlc_entity_tm_t

datatype nr_rlc_op_mode_t = NR_RLC_OP_MODE_SPLIT_GNB | NR_RLC_OP_MODE_MONO_GNB | NR_RLC_OP_MODE_UE

text \<open>The handler of radio link failures is a function of MAC: only whether one is registered is kept.\<close>

record nr_rlc_ue_t =
  ru_ue_id :: int
  ru_srb0 :: "rlc_entity option"
  ru_srb :: "rlc_entity option list"
  ru_drb :: "rlc_entity option list"
  ru_lcid2rb :: "nr_lcid_rb_t list"
  ru_rlf_handler :: bool

record nr_rlc_ue_manager_internal_t =
  rm_ue_list :: "nr_rlc_ue_t list"
  rm_mode :: nr_rlc_op_mode_t

definition new_nr_rlc_ue_manager :: "nr_rlc_op_mode_t \<Rightarrow> nr_rlc_ue_manager_internal_t" where
  "new_nr_rlc_ue_manager md = \<lparr> rm_ue_list = [], rm_mode = md \<rparr>"

definition nr_rlc_manager_rlc_is_split :: "nr_rlc_ue_manager_internal_t \<Rightarrow> bool" where
  "nr_rlc_manager_rlc_is_split m \<longleftrightarrow> rm_mode m = NR_RLC_OP_MODE_SPLIT_GNB"

definition nr_rlc_manager_get_gnb_flag :: "nr_rlc_ue_manager_internal_t \<Rightarrow> bool" where
  "nr_rlc_manager_get_gnb_flag m \<longleftrightarrow> rm_mode m \<noteq> NR_RLC_OP_MODE_UE"

definition nr_rlc_manager_get_ue ::
    "nr_rlc_ue_manager_internal_t \<Rightarrow> int \<Rightarrow> nat \<times> nr_rlc_ue_manager_internal_t" where
  "nr_rlc_manager_get_ue m ue_id =
     (case find_index (\<lambda>ue. ru_ue_id ue = ue_id) (rm_ue_list m) of
        Some i \<Rightarrow> (i, m)
      | None \<Rightarrow> (length (rm_ue_list m),
                 m\<lparr>rm_ue_list := rm_ue_list m @ [\<lparr> ru_ue_id = ue_id, ru_srb0 = None, ru_srb = replicate 3 None,
                                                    ru_drb = replicate MAX_DRBS_PER_UE None,
                                                    ru_lcid2rb = replicate 32 NR_LCID_NONE, ru_rlf_handler = False \<rparr>]\<rparr>))"

definition nr_rlc_manager_remove_ue ::
    "nr_rlc_ue_manager_internal_t \<Rightarrow> int \<Rightarrow> rlc_entity list \<times> nr_rlc_ue_manager_internal_t" where
  "nr_rlc_manager_remove_ue m ue_id =
     (case find_index (\<lambda>ue. ru_ue_id ue = ue_id) (rm_ue_list m) of
        None \<Rightarrow> ([], m)
      | Some i \<Rightarrow>
          let ue = rm_ue_list m ! i
          in (List.map_filter id ([ru_srb0 ue] @ map ((!) (ru_srb ue)) [0 ..< 3]
                                  @ map ((!) (ru_drb ue)) [0 ..< MAX_DRBS_PER_UE]),
              m\<lparr>rm_ue_list := take i (rm_ue_list m) @ drop (i + 1) (rm_ue_list m)\<rparr>))"

definition nr_rlc_ue_add_srb_rlc_entity :: "nr_rlc_ue_t \<Rightarrow> int \<Rightarrow> rlc_entity \<Rightarrow> nr_rlc_ue_t res" where
  "nr_rlc_ue_add_srb_rlc_entity ue srb_id entity =
     (if srb_id < 0 \<or> srb_id > 3 then Inl Abort
      else if srb_id = 0
      then if ru_srb0 ue \<noteq> None then Inl Abort else Inr (ue\<lparr>ru_srb0 := Some entity\<rparr>)
      else if ru_srb ue ! nat (srb_id - 1) \<noteq> None then Inl Abort
      else Inr (ue\<lparr>ru_srb := (ru_srb ue)[nat (srb_id - 1) := Some entity]\<rparr>))"

definition nr_rlc_ue_add_drb_rlc_entity :: "nr_rlc_ue_t \<Rightarrow> int \<Rightarrow> rlc_entity \<Rightarrow> nr_rlc_ue_t res" where
  "nr_rlc_ue_add_drb_rlc_entity ue drb_id entity =
     (if drb_id < 1 \<or> drb_id > int MAX_DRBS_PER_UE then Inl Abort
      else if ru_drb ue ! nat (drb_id - 1) \<noteq> None then Inl Abort
      else Inr (ue\<lparr>ru_drb := (ru_drb ue)[nat (drb_id - 1) := Some entity]\<rparr>))"

section \<open>The contract of a UE table\<close>

text \<open>
  Seen from outside a table is a finite map from identifiers to UEs. What a table promises is stated over
  its list of UEs; the map view is derived once for both managers.
\<close>

definition ue_map :: "('u \<Rightarrow> 'k) \<Rightarrow> 'u list \<Rightarrow> 'k \<Rightarrow> 'u option" where
  "ue_map key us k = find (\<lambda>u. key u = k) us"

lemma find_index_find:
  "find P us = map_option ((!) us) (find_index P us)"
  by (induction us) (auto simp: option.map_comp comp_def)

lemma find_index_SomeD: "find_index P us = Some i \<Longrightarrow> i < length us \<and> P (us ! i)"
  by (induction us arbitrary: i) (auto split: if_splits)

lemma find_index_None: "find_index P us = None \<longleftrightarrow> (\<forall>u \<in> set us. \<not> P u)"
  by (induction us) auto

lemma find_index_unique:
  "distinct (map key us) \<Longrightarrow> i < length us \<Longrightarrow> find_index (\<lambda>u. key u = key (us ! i)) us = Some i"
proof (induction us arbitrary: i)
  case (Cons u us)
  then show ?case by (cases i) auto
qed simp

lemma ue_map_append: "ue_map key (us @ [u]) k = (case ue_map key us k of None \<Rightarrow> if key u = k then Some u else None | r \<Rightarrow> r)"
  by (induction us) (auto simp: ue_map_def)

lemma ue_map_update:
  assumes "distinct (map key us)" and "i < length us" and "key u = key (us ! i)"
  shows "ue_map key (us[i := u]) = (ue_map key us)(key u \<mapsto> u)" and "map key (us[i := u]) = map key us"
proof -
  show m: "map key (us[i := u]) = map key us" using assms(2,3) by (simp add: map_update list_update_same_conv)
  show "ue_map key (us[i := u]) = (ue_map key us)(key u \<mapsto> u)"
  proof
    fix k
    show "ue_map key (us[i := u]) k = ((ue_map key us)(key u \<mapsto> u)) k"
      using assms
    proof (induction us arbitrary: i)
      case (Cons v us)
      then show ?case by (cases i) (auto simp: ue_map_def)
    qed simp
  qed
qed

lemma ue_map_remove:
  assumes "distinct (map key us)" and "find_index (\<lambda>u. key u = k) us = Some i"
  shows "ue_map key (take i us @ drop (i + 1) us) = (ue_map key us)(k := None)"
    and "distinct (map key (take i us @ drop (i + 1) us))"
proof -
  show "distinct (map key (take i us @ drop (i + 1) us))"
    using assms(1) by (auto simp: take_map [symmetric] drop_map [symmetric] set_take_disj_set_drop_if_distinct)
  show "ue_map key (take i us @ drop (i + 1) us) = (ue_map key us)(k := None)"
  proof
    fix k'
    show "ue_map key (take i us @ drop (i + 1) us) k' = ((ue_map key us)(k := None)) k'"
      using assms
    proof (induction us arbitrary: i)
      case (Cons v us)
      show ?case
      proof (cases "key v = k")
        case True
        then have "k \<notin> key ` set us" "i = 0" using Cons.prems by auto
        then have "find (\<lambda>u. key u = k) us = None" by (auto simp: find_None_iff image_iff)
        with True \<open>i = 0\<close> show ?thesis by (auto simp: ue_map_def)
      next
        case False
        then obtain j where "find_index (\<lambda>u. key u = k) us = Some j" "i = Suc j" using Cons.prems(2) by auto
        then show ?thesis using Cons False by (auto simp: ue_map_def)
      qed
    qed simp
  qed
qed

locale ue_table =
  fixes ues :: "'m \<Rightarrow> 'u list"
    and set_ues :: "'u list \<Rightarrow> 'm \<Rightarrow> 'm"
    and key :: "'u \<Rightarrow> 'k"
    and fresh :: "'k \<Rightarrow> 'u"
    and get_ue :: "'m \<Rightarrow> 'k \<Rightarrow> nat \<times> 'm"
    and remove_ue :: "'m \<Rightarrow> 'k \<Rightarrow> 'e list \<times> 'm"
  assumes ues_set [simp]: "ues (set_ues us m) = us"
    and key_fresh [simp]: "key (fresh k) = k"
    and get_found: "find_index (\<lambda>u. key u = k) (ues m) = Some i \<Longrightarrow> get_ue m k = (i, m)"
    and get_new: "find_index (\<lambda>u. key u = k) (ues m) = None
      \<Longrightarrow> get_ue m k = (length (ues m), set_ues (ues m @ [fresh k]) m)"
    and remove_found: "find_index (\<lambda>u. key u = k) (ues m) = Some i
      \<Longrightarrow> ues (snd (remove_ue m k)) = take i (ues m) @ drop (i + 1) (ues m)"
    and remove_none: "find_index (\<lambda>u. key u = k) (ues m) = None \<Longrightarrow> remove_ue m k = ([], m)"
begin

definition unique :: "'m \<Rightarrow> bool" where
  "unique m \<longleftrightarrow> distinct (map key (ues m))"

abbreviation lookup :: "'m \<Rightarrow> 'k \<Rightarrow> 'u option" where
  "lookup m \<equiv> ue_map key (ues m)"

definition found :: "'m \<Rightarrow> 'k \<Rightarrow> 'u" where
  "found m k = (case lookup m k of None \<Rightarrow> fresh k | Some u \<Rightarrow> u)"

lemma get_ue_spec:
  assumes "unique m" and "get_ue m k = (i, m')"
  shows "unique m'" and "i < length (ues m')" and "ues m' ! i = found m k" and "key (ues m' ! i) = k"
    and "lookup m' = (lookup m)(k \<mapsto> found m k)"
proof -
  have "unique m' \<and> i < length (ues m') \<and> ues m' ! i = found m k \<and> key (ues m' ! i) = k
      \<and> lookup m' = (lookup m)(k \<mapsto> found m k)"
  proof (cases "find_index (\<lambda>u. key u = k) (ues m)")
    case None
    then have m': "m' = set_ues (ues m @ [fresh k]) m" "i = length (ues m)" "lookup m k = None"
      using get_new assms(2) by (auto simp: ue_map_def find_index_find)
    have "lookup m' = (lookup m)(k \<mapsto> fresh k)" using m' by (auto simp: ue_map_append split: option.split)
    then show ?thesis using m' None assms(1) by (auto simp: unique_def found_def find_index_None)
  next
    case (Some j)
    then have m': "m' = m" "i = j" "lookup m k = Some (ues m ! j)" using get_found assms(2) by (auto simp: ue_map_def find_index_find)
    then show ?thesis using find_index_SomeD [OF Some] assms(1) by (auto simp: found_def)
  qed
  then show "unique m'" "i < length (ues m')" "ues m' ! i = found m k" "key (ues m' ! i) = k"
    "lookup m' = (lookup m)(k \<mapsto> found m k)" by blast+
qed

lemma get_ue_again: "unique m \<Longrightarrow> get_ue m k = (i, m') \<Longrightarrow> get_ue m' k = (i, m')"
  using get_ue_spec [of m k i m'] find_index_unique [of key "ues m'" i] get_found [of k m' i] by (simp add: unique_def)

lemma store_spec:
  assumes "unique m" and "i < length (ues m)" and "key u = key (ues m ! i)"
  shows "unique (set_ues ((ues m)[i := u]) m)" and "lookup (set_ues ((ues m)[i := u]) m) = (lookup m)(key u \<mapsto> u)"
  using ue_map_update [OF assms(1) [unfolded unique_def] assms(2,3)] assms(1) by (simp_all add: unique_def)

lemma remove_ue_spec:
  assumes "unique m"
  shows "unique (snd (remove_ue m k))" and "lookup (snd (remove_ue m k)) = (lookup m)(k := None)"
proof -
  have "unique (snd (remove_ue m k)) \<and> lookup (snd (remove_ue m k)) = (lookup m)(k := None)"
  proof (cases "find_index (\<lambda>u. key u = k) (ues m)")
    case None
    then have "lookup m k = None" by (simp add: ue_map_def find_index_find)
    then show ?thesis using remove_none [OF None] assms by (auto simp: fun_eq_iff)
  next
    case (Some i)
    then show ?thesis using ue_map_remove [OF assms [unfolded unique_def] Some] remove_found [OF Some]
      by (simp add: unique_def)
  qed
  then show "unique (snd (remove_ue m k))" "lookup (snd (remove_ue m k)) = (lookup m)(k := None)" by blast+
qed

end

definition new_pdcp_ue :: "u64 \<Rightarrow> nr_pdcp_ue_t" where
  "new_pdcp_ue ue_id = \<lparr> pu_ue_id = ue_id, pu_srb = replicate 3 None, pu_drb = replicate MAX_DRBS_PER_UE None \<rparr>"

definition new_rlc_ue :: "int \<Rightarrow> nr_rlc_ue_t" where
  "new_rlc_ue ue_id = \<lparr> ru_ue_id = ue_id, ru_srb0 = None, ru_srb = replicate 3 None,
     ru_drb = replicate MAX_DRBS_PER_UE None, ru_lcid2rb = replicate 32 NR_LCID_NONE, ru_rlf_handler = False \<rparr>"

interpretation pdcp_ues: ue_table pm_ue_list "\<lambda>us m. m\<lparr>pm_ue_list := us\<rparr>" pu_ue_id new_pdcp_ue nr_pdcp_manager_get_ue
  nr_pdcp_manager_remove_ue
  by unfold_locales
     (auto simp: new_pdcp_ue_def nr_pdcp_manager_get_ue_def nr_pdcp_manager_remove_ue_def Let_def)

interpretation rlc_ues: ue_table rm_ue_list "\<lambda>us m. m\<lparr>rm_ue_list := us\<rparr>" ru_ue_id new_rlc_ue nr_rlc_manager_get_ue
  nr_rlc_manager_remove_ue
  by unfold_locales
     (auto simp: new_rlc_ue_def nr_rlc_manager_get_ue_def nr_rlc_manager_remove_ue_def Let_def)

end
