(* ===== verification/Sdap_Table.thy ===== *)
theory Sdap_Table
  imports Platform
begin

unbundle bit_operations_syntax

text \<open>
  Model of the data of \<^verbatim>\<open>openair2/SDAP/nr_sdap/nr_sdap_entity.h\<close> and of the part of
  \<^verbatim>\<open>nr_sdap_entity.c\<close> that works on it alone: the headers, the mapping from QoS flows to data
  radio bearers of one SDAP entity, and the list of SDAP entities. Sending and receiving are in
  \<open>Sdap\<close>.
\<close>

definition SDAP_HDR_LENGTH :: nat where "SDAP_HDR_LENGTH = 1"
definition SDAP_MAX_QFI :: nat where "SDAP_MAX_QFI = 64"
definition SDAP_MAX_PDU :: nat where "SDAP_MAX_PDU = 9000"
definition SDAP_MAX_NUM_OF_ENTITIES :: nat where "SDAP_MAX_NUM_OF_ENTITIES = MAX_DRBS_PER_UE * MAX_MOBILES_PER_ENB"
definition SDAP_MAX_UE_ID :: u64 where "SDAP_MAX_UE_ID = 65536"

lemmas sdap_consts = SDAP_HDR_LENGTH_def SDAP_MAX_QFI_def SDAP_MAX_PDU_def

text \<open>The roles are bits of an \<^verbatim>\<open>int\<close>.\<close>

definition SDAP_UL_TX :: int where "SDAP_UL_TX = 1"
definition SDAP_UL_RX :: int where "SDAP_UL_RX = 2"
definition SDAP_DL_TX :: int where "SDAP_DL_TX = 4"
definition SDAP_DL_RX :: int where "SDAP_DL_RX = 8"

definition has_role :: "int \<Rightarrow> int \<Rightarrow> bool" where
  "has_role role r \<longleftrightarrow> role AND r \<noteq> 0"

section \<open>Headers\<close>

text \<open>
  A header is one byte made of bit fields, from the least significant bit on: six bits of QFI and two
  flags.
\<close>

record nr_sdap_dl_hdr_t =
  dh_QFI :: "6 word"
  dh_RQI :: bool
  dh_RDI :: bool

record nr_sdap_ul_hdr_t =
  uh_QFI :: "6 word"
  uh_R :: bool
  uh_DC :: bool

definition hdr_byte :: "6 word \<Rightarrow> bool \<Rightarrow> bool \<Rightarrow> u8" where
  "hdr_byte qfi f6 f7 = ucast qfi OR (if f6 then 0x40 else 0) OR (if f7 then 0x80 else 0)"

definition dl_hdr_byte :: "nr_sdap_dl_hdr_t \<Rightarrow> u8" where
  "dl_hdr_byte h = hdr_byte (dh_QFI h) (dh_RQI h) (dh_RDI h)"

definition ul_hdr_byte :: "nr_sdap_ul_hdr_t \<Rightarrow> u8" where
  "ul_hdr_byte h = hdr_byte (uh_QFI h) (uh_R h) (uh_DC h)"

definition dl_hdr_of :: "u8 \<Rightarrow> nr_sdap_dl_hdr_t" where
  "dl_hdr_of b = \<lparr> dh_QFI = ucast b, dh_RQI = bit b 6, dh_RDI = bit b 7 \<rparr>"

definition ul_hdr_of :: "u8 \<Rightarrow> nr_sdap_ul_hdr_t" where
  "ul_hdr_of b = \<lparr> uh_QFI = ucast b, uh_R = bit b 6, uh_DC = bit b 7 \<rparr>"

lemma hdr_byte_fields:
  "(ucast (hdr_byte qfi f6 f7) :: 6 word) = qfi" "bit (hdr_byte qfi f6 f7) 6 = f6" "bit (hdr_byte qfi f6 f7) 7 = f7"
proof -
  show "(ucast (hdr_byte qfi f6 f7) :: 6 word) = qfi"
  proof (rule bit_word_eqI)
    fix i assume "i < LENGTH(6)"
    then have "i = 0 \<or> i = 1 \<or> i = 2 \<or> i = 3 \<or> i = 4 \<or> i = 5" by auto
    then show "bit (ucast (hdr_byte qfi f6 f7) :: 6 word) i = bit qfi i"
      by (elim disjE) (simp_all add: hdr_byte_def bit_simps)
  qed
  show "bit (hdr_byte qfi f6 f7) 6 = f6" "bit (hdr_byte qfi f6 f7) 7 = f7"
    by (auto simp: hdr_byte_def bit_simps dest: bit_imp_le_length)
qed

section \<open>Entities\<close>

record qfi2drb_t =
  q_drb_id :: int
  q_entity_role :: int

text \<open>\<^verbatim>\<open>NR_QFI_t\<close> is \<^verbatim>\<open>long\<close>; the arrays are given by the entries that count.\<close>

record sdap_config_t =
  sc_pdusession_id :: int
  sc_drb_id :: int
  sc_role :: int
  sc_defaultDRB :: bool
  sc_mappedQFIs2Add :: "int list"
  sc_mappedQFIs2Release :: "int list"

record nr_sdap_entity_t =
  sd_ue_id :: u64
  sd_default_drb :: int
  sd_is_gnb :: bool
  sd_enable_sdap :: bool
  sd_pdusession_id :: int
  sd_pdusession_sock :: int
  sd_stop_thread :: bool
  sd_qfi :: int
  sd_qfi2drb_table :: "qfi2drb_t list"

text \<open>An access to the table with an index of eight bits.\<close>

definition table_at :: "nr_sdap_entity_t \<Rightarrow> u8 \<Rightarrow> qfi2drb_t res" where
  "table_at e qfi = (if unat qfi < length (sd_qfi2drb_table e) then Inr (sd_qfi2drb_table e ! unat qfi) else Inl Out_Of_Bounds)"

definition table_set :: "nr_sdap_entity_t \<Rightarrow> u8 \<Rightarrow> (qfi2drb_t \<Rightarrow> qfi2drb_t) \<Rightarrow> nr_sdap_entity_t res" where
  "table_set e qfi f =
     bindR (table_at e qfi) (\<lambda>q. Inr (e\<lparr>sd_qfi2drb_table := (sd_qfi2drb_table e)[unat qfi := f q]\<rparr>))"

definition nr_sdap_qfi2drb_map_add :: "nr_sdap_entity_t \<Rightarrow> u8 \<Rightarrow> u8 \<Rightarrow> u8 \<Rightarrow> nr_sdap_entity_t res" where
  "nr_sdap_qfi2drb_map_add e qfi drb_id role = table_set e qfi (\<lambda>q. q\<lparr>q_drb_id := uint drb_id, q_entity_role := uint role\<rparr>)"

definition nr_sdap_qfi2drb_map_del :: "nr_sdap_entity_t \<Rightarrow> u8 \<Rightarrow> nr_sdap_entity_t res" where
  "nr_sdap_qfi2drb_map_del e qfi = table_set e qfi (\<lambda>q. q\<lparr>q_drb_id := 0\<rparr>)"

definition nr_sdap_qfi2drb :: "nr_sdap_entity_t \<Rightarrow> u8 \<Rightarrow> int res" where
  "nr_sdap_qfi2drb e qfi =
     bindR (table_at e qfi) (\<lambda>q.
       Inr (if q_drb_id q \<noteq> 0 then q_drb_id q else if sd_default_drb e \<noteq> 0 then sd_default_drb e else 0))"

definition nr_sdap_construct_ctrl_pdu :: "u8 \<Rightarrow> nr_sdap_ul_hdr_t" where
  "nr_sdap_construct_ctrl_pdu qfi = \<lparr> uh_QFI = ucast qfi, uh_R = False, uh_DC = False \<rparr>"

datatype ctrl_pdu_map = SDAP_CTRL_PDU_MAP_DEF_DRB | SDAP_CTRL_PDU_MAP_RULE_DRB

definition nr_sdap_map_ctrl_pdu :: "nr_sdap_entity_t \<Rightarrow> ctrl_pdu_map \<Rightarrow> u8 \<Rightarrow> int res" where
  "nr_sdap_map_ctrl_pdu e map_type dl_qfi =
     (case map_type of SDAP_CTRL_PDU_MAP_DEF_DRB \<Rightarrow> Inr (sd_default_drb e)
      | SDAP_CTRL_PDU_MAP_RULE_DRB \<Rightarrow> nr_sdap_qfi2drb e dl_qfi)"

definition nr_sdap_add_qos_flows_to_drb :: "sdap_config_t \<Rightarrow> nr_sdap_entity_t \<Rightarrow> nr_sdap_entity_t res" where
  "nr_sdap_add_qos_flows_to_drb sdap =
     foldR (\<lambda>q e. let qfi = (word_of_int q :: u8)
        in if unat qfi < SDAP_MAX_QFI \<and> sc_drb_id sdap > 0 \<and> sc_drb_id sdap \<le> int MAX_DRBS_PER_UE
           then nr_sdap_qfi2drb_map_add e qfi (word_of_int (sc_drb_id sdap)) (word_of_int (sc_role sdap))
           else Inr e)
       (sc_mappedQFIs2Add sdap)"

definition nr_sdap_rm_qos_flows_from_drb :: "sdap_config_t \<Rightarrow> nr_sdap_entity_t \<Rightarrow> nr_sdap_entity_t res" where
  "nr_sdap_rm_qos_flows_from_drb sdap =
     foldR (\<lambda>q e. nr_sdap_qfi2drb_map_del e (word_of_int q)) (sc_mappedQFIs2Release sdap)"

section \<open>Configuration\<close>

record NR_SDAP_Config_t =
  rc_pdu_Session :: int
  rc_sdap_HeaderDL_present :: bool
  rc_sdap_HeaderUL_present :: bool
  rc_defaultDRB :: bool
  rc_mappedQoS_FlowsToAdd :: "int list option"
  rc_mappedQoS_FlowsToRelease :: "int list option"

definition get_sdap_role :: "bool \<Rightarrow> NR_SDAP_Config_t \<Rightarrow> int" where
  "get_sdap_role is_gnb sdap_config =
     (let role_ul = (if is_gnb then SDAP_UL_RX else SDAP_UL_TX);
          role_dl = (if is_gnb then SDAP_DL_TX else SDAP_DL_RX);
          role = (if rc_sdap_HeaderUL_present sdap_config then 0 OR role_ul else 0)
      in if rc_sdap_HeaderDL_present sdap_config then role OR role_dl else role)"

text \<open>
  The numbers of flows are kept in eight bits, and as many flows are copied. The assertions on these numbers
  are the fault \<open>Abort\<close>.
\<close>

definition nr_sdap_get_config :: "bool \<Rightarrow> NR_SDAP_Config_t \<Rightarrow> int \<Rightarrow> sdap_config_t res" where
  "nr_sdap_get_config is_gnb sdap_Config drb_id =
     (let qfis = (\<lambda>l. case l of None \<Rightarrow> [] | Some qs \<Rightarrow> take (length qs mod 256) qs);
          add = qfis (rc_mappedQoS_FlowsToAdd sdap_Config);
          rel = qfis (rc_mappedQoS_FlowsToRelease sdap_Config)
      in if \<not> length add \<le> SDAP_MAX_QFI \<or> \<not> length rel \<le> SDAP_MAX_QFI then Inl Abort
         else Inr \<lparr> sc_pdusession_id = rc_pdu_Session sdap_Config, sc_drb_id = drb_id,
                    sc_role = get_sdap_role is_gnb sdap_Config, sc_defaultDRB = rc_defaultDRB sdap_Config,
                    sc_mappedQFIs2Add = add, sc_mappedQFIs2Release = rel \<rparr>)"

section \<open>The list of entities\<close>

definition is_session :: "u64 \<Rightarrow> int \<Rightarrow> nr_sdap_entity_t \<Rightarrow> bool" where
  "is_session ue_id pdusession_id e \<longleftrightarrow> sd_ue_id e = ue_id \<and> sd_pdusession_id e = pdusession_id"

text \<open>The index of the entity in the list; \<^verbatim>\<open>NULL\<close> is \<open>None\<close>.\<close>

fun nr_sdap_get_entity :: "nr_sdap_entity_t list \<Rightarrow> u64 \<Rightarrow> int \<Rightarrow> nat option" where
  "nr_sdap_get_entity [] ue_id pdusession_id = None"
| "nr_sdap_get_entity (e # es) ue_id pdusession_id =
     (if is_session ue_id pdusession_id e then Some 0
      else if es = [] then None else map_option Suc (nr_sdap_get_entity es ue_id pdusession_id))"

text \<open>
  \<^verbatim>\<open>nr_sdap_delete_entity\<close>: the loop walks at most \<^verbatim>\<open>SDAP_MAX_NUM_OF_ENTITIES\<close>
  elements. The result is the remaining list with the entity that was unlinked.
\<close>

fun delete_entity_loop ::
    "nat \<Rightarrow> u64 \<Rightarrow> int \<Rightarrow> nr_sdap_entity_t \<Rightarrow> nr_sdap_entity_t list \<Rightarrow> (nr_sdap_entity_t \<times> nr_sdap_entity_t list) option" where
  "delete_entity_loop upperBound ue_id pdusession_id e rest =
     (if is_session ue_id pdusession_id e then Some (e, rest)
      else case rest of
        [] \<Rightarrow> None
      | e' # rest' \<Rightarrow>
          if upperBound < SDAP_MAX_NUM_OF_ENTITIES
          then map_option (\<lambda>(d, l). (d, e # l)) (delete_entity_loop (upperBound + 1) ue_id pdusession_id e' rest')
          else None)"

declare delete_entity_loop.simps [simp del]

definition nr_sdap_delete_entity ::
    "nr_sdap_entity_t list \<Rightarrow> u64 \<Rightarrow> int \<Rightarrow> (nr_sdap_entity_t option \<times> nr_sdap_entity_t list) res" where
  "nr_sdap_delete_entity es ue_id pdusession_id =
     (case es of
        [] \<Rightarrow> if pdusession_id * (pdusession_id - NGAP_MAX_PDU_SESSION) > 0 then Inr (None, []) else Inl Null_Deref
      | e # rest \<Rightarrow>
          (case delete_entity_loop 0 ue_id pdusession_id e rest of
             None \<Rightarrow> Inr (None, es)
           | Some (d, l) \<Rightarrow> Inr (Some d, l)))"

text \<open>
  \<^verbatim>\<open>nr_sdap_delete_ue_entities\<close>: the first loop unlinks matching entities at the head, the
  second one the others; its counter never grows, so it never stops the loops. The result is the entities
  that were unlinked and the remaining list.
\<close>

fun delete_ue_head :: "u64 \<Rightarrow> nr_sdap_entity_t list \<Rightarrow> nr_sdap_entity_t list \<times> nr_sdap_entity_t list" where
  "delete_ue_head ue_id [] = ([], [])"
| "delete_ue_head ue_id (e # es) =
     (if sd_ue_id e = ue_id then let (d, l) = delete_ue_head ue_id es in (e # d, l) else ([], e # es))"

fun delete_ue_rest :: "u64 \<Rightarrow> nr_sdap_entity_t list \<Rightarrow> nr_sdap_entity_t list \<times> nr_sdap_entity_t list" where
  "delete_ue_rest ue_id [] = ([], [])"
| "delete_ue_rest ue_id (e # es) =
     (let (d, l) = delete_ue_rest ue_id es in if sd_ue_id e \<noteq> ue_id then (d, e # l) else (e # d, l))"

definition nr_sdap_delete_ue_entities ::
    "nr_sdap_entity_t list \<Rightarrow> u64 \<Rightarrow> bool \<times> nr_sdap_entity_t list \<times> nr_sdap_entity_t list" where
  "nr_sdap_delete_ue_entities es ue_id =
     (if es = [] \<and> ue_id * (ue_id - SDAP_MAX_UE_ID) > 0 then (False, [], es)
      else let (d, l) = delete_ue_head ue_id es; (d', l') = delete_ue_rest ue_id l
           in (d @ d' \<noteq> [], d @ d', l'))"

end
