(* ===== verification/Pdcp_Layer.thy ===== *)
theory Pdcp_Layer
  imports Ue_Managers Sdap_Table
begin

text \<open>
  The transmitting side of \<^verbatim>\<open>openair2/LAYER2/nr_pdcp/nr_pdcp_oai_api.c\<close> with the state of
  one node above RLC: the PDCP entities of its UEs, its SDAP entities, the map from CU to DU identifiers of
  \<^verbatim>\<open>openair2/F1AP/f1ap_ids.c\<close>, and what the node has handed to other layers, in order.

  A request for RLC is put into the work queue of \<open>Pdcp_Queue\<close>, which is a FIFO queue; here it is an
  output of the node. Messages to RRC, writes to GTP-U tunnels and to TUN devices are outputs as well. The
  operations hold the lock of the PDCP manager, so they are a sequence.
\<close>

datatype l2_output =
    Rlc_Data_Req protocol_ctxt_t bool int u32 bytes
  | Gtp_Drb u64 int bytes
  | Gtp_Session u64 int bytes
  | Tun_Write int bytes
  | Tun_Close int
  | F1_Ul_Rrc_Message u64 u32 int bytes
  | Nr_Rrc_Dcch_Data_Ind u64 int bytes nr_pdcp_integrity_data_t

record l2_node =
  n_pdcp :: nr_pdcp_ue_manager_internal_t
  n_sdap :: "nr_sdap_entity_t list"
  n_cu2du :: "u32 \<Rightarrow> u32 option"
  n_out :: "l2_output list"

text \<open>
  What the node reads from its configuration: whether it is a CU, whether IP packets go to TUN devices,
  the mode without core network, whether the N3 GTP-U instance exists, the default PDU session.
\<close>

record l2_env =
  le_secu :: secu_env
  le_node_is_cu :: bool
  le_nos1 :: bool
  le_nas_use_tun :: bool
  le_n3gtpu :: bool
  le_default_pdu_session :: int

definition emit :: "l2_output \<Rightarrow> l2_node \<Rightarrow> l2_node" where
  "emit out st = st\<lparr>n_out := n_out st @ [out]\<rparr>"

section \<open>CU and DU identifiers\<close>

definition cu_add_f1_ue_data :: "l2_node \<Rightarrow> u32 \<Rightarrow> u32 \<Rightarrow> bool \<times> l2_node" where
  "cu_add_f1_ue_data st ue_id secondary_ue =
     (if n_cu2du st ue_id \<noteq> None then (False, st) else (True, st\<lparr>n_cu2du := (n_cu2du st)(ue_id \<mapsto> secondary_ue)\<rparr>))"

definition cu_exists_f1_ue_data :: "l2_node \<Rightarrow> u32 \<Rightarrow> bool" where
  "cu_exists_f1_ue_data st ue_id \<longleftrightarrow> n_cu2du st ue_id \<noteq> None"

definition cu_update_f1_ue_data :: "l2_node \<Rightarrow> u32 \<Rightarrow> u32 \<Rightarrow> l2_node res" where
  "cu_update_f1_ue_data st ue_id secondary_ue =
     (if n_cu2du st ue_id = None then Inl Abort else Inr (st\<lparr>n_cu2du := (n_cu2du st)(ue_id \<mapsto> secondary_ue)\<rparr>))"

definition cu_get_f1_ue_data :: "l2_node \<Rightarrow> u32 \<Rightarrow> u32 res" where
  "cu_get_f1_ue_data st ue_id = (case n_cu2du st ue_id of None \<Rightarrow> Inl Abort | Some d \<Rightarrow> Inr d)"

definition cu_remove_f1_ue_data :: "l2_node \<Rightarrow> u32 \<Rightarrow> bool \<times> l2_node" where
  "cu_remove_f1_ue_data st ue_id =
     (n_cu2du st ue_id \<noteq> None, st\<lparr>n_cu2du := (n_cu2du st)(ue_id := None)\<rparr>)"

section \<open>Radio bearers of a UE\<close>

definition nr_pdcp_get_rb :: "nr_pdcp_ue_t \<Rightarrow> int \<Rightarrow> bool \<Rightarrow> nr_pdcp_entity_t option" where
  "nr_pdcp_get_rb ue rb_id srb_flag =
     (if srb_flag
      then if rb_id < 1 \<or> rb_id > 2 then None else pu_srb ue ! nat (rb_id - 1)
      else if rb_id < 1 \<or> rb_id > int MAX_DRBS_PER_UE then None else pu_drb ue ! nat (rb_id - 1))"

text \<open>The UE of an identifier, created when it does not exist; a UE written back.\<close>

definition node_ue :: "l2_node \<Rightarrow> u64 \<Rightarrow> nat \<times> nr_pdcp_ue_t \<times> l2_node" where
  "node_ue st ue_id =
     (let (i, m) = nr_pdcp_manager_get_ue (n_pdcp st) ue_id in (i, pm_ue_list m ! i, st\<lparr>n_pdcp := m\<rparr>))"

definition store_ue :: "nat \<Rightarrow> nr_pdcp_ue_t \<Rightarrow> l2_node \<Rightarrow> l2_node" where
  "store_ue i ue st = st\<lparr>n_pdcp := (n_pdcp st)\<lparr>pm_ue_list := (pm_ue_list (n_pdcp st))[i := ue]\<rparr>\<rparr>"

text \<open>The entity of a bearer changed in place.\<close>

definition set_rb :: "int \<Rightarrow> bool \<Rightarrow> nr_pdcp_entity_t option \<Rightarrow> nr_pdcp_ue_t \<Rightarrow> nr_pdcp_ue_t" where
  "set_rb rb_id srb_flag e ue =
     (if srb_flag then ue\<lparr>pu_srb := (pu_srb ue)[nat (rb_id - 1) := e]\<rparr>
      else ue\<lparr>pu_drb := (pu_drb ue)[nat (rb_id - 1) := e]\<rparr>)"

section \<open>Transmission\<close>

definition deliver_pdu_drb_ue :: "l2_node \<Rightarrow> u64 \<Rightarrow> int \<Rightarrow> bytes \<Rightarrow> u32 \<Rightarrow> l2_node res" where
  "deliver_pdu_drb_ue st ue_id rb_id buf sdu_id = Inr (emit (Rlc_Data_Req (ctxt_for False ue_id) False rb_id sdu_id buf) st)"

definition deliver_pdu_drb_gnb :: "l2_env \<Rightarrow> l2_node \<Rightarrow> u64 \<Rightarrow> int \<Rightarrow> bytes \<Rightarrow> u32 \<Rightarrow> l2_node res" where
  "deliver_pdu_drb_gnb env st ue_id rb_id buf sdu_id =
     bindR (cu_get_f1_ue_data st (ucast ue_id)) (\<lambda>secondary_ue.
       Inr (if le_node_is_cu env then emit (Gtp_Drb ue_id rb_id buf) st
            else emit (Rlc_Data_Req (ctxt_for True (ucast secondary_ue)) False rb_id sdu_id buf) st))"

definition deliver_pdu_srb_rlc :: "l2_node \<Rightarrow> u64 \<Rightarrow> int \<Rightarrow> bytes \<Rightarrow> u32 \<Rightarrow> l2_node res" where
  "deliver_pdu_srb_rlc st ue_id srb_id buf sdu_id = Inr (emit (Rlc_Data_Req (ctxt_for True ue_id) True srb_id sdu_id buf) st)"

text \<open>
  The common part of the two requests: the PDU an entity makes of an SDU, in a buffer on the stack of which
  only the bytes of the PDU are used.
\<close>

definition pdcp_make_pdu :: "l2_env \<Rightarrow> nr_pdcp_entity_t \<Rightarrow> bytes \<Rightarrow> (bytes option \<times> nr_pdcp_entity_t) res" where
  "pdcp_make_pdu env rb sdu =
     bindR (nr_pdcp_entity_process_sdu (le_secu env) rb sdu (replicate (nat (nr_max_pdcp_pdu_size (int (length sdu)))) 0))
       (\<lambda>(pdu_size, pdu_buf, rb'). Inr (if pdu_size = -1 then None else Some (take (nat pdu_size) pdu_buf), rb'))"

definition nr_pdcp_data_req_drb ::
    "l2_env \<Rightarrow> protocol_ctxt_t \<Rightarrow> bool \<Rightarrow> int \<Rightarrow> u32 \<Rightarrow> bytes \<Rightarrow> l2_node \<Rightarrow> (bool \<times> l2_node) res" where
  "nr_pdcp_data_req_drb env ctxt srb_flag rb_id mui sdu st =
     (if srb_flag then Inl Abort
      else if ct_module_id ctxt \<noteq> 0 \<or> ct_instance ctxt \<noteq> 0 \<or> ct_eNB_index ctxt \<noteq> 0 then Inl Abort
      else
        let ue_id = ct_rntiMaybeUEid ctxt;
            (i, ue, st1) = node_ue st ue_id
        in case nr_pdcp_get_rb ue rb_id False of
             None \<Rightarrow> Inr (False, st1)
           | Some rb \<Rightarrow>
               bindR (pdcp_make_pdu env rb sdu) (\<lambda>(pdu, rb').
                 let st2 = store_ue i (set_rb rb_id False (Some rb') ue) st1
                 in case pdu of
                      None \<Rightarrow> Inr (False, st2)
                    | Some buf \<Rightarrow>
                        bindR (if pe_is_gnb rb then deliver_pdu_drb_gnb env st2 ue_id rb_id buf mui
                               else deliver_pdu_drb_ue st2 ue_id rb_id buf mui)
                          (\<lambda>st3. Inr (True, st3))))"

text \<open>
  For SRBs the caller gives the function that delivers the PDU; an SRB entity has none of its own, which is
  asserted.
\<close>

definition nr_pdcp_data_req_srb ::
    "l2_env \<Rightarrow> u64 \<Rightarrow> int \<Rightarrow> u32 \<Rightarrow> bytes \<Rightarrow> (l2_node \<Rightarrow> u64 \<Rightarrow> int \<Rightarrow> bytes \<Rightarrow> u32 \<Rightarrow> l2_node res)
      \<Rightarrow> l2_node \<Rightarrow> (bool \<times> l2_node) res" where
  "nr_pdcp_data_req_srb env ue_id rb_id mui sdu deliver_pdu_cb st =
     (let (i, ue, st1) = node_ue st ue_id
      in case nr_pdcp_get_rb ue rb_id True of
           None \<Rightarrow> Inr (False, st1)
         | Some rb \<Rightarrow>
             bindR (pdcp_make_pdu env rb sdu) (\<lambda>(pdu, rb').
               let st2 = store_ue i (set_rb rb_id True (Some rb') ue) st1
               in case pdu of
                    None \<Rightarrow> Inr (False, st2)
                  | Some buf \<Rightarrow>
                      if pe_type rb \<noteq> NR_PDCP_SRB then Inl Abort
                      else bindR (deliver_pdu_cb st2 ue_id rb_id buf mui) (\<lambda>st3. Inr (True, st3))))"

end
