(* ===== verification/Sdap.thy ===== *)
theory Sdap
  imports Pdcp_Layer
begin

unbundle bit_operations_syntax

text \<open>
  Model of sending, receiving and configuration in \<^verbatim>\<open>openair2/SDAP/nr_sdap/nr_sdap_entity.c\<close>
  and of \<^verbatim>\<open>nr_sdap.c\<close>. An SDAP entity is given by its index in the list of the node.

  The observation hook of the build option \<^verbatim>\<open>JBPF_HOOK\<close> is not modelled. Allocation and
  configuration of a TUN device are calls of the system: the descriptor is an argument. A write to a TUN
  device and closing it with its reading thread are outputs of the node.
\<close>

definition RLC_MUI_UNDEFINED :: u32 where "RLC_MUI_UNDEFINED = 0"

definition set_sdap :: "nat \<Rightarrow> nr_sdap_entity_t \<Rightarrow> l2_node \<Rightarrow> l2_node" where
  "set_sdap k e st = st\<lparr>n_sdap := (n_sdap st)[k := e]\<rparr>"

section \<open>Transmission\<close>

definition nr_sdap_tx_entity ::
    "l2_env \<Rightarrow> nr_sdap_entity_t \<Rightarrow> protocol_ctxt_t \<Rightarrow> bool \<Rightarrow> u32 \<Rightarrow> bytes option \<Rightarrow> u8 \<Rightarrow> bool \<Rightarrow> l2_node
      \<Rightarrow> (bool \<times> l2_node) res" where
  "nr_sdap_tx_entity env entity ctxt srb_flag mui sdu_buffer qfi rqi st =
     (case sdu_buffer of
        None \<Rightarrow> Inl Abort
      | Some sdu \<Rightarrow>
          bindR (nr_sdap_qfi2drb entity qfi) (\<lambda>drb_id.
            if drb_id = 0 then Inr (False, st)
            else bindR (table_at entity qfi) (\<lambda>q.
              let sdap_ul_tx = has_role (q_entity_role q) SDAP_UL_TX;
                  sdap_dl_tx = has_role (q_entity_role q) SDAP_DL_TX
              in if \<not> sdap_ul_tx \<and> \<not> sdap_dl_tx
                 then nr_pdcp_data_req_drb env ctxt srb_flag drb_id mui sdu st
                 else if length sdu = 0 \<or> length sdu > 8999 then Inr (False, st)
                 else
                   let hdr = (if sdap_dl_tx then dl_hdr_byte \<lparr> dh_QFI = ucast qfi, dh_RQI = rqi, dh_RDI = False \<rparr>
                              else ul_hdr_byte \<lparr> uh_QFI = ucast qfi, uh_R = False, uh_DC = rqi \<rparr>)
                   in if SDAP_HDR_LENGTH + length sdu > SDAP_MAX_PDU then Inl Out_Of_Bounds
                      else nr_pdcp_data_req_drb env ctxt srb_flag drb_id mui (hdr # sdu) st)))"

text \<open>End-marker control PDUs; the result of the request to PDCP is ignored.\<close>

definition nr_pdcp_submit_sdap_ctrl_pdu :: "l2_env \<Rightarrow> u64 \<Rightarrow> int \<Rightarrow> nr_sdap_ul_hdr_t \<Rightarrow> l2_node \<Rightarrow> l2_node res" where
  "nr_pdcp_submit_sdap_ctrl_pdu env ue_id sdap_ctrl_pdu_drb ctrl_pdu st =
     bindR (nr_pdcp_data_req_drb env (ctxt_for False ue_id) False sdap_ctrl_pdu_drb RLC_MUI_UNDEFINED
              [ul_hdr_byte ctrl_pdu] st) (\<lambda>(_, st'). Inr st')"

definition nr_sdap_submit_ctrl_pdu :: "l2_env \<Rightarrow> u64 \<Rightarrow> int \<Rightarrow> nr_sdap_ul_hdr_t \<Rightarrow> l2_node \<Rightarrow> l2_node res" where
  "nr_sdap_submit_ctrl_pdu env ue_id sdap_ctrl_pdu_drb ctrl_pdu st =
     (if sdap_ctrl_pdu_drb \<noteq> 0 then nr_pdcp_submit_sdap_ctrl_pdu env ue_id sdap_ctrl_pdu_drb ctrl_pdu st else Inr st)"

definition end_marker ::
    "l2_env \<Rightarrow> nr_sdap_entity_t \<Rightarrow> u64 \<Rightarrow> ctrl_pdu_map \<Rightarrow> u8 \<Rightarrow> l2_node \<Rightarrow> l2_node res" where
  "end_marker env entity ue_id map_type qfi st =
     bindR (nr_sdap_map_ctrl_pdu entity map_type qfi) (\<lambda>drb.
       nr_sdap_submit_ctrl_pdu env ue_id drb (nr_sdap_construct_ctrl_pdu qfi) st)"

section \<open>Reception\<close>

text \<open>The gNB strips the header and sends to GTP-U.\<close>

definition sdap_rx_gnb :: "l2_env \<Rightarrow> nr_sdap_entity_t \<Rightarrow> bool \<Rightarrow> u8 \<Rightarrow> int \<Rightarrow> u64 \<Rightarrow> bytes \<Rightarrow> l2_node \<Rightarrow> l2_node res" where
  "sdap_rx_gnb env entity has_sdap_rx qfi pdusession_id ue_id buf st =
     (let sdap_hdr = (if has_sdap_rx \<and> length buf > 0 then Some (ul_hdr_of (buf ! 0)) else None);
          sdap_ul_rx = (unat qfi < SDAP_MAX_QFI \<and> has_role (q_entity_role (sd_qfi2drb_table entity ! unat qfi)) SDAP_UL_RX)
      in if has_sdap_rx \<and> sdap_ul_rx \<and> sdap_hdr = None then Inl Null_Deref
         else if \<not> le_n3gtpu env then Inl Null_Deref
         else let offset = (if has_sdap_rx \<and> sdap_ul_rx then SDAP_HDR_LENGTH else 0)
              in Inr (emit (Gtp_Session ue_id pdusession_id (drop offset buf)) st))"

text \<open>Reflective mapping of the UE: end markers, then the new rule for the uplink.\<close>

definition sdap_reflective_mapping ::
    "l2_env \<Rightarrow> nat \<Rightarrow> nr_sdap_entity_t \<Rightarrow> int \<Rightarrow> u64 \<Rightarrow> u8 \<Rightarrow> l2_node \<Rightarrow> l2_node res" where
  "sdap_reflective_mapping env k entity pdcp_entity ue_id qfi st =
     bindR (table_at entity qfi) (\<lambda>q.
     bindR (if q_drb_id q = 0 \<and> sd_default_drb entity \<noteq> 0
            then end_marker env entity ue_id SDAP_CTRL_PDU_MAP_DEF_DRB qfi st else Inr st) (\<lambda>st1.
     bindR (if pdcp_entity \<noteq> q_drb_id q
            then end_marker env entity ue_id SDAP_CTRL_PDU_MAP_RULE_DRB qfi st1 else Inr st1) (\<lambda>st2.
     bindR (table_set entity qfi (\<lambda>q. q\<lparr>q_drb_id := pdcp_entity\<rparr>)) (\<lambda>entity'.
       Inr (set_sdap k entity' st2)))))"

definition sdap_rx_ue ::
    "l2_env \<Rightarrow> nat \<Rightarrow> nr_sdap_entity_t \<Rightarrow> int \<Rightarrow> u8 \<Rightarrow> u64 \<Rightarrow> bytes \<Rightarrow> l2_node \<Rightarrow> l2_node res" where
  "sdap_rx_ue env k entity pdcp_entity qfi ue_id buf st =
     (let sdap_dl_rx = (unat qfi < SDAP_MAX_QFI \<and> has_role (q_entity_role (sd_qfi2drb_table entity ! unat qfi)) SDAP_DL_RX)
      in if sdap_dl_rx
         then bindR (mem_read buf 0 (int SDAP_HDR_LENGTH)) (\<lambda>h.
              let sdap_hdr = dl_hdr_of (h ! 0)
              in bindR (if dh_RDI sdap_hdr then sdap_reflective_mapping env k entity pdcp_entity ue_id (ucast (dh_QFI sdap_hdr)) st
                        else Inr st)
                   (\<lambda>st1. Inr (emit (Tun_Write (sd_pdusession_sock entity) (drop SDAP_HDR_LENGTH buf)) st1)))
         else Inr (emit (Tun_Write (sd_pdusession_sock entity) buf) st))"

definition nr_sdap_rx_entity ::
    "l2_env \<Rightarrow> nat \<Rightarrow> nr_sdap_entity_t \<Rightarrow> int \<Rightarrow> bool \<Rightarrow> bool \<Rightarrow> u8 \<Rightarrow> int \<Rightarrow> u64 \<Rightarrow> bytes \<Rightarrow> l2_node \<Rightarrow> l2_node res" where
  "nr_sdap_rx_entity env k entity pdcp_entity is_gnb has_sdap_rx qfi pdusession_id ue_id buf st =
     (if is_gnb then sdap_rx_gnb env entity has_sdap_rx qfi pdusession_id ue_id buf st
      else sdap_rx_ue env k entity pdcp_entity qfi ue_id buf st)"

section \<open>The interface of the layer\<close>

definition sdap_data_req ::
    "l2_env \<Rightarrow> protocol_ctxt_t \<Rightarrow> u64 \<Rightarrow> bool \<Rightarrow> u32 \<Rightarrow> bytes option \<Rightarrow> u8 \<Rightarrow> bool \<Rightarrow> int \<Rightarrow> l2_node
      \<Rightarrow> (bool \<times> l2_node) res" where
  "sdap_data_req env ctxt ue_id srb_flag mui sdu_buffer qfi rqi pdusession_id st =
     (case nr_sdap_get_entity (n_sdap st) ue_id pdusession_id of
        None \<Rightarrow> Inr (False, st)
      | Some k \<Rightarrow> nr_sdap_tx_entity env (n_sdap st ! k) ctxt srb_flag mui sdu_buffer qfi rqi st)"

definition sdap_data_ind ::
    "l2_env \<Rightarrow> int \<Rightarrow> bool \<Rightarrow> bool \<Rightarrow> u8 \<Rightarrow> int \<Rightarrow> u64 \<Rightarrow> bytes \<Rightarrow> l2_node \<Rightarrow> l2_node res" where
  "sdap_data_ind env pdcp_entity is_gnb has_sdap_rx qfi pdusession_id ue_id buf st =
     (case nr_sdap_get_entity (n_sdap st) ue_id pdusession_id of
        None \<Rightarrow> Inr st
      | Some k \<Rightarrow> nr_sdap_rx_entity env k (n_sdap st ! k) pdcp_entity is_gnb has_sdap_rx qfi pdusession_id ue_id buf st)"

text \<open>One round of the thread that reads from the TUN device of an entity: an IP packet was read.\<close>

definition sdap_tun_read :: "l2_env \<Rightarrow> nr_sdap_entity_t \<Rightarrow> bytes \<Rightarrow> l2_node \<Rightarrow> (bool \<times> l2_node) res" where
  "sdap_tun_read env entity rx_buf st =
     nr_sdap_tx_entity env entity (ctxt_for (sd_is_gnb entity) (sd_ue_id entity)) False RLC_MUI_UNDEFINED (Some rx_buf)
       (word_of_int (sd_qfi entity)) (\<not> sd_is_gnb entity) st"

definition start_sdap_tun_gnb_first_ue_default_pdu_session :: "l2_env \<Rightarrow> int \<Rightarrow> u64 \<Rightarrow> l2_node \<Rightarrow> l2_node res" where
  "start_sdap_tun_gnb_first_ue_default_pdu_session env fd ue_id st =
     (case nr_sdap_get_entity (n_sdap st) ue_id (le_default_pdu_session env) of
        None \<Rightarrow> Inl Abort
      | Some k \<Rightarrow>
          let e = n_sdap st ! k
          in if \<not> sd_is_gnb e then Inl Abort else Inr (set_sdap k (e\<lparr>sd_pdusession_sock := fd\<rparr>) st))"

definition start_sdap_tun_ue :: "u64 \<Rightarrow> int \<Rightarrow> int \<Rightarrow> l2_node \<Rightarrow> l2_node res" where
  "start_sdap_tun_ue ue_id pdu_session_id sock st =
     (case nr_sdap_get_entity (n_sdap st) ue_id pdu_session_id of
        None \<Rightarrow> Inl Abort
      | Some k \<Rightarrow>
          let e = n_sdap st ! k
          in if sd_is_gnb e then Inl Abort
             else Inr (set_sdap k (e\<lparr>sd_pdusession_sock := sock, sd_stop_thread := False\<rparr>) st))"

section \<open>Configuration\<close>

definition nr_sdap_ue_control_pdu_config :: "l2_env \<Rightarrow> nr_sdap_entity_t \<Rightarrow> u64 \<Rightarrow> sdap_config_t \<Rightarrow> l2_node \<Rightarrow> l2_node res" where
  "nr_sdap_ue_control_pdu_config env entity ue_id sdap =
     foldR (\<lambda>a st. let qfi = word_of_int a in
        bindR (if sd_default_drb entity \<noteq> 0
               then bindR (table_at entity qfi) (\<lambda>q.
                      if q_drb_id q = 0 then end_marker env entity ue_id SDAP_CTRL_PDU_MAP_DEF_DRB qfi st else Inr st)
               else Inr st) (\<lambda>st1.
        bindR (table_at entity qfi) (\<lambda>q.
          if q_drb_id q \<noteq> sc_drb_id sdap \<and> has_role (q_entity_role q) SDAP_UL_TX
          then end_marker env entity ue_id SDAP_CTRL_PDU_MAP_RULE_DRB qfi st1 else Inr st1)))
       (sc_mappedQFIs2Add sdap)"

definition nr_sdap_qfi2drb_map_update :: "l2_env \<Rightarrow> nat \<Rightarrow> sdap_config_t \<Rightarrow> l2_node \<Rightarrow> l2_node res" where
  "nr_sdap_qfi2drb_map_update env k sdap st =
     (let entity = n_sdap st ! k
      in bindR (if \<not> sd_is_gnb entity then nr_sdap_ue_control_pdu_config env entity (sd_ue_id entity) sdap st else Inr st) (\<lambda>st1.
         bindR (nr_sdap_add_qos_flows_to_drb sdap entity) (\<lambda>e1.
         bindR (nr_sdap_rm_qos_flows_from_drb sdap e1) (\<lambda>e2. Inr (set_sdap k e2 st1)))))"

definition new_sdap_entity :: "bool \<Rightarrow> u64 \<Rightarrow> sdap_config_t \<Rightarrow> nr_sdap_entity_t" where
  "new_sdap_entity is_gnb ue_id sdap =
     \<lparr> sd_ue_id = ue_id, sd_default_drb = (if sc_defaultDRB sdap then sc_drb_id sdap else 0), sd_is_gnb = is_gnb,
       sd_enable_sdap = (sc_role sdap \<noteq> 0), sd_pdusession_id = sc_pdusession_id sdap, sd_pdusession_sock = -1,
       sd_stop_thread = False, sd_qfi = 0,
       sd_qfi2drb_table = replicate SDAP_MAX_QFI \<lparr> q_drb_id = 0, q_entity_role = 0 \<rparr> \<rparr>"

definition nr_sdap_add_entity :: "l2_env \<Rightarrow> int \<Rightarrow> bool \<Rightarrow> u64 \<Rightarrow> sdap_config_t \<Rightarrow> l2_node \<Rightarrow> l2_node res" where
  "nr_sdap_add_entity env fd is_gnb ue_id sdap st =
     bindR (nr_sdap_add_qos_flows_to_drb sdap (new_sdap_entity is_gnb ue_id sdap)) (\<lambda>e.
       let st1 = st\<lparr>n_sdap := e # n_sdap st\<rparr>
       in if le_nos1 env \<and> is_gnb then start_sdap_tun_gnb_first_ue_default_pdu_session env fd ue_id st1 else Inr st1)"

definition nr_sdap_addmod_entity :: "l2_env \<Rightarrow> int \<Rightarrow> bool \<Rightarrow> u64 \<Rightarrow> sdap_config_t \<Rightarrow> l2_node \<Rightarrow> l2_node res" where
  "nr_sdap_addmod_entity env fd is_gnb ue_id sdap st =
     (case nr_sdap_get_entity (n_sdap st) ue_id (sc_pdusession_id sdap) of
        Some k \<Rightarrow> nr_sdap_qfi2drb_map_update env k sdap st
      | None \<Rightarrow> nr_sdap_add_entity env fd is_gnb ue_id sdap st)"

definition nr_reconfigure_sdap_entity :: "l2_env \<Rightarrow> NR_SDAP_Config_t \<Rightarrow> u64 \<Rightarrow> int \<Rightarrow> int \<Rightarrow> l2_node \<Rightarrow> l2_node res" where
  "nr_reconfigure_sdap_entity env sdap_config ue_id pdusession_id drb_id st =
     (case nr_sdap_get_entity (n_sdap st) ue_id pdusession_id of
        None \<Rightarrow> Inr st
      | Some k \<Rightarrow> bindR (nr_sdap_get_config False sdap_config drb_id) (\<lambda>sdap. nr_sdap_qfi2drb_map_update env k sdap st))"

definition nr_sdap_release_drb :: "u64 \<Rightarrow> int \<Rightarrow> int \<Rightarrow> l2_node \<Rightarrow> l2_node" where
  "nr_sdap_release_drb ue_id drb_id pdusession_id st =
     (case nr_sdap_get_entity (n_sdap st) ue_id pdusession_id of
        None \<Rightarrow> st
      | Some k \<Rightarrow>
          let e = n_sdap st ! k
          in set_sdap k (e\<lparr>sd_qfi2drb_table :=
               map (\<lambda>q. if q_drb_id q = drb_id then q\<lparr>q_drb_id := 0\<rparr> else q) (sd_qfi2drb_table e)\<rparr>) st)"

definition set_qfi :: "u8 \<Rightarrow> u8 \<Rightarrow> u64 \<Rightarrow> l2_node \<Rightarrow> l2_node res" where
  "set_qfi qfi pduid ue_id st =
     (case nr_sdap_get_entity (n_sdap st) ue_id (uint pduid) of
        None \<Rightarrow> Inl Abort
      | Some k \<Rightarrow> Inr (set_sdap k ((n_sdap st ! k)\<lparr>sd_qfi := uint qfi\<rparr>) st))"

text \<open>Deletion closes the TUN device of an entity that has one.\<close>

definition remove_ip_if :: "nr_sdap_entity_t \<Rightarrow> l2_node \<Rightarrow> l2_node" where
  "remove_ip_if entity st = emit (Tun_Close (sd_pdusession_sock entity)) st"

definition close_sdap :: "nr_sdap_entity_t list \<Rightarrow> l2_node \<Rightarrow> l2_node" where
  "close_sdap = fold (\<lambda>e st. if sd_pdusession_sock e \<noteq> -1 then remove_ip_if e st else st)"

definition sdap_delete_entity :: "u64 \<Rightarrow> int \<Rightarrow> l2_node \<Rightarrow> (bool \<times> l2_node) res" where
  "sdap_delete_entity ue_id pdusession_id st =
     bindR (nr_sdap_delete_entity (n_sdap st) ue_id pdusession_id) (\<lambda>(d, es).
       Inr (d \<noteq> None, close_sdap (case d of None \<Rightarrow> [] | Some e \<Rightarrow> [e]) (st\<lparr>n_sdap := es\<rparr>)))"

definition sdap_delete_ue_entities :: "u64 \<Rightarrow> l2_node \<Rightarrow> bool \<times> l2_node" where
  "sdap_delete_ue_entities ue_id st =
     (let (ret, d, es) = nr_sdap_delete_ue_entities (n_sdap st) ue_id in (ret, close_sdap d (st\<lparr>n_sdap := es\<rparr>)))"

end
