(* ===== verification/Asn1_Tables.thy ===== *)
theory Asn1_Tables
  imports Platform
begin

text \<open>
  Model of \<^verbatim>\<open>openair2/LAYER2/nr_pdcp/asn1_utils.c\<close> and
  \<^verbatim>\<open>openair2/LAYER2/nr_rlc/asn1_utils.c\<close> with the tables of \<^verbatim>\<open>nr_pdcp_configuration.h\<close>
  and \<^verbatim>\<open>nr_rlc_configuration.h\<close>: the enumerations of the configuration messages are indexes
  into tables of values, where -1 is infinity. A failed assertion is the fault \<open>Abort\<close>.
\<close>

definition tab_decode :: "int list \<Rightarrow> int \<Rightarrow> int res" where
  "tab_decode tab v = (if v \<ge> 0 \<and> v < int (length tab) then Inr (tab ! nat v) else Inl Abort)"

fun tab_encode_loop :: "int list \<Rightarrow> int \<Rightarrow> int \<Rightarrow> int res" where
  "tab_encode_loop [] v ret = Inl Abort"
| "tab_encode_loop (t # ts) v ret = (if t = v then Inr ret else tab_encode_loop ts v (ret + 1))"

definition tab_encode :: "int list \<Rightarrow> int \<Rightarrow> int res" where
  "tab_encode tab v = tab_encode_loop tab v 0"

section \<open>PDCP\<close>

definition VALUES_NR_PDCP_SN_SIZE :: "int list" where "VALUES_NR_PDCP_SN_SIZE = [12, 18]"

definition VALUES_NR_PDCP_T_REORDERING :: "int list" where
  "VALUES_NR_PDCP_T_REORDERING =
     [0, 1, 2, 4, 5, 8, 10, 15, 20, 30, 40, 50,
      60, 80, 100, 120, 140, 160, 180, 200, 220, 240, 260, 280,
      300, 500, 750, 1000, 1250, 1500, 1750, 2000, 2250, 2500, 2750, 3000,
      -1]"

definition VALUES_NR_PDCP_DISCARD_TIMER :: "int list" where
  "VALUES_NR_PDCP_DISCARD_TIMER = [10, 20, 30, 40, 50, 60, 75, 100, 150, 200, 250, 300, 500, 750, 1500, -1]"

definition decode_t_reordering :: "int \<Rightarrow> int res" where
  "decode_t_reordering = tab_decode VALUES_NR_PDCP_T_REORDERING"
definition decode_sn_size_ul :: "int \<Rightarrow> int res" where
  "decode_sn_size_ul = tab_decode VALUES_NR_PDCP_SN_SIZE"
definition decode_sn_size_dl :: "int \<Rightarrow> int res" where
  "decode_sn_size_dl = tab_decode VALUES_NR_PDCP_SN_SIZE"
definition decode_discard_timer :: "int \<Rightarrow> int res" where
  "decode_discard_timer = tab_decode VALUES_NR_PDCP_DISCARD_TIMER"

section \<open>RLC\<close>

definition VALUES_NR_RLC_T_POLL_RETRANSMIT :: "int list" where
  "VALUES_NR_RLC_T_POLL_RETRANSMIT =
     [5, 10, 15, 20, 25, 30, 35, 40, 45, 50, 55, 60, 65, 70,
      75, 80, 85, 90, 95, 100, 105, 110, 115, 120, 125, 130, 135, 140,
      145, 150, 155, 160, 165, 170, 175, 180, 185, 190, 195, 200, 205, 210,
      215, 220, 225, 230, 235, 240, 245, 250, 300, 350, 400, 450, 500, 800,
      1000, 2000, 4000, 1, 2, 4]"

definition VALUES_NR_RLC_T_REASSEMBLY :: "int list" where
  "VALUES_NR_RLC_T_REASSEMBLY =
     [0, 5, 10, 15, 20, 25, 30, 35, 40, 45, 50, 55, 60, 65, 70, 75,
      80, 85, 90, 95, 100, 110, 120, 130, 140, 150, 160, 170, 180, 190, 200]"

definition VALUES_NR_RLC_T_STATUS_PROHIBIT :: "int list" where
  "VALUES_NR_RLC_T_STATUS_PROHIBIT =
     [0, 5, 10, 15, 20, 25, 30, 35, 40, 45, 50, 55,
      60, 65, 70, 75, 80, 85, 90, 95, 100, 105, 110, 115,
      120, 125, 130, 135, 140, 145, 150, 155, 160, 165, 170, 175,
      180, 185, 190, 195, 200, 205, 210, 215, 220, 225, 230, 235,
      240, 245, 250, 300, 350, 400, 450, 500, 800, 1000, 1200, 1600,
      2000, 2400]"

definition VALUES_NR_RLC_POLL_PDU :: "int list" where
  "VALUES_NR_RLC_POLL_PDU =
     [4, 8, 16, 32, 64, 128, 256, 512, 1024,
      2048, 4096, 6144, 8192, 12288, 16384, 20480, 24576, 28672,
      32768, 40960, 49152, 57344, 65536, -1]"

definition VALUES_NR_RLC_POLL_BYTE :: "int list" where
  "VALUES_NR_RLC_POLL_BYTE =
     map (\<lambda>kb. 1024 * kb)
       [1, 2, 5, 8, 10, 15, 25, 50, 75,
        100, 125, 250, 375, 500, 750, 1000, 1250,
        1500, 2000, 3000, 4000, 4500, 5000, 5500,
        6000, 6500, 7000, 7500]
     @ map (\<lambda>mb. 1024 * 1024 * mb) [8, 9, 10, 11, 12, 13, 14, 15, 16, 17, 18, 20, 25, 30, 40]
     @ [-1]"

definition VALUES_NR_RLC_MAX_RETX_THRESHOLD :: "int list" where
  "VALUES_NR_RLC_MAX_RETX_THRESHOLD = [1, 2, 3, 4, 6, 8, 16, 32]"
definition VALUES_NR_RLC_SN_FIELD_LENGTH_AM :: "int list" where "VALUES_NR_RLC_SN_FIELD_LENGTH_AM = [12, 18]"
definition VALUES_NR_RLC_SN_FIELD_LENGTH_UM :: "int list" where "VALUES_NR_RLC_SN_FIELD_LENGTH_UM = [6, 12]"

definition decode_t_reassembly :: "int \<Rightarrow> int res" where
  "decode_t_reassembly = tab_decode VALUES_NR_RLC_T_REASSEMBLY"
definition decode_t_status_prohibit :: "int \<Rightarrow> int res" where
  "decode_t_status_prohibit = tab_decode VALUES_NR_RLC_T_STATUS_PROHIBIT"
definition decode_t_poll_retransmit :: "int \<Rightarrow> int res" where
  "decode_t_poll_retransmit = tab_decode VALUES_NR_RLC_T_POLL_RETRANSMIT"
definition decode_poll_pdu :: "int \<Rightarrow> int res" where
  "decode_poll_pdu = tab_decode VALUES_NR_RLC_POLL_PDU"
definition decode_poll_byte :: "int \<Rightarrow> int res" where
  "decode_poll_byte = tab_decode VALUES_NR_RLC_POLL_BYTE"
definition decode_max_retx_threshold :: "int \<Rightarrow> int res" where
  "decode_max_retx_threshold = tab_decode VALUES_NR_RLC_MAX_RETX_THRESHOLD"
definition decode_sn_field_length_am :: "int \<Rightarrow> int res" where
  "decode_sn_field_length_am = tab_decode VALUES_NR_RLC_SN_FIELD_LENGTH_AM"
definition decode_sn_field_length_um :: "int \<Rightarrow> int res" where
  "decode_sn_field_length_um = tab_decode VALUES_NR_RLC_SN_FIELD_LENGTH_UM"

section \<open>Lemmas\<close>

lemma tab_encode_loop_nth:
  "distinct tab \<Longrightarrow> i < length tab \<Longrightarrow> tab_encode_loop tab (tab ! i) k = Inr (k + int i)"
proof (induction tab arbitrary: i k)
  case (Cons t ts)
  then show ?case by (cases i) (auto simp: nth_eq_iff_index_eq)
qed simp

lemma tab_encode_loop_Inr:
  "tab_encode_loop tab v k = Inr r \<Longrightarrow> \<exists>i < length tab. r = k + int i \<and> tab ! i = v"
proof (induction tab arbitrary: k)
  case (Cons t ts)
  then show ?case
  proof (cases "t = v")
    case False
    then obtain i where "i < length ts" "r = k + 1 + int i" "ts ! i = v" using Cons by auto
    then show ?thesis by (intro exI [of _ "Suc i"]) auto
  qed (use Cons.prems in \<open>auto intro: exI [of _ 0]\<close>)
qed simp

lemma tab_roundtrip:
  assumes "distinct tab"
  shows "tab_decode tab v = Inr x \<longleftrightarrow> tab_encode tab x = Inr v"
proof
  assume "tab_decode tab v = Inr x"
  then show "tab_encode tab x = Inr v"
    using tab_encode_loop_nth [OF assms, of "nat v" 0] by (auto simp: tab_decode_def tab_encode_def split: if_splits)
next
  assume "tab_encode tab x = Inr v"
  then show "tab_decode tab v = Inr x"
    using tab_encode_loop_Inr [of tab x 0 v] by (auto simp: tab_decode_def tab_encode_def)
qed

definition config_tables :: "int list list" where
  "config_tables =
     [VALUES_NR_PDCP_SN_SIZE, VALUES_NR_PDCP_T_REORDERING, VALUES_NR_PDCP_DISCARD_TIMER, VALUES_NR_RLC_T_POLL_RETRANSMIT,
      VALUES_NR_RLC_T_REASSEMBLY, VALUES_NR_RLC_T_STATUS_PROHIBIT, VALUES_NR_RLC_POLL_PDU, VALUES_NR_RLC_POLL_BYTE,
      VALUES_NR_RLC_MAX_RETX_THRESHOLD, VALUES_NR_RLC_SN_FIELD_LENGTH_AM, VALUES_NR_RLC_SN_FIELD_LENGTH_UM]"

lemma config_tables_distinct: "\<forall>tab \<in> set config_tables. distinct tab"
  by code_simp

end
