(* ===== verification/Pdcp_Api.thy ===== *)
theory Pdcp_Api
  imports Sdap Asn1_Tables Pdcp_Queue
begin

unbundle bit_operations_syntax

text \<open>
  The receiving side and the configuration of \<^verbatim>\<open>openair2/LAYER2/nr_pdcp/nr_pdcp_oai_api.c\<close>,
  and the timer of \<^verbatim>\<open>nr_pdcp_timer_thread.c\<close>.

  An entity delivers SDUs through a callback in the middle of an operation. Here the operation runs first
  and the callbacks follow in the same order. The callbacks send at most control PDUs, which touches the
  transmission fields of an entity, and after a callback an operation works on reception fields only, so the
  order makes no difference. In the callback the entity is looked up by its address in the array of the UE;
  here its slot is known.
\<close>

section \<open>Delivery\<close>

definition sdap_qfi_of :: "bytes \<Rightarrow> bool \<Rightarrow> u8" where
  "sdap_qfi_of buf has_sdap_rx = (if has_sdap_rx \<and> length buf > 0 then buf ! 0 AND 0x3F else 0)"

definition deliver_sdu_drb :: "l2_env \<Rightarrow> u64 \<Rightarrow> nat \<Rightarrow> nr_pdcp_entity_t \<Rightarrow> nr_pdcp_sdu_t \<Rightarrow> l2_node \<Rightarrow> l2_node res" where
  "deliver_sdu_drb env ue_id i entity sdu st =
     (let buf = ps_buffer sdu;
          qfi = sdap_qfi_of buf (pe_has_sdap_rx entity)
      in if le_nos1 env \<or> le_nas_use_tun env
         then sdap_data_ind env (pe_rb_id entity) False (pe_has_sdap_rx entity) qfi (pe_pdusession_id entity) ue_id buf st
         else sdap_data_ind env (int i + 1) (pe_is_gnb entity) (pe_has_sdap_rx entity) qfi (pe_pdusession_id entity) ue_id buf st)"

definition deliver_sdu_srb :: "u64 \<Rightarrow> nat \<Rightarrow> nr_pdcp_entity_t \<Rightarrow> nr_pdcp_sdu_t \<Rightarrow> l2_node \<Rightarrow> l2_node res" where
  "deliver_sdu_srb ue_id i entity sdu st =
     (if pe_is_gnb entity
      then bindR (cu_get_f1_ue_data st (ucast ue_id)) (\<lambda>secondary_ue.
             Inr (emit (F1_Ul_Rrc_Message ue_id secondary_ue (int i + 1) (ps_buffer sdu)) st))
      else Inr (emit (Nr_Rrc_Dcch_Data_Ind ue_id (int i + 1) (ps_buffer sdu) (ps_msg_integrity sdu)) st))"

definition deliver_sdu_cb :: "l2_env \<Rightarrow> u64 \<Rightarrow> bool \<Rightarrow> nat \<Rightarrow> nr_pdcp_entity_t \<Rightarrow> nr_pdcp_sdu_t \<Rightarrow> l2_node \<Rightarrow> l2_node res" where
  "deliver_sdu_cb env ue_id srb_flag i entity sdu =
     (if srb_flag then deliver_sdu_srb ue_id i entity sdu else deliver_sdu_drb env ue_id i entity sdu)"

text \<open>An operation on the entity in slot \<open>i\<close> of the UE at an index of the list, with the callbacks it makes.\<close>

definition slot_of :: "bool \<Rightarrow> nat \<Rightarrow> nr_pdcp_ue_t \<Rightarrow> nr_pdcp_entity_t option" where
  "slot_of srb_flag i ue = (if srb_flag then pu_srb ue ! i else pu_drb ue ! i)"

definition run_rb ::
    "l2_env \<Rightarrow> nat \<Rightarrow> bool \<Rightarrow> nat \<Rightarrow> (nr_pdcp_entity_t \<Rightarrow> nr_pdcp_entity_t res) \<Rightarrow> l2_node \<Rightarrow> l2_node res" where
  "run_rb env u srb_flag i f st =
     (let ue = pm_ue_list (n_pdcp st) ! u
      in case slot_of srb_flag i ue of
           None \<Rightarrow> Inr st
         | Some rb \<Rightarrow>
             bindR (f rb) (\<lambda>rb'.
               foldR (deliver_sdu_cb env (pu_ue_id ue) srb_flag i rb)
                 (drop (length (pe_delivered rb)) (pe_delivered rb'))
                 (store_ue u (set_rb (int i + 1) srb_flag (Some rb') ue) st)))"

text \<open>The same for the bearer of a UE identifier; nothing happens when there is no such bearer.\<close>

definition with_rb ::
    "l2_env \<Rightarrow> u64 \<Rightarrow> int \<Rightarrow> bool \<Rightarrow> (nr_pdcp_entity_t \<Rightarrow> nr_pdcp_entity_t res) \<Rightarrow> l2_node \<Rightarrow> l2_node res" where
  "with_rb env ue_id rb_id srb_flag f st =
     (let (u, ue, st1) = node_ue st ue_id
      in if nr_pdcp_get_rb ue rb_id srb_flag = None then Inr st1 else run_rb env u srb_flag (nat (rb_id - 1)) f st1)"

section \<open>Reception\<close>

definition do_pdcp_data_ind :: "l2_env \<Rightarrow> protocol_ctxt_t \<Rightarrow> bool \<Rightarrow> int \<Rightarrow> bytes \<Rightarrow> l2_node \<Rightarrow> l2_node res" where
  "do_pdcp_data_ind env ctxt srb_flag rb_id sdu_buffer st =
     (if ct_module_id ctxt \<noteq> 0 \<or> ct_instance ctxt \<noteq> 0 \<or> ct_eNB_index ctxt \<noteq> 0 \<or> ct_brOption ctxt then Inl Abort
      else with_rb env (ct_rntiMaybeUEid ctxt) rb_id srb_flag (\<lambda>rb. nr_pdcp_entity_recv_pdu (le_secu env) rb sdu_buffer) st)"

text \<open>
  RLC leaves a PDU in the queue of \<open>Pdcp_Queue\<close>, from where the PDCP thread takes it for
  \<^verbatim>\<open>do_pdcp_data_ind\<close>; \<open>None\<close> means that the caller waits for space.
\<close>

record pdcp_data_ind_queue_item =
  pi_ctxt :: protocol_ctxt_t
  pi_srb_flag :: bool
  pi_rb_id :: int
  pi_sdu_buffer :: bytes

definition nr_pdcp_data_ind ::
    "pdcp_data_ind_queue_item ring_queue \<Rightarrow> protocol_ctxt_t \<Rightarrow> bool \<Rightarrow> int \<Rightarrow> bytes \<Rightarrow> pdcp_data_ind_queue_item ring_queue option" where
  "nr_pdcp_data_ind pq ctxt srb_flag rb_id sdu_buffer =
     enqueue_pdcp_data_ind pq \<lparr> pi_ctxt = ctxt, pi_srb_flag = srb_flag, pi_rb_id = rb_id, pi_sdu_buffer = sdu_buffer \<rparr>"

definition cu_f1u_data_req ::
    "pdcp_data_ind_queue_item ring_queue \<Rightarrow> protocol_ctxt_t \<Rightarrow> bool \<Rightarrow> int \<Rightarrow> bytes \<Rightarrow> pdcp_data_ind_queue_item ring_queue option" where
  "cu_f1u_data_req pq ctxt srb_flag rb_id sdu_buffer =
     nr_pdcp_data_ind pq (ctxt\<lparr>ct_instance := 0\<rparr>) srb_flag rb_id sdu_buffer"

definition pdcp_serve_item :: "l2_env \<Rightarrow> pdcp_data_ind_queue_item \<Rightarrow> l2_node \<Rightarrow> l2_node res" where
  "pdcp_serve_item env i st = do_pdcp_data_ind env (pi_ctxt i) (pi_srb_flag i) (pi_rb_id i) (pi_sdu_buffer i) st"

text \<open>
  One round of the timer thread at time \<open>curtime\<close>: it visits two SRBs and five DRBs of every UE.
\<close>

definition nr_pdcp_timer_round :: "l2_env \<Rightarrow> u64 \<Rightarrow> l2_node \<Rightarrow> l2_node res" where
  "nr_pdcp_timer_round env curtime st =
     foldR (\<lambda>u st.
        bindR (foldR (\<lambda>j. run_rb env u True j (\<lambda>rb. Inr (nr_pdcp_entity_set_time rb curtime))) [0 ..< 2] st)
              (foldR (\<lambda>j. run_rb env u False j (\<lambda>rb. Inr (nr_pdcp_entity_set_time rb curtime))) [0 ..< 5]))
       [0 ..< nr_pdcp_manager_get_ue_count (n_pdcp st)] st"

section \<open>Adding bearers\<close>

definition add_srb ::
    "bool \<Rightarrow> u64 \<Rightarrow> int \<Rightarrow> int option \<Rightarrow> nr_pdcp_entity_security_keys_and_algos_t \<Rightarrow> l2_node \<Rightarrow> l2_node res" where
  "add_srb is_gnb ue_id srb_id t_reordering_enc security_parameters st =
     bindR (case t_reordering_enc of None \<Rightarrow> Inr (-1) | Some v \<Rightarrow> decode_t_reordering v) (\<lambda>t_reordering.
       let (u, ue, st1) = node_ue st ue_id
       in if nr_pdcp_get_rb ue srb_id True \<noteq> None then Inr st1
          else bindR (new_nr_pdcp_entity NR_PDCP_SRB is_gnb srb_id 0 False False SHORT_SN_SIZE t_reordering (-1) security_parameters)
            (\<lambda>pdcp_srb. bindR (nr_pdcp_ue_add_srb_pdcp_entity ue srb_id pdcp_srb) (\<lambda>ue'. Inr (store_ue u ue' st1))))"

text \<open>The list of SRBs of a configuration: identity and encoded reordering timer of each.\<close>

definition nr_pdcp_add_srbs ::
    "bool \<Rightarrow> u64 \<Rightarrow> (int \<times> int option) list option \<Rightarrow> nr_pdcp_entity_security_keys_and_algos_t \<Rightarrow> l2_node \<Rightarrow> l2_node res" where
  "nr_pdcp_add_srbs enb_flag ue_id srb2add_list security_parameters st =
     (case srb2add_list of
        None \<Rightarrow> Inr st
      | Some l \<Rightarrow> foldR (\<lambda>(srb_id, t). add_srb enb_flag ue_id srb_id t security_parameters) l st)"

record NR_PDCP_Config__drb =
  pd_SN_SizeUL :: "int option"
  pd_SN_SizeDL :: "int option"
  pd_discardTimer :: "int option"
  pd_integrityProtection :: bool

record NR_PDCP_Config_t =
  pc_drb :: "NR_PDCP_Config__drb option"
  pc_t_Reordering :: "int option"
  pc_cipheringDisabled :: bool

definition deref :: "'x option \<Rightarrow> 'x res" where
  "deref p = (case p of None \<Rightarrow> Inl Null_Deref | Some x \<Rightarrow> Inr x)"

definition nr_pdcp_add_drb ::
    "bool \<Rightarrow> u64 \<Rightarrow> NR_PDCP_Config_t \<Rightarrow> sdap_config_t \<Rightarrow> nr_pdcp_entity_security_keys_and_algos_t \<Rightarrow> l2_node \<Rightarrow> l2_node res" where
  "nr_pdcp_add_drb is_gnb ue_id pdcp sdap security_parameters st =
     (case pc_drb pdcp of
        None \<Rightarrow> Inr st
      | Some drb \<Rightarrow>
          bindR (bindR (deref (pd_SN_SizeUL drb)) decode_sn_size_ul) (\<lambda>sn_size_ul.
          bindR (bindR (deref (pd_SN_SizeDL drb)) decode_sn_size_dl) (\<lambda>sn_size_dl.
          bindR (bindR (deref (pd_discardTimer drb)) decode_discard_timer) (\<lambda>discard_timer.
          bindR (case pc_t_Reordering pdcp of None \<Rightarrow> Inr (-1) | Some v \<Rightarrow> decode_t_reordering v) (\<lambda>t_reordering.
            let actual = security_parameters
                  \<lparr>sp_ciphering_algorithm := (if pc_cipheringDisabled pdcp then 0 else sp_ciphering_algorithm security_parameters),
                   sp_integrity_algorithm := (if pd_integrityProtection drb then sp_integrity_algorithm security_parameters else 0)\<rparr>;
                (u, ue, st1) = node_ue st ue_id
            in if nr_pdcp_get_rb ue (sc_drb_id sdap) False \<noteq> None then Inr st1
               else if sn_size_ul \<noteq> sn_size_dl then Inl Abort
               else bindR (new_nr_pdcp_entity NR_PDCP_DRB_AM is_gnb (sc_drb_id sdap) (sc_pdusession_id sdap)
                             (has_role (sc_role sdap) (SDAP_UL_RX OR SDAP_DL_RX))
                             (has_role (sc_role sdap) (SDAP_UL_TX OR SDAP_DL_TX))
                             (nat sn_size_dl) t_reordering discard_timer actual)
                 (\<lambda>pdcp_drb. bindR (nr_pdcp_ue_add_drb_pdcp_entity ue (sc_drb_id sdap) pdcp_drb)
                   (\<lambda>ue'. Inr (store_ue u ue' st1))))))))"

section \<open>Changing bearers\<close>

definition nr_pdcp_remove_UE :: "u64 \<Rightarrow> l2_node \<Rightarrow> nr_pdcp_entity_t list \<times> l2_node" where
  "nr_pdcp_remove_UE ue_id st =
     (let (deleted, m) = nr_pdcp_manager_remove_ue (n_pdcp st) ue_id in (deleted, st\<lparr>n_pdcp := m\<rparr>))"

definition nr_pdcp_config_set_security ::
    "l2_env \<Rightarrow> u64 \<Rightarrow> int \<Rightarrow> bool \<Rightarrow> nr_pdcp_entity_security_keys_and_algos_t \<Rightarrow> l2_node \<Rightarrow> l2_node res" where
  "nr_pdcp_config_set_security env ue_id rb_id is_srb parameters =
     with_rb env ue_id rb_id is_srb (\<lambda>rb. nr_pdcp_entity_set_security rb parameters)"

definition nr_pdcp_check_integrity_srb ::
    "l2_env \<Rightarrow> u64 \<Rightarrow> int \<Rightarrow> bytes \<Rightarrow> nr_pdcp_integrity_data_t \<Rightarrow> l2_node \<Rightarrow> (bool \<times> l2_node) res" where
  "nr_pdcp_check_integrity_srb env ue_id srb_id msg msg_integrity st =
     (let (u, ue, st1) = node_ue st ue_id
      in case nr_pdcp_get_rb ue srb_id True of
           None \<Rightarrow> Inr (False, st1)
         | Some rb \<Rightarrow> bindR (nr_pdcp_entity_check_integrity (le_secu env) rb msg msg_integrity) (\<lambda>ret. Inr (ret, st1)))"

definition nr_pdcp_suspend_srb :: "l2_env \<Rightarrow> u64 \<Rightarrow> int \<Rightarrow> l2_node \<Rightarrow> l2_node res" where
  "nr_pdcp_suspend_srb env ue_id srb_id = with_rb env ue_id srb_id True (\<lambda>rb. Inr (nr_pdcp_entity_suspend rb))"

definition nr_pdcp_suspend_drb :: "l2_env \<Rightarrow> u64 \<Rightarrow> int \<Rightarrow> l2_node \<Rightarrow> l2_node res" where
  "nr_pdcp_suspend_drb env ue_id drb_id = with_rb env ue_id drb_id False (\<lambda>rb. Inr (nr_pdcp_entity_suspend rb))"

definition nr_pdcp_reconfigure_srb :: "l2_env \<Rightarrow> u64 \<Rightarrow> int \<Rightarrow> int \<Rightarrow> l2_node \<Rightarrow> l2_node res" where
  "nr_pdcp_reconfigure_srb env ue_id srb_id t_Reordering =
     with_rb env ue_id srb_id True (\<lambda>rb. bindR (decode_t_reordering t_Reordering) (\<lambda>t. Inr (rb\<lparr>pe_t_reordering := t\<rparr>)))"

text \<open>A new length of sequence numbers is stored without the mask and the window size that depend on it.\<close>

definition reconfigure_drb_entity :: "NR_PDCP_Config_t \<Rightarrow> nr_pdcp_entity_t \<Rightarrow> nr_pdcp_entity_t res" where
  "reconfigure_drb_entity pdcp_config drb =
     bindR (case pc_t_Reordering pdcp_config of None \<Rightarrow> Inr (-1) | Some v \<Rightarrow> decode_t_reordering v) (\<lambda>t.
       let d0 = drb\<lparr>pe_t_reordering := t\<rparr>
       in case pc_drb pdcp_config of
            None \<Rightarrow> Inr d0
          | Some c \<Rightarrow>
              bindR (case pd_discardTimer c of
                       None \<Rightarrow> Inr d0
                     | Some v \<Rightarrow> bindR (decode_discard_timer v) (\<lambda>x. Inr (d0\<lparr>pe_discard_timer := x\<rparr>))) (\<lambda>d1.
              bindR (case pd_SN_SizeUL c of
                       None \<Rightarrow> Inr d1
                     | Some v \<Rightarrow> bindR (decode_sn_size_ul v) (\<lambda>x. Inr (d1\<lparr>pe_sn_size := nat x\<rparr>))) (\<lambda>d2.
                case pd_SN_SizeDL c of
                  None \<Rightarrow> Inr d2
                | Some v \<Rightarrow> bindR (decode_sn_size_dl v) (\<lambda>x.
                    if pd_SN_SizeUL c \<noteq> None \<and> nat x \<noteq> pe_sn_size d2 then Inl Abort
                    else Inr (d2\<lparr>pe_sn_size := nat x\<rparr>)))))"

definition nr_pdcp_reconfigure_drb :: "l2_env \<Rightarrow> u64 \<Rightarrow> int \<Rightarrow> NR_PDCP_Config_t option \<Rightarrow> l2_node \<Rightarrow> l2_node res" where
  "nr_pdcp_reconfigure_drb env ue_id drb_id pdcp_config =
     with_rb env ue_id drb_id False (\<lambda>rb. case pdcp_config of None \<Rightarrow> Inr rb | Some c \<Rightarrow> reconfigure_drb_entity c rb)"

text \<open>The slot of the bearer to release is not checked against the size of the array.\<close>

definition nr_pdcp_release_srb :: "u64 \<Rightarrow> int \<Rightarrow> l2_node \<Rightarrow> l2_node res" where
  "nr_pdcp_release_srb ue_id srb_id st =
     (let (u, ue, st1) = node_ue st ue_id
      in if \<not> (1 \<le> srb_id \<and> srb_id \<le> int (length (pu_srb ue))) then Inl Out_Of_Bounds
         else Inr (store_ue u (set_rb srb_id True None ue) st1))"

definition nr_pdcp_release_drb :: "l2_env \<Rightarrow> u64 \<Rightarrow> int \<Rightarrow> l2_node \<Rightarrow> l2_node res" where
  "nr_pdcp_release_drb env ue_id drb_id st =
     (let (u, ue, st1) = node_ue st ue_id
      in if \<not> (1 \<le> drb_id \<and> drb_id \<le> int (length (pu_drb ue))) then Inl Out_Of_Bounds
         else case pu_drb ue ! nat (drb_id - 1) of
                None \<Rightarrow> Inr st1
              | Some drb \<Rightarrow>
                  bindR (run_rb env u False (nat (drb_id - 1)) (\<lambda>rb. Inr (nr_pdcp_entity_release rb))
                           (nr_sdap_release_drb ue_id drb_id (pe_pdusession_id drb) st1))
                    (\<lambda>st2. Inr (store_ue u (set_rb drb_id False None (pm_ue_list (n_pdcp st2) ! u)) st2)))"

definition nr_pdcp_reestablishment ::
    "l2_env \<Rightarrow> u64 \<Rightarrow> int \<Rightarrow> bool \<Rightarrow> nr_pdcp_entity_security_keys_and_algos_t \<Rightarrow> l2_node \<Rightarrow> l2_node res" where
  "nr_pdcp_reestablishment env ue_id rb_id srb_flag security_parameters =
     with_rb env ue_id rb_id srb_flag (\<lambda>rb. reestablish_entity rb security_parameters)"

definition nr_pdcp_count_update ::
    "l2_env \<Rightarrow> u64 \<Rightarrow> int \<Rightarrow> nr_pdcp_count_t \<Rightarrow> nr_pdcp_count_t \<Rightarrow> nat \<Rightarrow> l2_node \<Rightarrow> l2_node res" where
  "nr_pdcp_count_update env ue_id drb_id dl_count ul_count sn_size =
     with_rb env ue_id drb_id False
       (\<lambda>rb. Inr (nr_pdcp_entity_set_count_ul (nr_pdcp_entity_set_count_dl rb dl_count sn_size) ul_count sn_size))"

section \<open>Queries\<close>

text \<open>Queries create the UE when it does not exist.\<close>

definition nr_pdcp_get_statistics :: "u64 \<Rightarrow> bool \<Rightarrow> int \<Rightarrow> l2_node \<Rightarrow> nr_pdcp_statistics_t option \<times> l2_node" where
  "nr_pdcp_get_statistics ue_id srb_flag rb_id st =
     (let (u, ue, st1) = node_ue st ue_id in (map_option nr_pdcp_entity_get_stats (nr_pdcp_get_rb ue rb_id srb_flag), st1))"

definition nr_pdcp_get_drb_count_values :: "u64 \<Rightarrow> int \<Rightarrow> l2_node \<Rightarrow> (nr_pdcp_count_t \<times> nr_pdcp_count_t) option \<times> l2_node" where
  "nr_pdcp_get_drb_count_values ue_id rb_id st =
     (let (u, ue, st1) = node_ue st ue_id
      in (map_option (\<lambda>e. (nr_pdcp_entity_get_count_ul e, nr_pdcp_entity_get_count_dl e)) (nr_pdcp_get_rb ue rb_id False), st1))"

definition nr_pdcp_get_drb_ids_for_pdusession :: "u64 \<Rightarrow> int \<Rightarrow> l2_node \<Rightarrow> int list \<times> l2_node" where
  "nr_pdcp_get_drb_ids_for_pdusession ue_id pdusession_id st =
     (let (u, ue, st1) = node_ue st ue_id
      in (List.map_filter (\<lambda>d. case d of None \<Rightarrow> None
            | Some e \<Rightarrow> if pe_pdusession_id e = pdusession_id then Some (pe_rb_id e) else None) (pu_drb ue), st1))"

definition nr_pdcp_get_num_ues :: "int \<Rightarrow> l2_node \<Rightarrow> int \<times> u64 list" where
  "nr_pdcp_get_num_ues len st =
     (int (nr_pdcp_manager_get_ue_count (n_pdcp st)),
      take (nat len) (map pu_ue_id (nr_pdcp_manager_get_ue_list (n_pdcp st))))"

end
