(* ===== verification/Pdcp_Frame.thy ===== *)
theory Pdcp_Frame
  imports Pdcp_Api Pdcp_Props
begin

text \<open>
  What the operations on a PDCP entity leave alone: its type, its bearer, its side and its SDAP flags.
\<close>

definition same_rb :: "nr_pdcp_entity_t \<Rightarrow> nr_pdcp_entity_t \<Rightarrow> bool" where
  "same_rb e e' \<longleftrightarrow> pe_type e' = pe_type e \<and> pe_rb_id e' = pe_rb_id e \<and> pe_is_gnb e' = pe_is_gnb e
     \<and> pe_pdusession_id e' = pe_pdusession_id e \<and> pe_has_sdap_rx e' = pe_has_sdap_rx e \<and> pe_has_sdap_tx e' = pe_has_sdap_tx e"

lemma same_rb_refl [simp]: "same_rb e e"
  by (simp add: same_rb_def)

lemma same_rb_trans: "same_rb a b \<Longrightarrow> same_rb b c \<Longrightarrow> same_rb a c"
  by (simp add: same_rb_def)

lemma with_pstats_pdusession [simp]: "pe_pdusession_id (with_pstats f e) = pe_pdusession_id e"
  by (simp add: with_pstats_def)

lemma same_rb_pstats [simp]: "same_rb e (with_pstats f e') \<longleftrightarrow> same_rb e e'"
  by (simp add: same_rb_def)

lemma same_rb_deliver_head [simp]: "same_rb e (deliver_head e' cur l) \<longleftrightarrow> same_rb e e'"
  unfolding deliver_head_def by (simp add: same_rb_def)

lemma same_rb_in_order: "same_rb e (fst (deliver_in_order e cnt l))"
proof (induction e cnt l rule: deliver_in_order.induct)
  case (2 e cnt cur l)
  then show ?case using same_rb_trans [of e "deliver_head e cur l"] by simp
qed simp

lemma same_rb_below: "same_rb e (deliver_below e l)"
proof (induction e l rule: deliver_below.induct)
  case (2 e cur l)
  then show ?case using same_rb_trans [of e "deliver_head e cur l"] by simp
qed simp

lemma same_rb_all_loop: "same_rb e (deliver_all_loop e l)"
proof (induction e l rule: deliver_all_loop.induct)
  case (2 e cur l)
  then show ?case using same_rb_trans [of e "deliver_head e cur l"] by simp
qed simp

lemma same_rb_timers: "same_rb e (pdcp_timers e)"
  by (simp add: pdcp_timers_def same_rb_def Let_def)

lemma same_rb_accept: "same_rb e (pdcp_accept e cnt sdu n)"
proof -
  define e2 where "e2 = (let e1 = e\<lparr>pe_rx_list := nr_pdcp_sdu_list_add (pe_rx_list e) sdu, pe_rx_size := pe_rx_size e + int n\<rparr>
     in if cnt \<ge> pe_rx_next e1 then e1\<lparr>pe_rx_next := cnt + 1\<rparr> else e1)"
  have 2: "same_rb e e2" by (simp add: e2_def same_rb_def Let_def)
  define e3 where "e3 = (if cnt = pe_rx_deliv e2
     then (let (e', c) = deliver_in_order e2 (pe_rx_deliv e2) (pe_rx_list e2) in e'\<lparr>pe_rx_deliv := c\<rparr>) else e2)"
  have "same_rb e2 e3" using same_rb_in_order [of e2 "pe_rx_deliv e2" "pe_rx_list e2"]
    by (auto simp: e3_def same_rb_def Let_def split: prod.split)
  moreover have "pdcp_accept e cnt sdu n = pdcp_timers e3" by (simp add: pdcp_accept_def e2_def e3_def Let_def)
  ultimately show ?thesis using 2 same_rb_timers [of e3] same_rb_trans by metis
qed

lemma same_rb_recv:
  assumes "nr_pdcp_entity_recv_pdu env e buf = Inr e'"
  shows "same_rb e e'"
proof -
  have d: "same_rb a (pdcp_discard b n) \<longleftrightarrow> same_rb a b" for a b n by (simp add: pdcp_discard_def)
  have "same_rb a b" if "pdcp_recv_counted env a buf' k cnt = Inr b" for a b buf' k cnt
    using that same_rb_accept by (auto simp: pdcp_recv_counted_def Let_def res_simps d)
  then have "same_rb e e'" if "pdcp_recv_counted env (with_pstats g (with_pstats f e)) buf' k cnt = Inr e'" for f g buf' k cnt
    using that same_rb_trans [of e "with_pstats g (with_pstats f e)" e'] by simp
  then show ?thesis using assms
    unfolding nr_pdcp_entity_recv_pdu_def by (auto simp: Let_def res_simps d split: list.splits if_splits)
qed

lemma same_rb_process:
  "nr_pdcp_entity_process_sdu env e sdu mem = Inr (n, buf, e') \<Longrightarrow> same_rb e e'"
  unfolding nr_pdcp_entity_process_sdu_def
  by (auto simp: Let_def res_simps same_rb_def split: if_splits)

lemma same_rb_security:
  assumes "nr_pdcp_entity_set_security e p = Inr e'"
  shows "same_rb e e'"
proof -
  have "same_rb a b" if "set_integrity k a = Inr b" for a b k
    using that by (auto simp: set_integrity_def same_rb_def Let_def split: if_splits)
  moreover have "same_rb a b" if "set_ciphering k a = Inr b" for a b k
    using that by (auto simp: set_ciphering_def same_rb_def split: if_splits)
  moreover have "same_rb e (e\<lparr>pe_security_keys_and_algos := k\<rparr>)" for k by (simp add: same_rb_def)
  ultimately show ?thesis
    using assms same_rb_trans unfolding nr_pdcp_entity_set_security_def by (auto simp: res_simps) blast
qed

lemma same_rb_set_time: "same_rb e (nr_pdcp_entity_set_time e now)"
proof -
  have "same_rb e (check_t_reordering e)" for e
  proof -
    let ?e0 = "e\<lparr>pe_t_reordering_start := 0\<rparr>"
    let ?e1 = "deliver_below ?e0 (pe_rx_list ?e0)"
    obtain e2 cnt where e2: "deliver_in_order ?e1 (pe_rx_reord ?e1) (pe_rx_list ?e1) = (e2, cnt)" by fastforce
    have "same_rb e ?e0" by (simp add: same_rb_def)
    then have "same_rb e e2"
      using same_rb_below [of ?e0 "pe_rx_list ?e0"] same_rb_in_order [of ?e1 "pe_rx_reord ?e1" "pe_rx_list ?e1"] same_rb_trans
      unfolding e2 fst_conv by meson
    then show ?thesis unfolding check_t_reordering_def Let_def e2 prod.case by (simp add: same_rb_def)
  qed
  from this [of "e\<lparr>pe_t_current := now\<rparr>"] show ?thesis
    by (simp add: nr_pdcp_entity_set_time_def same_rb_def)
qed

lemma same_rb_suspend: "same_rb e (nr_pdcp_entity_suspend e)"
  using same_rb_all_loop [of "e\<lparr>pe_tx_next := 0, pe_t_reordering_start := 0\<rparr>" "pe_rx_list e"]
  by (simp add: nr_pdcp_entity_suspend_def deliver_all_sdus_def Let_def same_rb_def)

lemma same_rb_free: "same_rb e (free_rx_list e)"
proof -
  have "same_rb e (fold (\<lambda>cur. with_pstats (f cur)) l e)" for f :: "nr_pdcp_sdu_t \<Rightarrow> _" and l
  proof (induction l arbitrary: e)
    case (Cons c l)
    then show ?case using same_rb_trans [of e "with_pstats (f c) e"] by simp
  qed simp
  from this [of "\<lambda>cur st. st\<lparr>pst_rxpdu_dd_pkts := pst_rxpdu_dd_pkts st + 1,
              pst_rxpdu_dd_bytes := pst_rxpdu_dd_bytes st + word_of_int (ps_size cur)\<rparr>" "pe_rx_list e"]
  show ?thesis by (simp add: free_rx_list_def same_rb_def)
qed

lemma same_rb_reestablish:
  assumes "reestablish_entity e p = Inr e'"
  shows "same_rb e e'"
proof -
  have s: "same_rb a (b\<lparr>pe_entity_suspended := x\<rparr>) \<longleftrightarrow> same_rb a b" for a b x by (simp add: same_rb_def)
  have t: "same_rb a (b\<lparr>pe_t_reordering_start := x, pe_rx_next := y, pe_rx_deliv := z\<rparr>) \<longleftrightarrow> same_rb a b" for a b x y z
    by (simp add: same_rb_def)
  have u: "same_rb (a\<lparr>pe_tx_next := x\<rparr>) b \<longleftrightarrow> same_rb a b" for a b x by (simp add: same_rb_def)
  note L = same_rb_all_loop [of "e\<lparr>pe_tx_next := 0\<rparr>" "pe_rx_list e"] and F = same_rb_free [of "e\<lparr>pe_tx_next := 0\<rparr>"]
  show ?thesis
  proof (cases "pe_type e")
    case NR_PDCP_DRB_AM
    then show ?thesis using assms same_rb_security
      by (auto simp: reestablish_entity_def nr_pdcp_entity_reestablish_drb_am_def res_simps s)
  next
    case NR_PDCP_DRB_UM
    define e1 where "e1 = (let e0 = e\<lparr>pe_tx_next := 0\<rparr> in if pe_t_reordering_start e0 \<noteq> 0 then deliver_all_sdus e0 else e0)"
    have e1: "same_rb e e1" using L by (simp add: e1_def deliver_all_sdus_def u Let_def) (simp add: same_rb_def)
    obtain x where x: "nr_pdcp_entity_set_security (e1\<lparr>pe_t_reordering_start := 0, pe_rx_next := 0, pe_rx_deliv := 0\<rparr>) p = Inr x"
        "e' = x\<lparr>pe_entity_suspended := False\<rparr>"
      using assms NR_PDCP_DRB_UM unfolding reestablish_entity_def nr_pdcp_entity_reestablish_drb_um_def e1_def Let_def
      by (auto simp: res_simps)
    show ?thesis using same_rb_trans [OF _ same_rb_security [OF x(1)]] e1 x(2) by (simp add: s t)
  next
    case NR_PDCP_SRB
    then obtain x where x: "nr_pdcp_entity_set_security ((free_rx_list (e\<lparr>pe_tx_next := 0\<rparr>))
          \<lparr>pe_t_reordering_start := 0, pe_rx_next := 0, pe_rx_deliv := 0\<rparr>) p = Inr x" "e' = x\<lparr>pe_entity_suspended := False\<rparr>"
      using assms unfolding reestablish_entity_def nr_pdcp_entity_reestablish_srb_def Let_def by (auto simp: res_simps)
    show ?thesis using same_rb_trans [OF _ same_rb_security [OF x(1)]] F x(2) by (simp add: s t u)
  qed
qed

lemma same_rb_release: "same_rb e (nr_pdcp_entity_release e)"
  by (simp add: nr_pdcp_entity_release_def deliver_all_sdus_def same_rb_all_loop)

lemma same_rb_optional:
  "(case v of None \<Rightarrow> Inr d | Some x \<Rightarrow> bindR (f x) (\<lambda>y. Inr (g y))) = Inr d' \<Longrightarrow> (\<And>y. same_rb d (g y)) \<Longrightarrow> same_rb d d'"
  by (cases v) auto

lemma same_rb_reconfigure:
  assumes "reconfigure_drb_entity c e = Inr e'"
  shows "same_rb e e'"
proof -
  have u: "same_rb a (a\<lparr>pe_t_reordering := t\<rparr>)" "same_rb a (a\<lparr>pe_discard_timer := t\<rparr>)" "same_rb a (a\<lparr>pe_sn_size := n\<rparr>)" for a t n
    by (simp_all add: same_rb_def)
  obtain t where t: "(case pc_drb c of None \<Rightarrow> Inr (e\<lparr>pe_t_reordering := t\<rparr>) | Some d \<Rightarrow>
     bindR (case pd_discardTimer d of None \<Rightarrow> Inr (e\<lparr>pe_t_reordering := t\<rparr>)
        | Some v \<Rightarrow> bindR (decode_discard_timer v) (\<lambda>x. Inr (e\<lparr>pe_t_reordering := t, pe_discard_timer := x\<rparr>))) (\<lambda>d1.
     bindR (case pd_SN_SizeUL d of None \<Rightarrow> Inr d1 | Some v \<Rightarrow> bindR (decode_sn_size_ul v) (\<lambda>x. Inr (d1\<lparr>pe_sn_size := nat x\<rparr>))) (\<lambda>d2.
       case pd_SN_SizeDL d of None \<Rightarrow> Inr d2
       | Some v \<Rightarrow> bindR (decode_sn_size_dl v) (\<lambda>x. if pd_SN_SizeUL d \<noteq> None \<and> nat x \<noteq> pe_sn_size d2 then Inl Abort
                    else Inr (d2\<lparr>pe_sn_size := nat x\<rparr>))))) = Inr e'"
    using assms unfolding reconfigure_drb_entity_def Let_def by (elim bindR_InrE) auto
  show ?thesis
  proof (cases "pc_drb c")
    case None
    then show ?thesis using t u(1) by auto
  next
    case (Some d)
    show ?thesis
      using t [unfolded Some option.case]
    proof (elim bindR_InrE, goal_cases)
      case (1 d1 d2)
      have "same_rb (e\<lparr>pe_t_reordering := t\<rparr>) d1" by (rule same_rb_optional [OF 1(1)]) (simp add: same_rb_def)
      moreover have "same_rb d1 d2" by (rule same_rb_optional [OF 1(2)]) (rule u)
      moreover have "same_rb d2 e'" using 1(3) by (cases "pd_SN_SizeDL d") (auto simp: u elim!: bindR_InrE split: if_splits)
      ultimately show ?case using u(1) same_rb_trans by blast
    qed
  qed
qed

lemma same_rb_counts: "same_rb e (nr_pdcp_entity_set_count_ul (nr_pdcp_entity_set_count_dl e d n) u n)"
  by (simp add: same_rb_def nr_pdcp_entity_set_count_ul_def nr_pdcp_entity_set_count_dl_def Let_def)

lemmas same_rb_ops = same_rb_recv same_rb_security same_rb_set_time same_rb_suspend same_rb_reestablish same_rb_release
  same_rb_reconfigure same_rb_counts

end
