(* ===== verification/Node_Inv.thy ===== *)
theory Node_Inv
  imports Pdcp_Frame
begin

text \<open>
  The well-formedness of a node above RLC and that every operation keeps it: identifiers are unique, the
  arrays have their sizes, an entity is in the slot of its bearer, and the rules of SDAP name bearers that
  exist in the numbering.
\<close>

section \<open>Well-formed nodes\<close>

definition rb_ok :: "bool \<Rightarrow> nat \<Rightarrow> nr_pdcp_entity_t \<Rightarrow> bool" where
  "rb_ok srb_flag i e \<longleftrightarrow> pe_rb_id e = int i + 1 \<and> (pe_type e = NR_PDCP_SRB \<longleftrightarrow> srb_flag)"

definition slots_ok :: "bool \<Rightarrow> nat \<Rightarrow> nr_pdcp_entity_t option list \<Rightarrow> bool" where
  "slots_ok srb_flag n l \<longleftrightarrow> length l = n \<and> (\<forall>i < n. \<forall>e. l ! i = Some e \<longrightarrow> rb_ok srb_flag i e)"

definition ue_ok :: "nr_pdcp_ue_t \<Rightarrow> bool" where
  "ue_ok ue \<longleftrightarrow> slots_ok True 3 (pu_srb ue) \<and> slots_ok False MAX_DRBS_PER_UE (pu_drb ue)"

definition sdap_ok :: "nr_sdap_entity_t \<Rightarrow> bool" where
  "sdap_ok e \<longleftrightarrow> length (sd_qfi2drb_table e) = SDAP_MAX_QFI
     \<and> (\<forall>q \<in> set (sd_qfi2drb_table e). 0 \<le> q_drb_id q \<and> q_drb_id q \<le> int MAX_DRBS_PER_UE)"

definition session :: "nr_sdap_entity_t \<Rightarrow> u64 \<times> int" where
  "session e = (sd_ue_id e, sd_pdusession_id e)"

abbreviation node_ues :: "l2_node \<Rightarrow> nr_pdcp_ue_t list" where
  "node_ues st \<equiv> pm_ue_list (n_pdcp st)"

definition node_ok :: "l2_node \<Rightarrow> bool" where
  "node_ok st \<longleftrightarrow> distinct (map pu_ue_id (node_ues st)) \<and> (\<forall>ue \<in> set (node_ues st). ue_ok ue)
     \<and> distinct (map session (n_sdap st)) \<and> (\<forall>e \<in> set (n_sdap st). sdap_ok e)"

text \<open>What an operation keeps: the node stays well-formed and no UE goes away.\<close>

definition keeps :: "l2_node \<Rightarrow> l2_node \<Rightarrow> bool" where
  "keeps st st' \<longleftrightarrow> node_ok st' \<and> length (node_ues st) \<le> length (node_ues st')"

lemma keeps_refl: "node_ok st \<Longrightarrow> keeps st st"
  by (simp add: keeps_def)

lemma keeps_trans: "keeps a b \<Longrightarrow> keeps b c \<Longrightarrow> keeps a c"
  by (simp add: keeps_def)

lemma keepsD: "keeps a b \<Longrightarrow> node_ok b"
  by (simp add: keeps_def)

lemma postR_keeps_bind:
  assumes "postR (keeps st) m" and "\<And>st'. keeps st st' \<Longrightarrow> postR (keeps st') (f st')"
  shows "postR (keeps st) (bindR m f)"
proof (rule postR_intros(3))
  fix st' assume "m = Inr st'"
  then have "keeps st st'" using assms(1) by (simp add: postR_def)
  then show "postR (keeps st) (f st')" using assms(2) [of st'] keeps_trans by (auto simp: postR_def)
qed

lemma foldR_keeps:
  assumes "\<And>x st'. x \<in> set xs \<Longrightarrow> keeps st st' \<Longrightarrow> postR (keeps st') (f x st')" and "node_ok st"
  shows "postR (keeps st) (foldR f xs st)"
  by (rule foldR_postR [OF assms(1)]) (use assms(2) keeps_trans keeps_refl in blast)+

lemma node_ok_out [simp]: "node_ok (emit out st) \<longleftrightarrow> node_ok st" "node_ues (emit out st) = node_ues st"
  "n_sdap (emit out st) = n_sdap st" "n_cu2du (emit out st) = n_cu2du st" "n_out (emit out st) = n_out st @ [out]"
  by (simp_all add: node_ok_def emit_def)

lemma keeps_emit [simp]: "keeps st (emit out st') \<longleftrightarrow> keeps st st'"
  by (simp add: keeps_def)

section \<open>UEs and bearers\<close>

lemma slots_ok_update:
  "slots_ok s n l \<Longrightarrow> (\<And>e. eo = Some e \<Longrightarrow> rb_ok s i e) \<Longrightarrow> slots_ok s n (l[i := eo])"
  unfolding slots_ok_def by (metis length_list_update nth_list_update_eq nth_list_update_neq)

lemma slots_okD: "slots_ok s n l \<Longrightarrow> i < n \<Longrightarrow> l ! i = Some e \<Longrightarrow> rb_ok s i e"
  by (simp add: slots_ok_def)

lemma ue_ok_new: "ue_ok (new_pdcp_ue k)"
  by (simp add: ue_ok_def slots_ok_def new_pdcp_ue_def)

lemma node_ue_spec:
  assumes "node_ok st" and "node_ue st k = (u, ue, st')"
  shows "keeps st st'" and "u < length (node_ues st')" and "node_ues st' ! u = ue" and "pu_ue_id ue = k" and "ue_ok ue"
    and "n_sdap st' = n_sdap st" "n_out st' = n_out st" "n_cu2du st' = n_cu2du st"
    and "ue = pdcp_ues.found (n_pdcp st) k"
    and "pdcp_ues.lookup (n_pdcp st') = (pdcp_ues.lookup (n_pdcp st))(k \<mapsto> ue)"
proof -
  obtain m where g: "nr_pdcp_manager_get_ue (n_pdcp st) k = (u, m)" and st': "st' = st\<lparr>n_pdcp := m\<rparr>" "ue = pm_ue_list m ! u"
    using assms(2) by (auto simp: node_ue_def split: prod.splits)
  have un: "pdcp_ues.unique (n_pdcp st)" using assms(1) by (simp add: node_ok_def pdcp_ues.unique_def)
  note G = pdcp_ues.get_ue_spec [OF un g]
  have m: "set (pm_ue_list m) \<subseteq> insert (new_pdcp_ue k) (set (node_ues st)) \<and> length (node_ues st) \<le> length (pm_ue_list m)"
    using g pdcp_ues.get_found [of k "n_pdcp st"] pdcp_ues.get_new [of k "n_pdcp st"]
    by (cases "find_index (\<lambda>u. pu_ue_id u = k) (node_ues st)") auto
  have "\<forall>ue \<in> set (pm_ue_list m). ue_ok ue" using m ue_ok_new assms(1) by (auto simp: node_ok_def)
  then show "keeps st st'" "ue_ok ue"
    using G(1,2) m assms(1) nth_mem [OF G(2)] by (auto simp: keeps_def node_ok_def st' pdcp_ues.unique_def)
  show "u < length (node_ues st')" "node_ues st' ! u = ue" "pu_ue_id ue = k" "ue = pdcp_ues.found (n_pdcp st) k"
    "pdcp_ues.lookup (n_pdcp st') = (pdcp_ues.lookup (n_pdcp st))(k \<mapsto> ue)"
    "n_sdap st' = n_sdap st" "n_out st' = n_out st" "n_cu2du st' = n_cu2du st"
    using G by (simp_all add: st')
qed

lemma store_ue_keeps:
  assumes "node_ok st" and "ue_ok ue" and "u < length (node_ues st)" and "pu_ue_id ue = pu_ue_id (node_ues st ! u)"
  shows "keeps st (store_ue u ue st)"
proof -
  have "map pu_ue_id ((node_ues st)[u := ue]) = map pu_ue_id (node_ues st)"
    using assms(3,4) by (simp add: map_update list_update_same_conv)
  then show ?thesis using assms by (auto simp: keeps_def node_ok_def store_ue_def dest!: set_update_subset_insert [THEN subsetD])
qed

lemma ue_ok_set_rb:
  assumes "ue_ok ue" and "\<And>e. eo = Some e \<Longrightarrow> rb_ok srb_flag i e"
  shows "ue_ok (set_rb (int i + 1) srb_flag eo ue)"
  using assms slots_ok_update by (auto simp: ue_ok_def set_rb_def)

lemma set_rb_id [simp]: "pu_ue_id (set_rb r srb_flag eo ue) = pu_ue_id ue"
  by (simp add: set_rb_def)

lemma rb_ok_same: "same_rb e e' \<Longrightarrow> rb_ok s i e' \<longleftrightarrow> rb_ok s i e"
  by (simp add: same_rb_def rb_ok_def)

lemma store_rb_keeps:
  assumes "node_ok st" and "u < length (node_ues st)" and "\<And>e. eo = Some e \<Longrightarrow> rb_ok srb_flag i e"
  shows "keeps st (store_ue u (set_rb (int i + 1) srb_flag eo (node_ues st ! u)) st)"
proof (rule store_ue_keeps [OF assms(1) _ assms(2)])
  have "ue_ok (node_ues st ! u)" using assms(1,2) by (simp add: node_ok_def)
  then show "ue_ok (set_rb (int i + 1) srb_flag eo (node_ues st ! u))" using assms(3) by (rule ue_ok_set_rb)
qed simp

lemma get_rb_ok:
  assumes "ue_ok ue" and "nr_pdcp_get_rb ue rb_id srb_flag = Some e"
  obtains i where "rb_id = int i + 1" "nat (rb_id - 1) = i" "slot_of srb_flag i ue = Some e" "rb_ok srb_flag i e" "i < MAX_DRBS_PER_UE"
    "srb_flag \<longrightarrow> i < 2"
proof (rule that [of "nat (rb_id - 1)"])
  have r: "1 \<le> rb_id" "srb_flag \<longrightarrow> rb_id \<le> 2" "rb_id \<le> 32"
    using assms(2) by (auto simp: nr_pdcp_get_rb_def MAX_DRBS_PER_UE_def split: if_splits)
  show s: "slot_of srb_flag (nat (rb_id - 1)) ue = Some e"
    using assms(2) by (auto simp: nr_pdcp_get_rb_def slot_of_def split: if_splits)
  show "rb_id = int (nat (rb_id - 1)) + 1" "nat (rb_id - 1) < MAX_DRBS_PER_UE" "srb_flag \<longrightarrow> nat (rb_id - 1) < 2"
    using r by (auto simp: MAX_DRBS_PER_UE_def)
  show "rb_ok srb_flag (nat (rb_id - 1)) e"
    using assms(1) s r by (cases srb_flag) (auto simp: ue_ok_def slots_ok_def slot_of_def MAX_DRBS_PER_UE_def)
qed simp

section \<open>Transmission\<close>

lemma make_pdu_same: "pdcp_make_pdu env rb sdu = Inr (pdu, rb') \<Longrightarrow> same_rb rb rb'"
  by (auto simp: pdcp_make_pdu_def res_simps intro: same_rb_process)

lemma data_req_drb_keeps:
  assumes "node_ok st"
  shows "postR (\<lambda>(b, st'). keeps st st' \<and> n_sdap st' = n_sdap st) (nr_pdcp_data_req_drb env ctxt srb_flag rb_id mui sdu st)"
proof (cases "\<not> srb_flag \<and> ct_module_id ctxt = 0 \<and> ct_instance ctxt = 0 \<and> ct_eNB_index ctxt = 0")
  case True
  obtain u ue st1 where g: "node_ue st (ct_rntiMaybeUEid ctxt) = (u, ue, st1)" by (metis prod_cases3)
  note G = node_ue_spec [OF assms g]
  show ?thesis
  proof (cases "nr_pdcp_get_rb ue rb_id False")
    case None
    then show ?thesis using G(1,6) True by (simp add: nr_pdcp_data_req_drb_def g postR_def)
  next
    case (Some rb)
    then obtain i where i: "rb_id = int i + 1" "rb_ok False i rb" using get_rb_ok [OF G(5)] by metis
    have "keeps st (store_ue u (set_rb rb_id False (Some rb') ue) st1)" if "pdcp_make_pdu env rb sdu = Inr (pdu, rb')" for pdu rb'
      using store_rb_keeps [OF keepsD [OF G(1)] G(2), of "Some rb'" False i] i make_pdu_same [OF that] G(1)
      by (auto simp: rb_ok_same G(3) intro: keeps_trans)
    moreover have "n_sdap (store_ue u x st1) = n_sdap st" for x using G(6) by (simp add: store_ue_def)
    ultimately show ?thesis using True Some
      by (auto simp: nr_pdcp_data_req_drb_def g postR_def res_simps deliver_pdu_drb_gnb_def deliver_pdu_drb_ue_def Let_def
          split: option.splits if_splits)
  qed
qed (auto simp: nr_pdcp_data_req_drb_def postR_def)

lemma data_req_srb_keeps:
  assumes "node_ok st" and "\<And>s b. node_ok s \<Longrightarrow> postR (keeps s) (cb s ue_id rb_id b mui)"
  shows "postR (\<lambda>(b, st'). keeps st st') (nr_pdcp_data_req_srb env ue_id rb_id mui sdu cb st)"
proof -
  obtain u ue st1 where g: "node_ue st ue_id = (u, ue, st1)" by (metis prod_cases3)
  note G = node_ue_spec [OF assms(1) g]
  show ?thesis
  proof (cases "nr_pdcp_get_rb ue rb_id True")
    case None
    then show ?thesis using G(1) by (simp add: nr_pdcp_data_req_srb_def g postR_def)
  next
    case (Some rb)
    then obtain i where i: "rb_id = int i + 1" "rb_ok True i rb" using get_rb_ok [OF G(5)] by metis
    have k: "keeps st (store_ue u (set_rb rb_id True (Some rb') ue) st1)" if "pdcp_make_pdu env rb sdu = Inr (pdu, rb')" for pdu rb'
      using store_rb_keeps [OF keepsD [OF G(1)] G(2), of "Some rb'" True i] i make_pdu_same [OF that] G(1)
      by (auto simp: rb_ok_same G(3) intro: keeps_trans)
    have "keeps st s'" if "keeps st s" "cb s ue_id rb_id b mui = Inr s'" for s s' b
      using assms(2) [OF keepsD [OF that(1)]] that keeps_trans by (auto simp: postR_def)
    then show ?thesis using Some k
      by (auto simp: nr_pdcp_data_req_srb_def g postR_def res_simps Let_def split: option.splits if_splits)
  qed
qed

section \<open>SDAP\<close>

lemma get_entity_Some:
  "nr_sdap_get_entity es ue_id s = Some k \<Longrightarrow> k < length es \<and> session (es ! k) = (ue_id, s)"
  by (induction es arbitrary: k) (auto simp: is_session_def session_def split: if_splits)

lemma get_entity_None: "nr_sdap_get_entity es ue_id s = None \<longleftrightarrow> (ue_id, s) \<notin> session ` set es"
  by (induction es) (auto simp: is_session_def session_def)

lemma get_entity_unique:
  "distinct (map session es) \<Longrightarrow> k < length es \<Longrightarrow> session (es ! k) = (ue_id, s) \<Longrightarrow> nr_sdap_get_entity es ue_id s = Some k"
proof (induction es arbitrary: k)
  case (Cons e es)
  show ?case
  proof (cases k)
    case 0
    then show ?thesis using Cons.prems by (simp add: is_session_def session_def)
  next
    case (Suc j)
    then have "(ue_id, s) \<in> session ` set es" using Cons.prems by (force simp: image_iff in_set_conv_nth)
    then have "\<not> is_session ue_id s e" using Cons.prems(1) by (auto simp: is_session_def session_def)
    then show ?thesis using Cons Suc by auto
  qed
qed simp

lemma table_at_ok: "sdap_ok e \<Longrightarrow> table_at e qfi = Inr q \<Longrightarrow> 0 \<le> q_drb_id q \<and> q_drb_id q \<le> int MAX_DRBS_PER_UE"
  by (auto simp: table_at_def sdap_ok_def split: if_splits)

lemma table_set_ok:
  assumes "sdap_ok e" and "table_set e qfi f = Inr e'"
    and "\<And>q. 0 \<le> q_drb_id q \<Longrightarrow> q_drb_id q \<le> int MAX_DRBS_PER_UE \<Longrightarrow> 0 \<le> q_drb_id (f q) \<and> q_drb_id (f q) \<le> int MAX_DRBS_PER_UE"
  shows "sdap_ok e'" and "session e' = session e"
proof -
  obtain q where q: "table_at e qfi = Inr q" "e' = e\<lparr>sd_qfi2drb_table := (sd_qfi2drb_table e)[unat qfi := f q]\<rparr>"
    using assms(2) by (auto simp: table_set_def res_simps)
  show "sdap_ok e'" using assms(1) assms(3) table_at_ok [OF assms(1) q(1)] q(2)
    by (auto simp: sdap_ok_def dest!: set_update_subset_insert [THEN subsetD])
  show "session e' = session e" by (simp add: q(2) session_def)
qed

lemma set_sdap_keeps:
  assumes "node_ok st" and "k < length (n_sdap st)" and "sdap_ok e" and "session e = session (n_sdap st ! k)"
  shows "keeps st (set_sdap k e st)"
proof -
  have "map session ((n_sdap st)[k := e]) = map session (n_sdap st)"
    using assms(2,4) by (simp add: map_update list_update_same_conv)
  then show ?thesis using assms by (auto simp: keeps_def node_ok_def set_sdap_def dest!: set_update_subset_insert [THEN subsetD])
qed

abbreviation keeps_sdap :: "l2_node \<Rightarrow> l2_node \<Rightarrow> bool" where
  "keeps_sdap st st' \<equiv> keeps st st' \<and> n_sdap st' = n_sdap st"

lemma end_marker_keeps:
  assumes "node_ok st"
  shows "postR (keeps_sdap st) (end_marker env e ue_id map_type qfi st)"
proof -
  have "postR (keeps_sdap st) (nr_sdap_submit_ctrl_pdu env ue_id drb hdr st)" for drb hdr
    using data_req_drb_keeps [OF assms, of env "ctxt_for False ue_id" False drb RLC_MUI_UNDEFINED "[ul_hdr_byte hdr]"] keeps_refl [OF assms]
    by (auto simp: nr_sdap_submit_ctrl_pdu_def nr_pdcp_submit_sdap_ctrl_pdu_def postR_def bindR_eq_Inr)
  then show ?thesis unfolding end_marker_def by (intro postR_intros)
qed

lemma keeps_sdap_bind:
  assumes "postR (keeps_sdap st) m" and "\<And>st'. keeps_sdap st st' \<Longrightarrow> postR (keeps_sdap st') (f st')"
  shows "postR (keeps_sdap st) (bindR m f)"
proof (rule postR_intros(3))
  fix st' assume "m = Inr st'"
  then have "keeps_sdap st st'" using assms(1) by (simp add: postR_def)
  then show "postR (keeps_sdap st) (f st')" using assms(2) [of st'] keeps_trans by (auto simp: postR_def)
qed

lemma reflective_keeps:
  assumes "node_ok st" and "k < length (n_sdap st)" and "0 \<le> pdcp_entity" and "pdcp_entity \<le> int MAX_DRBS_PER_UE"
  shows "postR (keeps st) (sdap_reflective_mapping env k (n_sdap st ! k) pdcp_entity ue_id qfi st)"
proof -
  let ?e = "n_sdap st ! k"
  have e: "sdap_ok ?e" using assms(1,2) by (simp add: node_ok_def)
  have H: "postR (keeps st) (bindR (if b1 then end_marker env ?e ue_id m1 qfi st else Inr st) (\<lambda>st1.
      bindR (if b2 then end_marker env ?e ue_id m2 qfi st1 else Inr st1) (\<lambda>st2.
      bindR (table_set ?e qfi (\<lambda>q. q\<lparr>q_drb_id := pdcp_entity\<rparr>)) (\<lambda>e'. Inr (set_sdap k e' st2)))))" for b1 b2 m1 m2
  proof (intro postR_intros)
    fix st1 st2 e'
    assume 1: "(if b1 then end_marker env ?e ue_id m1 qfi st else Inr st) = Inr st1"
      and 2: "(if b2 then end_marker env ?e ue_id m2 qfi st1 else Inr st1) = Inr st2"
      and t: "table_set ?e qfi (\<lambda>q. q\<lparr>q_drb_id := pdcp_entity\<rparr>) = Inr e'"
    have k1: "keeps_sdap st st1" using 1 end_marker_keeps [OF assms(1), of env ?e ue_id m1 qfi] keeps_refl [OF assms(1)]
      by (auto simp: postR_def split: if_splits)
    have k2: "keeps_sdap st1 st2" using 2 end_marker_keeps [OF keepsD, of st st1 env ?e ue_id m2 qfi] k1 keeps_refl [OF keepsD]
      by (auto simp: postR_def split: if_splits)
    have "sdap_ok e'" "session e' = session ?e" by (rule table_set_ok [OF e t]; use assms(3,4) in simp)+
    then have "keeps st2 (set_sdap k e' st2)" using k1 k2 assms(2) keepsD by (intro set_sdap_keeps) auto
    then show "keeps st (set_sdap k e' st2)" using k1 k2 keeps_trans by blast
  qed
  show ?thesis unfolding sdap_reflective_mapping_def by (rule postR_intros(3)) (rule H)
qed

lemma data_ind_keeps:
  assumes "node_ok st" and "0 \<le> pdcp_entity" and "pdcp_entity \<le> int MAX_DRBS_PER_UE"
  shows "postR (keeps st) (sdap_data_ind env pdcp_entity is_gnb has_sdap_rx qfi s ue_id buf st)"
proof (cases "nr_sdap_get_entity (n_sdap st) ue_id s")
  case None
  then show ?thesis using keeps_refl [OF assms(1)] by (simp add: sdap_data_ind_def postR_def)
next
  case (Some k)
  then have k: "k < length (n_sdap st)" using get_entity_Some by blast
  have g: "postR (keeps st) (sdap_rx_gnb env e has_sdap_rx qfi s ue_id buf st)" for e
    using keeps_refl [OF assms(1)] by (auto simp: sdap_rx_gnb_def postR_def Let_def)
  have "postR (keeps st) (sdap_rx_ue env k (n_sdap st ! k) pdcp_entity qfi ue_id buf st)"
    unfolding sdap_rx_ue_def Let_def
    using reflective_keeps [OF assms(1) k assms(2,3)] keeps_refl [OF assms(1)]
    by (intro postR_intros) (auto simp: postR_def split: if_splits)
  then show ?thesis using Some g by (simp add: sdap_data_ind_def nr_sdap_rx_entity_def)
qed

section \<open>Reception and changes of bearers\<close>

lemma deliver_cb_keeps:
  assumes "node_ok st" and "rb_ok srb_flag i rb" and "i < MAX_DRBS_PER_UE"
  shows "postR (keeps st) (deliver_sdu_cb env ue_id srb_flag i rb sdu st)"
proof (cases srb_flag)
  case True
  then show ?thesis using keeps_refl [OF assms(1)]
    by (auto simp: deliver_sdu_cb_def deliver_sdu_srb_def postR_def bindR_eq_Inr)
next
  case False
  have "0 \<le> int i + 1" "int i + 1 \<le> int MAX_DRBS_PER_UE" "pe_rb_id rb = int i + 1" using assms(2,3) by (auto simp: rb_ok_def)
  then show ?thesis using False data_ind_keeps [OF assms(1), of "int i + 1"]
    by (simp add: deliver_sdu_cb_def deliver_sdu_drb_def Let_def)
qed

lemma run_rb_keeps:
  assumes "node_ok st" and "u < length (node_ues st)" and "i < MAX_DRBS_PER_UE" and "srb_flag \<longrightarrow> i < 3"
    and "\<And>e e'. f e = Inr e' \<Longrightarrow> same_rb e e'"
  shows "postR (keeps st) (run_rb env u srb_flag i f st)"
proof (cases "slot_of srb_flag i (node_ues st ! u)")
  case None
  then show ?thesis using keeps_refl [OF assms(1)] by (simp add: run_rb_def postR_def Let_def)
next
  case (Some rb)
  have "ue_ok (node_ues st ! u)" using assms(1,2) by (simp add: node_ok_def)
  then have rb: "rb_ok srb_flag i rb"
    using Some assms(3,4) by (cases srb_flag) (auto simp: ue_ok_def slots_ok_def slot_of_def)
  show ?thesis unfolding run_rb_def Let_def Some option.case
  proof (rule postR_intros(3))
    fix rb' assume "f rb = Inr rb'"
    then have "keeps st (store_ue u (set_rb (int i + 1) srb_flag (Some rb') (node_ues st ! u)) st)" (is "keeps st ?st")
      using rb assms(5) [of rb rb'] by (intro store_rb_keeps [OF assms(1,2)]) (simp add: rb_ok_same)
    moreover have "postR (keeps ?st) (foldR (deliver_sdu_cb env (pu_ue_id (node_ues st ! u)) srb_flag i rb) l ?st)" for l
      by (rule foldR_keeps) (use calculation keepsD deliver_cb_keeps [OF _ rb assms(3)] in blast)+
    ultimately show "postR (keeps st) (foldR (deliver_sdu_cb env (pu_ue_id (node_ues st ! u)) srb_flag i rb)
        (drop (length (pe_delivered rb)) (pe_delivered rb')) ?st)"
      using keeps_trans by (auto simp: postR_def)
  qed
qed

lemma with_rb_keeps:
  assumes "node_ok st" and "\<And>e e'. f e = Inr e' \<Longrightarrow> same_rb e e'"
  shows "postR (keeps st) (with_rb env ue_id rb_id srb_flag f st)"
proof -
  obtain u ue st1 where g: "node_ue st ue_id = (u, ue, st1)" by (metis prod_cases3)
  note G = node_ue_spec [OF assms(1) g]
  show ?thesis
  proof (cases "nr_pdcp_get_rb ue rb_id srb_flag")
    case None
    then show ?thesis using G(1) by (simp add: with_rb_def g postR_def)
  next
    case (Some rb)
    then obtain i where i: "nat (rb_id - 1) = i" "i < MAX_DRBS_PER_UE" "srb_flag \<longrightarrow> i < 2" using get_rb_ok [OF G(5)] by metis
    have "postR (keeps st1) (run_rb env u srb_flag i f st1)"
      by (rule run_rb_keeps [OF keepsD [OF G(1)] G(2) i(2)]) (use i(3) assms(2) in auto)
    then show ?thesis using Some i(1) G(1) keeps_trans by (auto simp: with_rb_def g postR_def)
  qed
qed

lemma timer_keeps:
  assumes "node_ok st"
  shows "postR (keeps st) (nr_pdcp_timer_round env now st)"
  unfolding nr_pdcp_timer_round_def
proof (rule foldR_keeps [OF _ assms])
  fix u s
  assume u: "u \<in> set [0 ..< nr_pdcp_manager_get_ue_count (n_pdcp st)]" and s: "keeps st s"
  have R: "postR (keeps a) (foldR (\<lambda>j. run_rb env u srb j (\<lambda>rb. Inr (nr_pdcp_entity_set_time rb now))) [0 ..< n] a)"
    if "keeps st a" "n \<le> 5" "srb \<longrightarrow> n \<le> 2" for a n srb
  proof (rule foldR_keeps [OF _ keepsD [OF that(1)]])
    fix j b assume j: "j \<in> set [0 ..< n]" and b: "keeps a b"
    show "postR (keeps b) (run_rb env u srb j (\<lambda>rb. Inr (nr_pdcp_entity_set_time rb now)) b)"
      by (rule run_rb_keeps [OF keepsD [OF b]])
         (use u j that b same_rb_set_time in \<open>auto simp: keeps_def nr_pdcp_manager_get_ue_count_def MAX_DRBS_PER_UE_def\<close>)
  qed
  show "postR (keeps s) (bindR (foldR (\<lambda>j. run_rb env u True j (\<lambda>rb. Inr (nr_pdcp_entity_set_time rb now))) [0 ..< 2] s)
      (foldR (\<lambda>j. run_rb env u False j (\<lambda>rb. Inr (nr_pdcp_entity_set_time rb now))) [0 ..< 5]))"
  proof (rule postR_keeps_bind)
    show "postR (keeps s) (foldR (\<lambda>j. run_rb env u True j (\<lambda>rb. Inr (nr_pdcp_entity_set_time rb now))) [0 ..< 2] s)"
      by (rule R [OF s]) simp_all
    fix s' assume "keeps s s'"
    then show "postR (keeps s') (foldR (\<lambda>j. run_rb env u False j (\<lambda>rb. Inr (nr_pdcp_entity_set_time rb now))) [0 ..< 5] s')"
      by (intro R keeps_trans [OF s]) simp_all
  qed
qed

section \<open>Adding and removing bearers\<close>

lemma new_entity_rb:
  assumes "new_nr_pdcp_entity ty g rb_id s rx tx sn t d p = Inr e"
  shows "pe_type e = ty" and "pe_rb_id e = rb_id"
  using same_rb_security [OF assms [unfolded new_nr_pdcp_entity_def]] by (simp_all add: same_rb_def)

lemma add_srb_keeps:
  assumes "node_ok st"
  shows "postR (keeps st) (add_srb is_gnb ue_id srb_id t p st)"
proof -
  obtain u ue st1 where g: "node_ue st ue_id = (u, ue, st1)" by (metis prod_cases3)
  note G = node_ue_spec [OF assms g]
  have "keeps st (store_ue u ue' st1)" if e: "new_nr_pdcp_entity NR_PDCP_SRB is_gnb srb_id 0 False False SHORT_SN_SIZE tt (-1) p = Inr e"
      and a: "nr_pdcp_ue_add_srb_pdcp_entity ue srb_id e = Inr ue'" for tt e ue'
  proof -
    obtain i where i: "srb_id = int i + 1" "i < 2" and ue': "ue' = set_rb (int i + 1) True (Some e) ue"
      using a by (auto simp: nr_pdcp_ue_add_srb_pdcp_entity_def set_rb_def split: if_splits intro: that [of "nat (srb_id - 1)"])
    show ?thesis unfolding ue' G(3) [symmetric]
      by (rule keeps_trans [OF G(1)], rule store_rb_keeps [OF keepsD [OF G(1)] G(2)])
         (use new_entity_rb [OF e] i in \<open>simp add: rb_ok_def\<close>)
  qed
  then show ?thesis using G(1) by (auto simp: add_srb_def g postR_def bindR_eq_Inr Let_def)
qed

lemma add_srbs_keeps: "node_ok st \<Longrightarrow> postR (keeps st) (nr_pdcp_add_srbs is_gnb ue_id l p st)"
  by (auto simp: nr_pdcp_add_srbs_def keeps_refl postR_intros(1) split: option.split intro!: foldR_keeps add_srb_keeps keepsD)

lemma add_drb_keeps:
  assumes "node_ok st"
  shows "postR (keeps st) (nr_pdcp_add_drb is_gnb ue_id c sdap p st)"
proof -
  obtain u ue st1 where g: "node_ue st ue_id = (u, ue, st1)" by (metis prod_cases3)
  note G = node_ue_spec [OF assms g]
  let ?d = "sc_drb_id sdap"
  have K: "keeps st (store_ue u ue' st1)" if e: "new_nr_pdcp_entity NR_PDCP_DRB_AM is_gnb ?d s rx tx sn t d q = Inr e"
      and a: "nr_pdcp_ue_add_drb_pdcp_entity ue ?d e = Inr ue'" for s rx tx sn t d q e ue'
  proof -
    obtain i where i: "?d = int i + 1" "i < MAX_DRBS_PER_UE" and ue': "ue' = set_rb (int i + 1) False (Some e) ue"
      using a by (auto simp: nr_pdcp_ue_add_drb_pdcp_entity_def set_rb_def split: if_splits intro: that [of "nat (?d - 1)"])
    show ?thesis unfolding ue' G(3) [symmetric]
      by (rule keeps_trans [OF G(1)], rule store_rb_keeps [OF keepsD [OF G(1)] G(2)])
         (use new_entity_rb [OF e] i in \<open>simp add: rb_ok_def\<close>)
  qed
  show ?thesis
  proof (cases "pc_drb c")
    case None
    then show ?thesis using keeps_refl [OF assms] by (simp add: nr_pdcp_add_drb_def postR_def)
  next
    case (Some drb)
    show ?thesis unfolding nr_pdcp_add_drb_def Some option.case g Let_def prod.case
      by (intro postR_intros) (use G(1) K in auto)
  qed
qed

lemma release_srb_keeps:
  assumes "node_ok st"
  shows "postR (keeps st) (nr_pdcp_release_srb ue_id srb_id st)"
proof -
  obtain u ue st1 where g: "node_ue st ue_id = (u, ue, st1)" by (metis prod_cases3)
  note G = node_ue_spec [OF assms g]
  have "keeps st1 (store_ue u (set_rb (int i + 1) True None ue) st1)" for i
    using store_rb_keeps [OF keepsD [OF G(1)] G(2), of None True i] by (simp add: G(3))
  from keeps_trans [OF G(1) this [of "nat (srb_id - 1)"]] show ?thesis
    by (auto simp: nr_pdcp_release_srb_def g postR_def)
qed

end
