(* ===== verification/Node_Reach.thy ===== *)
theory Node_Reach
  imports Node_Inv
begin

unbundle bit_operations_syntax

text \<open>
  All operations of a node above RLC as one step relation, and that the nodes it reaches are well-formed.
\<close>

section \<open>Configuration of SDAP\<close>

lemma qos_flows_ok:
  assumes "sdap_ok e"
  shows "postR (\<lambda>e'. sdap_ok e' \<and> session e' = session e) (nr_sdap_add_qos_flows_to_drb sdap e)"
    and "postR (\<lambda>e'. sdap_ok e' \<and> session e' = session e) (nr_sdap_rm_qos_flows_from_drb sdap e)"
proof -
  let ?I = "\<lambda>e'. sdap_ok e' \<and> session e' = session e"
  have i: "?I e" using assms by simp
  have d: "uint (word_of_int d :: u8) = d" if "0 < d" "d \<le> int MAX_DRBS_PER_UE" for d
    using that by (simp add: MAX_DRBS_PER_UE_def uint_word_of_int take_bit_int_eq_self)
  show "postR ?I (nr_sdap_add_qos_flows_to_drb sdap e)"
    unfolding nr_sdap_add_qos_flows_to_drb_def postR_def
  proof (intro allI impI, erule foldR_invariant [where I = ?I, rotated 2])
    fix q a a' assume "?I a" and "(let qfi = (word_of_int q :: u8) in
        if unat qfi < SDAP_MAX_QFI \<and> sc_drb_id sdap > 0 \<and> sc_drb_id sdap \<le> int MAX_DRBS_PER_UE
        then nr_sdap_qfi2drb_map_add a qfi (word_of_int (sc_drb_id sdap)) (word_of_int (sc_role sdap)) else Inr a) = Inr a'"
    then show "?I a'" using d table_set_ok [of a _ _ a']
      by (auto simp: Let_def nr_sdap_qfi2drb_map_add_def split: if_splits)
  qed (rule i)
  show "postR ?I (nr_sdap_rm_qos_flows_from_drb sdap e)"
    unfolding nr_sdap_rm_qos_flows_from_drb_def postR_def
  proof (intro allI impI, erule foldR_invariant [where I = ?I, rotated 2])
    fix q a a' assume "?I a" and "nr_sdap_qfi2drb_map_del a (word_of_int q) = Inr a'"
    then show "?I a'" using table_set_ok [of a "word_of_int q" _ a']
      by (auto simp: nr_sdap_qfi2drb_map_del_def MAX_DRBS_PER_UE_def)
  qed (rule i)
qed

lemma control_config_keeps:
  assumes "node_ok st"
  shows "postR (keeps_sdap st) (nr_sdap_ue_control_pdu_config env e ue_id sdap st)"
  unfolding nr_sdap_ue_control_pdu_config_def
proof (rule foldR_postR [where K = keeps_sdap])
  have R: "postR (keeps_sdap s) (Inr s)" if "node_ok s" for s using keeps_refl [OF that] by (simp add: postR_def)
  fix a s assume "keeps_sdap st s"
  then have s: "node_ok s" using keepsD by blast
  let ?q = "word_of_int a :: u8"
  have 1: "postR (keeps_sdap s) (if sd_default_drb e \<noteq> 0 then bindR (table_at e ?q) (\<lambda>q.
       if q_drb_id q = 0 then end_marker env e ue_id SDAP_CTRL_PDU_MAP_DEF_DRB ?q s else Inr s) else Inr s)"
    by (intro postR_intros(3,4) end_marker_keeps R s)
  have 2: "postR (keeps_sdap s') (bindR (table_at e ?q) (\<lambda>q. if q_drb_id q \<noteq> sc_drb_id sdap \<and> has_role (q_entity_role q) SDAP_UL_TX
        then end_marker env e ue_id SDAP_CTRL_PDU_MAP_RULE_DRB ?q s' else Inr s'))" if "keeps_sdap s s'" for s'
    by (intro postR_intros(3,4) end_marker_keeps R keepsD [of s]) (use that in auto)
  show "postR (keeps_sdap s) (let qfi = word_of_int a in
        bindR (if sd_default_drb e \<noteq> 0
               then bindR (table_at e qfi) (\<lambda>q.
                      if q_drb_id q = 0 then end_marker env e ue_id SDAP_CTRL_PDU_MAP_DEF_DRB qfi s else Inr s)
               else Inr s) (\<lambda>st1.
        bindR (table_at e qfi) (\<lambda>q.
          if q_drb_id q \<noteq> sc_drb_id sdap \<and> has_role (q_entity_role q) SDAP_UL_TX
          then end_marker env e ue_id SDAP_CTRL_PDU_MAP_RULE_DRB qfi st1 else Inr st1)))"
    unfolding Let_def by (rule keeps_sdap_bind [OF 1 2])
qed (use assms keeps_refl keeps_trans in \<open>auto simp: keeps_def\<close>)

lemma map_update_keeps:
  assumes "node_ok st" and "k < length (n_sdap st)"
  shows "postR (keeps st) (nr_sdap_qfi2drb_map_update env k sdap st)"
  unfolding nr_sdap_qfi2drb_map_update_def Let_def
proof (intro postR_intros)
  fix st1 e1 e2
  assume 1: "(if \<not> sd_is_gnb (n_sdap st ! k) then nr_sdap_ue_control_pdu_config env (n_sdap st ! k) (sd_ue_id (n_sdap st ! k)) sdap st
      else Inr st) = Inr st1"
    and e1: "nr_sdap_add_qos_flows_to_drb sdap (n_sdap st ! k) = Inr e1" and e2: "nr_sdap_rm_qos_flows_from_drb sdap e1 = Inr e2"
  have k1: "keeps_sdap st st1"
    using 1 control_config_keeps [OF assms(1)] keeps_refl [OF assms(1)] by (auto simp: postR_def split: if_splits)
  have "sdap_ok (n_sdap st ! k)" using assms by (simp add: node_ok_def)
  from qos_flows_ok(1) [OF this] have "sdap_ok e1" "session e1 = session (n_sdap st ! k)" using e1 by (auto simp: postR_def)
  with qos_flows_ok(2) [of e1 sdap] e2 have "sdap_ok e2" "session e2 = session (n_sdap st ! k)" by (auto simp: postR_def)
  then have "keeps st1 (set_sdap k e2 st1)" using k1 assms(2) keepsD by (intro set_sdap_keeps) auto
  then show "keeps st (set_sdap k e2 st1)" using k1 keeps_trans by blast
qed

lemma sdap_ok_new: "sdap_ok (new_sdap_entity g ue_id sdap)" "session (new_sdap_entity g ue_id sdap) = (ue_id, sc_pdusession_id sdap)"
  by (auto simp: sdap_ok_def new_sdap_entity_def session_def MAX_DRBS_PER_UE_def)

lemma set_sock_keeps:
  assumes "node_ok st" and "nr_sdap_get_entity (n_sdap st) ue_id s = Some k"
  shows "keeps st (set_sdap k ((n_sdap st ! k)\<lparr>sd_pdusession_sock := fd\<rparr>) st)"
    and "keeps st (set_sdap k ((n_sdap st ! k)\<lparr>sd_pdusession_sock := fd, sd_stop_thread := b\<rparr>) st)"
    and "keeps st (set_sdap k ((n_sdap st ! k)\<lparr>sd_qfi := q\<rparr>) st)"
proof -
  have k: "k < length (n_sdap st)" using get_entity_Some [OF assms(2)] by simp
  then have "sdap_ok (n_sdap st ! k)" using assms(1) by (simp add: node_ok_def)
  then show "keeps st (set_sdap k ((n_sdap st ! k)\<lparr>sd_pdusession_sock := fd\<rparr>) st)"
    "keeps st (set_sdap k ((n_sdap st ! k)\<lparr>sd_pdusession_sock := fd, sd_stop_thread := b\<rparr>) st)"
    "keeps st (set_sdap k ((n_sdap st ! k)\<lparr>sd_qfi := q\<rparr>) st)"
    by (auto intro!: set_sdap_keeps [OF assms(1) k] simp: sdap_ok_def session_def)
qed

lemma start_tun_keeps:
  assumes "node_ok st"
  shows "postR (keeps st) (start_sdap_tun_gnb_first_ue_default_pdu_session env fd ue_id st)"
    and "postR (keeps st) (start_sdap_tun_ue ue_id s fd st)" and "postR (keeps st) (set_qfi q p ue_id st)"
  using set_sock_keeps [OF assms]
  by (auto simp: start_sdap_tun_gnb_first_ue_default_pdu_session_def start_sdap_tun_ue_def set_qfi_def postR_def Let_def
      split: option.splits)

lemma addmod_keeps:
  assumes "node_ok st"
  shows "postR (keeps st) (nr_sdap_addmod_entity env fd is_gnb ue_id sdap st)"
proof (cases "nr_sdap_get_entity (n_sdap st) ue_id (sc_pdusession_id sdap)")
  case (Some k)
  then show ?thesis using map_update_keeps [OF assms] get_entity_Some [OF Some] by (simp add: nr_sdap_addmod_entity_def)
next
  case None
  have "postR (keeps st) (nr_sdap_add_entity env fd is_gnb ue_id sdap st)"
    unfolding nr_sdap_add_entity_def
  proof (rule postR_intros(3))
    fix e assume "nr_sdap_add_qos_flows_to_drb sdap (new_sdap_entity is_gnb ue_id sdap) = Inr e"
    then have e: "sdap_ok e" "session e = (ue_id, sc_pdusession_id sdap)"
      using qos_flows_ok(1) [OF sdap_ok_new(1)] sdap_ok_new(2) by (auto simp: postR_def)
    let ?st = "st\<lparr>n_sdap := e # n_sdap st\<rparr>"
    have k: "keeps st ?st" using None e assms by (auto simp: keeps_def node_ok_def get_entity_None)
    have "postR (keeps ?st) (start_sdap_tun_gnb_first_ue_default_pdu_session env fd ue_id ?st)"
      by (rule start_tun_keeps [OF keepsD [OF k]])
    then show "postR (keeps st) (let st1 = ?st in if le_nos1 env \<and> is_gnb
        then start_sdap_tun_gnb_first_ue_default_pdu_session env fd ue_id st1 else Inr st1)"
      using k keeps_trans by (auto simp: postR_def Let_def)
  qed
  then show ?thesis using None by (simp add: nr_sdap_addmod_entity_def)
qed

lemma reconfigure_sdap_keeps:
  assumes "node_ok st"
  shows "postR (keeps st) (nr_reconfigure_sdap_entity env c ue_id s drb_id st)"
  using map_update_keeps [OF assms] get_entity_Some keeps_refl [OF assms]
  by (auto simp: nr_reconfigure_sdap_entity_def postR_intros split: option.split intro!: postR_intros(3))

lemma sdap_release_keeps:
  assumes "node_ok st"
  shows "keeps st (nr_sdap_release_drb ue_id drb_id s st)" and "node_ues (nr_sdap_release_drb ue_id drb_id s st) = node_ues st"
proof -
  show "node_ues (nr_sdap_release_drb ue_id drb_id s st) = node_ues st"
    by (auto simp: nr_sdap_release_drb_def set_sdap_def Let_def split: option.split)
  show "keeps st (nr_sdap_release_drb ue_id drb_id s st)"
  proof (cases "nr_sdap_get_entity (n_sdap st) ue_id s")
    case None
    then show ?thesis using keeps_refl [OF assms] by (simp add: nr_sdap_release_drb_def)
  next
    case (Some k)
    then have k: "k < length (n_sdap st)" using get_entity_Some by blast
    then have "sdap_ok (n_sdap st ! k)" using assms by (simp add: node_ok_def)
    then show ?thesis using Some
      by (auto simp: nr_sdap_release_drb_def Let_def sdap_ok_def session_def MAX_DRBS_PER_UE_def
          intro!: set_sdap_keeps [OF assms k])
  qed
qed

lemma release_drb_keeps:
  assumes "node_ok st"
  shows "postR (keeps st) (nr_pdcp_release_drb env ue_id drb_id st)"
proof -
  obtain u ue st1 where g: "node_ue st ue_id = (u, ue, st1)" by (metis prod_cases3)
  note G = node_ue_spec [OF assms g]
  let ?i = "nat (drb_id - 1)" and ?s = "\<lambda>drb. nr_sdap_release_drb ue_id drb_id (pe_pdusession_id drb) st1"
  have "keeps st (store_ue u (set_rb drb_id False None (node_ues st2 ! u)) st2)"
    if r: "1 \<le> drb_id" "drb_id \<le> int (length (pu_drb ue))"
      and s: "run_rb env u False ?i (\<lambda>rb. Inr (nr_pdcp_entity_release rb)) (?s drb) = Inr st2" for drb st2
  proof -
    have k: "keeps st (?s drb)" using keeps_trans [OF G(1) sdap_release_keeps(1) [OF keepsD [OF G(1)]]] .
    have "?i < MAX_DRBS_PER_UE" using r G(5) by (auto simp: ue_ok_def slots_ok_def)
    then have "keeps (?s drb) st2"
      using s run_rb_keeps [OF keepsD [OF k], of u ?i False "\<lambda>rb. Inr (nr_pdcp_entity_release rb)" env] same_rb_release G(2)
      by (auto simp: postR_def sdap_release_keeps(2) [OF keepsD [OF G(1)]])
    then have k2: "keeps st st2" "u < length (node_ues st2)"
      using k G(2) keeps_trans by (auto simp: keeps_def sdap_release_keeps(2) [OF keepsD [OF G(1)]])
    have "drb_id = int ?i + 1" using r by simp
    then show ?thesis using keeps_trans [OF k2(1) store_rb_keeps [OF keepsD [OF k2(1)] k2(2), of None False ?i]] by simp
  qed
  then show ?thesis using G(1)
    by (auto simp: nr_pdcp_release_drb_def g postR_def bindR_eq_Inr split: option.splits)
qed

section \<open>Deletion\<close>

lemma delete_loop_spec:
  "delete_entity_loop n ue_id s e rest = Some (d, l) \<Longrightarrow> \<exists>xs ys. e # rest = xs @ d # ys \<and> l = xs @ ys \<and> is_session ue_id s d"
proof (induction n ue_id s e rest arbitrary: d l rule: delete_entity_loop.induct)
  case (1 n ue_id s e rest)
  show ?case
  proof (cases "is_session ue_id s e")
    case True
    then show ?thesis using "1.prems" by (subst (asm) delete_entity_loop.simps) (auto intro: exI [of _ "[]"])
  next
    case False
    then obtain e' r' l' where r: "rest = e' # r'" "n < SDAP_MAX_NUM_OF_ENTITIES"
      "delete_entity_loop (n + 1) ue_id s e' r' = Some (d, l')" "l = e # l'"
      using "1.prems" by (subst (asm) delete_entity_loop.simps) (auto split: list.splits if_splits)
    from "1.IH" [OF False r(1,2,3)] obtain xs ys where "e' # r' = xs @ d # ys" "l' = xs @ ys" "is_session ue_id s d" by blast
    then show ?thesis using r by (intro exI [of _ "e # xs"] exI [of _ ys]) auto
  qed
qed

lemma delete_sublist:
  assumes "nr_sdap_delete_entity es ue_id s = Inr (d, l)"
  shows "\<exists>xs ys zs. es = xs @ ys @ zs \<and> l = xs @ zs"
proof (cases es)
  case Nil
  then show ?thesis using assms by (auto simp: nr_sdap_delete_entity_def split: if_splits)
next
  case (Cons e rest)
  show ?thesis
  proof (cases "delete_entity_loop 0 ue_id s e rest")
    case None
    then have "l = es" using assms Cons by (simp add: nr_sdap_delete_entity_def)
    then show ?thesis by (intro exI [of _ "[]"] exI [of _ es]) simp
  next
    case (Some r)
    then obtain d' where r: "r = (d', l)" using assms Cons by (cases r) (auto simp: nr_sdap_delete_entity_def)
    obtain xs ys where "e # rest = xs @ d' # ys" "l = xs @ ys" using delete_loop_spec [OF Some [unfolded r]] by blast
    then show ?thesis using Cons by (intro exI [of _ xs] exI [of _ "[d']"] exI [of _ ys]) simp
  qed
qed

lemma delete_ue_filter:
  "delete_ue_head ue_id es = (d, l) \<Longrightarrow> delete_ue_rest ue_id l = (d', l') \<Longrightarrow> l' = filter (\<lambda>e. sd_ue_id e \<noteq> ue_id) es"
proof -
  have r: "snd (delete_ue_rest ue_id l) = filter (\<lambda>e. sd_ue_id e \<noteq> ue_id) l" for l
    by (induction l) (auto simp: Let_def split: prod.split)
  have "filter (\<lambda>e. sd_ue_id e \<noteq> ue_id) (snd (delete_ue_head ue_id es)) = filter (\<lambda>e. sd_ue_id e \<noteq> ue_id) es"
    by (induction es) (auto simp: Let_def split: prod.split)
  then show "delete_ue_head ue_id es = (d, l) \<Longrightarrow> delete_ue_rest ue_id l = (d', l') \<Longrightarrow> l' = filter (\<lambda>e. sd_ue_id e \<noteq> ue_id) es"
    using r [of l] by simp
qed

lemma close_sdap_frame: "n_sdap (close_sdap l st) = n_sdap st" "n_pdcp (close_sdap l st) = n_pdcp st"
  by (induction l arbitrary: st) (auto simp: close_sdap_def remove_ip_if_def emit_def)

lemma node_ok_close: "node_ok (close_sdap l st) \<longleftrightarrow> node_ok st"
  by (simp add: node_ok_def close_sdap_frame)

lemma delete_entity_ok:
  assumes "node_ok st" and "sdap_delete_entity ue_id s st = Inr (b, st')"
  shows "node_ok st'"
proof -
  obtain d es where d: "nr_sdap_delete_entity (n_sdap st) ue_id s = Inr (d, es)"
    and st': "st' = close_sdap (case d of None \<Rightarrow> [] | Some e \<Rightarrow> [e]) (st\<lparr>n_sdap := es\<rparr>)"
    using assms(2) by (auto simp: sdap_delete_entity_def bindR_eq_Inr)
  from delete_sublist [OF d] have "distinct (map session es) \<and> (\<forall>e \<in> set es. sdap_ok e)"
    using assms(1) unfolding node_ok_def by (elim exE conjE) (simp, blast)
  then show ?thesis using assms(1) by (simp add: st' node_ok_close) (simp add: node_ok_def)
qed

lemma delete_ue_ok:
  assumes "node_ok st" and "sdap_delete_ue_entities ue_id st = (b, st')"
  shows "node_ok st'"
proof -
  obtain d es where d: "nr_sdap_delete_ue_entities (n_sdap st) ue_id = (b, d, es)" "st' = close_sdap d (st\<lparr>n_sdap := es\<rparr>)"
    using assms(2) by (auto simp: sdap_delete_ue_entities_def split: prod.splits)
  then have "es = filter (\<lambda>e. sd_ue_id e \<noteq> ue_id) (n_sdap st) \<or> es = n_sdap st"
    using delete_ue_filter by (auto simp: nr_sdap_delete_ue_entities_def Let_def split: prod.splits if_splits)
  then show ?thesis using assms(1) by (auto simp: d(2) node_ok_close) (auto simp: node_ok_def distinct_map_filter)
qed

lemma remove_ue_ok:
  assumes "node_ok st" and "nr_pdcp_remove_UE ue_id st = (d, st')"
  shows "node_ok st'"
proof -
  obtain m where m: "nr_pdcp_manager_remove_ue (n_pdcp st) ue_id = (d, m)" "st' = st\<lparr>n_pdcp := m\<rparr>"
    using assms(2) by (auto simp: nr_pdcp_remove_UE_def split: prod.splits)
  have "pdcp_ues.unique (n_pdcp st)" using assms(1) by (simp add: node_ok_def pdcp_ues.unique_def)
  from pdcp_ues.remove_ue_spec(1) [OF this, of ue_id] have "distinct (map pu_ue_id (pm_ue_list m))"
    by (simp add: m(1) pdcp_ues.unique_def)
  moreover have "set (pm_ue_list m) \<subseteq> set (node_ues st)"
    using m(1) by (auto simp: nr_pdcp_manager_remove_ue_def Let_def split: option.splits dest: in_set_takeD in_set_dropD)
  ultimately show ?thesis using assms(1) by (auto simp: m(2) node_ok_def)
qed

section \<open>Steps of a node\<close>

inductive node_step :: "l2_env \<Rightarrow> l2_node \<Rightarrow> l2_node \<Rightarrow> bool" for env where
  data_req_drb: "nr_pdcp_data_req_drb env ctxt srb_flag rb_id mui sdu st = Inr (b, st') \<Longrightarrow> node_step env st st'"
| data_req_srb: "nr_pdcp_data_req_srb env ue_id rb_id mui sdu deliver_pdu_srb_rlc st = Inr (b, st') \<Longrightarrow> node_step env st st'"
| sdap_req: "sdap_data_req env ctxt ue_id srb_flag mui sdu_buffer qfi rqi s st = Inr (b, st') \<Longrightarrow> node_step env st st'"
| tun_read: "sdap_tun_read env e rx_buf st = Inr (b, st') \<Longrightarrow> node_step env st st'"
| data_ind: "do_pdcp_data_ind env ctxt srb_flag rb_id buf st = Inr st' \<Longrightarrow> node_step env st st'"
| timer: "nr_pdcp_timer_round env curtime st = Inr st' \<Longrightarrow> node_step env st st'"
| add_srbs: "nr_pdcp_add_srbs is_gnb ue_id l security st = Inr st' \<Longrightarrow> node_step env st st'"
| add_drb: "nr_pdcp_add_drb is_gnb ue_id pdcp sdap security st = Inr st' \<Longrightarrow> node_step env st st'"
| remove: "nr_pdcp_remove_UE ue_id st = (d, st') \<Longrightarrow> node_step env st st'"
| set_security: "nr_pdcp_config_set_security env ue_id rb_id is_srb security st = Inr st' \<Longrightarrow> node_step env st st'"
| suspend_srb: "nr_pdcp_suspend_srb env ue_id rb_id st = Inr st' \<Longrightarrow> node_step env st st'"
| suspend_drb: "nr_pdcp_suspend_drb env ue_id rb_id st = Inr st' \<Longrightarrow> node_step env st st'"
| reconfigure_srb: "nr_pdcp_reconfigure_srb env ue_id rb_id t st = Inr st' \<Longrightarrow> node_step env st st'"
| reconfigure_drb: "nr_pdcp_reconfigure_drb env ue_id rb_id c st = Inr st' \<Longrightarrow> node_step env st st'"
| release_srb: "nr_pdcp_release_srb ue_id rb_id st = Inr st' \<Longrightarrow> node_step env st st'"
| release_drb: "nr_pdcp_release_drb env ue_id rb_id st = Inr st' \<Longrightarrow> node_step env st st'"
| reestablish: "nr_pdcp_reestablishment env ue_id rb_id srb_flag security st = Inr st' \<Longrightarrow> node_step env st st'"
| count_update: "nr_pdcp_count_update env ue_id rb_id dl ul n st = Inr st' \<Longrightarrow> node_step env st st'"
| addmod: "nr_sdap_addmod_entity env fd is_gnb ue_id sdap st = Inr st' \<Longrightarrow> node_step env st st'"
| reconfigure_sdap: "nr_reconfigure_sdap_entity env config ue_id s drb_id st = Inr st' \<Longrightarrow> node_step env st st'"
| start_tun: "start_sdap_tun_ue ue_id s sock st = Inr st' \<Longrightarrow> node_step env st st'"
| qfi: "set_qfi q p ue_id st = Inr st' \<Longrightarrow> node_step env st st'"
| delete_entity: "sdap_delete_entity ue_id s st = Inr (b, st') \<Longrightarrow> node_step env st st'"
| delete_ue: "sdap_delete_ue_entities ue_id st = (b, st') \<Longrightarrow> node_step env st st'"
| f1_add: "cu_add_f1_ue_data st cu_id du_id = (b, st') \<Longrightarrow> node_step env st st'"
| f1_update: "cu_update_f1_ue_data st cu_id du_id = Inr st' \<Longrightarrow> node_step env st st'"
| f1_remove: "cu_remove_f1_ue_data st cu_id = (b, st') \<Longrightarrow> node_step env st st'"

definition node_init :: l2_node where
  "node_init = \<lparr> n_pdcp = new_nr_pdcp_ue_manager True, n_sdap = [], n_cu2du = (\<lambda>_. None), n_out = [] \<rparr>"

inductive node_reach :: "l2_env \<Rightarrow> l2_node \<Rightarrow> bool" for env where
  init: "node_reach env node_init"
| step: "node_reach env st \<Longrightarrow> node_step env st st' \<Longrightarrow> node_reach env st'"

lemma tx_entity_keeps:
  assumes "node_ok st"
  shows "postR (\<lambda>(b, st'). keeps st st') (nr_sdap_tx_entity env e ctxt srb_flag mui sdu_buffer qfi rqi st)"
proof (cases sdu_buffer)
  case (Some sdu)
  have D: "postR (\<lambda>(b, st'). keeps st st') (nr_pdcp_data_req_drb env ctxt srb_flag rb_id mui sdu' st)" for rb_id sdu'
    by (rule postR_mono [OF data_req_drb_keeps [OF assms]]) auto
  have F: "postR (\<lambda>(b, st'). keeps st st') (Inr (False, st))" using keeps_refl [OF assms] by (simp add: postR_def)
  show ?thesis unfolding nr_sdap_tx_entity_def Some option.case Let_def by (intro postR_intros(2-4) D F)
qed (simp add: nr_sdap_tx_entity_def postR_def)

lemma with_rb_ops_keep:
  assumes "node_ok st"
  shows "postR (keeps st) (nr_pdcp_config_set_security env ue_id rb_id is_srb security st)"
    and "postR (keeps st) (nr_pdcp_suspend_srb env ue_id rb_id st)" and "postR (keeps st) (nr_pdcp_suspend_drb env ue_id rb_id st)"
    and "postR (keeps st) (nr_pdcp_reconfigure_srb env ue_id rb_id t st)" and "postR (keeps st) (nr_pdcp_reconfigure_drb env ue_id rb_id c st)"
    and "postR (keeps st) (nr_pdcp_reestablishment env ue_id rb_id srb_flag security st)"
    and "postR (keeps st) (nr_pdcp_count_update env ue_id rb_id dl ul n st)"
    and "postR (keeps st) (do_pdcp_data_ind env ctxt srb_flag rb_id buf st)"
proof -
  note W = with_rb_keeps [OF assms]
  show "postR (keeps st) (nr_pdcp_config_set_security env ue_id rb_id is_srb security st)"
    unfolding nr_pdcp_config_set_security_def by (rule W) (rule same_rb_security)
  show "postR (keeps st) (nr_pdcp_suspend_srb env ue_id rb_id st)" "postR (keeps st) (nr_pdcp_suspend_drb env ue_id rb_id st)"
    unfolding nr_pdcp_suspend_srb_def nr_pdcp_suspend_drb_def by (rule W; use same_rb_suspend in force)+
  show "postR (keeps st) (nr_pdcp_reconfigure_srb env ue_id rb_id t st)"
    unfolding nr_pdcp_reconfigure_srb_def by (rule W) (auto simp: same_rb_def elim!: bindR_InrE)
  show "postR (keeps st) (nr_pdcp_reconfigure_drb env ue_id rb_id c st)"
    unfolding nr_pdcp_reconfigure_drb_def by (rule W) (auto intro: same_rb_reconfigure split: option.splits)
  show "postR (keeps st) (nr_pdcp_reestablishment env ue_id rb_id srb_flag security st)"
    unfolding nr_pdcp_reestablishment_def by (rule W) (rule same_rb_reestablish)
  show "postR (keeps st) (nr_pdcp_count_update env ue_id rb_id dl ul n st)"
    unfolding nr_pdcp_count_update_def by (rule W) (use same_rb_counts in force)
  show "postR (keeps st) (do_pdcp_data_ind env ctxt srb_flag rb_id buf st)"
    unfolding do_pdcp_data_ind_def by (intro postR_intros(2,4) W) (rule same_rb_recv)
qed

lemma step_ok:
  "postR (keeps st) m \<Longrightarrow> m = Inr st' \<Longrightarrow> node_ok st'"
  "postR (\<lambda>(b, st'). keeps st st') m' \<Longrightarrow> m' = Inr (c, st') \<Longrightarrow> node_ok st'"
  by (auto simp: postR_def keeps_def)

lemma sdap_req_keeps:
  assumes "node_ok st"
  shows "postR (\<lambda>(b, st'). keeps st st') (sdap_data_req env ctxt ue_id srb_flag mui sdu_buffer qfi rqi s st)"
proof (cases "nr_sdap_get_entity (n_sdap st) ue_id s")
  case None
  then show ?thesis using keeps_refl [OF assms] by (simp add: sdap_data_req_def postR_def)
next
  case (Some k)
  then show ?thesis using tx_entity_keeps [OF assms] by (simp add: sdap_data_req_def)
qed

lemma srb_req_keeps:
  assumes "node_ok st"
  shows "postR (\<lambda>(b, st'). keeps st st') (nr_pdcp_data_req_srb env ue_id rb_id mui sdu deliver_pdu_srb_rlc st)"
proof (rule data_req_srb_keeps [OF assms])
  show "postR (keeps s) (deliver_pdu_srb_rlc s ue_id rb_id p mui)" if "node_ok s" for s p
    using keeps_refl [OF that] by (simp add: deliver_pdu_srb_rlc_def postR_def)
qed

lemma f1_ids_ok:
  assumes "node_ok st"
  shows "cu_add_f1_ue_data st c d = (b, st') \<Longrightarrow> node_ok st'" and "cu_update_f1_ue_data st c d = Inr st' \<Longrightarrow> node_ok st'"
    and "cu_remove_f1_ue_data st c = (b, st') \<Longrightarrow> node_ok st'"
  using assms by (auto simp: cu_add_f1_ue_data_def cu_update_f1_ue_data_def cu_remove_f1_ue_data_def node_ok_def split: if_splits)

lemma node_step_ok:
  assumes "node_step env st st'" and ok: "node_ok st"
  shows "node_ok st'"
  using assms(1)
proof cases
  case data_req_drb
  then show ?thesis using data_req_drb_keeps [OF ok] by (fastforce simp: postR_def keeps_def)
next
  case data_req_srb
  then show ?thesis by (rule step_ok(2) [OF srb_req_keeps [OF ok]])
next
  case sdap_req
  then show ?thesis by (rule step_ok(2) [OF sdap_req_keeps [OF ok]])
next
  case tun_read
  then show ?thesis unfolding sdap_tun_read_def by (rule step_ok(2) [OF tx_entity_keeps [OF ok]])
next
  case add_srbs
  then show ?thesis by (rule step_ok(1) [OF add_srbs_keeps [OF ok]])
qed (erule step_ok(1) [OF with_rb_ops_keep(1) [OF ok]] step_ok(1) [OF with_rb_ops_keep(2) [OF ok]]
      step_ok(1) [OF with_rb_ops_keep(3) [OF ok]] step_ok(1) [OF with_rb_ops_keep(4) [OF ok]]
      step_ok(1) [OF with_rb_ops_keep(5) [OF ok]] step_ok(1) [OF with_rb_ops_keep(6) [OF ok]]
      step_ok(1) [OF with_rb_ops_keep(7) [OF ok]] step_ok(1) [OF with_rb_ops_keep(8) [OF ok]]
      step_ok(1) [OF timer_keeps [OF ok]] step_ok(1) [OF add_drb_keeps [OF ok]]
      step_ok(1) [OF release_srb_keeps [OF ok]] step_ok(1) [OF release_drb_keeps [OF ok]]
      step_ok(1) [OF addmod_keeps [OF ok]] step_ok(1) [OF reconfigure_sdap_keeps [OF ok]]
      step_ok(1) [OF start_tun_keeps(2) [OF ok]] step_ok(1) [OF start_tun_keeps(3) [OF ok]]
      delete_entity_ok [OF ok] delete_ue_ok [OF ok] remove_ue_ok [OF ok] f1_ids_ok [OF ok])+

lemma node_reach_ok: "node_reach env st \<Longrightarrow> node_ok st"
proof (induction rule: node_reach.induct)
  case init
  then show ?case by (simp add: node_init_def node_ok_def new_nr_pdcp_ue_manager_def)
qed (rule node_step_ok)

end
