(* ===== verification/Node_Link.thy ===== *)
theory Node_Link
  imports Node_Inv Pdcp_Props
begin

unbundle bit_operations_syntax

text \<open>
  Two nodes, one of them a gNB and the other one a UE, with SDAP and PDCP of both: an IP packet given to
  SDAP on one side leaves SDAP on the other side. RLC and the queues between them hand over the PDUs of
  PDCP in the order in which they are requested.
\<close>

section \<open>Bearers of a node\<close>

definition drb_of :: "l2_node \<Rightarrow> u64 \<Rightarrow> int \<Rightarrow> nr_pdcp_entity_t option" where
  "drb_of st ue_id rb_id =
     (case ue_map pu_ue_id (node_ues st) ue_id of None \<Rightarrow> None | Some ue \<Rightarrow> nr_pdcp_get_rb ue rb_id False)"

lemma drb_of_same: "node_ues st' = node_ues st \<Longrightarrow> drb_of st' k d = drb_of st k d"
  by (simp add: drb_of_def)

lemma node_ue_drb:
  assumes "node_ok st" and "drb_of st k d = Some e" and "node_ue st k = (u, ue, st1)"
  shows "nr_pdcp_get_rb ue d False = Some e" and "node_ok st1" and "u < length (node_ues st1)" and "node_ues st1 ! u = ue"
    and "pu_ue_id ue = k" and "ue_ok ue"
  using node_ue_spec [OF assms(1,3)] assms(2)
  by (auto simp: drb_of_def keeps_def pdcp_ues.found_def split: option.splits)

lemma store_drb:
  assumes "node_ok st" and "drb_of st k d = Some e" and "node_ue st k = (u, ue, st1)" and "same_rb e e'"
  defines "st2 \<equiv> store_ue u (set_rb d False (Some e') ue) st1"
  shows "node_ok st2" and "drb_of st2 k d = Some e'"
    and "n_sdap st2 = n_sdap st" and "n_out st2 = n_out st" and "n_cu2du st2 = n_cu2du st"
proof -
  note U = node_ue_drb [OF assms(1-3)]
  obtain i where i: "d = int i + 1" "nat (d - 1) = i" "rb_ok False i e" "i < MAX_DRBS_PER_UE"
    using get_rb_ok [OF U(6,1)] by metis
  have "rb_ok False i e'" using i(3) assms(4) by (simp add: rb_ok_same)
  then show "node_ok st2"
    using store_rb_keeps [OF U(2,3), of "Some e'" False i] i(1) by (simp add: st2_def keeps_def U(4))
  have "distinct (map pu_ue_id (node_ues st1))" using U(2) by (simp add: node_ok_def)
  from ue_map_update(1) [OF this U(3), of "set_rb d False (Some e') ue"]
  have "ue_map pu_ue_id (node_ues st2) k = Some (set_rb d False (Some e') ue)"
    by (simp add: st2_def store_ue_def U(4,5))
  moreover have "i < length (pu_drb ue)" using U(6) i(4) by (simp add: ue_ok_def slots_ok_def)
  ultimately show "drb_of st2 k d = Some e'"
    using i by (simp add: drb_of_def nr_pdcp_get_rb_def set_rb_def MAX_DRBS_PER_UE_def)
  show "n_sdap st2 = n_sdap st" "n_out st2 = n_out st" "n_cu2du st2 = n_cu2du st"
    using node_ue_spec(6-8) [OF assms(1,3)] by (simp_all add: st2_def store_ue_def)
qed

section \<open>Over PDCP\<close>

lemma foldR_single: "foldR f [x] y = f x y"
  by (cases "f x y") simp_all

lemma send_drb:
  assumes ok: "node_ok st" and a: "drb_of st k d = Some a" and env: "secu_ok (le_secu env)" and p: "pdcp_peers a b"
    and l: "sdap_tx_size a < length sdu"
  obtains mac pdu a' st2 where "pdu_for (le_secu env) a b sdu mac pdu" "same_config a a'" "same_rb a a'" "pe_tx_next a' = pe_tx_next a + 1"
    "node_ok st2" "drb_of st2 k d = Some a'" "n_sdap st2 = n_sdap st" "n_out st2 = n_out st" "n_cu2du st2 = n_cu2du st"
    "nr_pdcp_data_req_drb env (ctxt_for g k) False d mui sdu st
       = bindR (if pe_is_gnb a then deliver_pdu_drb_gnb env st2 k d pdu mui else deliver_pdu_drb_ue st2 k d pdu mui) (\<lambda>s. Inr (True, s))"
proof -
  obtain u ue st1 where g: "node_ue st k = (u, ue, st1)" by (metis prod_cases3)
  note U = node_ue_drb [OF ok a g]
  define m :: bytes where "m = replicate (nat (nr_max_pdcp_pdu_size (int (length sdu)))) 0"
  have "nr_max_pdcp_pdu_size (int (length sdu)) \<le> int (length m)" by (simp add: m_def)
  then obtain mac pdu rest f where q: "pdu_for (le_secu env) a b sdu mac pdu" "nr_pdcp_entity_process_sdu (le_secu env) a sdu m
      = Inr (int (length pdu), pdu @ rest, with_pstats f (a\<lparr>pe_tx_next := pe_tx_next a + 1\<rparr>))"
    by (rule process_sdu_pdu [OF env p l])
  define a' where "a' = with_pstats f (a\<lparr>pe_tx_next := pe_tx_next a + 1\<rparr>)"
  have mk: "pdcp_make_pdu env a sdu = Inr (Some pdu, a')" using q(2) by (simp add: pdcp_make_pdu_def m_def a'_def)
  note S = store_drb [OF ok a g make_pdu_same [OF mk]]
  show ?thesis
  proof (rule that [OF q(1) _ make_pdu_same [OF mk] _ S])
    show "same_config a a'" unfolding a'_def by (rule same_config_tx)
    show "pe_tx_next a' = pe_tx_next a + 1" by (simp add: a'_def)
    show "nr_pdcp_data_req_drb env (ctxt_for g k) False d mui sdu st
      = bindR (if pe_is_gnb a then deliver_pdu_drb_gnb env (store_ue u (set_rb d False (Some a') ue) st1) k d pdu mui
          else deliver_pdu_drb_ue (store_ue u (set_rb d False (Some a') ue) st1) k d pdu mui) (\<lambda>s. Inr (True, s))"
      by (simp add: nr_pdcp_data_req_drb_def ctxt_for_def g U(1) mk)
  qed
qed

lemma recv_drb:
  assumes ok: "node_ok st" and b: "drb_of st k d = Some b" and p: "pdcp_peers a b"
    and pdu: "pdu_for (le_secu env) a b sdu mac pdu" and l: "sdap_tx_size a < length sdu"
    and nx: "pe_rx_deliv b = pe_tx_next a" "pe_rx_list b = []"
  obtains s b' st2 where "ps_buffer s = sdu" "same_config b b'" "same_rb b b'" "pe_rx_deliv b' = pe_tx_next a + 1" "pe_rx_list b' = []"
    "node_ok st2" "drb_of st2 k d = Some b'" "n_sdap st2 = n_sdap st" "n_out st2 = n_out st" "n_cu2du st2 = n_cu2du st"
    "do_pdcp_data_ind env (ctxt_for g k) False d pdu st = deliver_sdu_drb env k (nat (d - 1)) b s st2"
proof -
  obtain u ue st1 where g: "node_ue st k = (u, ue, st1)" by (metis prod_cases3)
  note U = node_ue_drb [OF ok b g]
  obtain i where i: "d = int i + 1" "nat (d - 1) = i" "slot_of False i ue = Some b" using get_rb_ok [OF U(6,1)] by metis
  have "pe_window_size b > 0" using peersD(2) [OF p] by (auto simp: pdcp_cfg_def)
  then have w: "count_in_window b (unat (pe_tx_next a))" "pe_rx_deliv b \<le> pe_tx_next a"
      "\<not> nr_pdcp_sdu_in_list (pe_rx_list b) (pe_tx_next a)"
    using nx unsigned_less [of "pe_tx_next a"] by (simp_all add: count_in_window_def)
  obtain f mi n where recv: "nr_pdcp_entity_recv_pdu (le_secu env) b pdu
      = Inr (pdcp_accept (with_pstats f b) (pe_tx_next a) (nr_pdcp_new_sdu (pe_tx_next a) sdu mi) n)"
    by (rule recv_pdu_for [OF p pdu l w])
  define s where "s = nr_pdcp_new_sdu (pe_tx_next a) sdu mi"
  have s: "ps_count s = pe_tx_next a" "ps_buffer s = sdu" by (simp_all add: s_def nr_pdcp_new_sdu_def)
  define b' where "b' = pdcp_accept (with_pstats f b) (ps_count s) s n"
  have recv': "nr_pdcp_entity_recv_pdu (le_secu env) b pdu = Inr b'" using recv by (simp add: b'_def s(1)) (simp add: s_def)
  have b': "pe_delivered b' = pe_delivered b @ [s]" "pe_rx_list b' = []" "pe_rx_deliv b' = pe_tx_next a + 1"
    using accept_next [of "with_pstats f b" s n] nx s by (simp_all add: b'_def)
  have c: "same_config b b'"
    unfolding b'_def by (rule same_config_trans [OF _ pdcp_accept_config]) (simp add: same_config_def)
  note S = store_drb [OF ok b g same_rb_recv [OF recv']]
  have "do_pdcp_data_ind env (ctxt_for g k) False d pdu st
      = deliver_sdu_drb env k i b s (store_ue u (set_rb d False (Some b') ue) st1)"
    using i U recv' b'(1)
    by (simp add: do_pdcp_data_ind_def ctxt_for_def with_rb_def g run_rb_def deliver_sdu_cb_def foldR_single del: foldR.simps)
  then show ?thesis using that [OF s(2) c same_rb_recv [OF recv'] b'(3,2) S] i(2) by simp
qed

section \<open>Over SDAP\<close>

text \<open>A QoS flow of a PDU session with a header of the given role.\<close>

definition flow_rule :: "l2_node \<Rightarrow> u64 \<Rightarrow> int \<Rightarrow> u8 \<Rightarrow> qfi2drb_t option" where
  "flow_rule st ue_id pdusession_id qfi =
     (case nr_sdap_get_entity (n_sdap st) ue_id pdusession_id of
        None \<Rightarrow> None
      | Some k \<Rightarrow> if unat qfi < SDAP_MAX_QFI then Some (sd_qfi2drb_table (n_sdap st ! k) ! unat qfi) else None)"

lemma flow_rule_same: "n_sdap st' = n_sdap st \<Longrightarrow> flow_rule st' = flow_rule st"
  by (intro ext) (simp add: flow_rule_def split: option.split)

lemma flow_ruleE:
  assumes "node_ok st" and "flow_rule st ue_id s qfi = Some q"
  obtains k where "nr_sdap_get_entity (n_sdap st) ue_id s = Some k" "table_at (n_sdap st ! k) qfi = Inr q" "unat qfi < SDAP_MAX_QFI"
    "sd_qfi2drb_table (n_sdap st ! k) ! unat qfi = q"
proof -
  obtain k where k: "nr_sdap_get_entity (n_sdap st) ue_id s = Some k" "unat qfi < SDAP_MAX_QFI"
      "q = sd_qfi2drb_table (n_sdap st ! k) ! unat qfi"
    using assms(2) by (auto simp: flow_rule_def split: option.splits if_splits)
  have "sdap_ok (n_sdap st ! k)" using get_entity_Some [OF k(1)] assms(1) by (simp add: node_ok_def)
  then have "table_at (n_sdap st ! k) qfi = Inr q" using k(2,3) by (simp add: table_at_def sdap_ok_def)
  then show ?thesis using k(3) by (intro that [OF k(1) _ k(2)]) simp_all
qed

definition has_header :: "qfi2drb_t \<Rightarrow> bool" where
  "has_header q \<longleftrightarrow> has_role (q_entity_role q) SDAP_UL_TX \<or> has_role (q_entity_role q) SDAP_DL_TX"

definition sdap_hdr :: "qfi2drb_t \<Rightarrow> u8 \<Rightarrow> bool \<Rightarrow> u8" where
  "sdap_hdr q qfi rqi = (if has_role (q_entity_role q) SDAP_DL_TX then hdr_byte (ucast qfi) rqi False else hdr_byte (ucast qfi) False rqi)"

lemma sdap_req_header:
  assumes "node_ok st" and "flow_rule st ue_id s qfi = Some q" and "q_drb_id q \<noteq> 0" and "has_header q"
    and "sdu \<noteq> []" and "length sdu < SDAP_MAX_PDU"
  shows "sdap_data_req env ctxt ue_id srb_flag mui (Some sdu) qfi rqi s st
    = nr_pdcp_data_req_drb env ctxt srb_flag (q_drb_id q) mui (sdap_hdr q qfi rqi # sdu) st"
proof -
  obtain k where "nr_sdap_get_entity (n_sdap st) ue_id s = Some k" "table_at (n_sdap st ! k) qfi = Inr q"
    by (rule flow_ruleE [OF assms(1,2)])
  moreover have "\<not> 8999 < length sdu" using assms(6) by (simp add: SDAP_MAX_PDU_def)
  ultimately show ?thesis using assms(3-5)
    unfolding sdap_data_req_def nr_sdap_tx_entity_def nr_sdap_qfi2drb_def has_header_def sdap_hdr_def Let_def sdap_consts
        dl_hdr_byte_def ul_hdr_byte_def by (simp, blast)
qed

lemma hdr_qfi:
  assumes "unat qfi < SDAP_MAX_QFI"
  shows "sdap_qfi_of (hdr_byte (ucast qfi) f6 f7 # sdu) True = qfi"
proof -
  have "unat (take_bit 6 qfi) = unat qfi"
    using assms by (simp add: unsigned_take_bit_eq SDAP_MAX_QFI_def take_bit_nat_eq_self)
  then have "take_bit 6 qfi = qfi" by (rule unsigned_word_eqI)
  then have b: "\<not> bit qfi i" if "6 \<le> i" for i using that bit_take_bit_iff [of 6 qfi i] by simp
  have "hdr_byte (ucast qfi) f6 f7 AND 0x3F = qfi"
  proof (rule bit_word_eqI)
    fix i assume "i < LENGTH(8)"
    then have "i = 0 \<or> i = 1 \<or> i = 2 \<or> i = 3 \<or> i = 4 \<or> i = 5 \<or> i = 6 \<or> i = 7" by auto
    then show "bit (hdr_byte (ucast qfi) f6 f7 AND 0x3F) i = bit qfi i"
      using b [of 6] b [of 7] by (elim disjE) (simp_all add: hdr_byte_def bit_simps)
  qed
  then show ?thesis by (simp add: sdap_qfi_of_def)
qed

section \<open>Two nodes\<close>

text \<open>
  The bearer \<open>d\<close> of a UE at the sender \<open>a\<close> and at the receiver \<open>b\<close>: entities of the same
  configuration with an SDAP header, and everything sent so far has been delivered. The nodes may know the UE
  by different identifiers.
\<close>

definition node_link :: "int \<Rightarrow> l2_node \<Rightarrow> u64 \<Rightarrow> l2_node \<Rightarrow> u64 \<Rightarrow> bool" where
  "node_link d a ka b kb \<longleftrightarrow> node_ok a \<and> node_ok b \<and>
     (case (drb_of a ka d, drb_of b kb d) of
        (Some x, Some y) \<Rightarrow> pdcp_peers x y \<and> pe_has_sdap_tx x \<and> pe_rx_deliv y = pe_tx_next x \<and> pe_rx_list y = []
      | _ \<Rightarrow> False)"

lemma node_linkE:
  assumes "node_link d a ka b kb"
  obtains x y where "node_ok a" "node_ok b" "drb_of a ka d = Some x" "drb_of b kb d = Some y" "pdcp_peers x y" "pe_has_sdap_tx x"
    "pe_rx_deliv y = pe_tx_next x" "pe_rx_list y = []"
  using assms by (auto simp: node_link_def split: option.splits)

lemma node_linkI:
  assumes "node_ok a" "node_ok b" "drb_of a ka d = Some x" "drb_of b kb d = Some y" "pdcp_peers x y" "pe_has_sdap_tx x"
    "pe_rx_deliv y = pe_tx_next x" "pe_rx_list y = []"
  shows "node_link d a ka b kb"
  using assms by (simp add: node_link_def)

lemma drb_of_emit [simp]: "drb_of (emit out st) k d = drb_of st k d"
  by (rule drb_of_same) simp

text \<open>A gNB that sends is not split into CU and DU and knows the DU identifier of the UE.\<close>

definition sender_ok :: "l2_env \<Rightarrow> l2_node \<Rightarrow> u64 \<Rightarrow> bool \<Rightarrow> bool" where
  "sender_ok env st k is_gnb \<longleftrightarrow> (is_gnb \<longrightarrow> \<not> le_node_is_cu env \<and> n_cu2du st (ucast k) \<noteq> None)"

lemma link_step:
  assumes link: "node_link d a ka b kb" and env: "secu_ok (le_secu env_a)" "le_secu env_b = le_secu env_a"
    and q: "flow_rule a ka s qfi = Some q" "q_drb_id q = d" "has_header q" and sdu: "sdu \<noteq> []" "length sdu < SDAP_MAX_PDU"
    and snd: "\<And>x. drb_of a ka d = Some x \<Longrightarrow> sender_ok env_a a ka (pe_is_gnb x)"
  obtains a' b' c pdu y y' sd where
    "sdap_data_req env_a (ctxt_for g ka) ka False mui (Some sdu) qfi rqi s a = Inr (True, a')"
    "n_out a' = n_out a @ [Rlc_Data_Req c False d mui pdu]" "n_sdap a' = n_sdap a" "n_cu2du a' = n_cu2du a"
    "do_pdcp_data_ind env_b (ctxt_for g' kb) False d pdu b = deliver_sdu_drb env_b kb (nat (d - 1)) y sd b'"
    "ps_buffer sd = sdap_hdr q qfi rqi # sdu" "drb_of b kb d = Some y" "drb_of b' kb d = Some y'" "same_rb y y'"
    "pe_has_sdap_rx y" "n_sdap b' = n_sdap b" "n_out b' = n_out b" "n_cu2du b' = n_cu2du b" "node_link d a' ka b' kb"
    "map_option pe_is_gnb (drb_of a' ka d) = map_option pe_is_gnb (drb_of a ka d)"
proof -
  obtain x y where L: "node_ok a" "node_ok b" "drb_of a ka d = Some x" "drb_of b kb d = Some y" "pdcp_peers x y" "pe_has_sdap_tx x"
      "pe_rx_deliv y = pe_tx_next x" "pe_rx_list y = []"
    by (rule node_linkE [OF link])
  let ?sdu = "sdap_hdr q qfi rqi # sdu"
  have l: "sdap_tx_size x < length ?sdu" using sdu(1) by (cases sdu) (simp_all add: sdap_tx_size_def)
  have d: "q_drb_id q \<noteq> 0" using L(3) q(2) by (auto simp: drb_of_def nr_pdcp_get_rb_def split: option.splits)
  obtain mac pdu x' st2 where S: "pdu_for (le_secu env_a) x y ?sdu mac pdu" "same_config x x'" "same_rb x x'"
      "pe_tx_next x' = pe_tx_next x + 1" "node_ok st2" "drb_of st2 ka d = Some x'" "n_sdap st2 = n_sdap a" "n_out st2 = n_out a"
      "n_cu2du st2 = n_cu2du a"
      "nr_pdcp_data_req_drb env_a (ctxt_for g ka) False d mui ?sdu a = bindR (if pe_is_gnb x then deliver_pdu_drb_gnb env_a st2 ka d pdu mui
        else deliver_pdu_drb_ue st2 ka d pdu mui) (\<lambda>s. Inr (True, s))"
    by (rule send_drb [OF L(1,3) env(1) L(5) l])
  have pdu: "pdu_for (le_secu env_b) x y ?sdu mac pdu" using S(1) env(2) by simp
  obtain sd y' b' where R: "ps_buffer sd = ?sdu" "same_config y y'" "same_rb y y'" "pe_rx_deliv y' = pe_tx_next x + 1"
      "pe_rx_list y' = []" "node_ok b'" "drb_of b' kb d = Some y'" "n_sdap b' = n_sdap b" "n_out b' = n_out b" "n_cu2du b' = n_cu2du b"
      "do_pdcp_data_ind env_b (ctxt_for g' kb) False d pdu b = deliver_sdu_drb env_b kb (nat (d - 1)) y sd b'"
    by (rule recv_drb [OF L(2,4,5) pdu l L(7,8)])
  have snd': "pe_is_gnb x \<longrightarrow> \<not> le_node_is_cu env_a \<and> n_cu2du st2 (ucast ka) \<noteq> None"
    using snd [OF L(3)] S(9) by (simp add: sender_ok_def)
  define c where "c = (if pe_is_gnb x then ctxt_for True (ucast (the (n_cu2du st2 (ucast ka)))) else ctxt_for False ka)"
  have c: "nr_pdcp_data_req_drb env_a (ctxt_for g ka) False d mui ?sdu a = Inr (True, emit (Rlc_Data_Req c False d mui pdu) st2)"
    unfolding S(10) using snd' by (auto simp: deliver_pdu_drb_gnb_def deliver_pdu_drb_ue_def cu_get_f1_ue_data_def c_def)
  have link': "node_link d (emit (Rlc_Data_Req c False d mui pdu) st2) ka b' kb"
    by (rule node_linkI [of _ _ _ _ x' _ y']) (use S R L(6) peers_same_config [OF L(5) S(2) R(2)] in \<open>simp_all add: same_rb_def\<close>)
  show ?thesis
    by (rule that [OF _ _ _ _ R(11,1) L(4) R(7,3) _ R(8,9,10) link'])
      (use S(3,6) L(3) c sdap_req_header [OF L(1) q(1) d q(3) sdu] q(2) S(7-9) peersD(9) [OF L(5)] L(6) in \<open>simp_all add: same_rb_def\<close>)
qed

section \<open>Delivery to a TUN device and to a GTP-U tunnel\<close>

lemma ue_delivery:
  assumes "node_ok st" and "flow_rule st k (pe_pdusession_id y) qfi = Some q" and "has_role (q_entity_role q) SDAP_DL_RX"
    and "pe_has_sdap_rx y" "\<not> pe_is_gnb y" and "ps_buffer sd = hdr_byte (ucast qfi) f6 False # sdu"
    and "nr_sdap_get_entity (n_sdap st) k (pe_pdusession_id y) = Some j"
  shows "deliver_sdu_drb env k i y sd st = Inr (emit (Tun_Write (sd_pdusession_sock (n_sdap st ! j)) sdu) st)"
proof -
  obtain j' where j: "nr_sdap_get_entity (n_sdap st) k (pe_pdusession_id y) = Some j'" "unat qfi < SDAP_MAX_QFI"
      "sd_qfi2drb_table (n_sdap st ! j') ! unat qfi = q"
    by (rule flow_ruleE [OF assms(1,2)])
  have r: "mem_read (hdr_byte (ucast qfi) f6 False # sdu) 0 (int SDAP_HDR_LENGTH) = Inr [hdr_byte (ucast qfi) f6 False]"
    by (simp add: mem_read_def SDAP_HDR_LENGTH_def)
  have "sdap_rx_ue env j (n_sdap st ! j) pe qfi k (ps_buffer sd) st
      = Inr (emit (Tun_Write (sd_pdusession_sock (n_sdap st ! j)) sdu) st)" for pe
    unfolding sdap_rx_ue_def Let_def assms(6) r using assms(3,7) j hdr_byte_fields(3) [of "ucast qfi" f6 False]
    by (simp add: dl_hdr_of_def SDAP_HDR_LENGTH_def)
  then show ?thesis using assms(4-7) hdr_qfi [OF j(2), of f6 False sdu]
    by (simp add: deliver_sdu_drb_def Let_def sdap_data_ind_def nr_sdap_rx_entity_def)
qed

lemma gnb_delivery:
  assumes "node_ok st" and "flow_rule st k (pe_pdusession_id y) qfi = Some q" and "has_role (q_entity_role q) SDAP_UL_RX"
    and "pe_has_sdap_rx y" "pe_is_gnb y" and "ps_buffer sd = hdr_byte (ucast qfi) f6 f7 # sdu"
    and "le_n3gtpu env" "\<not> le_nos1 env" "\<not> le_nas_use_tun env"
  shows "deliver_sdu_drb env k i y sd st = Inr (emit (Gtp_Session k (pe_pdusession_id y) sdu) st)"
proof -
  obtain j where j: "nr_sdap_get_entity (n_sdap st) k (pe_pdusession_id y) = Some j" "unat qfi < SDAP_MAX_QFI"
      "sd_qfi2drb_table (n_sdap st ! j) ! unat qfi = q"
    by (rule flow_ruleE [OF assms(1,2)])
  have "sdap_rx_gnb env (n_sdap st ! j) True qfi s k (ps_buffer sd) st = Inr (emit (Gtp_Session k s sdu) st)" for s
    using assms(3,7) j by (simp add: sdap_rx_gnb_def Let_def assms(6) SDAP_HDR_LENGTH_def)
  then show ?thesis using assms(4-9) j hdr_qfi [OF j(2), of f6 f7 sdu]
    by (simp add: deliver_sdu_drb_def Let_def sdap_data_ind_def nr_sdap_rx_entity_def)
qed

section \<open>A sequence of packets\<close>

text \<open>
  Every packet is a QoS flow identifier, the flag of the request, and the data. It is given to SDAP of one
  node, and the requests to RLC that come of it arrive at PDCP of the other node.
\<close>

definition carry_output :: "l2_env \<Rightarrow> bool \<Rightarrow> u64 \<Rightarrow> l2_output \<Rightarrow> l2_node \<Rightarrow> l2_node res" where
  "carry_output env is_gnb ue_id out st =
     (case out of
        Rlc_Data_Req ctxt srb_flag rb_id mui pdu \<Rightarrow> do_pdcp_data_ind env (ctxt_for is_gnb ue_id) srb_flag rb_id pdu st
      | _ \<Rightarrow> Inr st)"

fun node_transfer ::
    "l2_env \<Rightarrow> l2_env \<Rightarrow> bool \<Rightarrow> u64 \<Rightarrow> u64 \<Rightarrow> int \<Rightarrow> (u8 \<times> bool \<times> bytes) list \<Rightarrow> l2_node \<Rightarrow> l2_node \<Rightarrow> (l2_node \<times> l2_node) res" where
  "node_transfer env_a env_b is_gnb ka kb s [] a b = Inr (a, b)"
| "node_transfer env_a env_b is_gnb ka kb s ((qfi, rqi, sdu) # packets) a b =
     bindR (sdap_data_req env_a (ctxt_for is_gnb ka) ka False RLC_MUI_UNDEFINED (Some sdu) qfi rqi s a) (\<lambda>(_, a').
     bindR (foldR (carry_output env_b (\<not> is_gnb) kb) (drop (length (n_out a)) (n_out a')) b) (\<lambda>b'.
       node_transfer env_a env_b is_gnb ka kb s packets a' b'))"

lemma link_transfer:
  assumes "node_link d a ka b kb" and env: "secu_ok (le_secu env_a)" "le_secu env_b = le_secu env_a"
    and "map_option pe_is_gnb (drb_of a ka d) = Some is_gnb" and "sender_ok env_a a ka is_gnb" and "drb_of b kb d = Some y"
    and "\<And>qfi rqi sdu. (qfi, rqi, sdu) \<in> set packets \<Longrightarrow> sdu \<noteq> [] \<and> length sdu < SDAP_MAX_PDU
      \<and> (\<exists>q. flow_rule a ka s qfi = Some q \<and> q_drb_id q = d \<and> has_header q
        \<and> (\<forall>st y' sd i. node_ok st \<longrightarrow> n_sdap st = n_sdap b \<longrightarrow> same_rb y y' \<longrightarrow> pe_has_sdap_rx y' \<longrightarrow> ps_buffer sd = sdap_hdr q qfi rqi # sdu
             \<longrightarrow> deliver_sdu_drb env_b kb i y' sd st = Inr (emit (out sdu) st)))"
  shows "\<exists>a' b'. node_transfer env_a env_b is_gnb ka kb s packets a b = Inr (a', b')
    \<and> n_out b' = n_out b @ map (\<lambda>(qfi, rqi, sdu). out sdu) packets \<and> node_link d a' ka b' kb"
  using assms(1,4-)
proof (induction packets arbitrary: a b y)
  case (Cons p packets)
  obtain qfi rqi sdu where p: "p = (qfi, rqi, sdu)" by (cases p)
  obtain q where q: "sdu \<noteq> []" "length sdu < SDAP_MAX_PDU" "flow_rule a ka s qfi = Some q" "q_drb_id q = d" "has_header q"
    and del: "\<And>st y' sd i. node_ok st \<Longrightarrow> n_sdap st = n_sdap b \<Longrightarrow> same_rb y y' \<Longrightarrow> pe_has_sdap_rx y'
       \<Longrightarrow> ps_buffer sd = sdap_hdr q qfi rqi # sdu \<Longrightarrow> deliver_sdu_drb env_b kb i y' sd st = Inr (emit (out sdu) st)"
    using Cons.prems(5) [of qfi rqi sdu] unfolding p by auto
  have snd: "sender_ok env_a a ka (pe_is_gnb x)" if "drb_of a ka d = Some x" for x using that Cons.prems(2,3) by simp
  obtain a1 b1 c pdu y0 y1 sd where S: "sdap_data_req env_a (ctxt_for is_gnb ka) ka False RLC_MUI_UNDEFINED (Some sdu) qfi rqi s a = Inr (True, a1)"
    "n_out a1 = n_out a @ [Rlc_Data_Req c False d RLC_MUI_UNDEFINED pdu]" "n_sdap a1 = n_sdap a" "n_cu2du a1 = n_cu2du a"
    "do_pdcp_data_ind env_b (ctxt_for (\<not> is_gnb) kb) False d pdu b = deliver_sdu_drb env_b kb (nat (d - 1)) y0 sd b1"
    "ps_buffer sd = sdap_hdr q qfi rqi # sdu" "drb_of b kb d = Some y0" "drb_of b1 kb d = Some y1" "same_rb y0 y1"
    "pe_has_sdap_rx y0" "n_sdap b1 = n_sdap b" "n_out b1 = n_out b" "n_cu2du b1 = n_cu2du b" "node_link d a1 ka b1 kb"
    "map_option pe_is_gnb (drb_of a1 ka d) = map_option pe_is_gnb (drb_of a ka d)"
    by (rule link_step [OF Cons.prems(1) env q(3-5,1,2) snd])
  define b2 where "b2 = emit (out sdu) b1"
  have ok: "node_ok b1" "y0 = y" using S(7,14) Cons.prems(4) by (simp_all add: node_link_def)
  then have b2: "do_pdcp_data_ind env_b (ctxt_for (\<not> is_gnb) kb) False d pdu b = Inr b2"
    using S(5) del [OF ok(1) S(11) _ S(10,6)] by (simp add: b2_def)
  have "node_link d a1 ka b2 kb" using S(14) by (simp add: node_link_def b2_def)
  moreover have "sender_ok env_a a1 ka is_gnb" using Cons.prems(3) S(4) by (simp add: sender_ok_def)
  moreover have "drb_of b2 kb d = Some y1" using S(8) by (simp add: b2_def)
  moreover have "sdu' \<noteq> [] \<and> length sdu' < SDAP_MAX_PDU \<and> (\<exists>q. flow_rule a1 ka s qfi' = Some q \<and> q_drb_id q = d \<and> has_header q
        \<and> (\<forall>st y' sd i. node_ok st \<longrightarrow> n_sdap st = n_sdap b2 \<longrightarrow> same_rb y1 y' \<longrightarrow> pe_has_sdap_rx y' \<longrightarrow> ps_buffer sd = sdap_hdr q qfi' rqi' # sdu'
             \<longrightarrow> deliver_sdu_drb env_b kb i y' sd st = Inr (emit (out sdu') st)))" if "(qfi', rqi', sdu') \<in> set packets" for qfi' rqi' sdu'
  proof -
    have "same_rb y y'" if "same_rb y1 y'" for y' using same_rb_trans [OF S(9) that] ok(2) by simp
    then show ?thesis using Cons.prems(5) [of qfi' rqi' sdu'] that S(11) flow_rule_same [OF S(3)] by (simp add: b2_def) blast
  qed
  ultimately obtain a' b' where "node_transfer env_a env_b is_gnb ka kb s packets a1 b2 = Inr (a', b')"
      "n_out b' = n_out b2 @ map (\<lambda>(qfi, rqi, sdu). out sdu) packets" "node_link d a' ka b' kb"
    using Cons.IH [of a1 b2 y1] S(15) Cons.prems(2) by auto
  then show ?case using S(1,2,12) b2 by (simp add: p carry_output_def foldR_single b2_def del: foldR.simps)
qed simp

end
