(* ===== verification/Node_Props.thy ===== *)
theory Node_Props
  imports Node_Reach Node_Link
begin

unbundle bit_operations_syntax

text \<open>
  The properties of a node above RLC: what all reachable nodes have in common, and the transfer of IP packets
  from SDAP of one node to SDAP of another one.
\<close>

section \<open>Example nodes\<close>

text \<open>A gNB and a UE with one data radio bearer with SDAP headers, which carries QoS flow 5 of PDU session 1.\<close>

definition example_l2_env :: "bool \<Rightarrow> l2_env" where
  "example_l2_env is_gnb = \<lparr> le_secu = example_env, le_node_is_cu = False, le_nos1 = False, le_nas_use_tun = \<not> is_gnb,
     le_n3gtpu = is_gnb, le_default_pdu_session = 10 \<rparr>"

definition example_bearer :: "bool \<Rightarrow> nr_pdcp_entity_t" where
  "example_bearer is_gnb = (example_entity is_gnb)\<lparr>pe_has_sdap_rx := True, pe_has_sdap_tx := True\<rparr>"

definition example_sdap :: "bool \<Rightarrow> u64 \<Rightarrow> nr_sdap_entity_t" where
  "example_sdap is_gnb ue_id = \<lparr> sd_ue_id = ue_id, sd_default_drb = 1, sd_is_gnb = is_gnb, sd_enable_sdap = True,
     sd_pdusession_id = 1, sd_pdusession_sock = 33, sd_stop_thread = False, sd_qfi = 5,
     sd_qfi2drb_table = (replicate SDAP_MAX_QFI \<lparr> q_drb_id = 0, q_entity_role = 0 \<rparr>)
       [5 := \<lparr> q_drb_id = 1, q_entity_role = (if is_gnb then SDAP_UL_RX OR SDAP_DL_TX else SDAP_UL_TX OR SDAP_DL_RX) \<rparr>] \<rparr>"

definition example_node :: "bool \<Rightarrow> u64 \<Rightarrow> l2_node" where
  "example_node is_gnb ue_id =
     \<lparr> n_pdcp = \<lparr> pm_ue_list = [(new_pdcp_ue ue_id)\<lparr>pu_drb := (replicate MAX_DRBS_PER_UE None)[0 := Some (example_bearer is_gnb)]\<rparr>],
                  pm_enb_flag = is_gnb \<rparr>,
       n_sdap = [example_sdap is_gnb ue_id], n_cu2du = [ucast ue_id \<mapsto> 7], n_out = [] \<rparr>"

lemma example_node_ok: "node_ok (example_node g k)"
proof -
  have "rb_ok False 0 (example_bearer g)" by (simp add: rb_ok_def example_bearer_def example_entity_def)
  then have "slots_ok False MAX_DRBS_PER_UE ((replicate MAX_DRBS_PER_UE None)[0 := Some (example_bearer g)])"
    by (intro slots_ok_update) (auto simp: slots_ok_def)
  moreover have "sdap_ok (example_sdap g k)"
    by (auto simp: sdap_ok_def example_sdap_def MAX_DRBS_PER_UE_def dest!: set_update_subset_insert [THEN subsetD])
  ultimately show ?thesis
    by (simp add: node_ok_def example_node_def ue_ok_def new_pdcp_ue_def) (simp add: slots_ok_def)
qed

lemma example_drb: "drb_of (example_node g k) k 1 = Some (example_bearer g)"
  by (simp add: drb_of_def example_node_def ue_map_def new_pdcp_ue_def nr_pdcp_get_rb_def MAX_DRBS_PER_UE_def)

lemma example_bearer_peers: "pdcp_peers (example_bearer g) (example_bearer (\<not> g))"
  by (simp add: pdcp_peers_def pdcp_cfg_def example_bearer_def example_entity_def)

lemma example_link: "node_link 1 (example_node g k) k (example_node (\<not> g) k') k'"
  by (rule node_linkI [OF example_node_ok example_node_ok example_drb example_drb example_bearer_peers])
    (simp_all add: example_bearer_def example_entity_def)

lemma example_flow:
  "flow_rule (example_node g k) k 1 5
     = Some \<lparr> q_drb_id = 1, q_entity_role = (if g then SDAP_UL_RX OR SDAP_DL_TX else SDAP_UL_TX OR SDAP_DL_RX) \<rparr>"
  "nr_sdap_get_entity (n_sdap (example_node g k)) k 1 = Some 0" "n_sdap (example_node g k) = [example_sdap g k]"
  by (simp_all add: flow_rule_def example_node_def example_sdap_def is_session_def SDAP_MAX_QFI_def)

lemmas example_roles = has_role_def SDAP_DL_TX_def SDAP_DL_RX_def SDAP_UL_TX_def SDAP_UL_RX_def

lemma example_out: "n_out (example_node g k) = []"
  by (simp add: example_node_def)

text \<open>A run that makes a PDU session and its bearer 7.\<close>

definition example_config :: sdap_config_t where
  "example_config = \<lparr> sc_pdusession_id = 10, sc_drb_id = 7, sc_role = 0, sc_defaultDRB = True,
     sc_mappedQFIs2Add = [5], sc_mappedQFIs2Release = [] \<rparr>"

definition example_pdcp_config :: NR_PDCP_Config_t where
  "example_pdcp_config = \<lparr> pc_drb = Some \<lparr> pd_SN_SizeUL = Some 0, pd_SN_SizeDL = Some 0, pd_discardTimer = Some 0,
     pd_integrityProtection = False \<rparr>, pc_t_Reordering = Some 0, pc_cipheringDisabled = False \<rparr>"

definition example_keys :: nr_pdcp_entity_security_keys_and_algos_t where
  "example_keys = \<lparr> sp_integrity_algorithm = 2, sp_ciphering_algorithm = 2,
     sp_integrity_key = replicate 16 3, sp_ciphering_key = replicate 16 4 \<rparr>"

lemma example_addmod:
  "\<exists>st1. nr_sdap_addmod_entity (example_l2_env True) 0 True 9 example_config node_init = Inr st1 \<and> length (n_sdap st1) = 1
     \<and> n_pdcp st1 = n_pdcp node_init"
  by (simp add: nr_sdap_addmod_entity_def nr_sdap_add_entity_def nr_sdap_add_qos_flows_to_drb_def nr_sdap_qfi2drb_map_add_def
      table_set_def table_at_def new_sdap_entity_def example_config_def example_l2_env_def node_init_def MAX_DRBS_PER_UE_def
      SDAP_MAX_QFI_def Let_def)

lemma example_decode:
  "decode_sn_size_ul 0 = Inr 12" "decode_sn_size_dl 0 = Inr 12" "decode_discard_timer 0 = Inr 10" "decode_t_reordering 0 = Inr 0"
  by (simp_all add: decode_sn_size_ul_def decode_sn_size_dl_def decode_discard_timer_def decode_t_reordering_def tab_decode_def
      VALUES_NR_PDCP_SN_SIZE_def VALUES_NR_PDCP_DISCARD_TIMER_def VALUES_NR_PDCP_T_REORDERING_def)

lemma example_add_drb:
  assumes "n_pdcp st1 = n_pdcp node_init"
  shows "\<exists>st ue e. nr_pdcp_add_drb True 9 example_pdcp_config example_config example_keys st1 = Inr st
     \<and> pm_ue_list (n_pdcp st) = [ue] \<and> nr_pdcp_get_rb ue 7 False = Some e \<and> n_sdap st = n_sdap st1"
  unfolding nr_pdcp_add_drb_def example_pdcp_config_def
  using assms
  by (simp add: example_config_def example_keys_def deref_def example_decode new_nr_pdcp_entity_def nr_pdcp_entity_set_security_def
      store_keys_def set_integrity_def set_ciphering_def Let_def nr_pdcp_ue_add_drb_pdcp_entity_def store_ue_def nr_pdcp_get_rb_def
      node_ue_def node_init_def new_nr_pdcp_ue_manager_def nr_pdcp_manager_get_ue_def MAX_DRBS_PER_UE_def)

section \<open>Properties\<close>

text \<open>
  C30. Whatever sequence of operations a node runs, in any order and with any arguments, including the ones
  that come from a peer: no two UEs have the same identifier; the arrays of a UE have their sizes; a bearer
  found under a number has this number, and it is a signalling bearer if and only if it was looked for as such;
  no two SDAP entities serve the same PDU session of a UE; the table of an SDAP entity has 64 rules, and
  every rule names a bearer number that exists or none.
\<close>

theorem reachable_nodes_well_formed:
  assumes "node_reach env st"
  shows "distinct (map pu_ue_id (pm_ue_list (n_pdcp st)))
    \<and> (\<forall>ue \<in> set (pm_ue_list (n_pdcp st)). length (pu_srb ue) = 3 \<and> length (pu_drb ue) = 32
         \<and> (\<forall>srb_flag rb_id e. nr_pdcp_get_rb ue rb_id srb_flag = Some e
              \<longrightarrow> pe_rb_id e = rb_id \<and> (pe_type e = NR_PDCP_SRB \<longleftrightarrow> srb_flag)))
    \<and> distinct (map (\<lambda>e. (sd_ue_id e, sd_pdusession_id e)) (n_sdap st))
    \<and> (\<forall>e \<in> set (n_sdap st). length (sd_qfi2drb_table e) = 64
         \<and> (\<forall>q \<in> set (sd_qfi2drb_table e). 0 \<le> q_drb_id q \<and> q_drb_id q \<le> 32))"
proof -
  have ok: "node_ok st" by (rule node_reach_ok [OF assms])
  have "pe_rb_id e = rb_id \<and> (pe_type e = NR_PDCP_SRB \<longleftrightarrow> srb_flag)"
    if "ue_ok ue" "nr_pdcp_get_rb ue rb_id srb_flag = Some e" for ue rb_id srb_flag e
    using get_rb_ok [OF that] by (auto simp: rb_ok_def)
  then show ?thesis
    using ok by (auto simp: node_ok_def ue_ok_def slots_ok_def sdap_ok_def session_def [abs_def] MAX_DRBS_PER_UE_def SDAP_MAX_QFI_def)
qed

theorem reachable_nodes_well_formed_witness:
  "\<exists>st ue e. node_reach (example_l2_env True) st \<and> pm_ue_list (n_pdcp st) = [ue] \<and> nr_pdcp_get_rb ue 7 False = Some e \<and> pe_rb_id e = 7
     \<and> length (pu_drb ue) = 32 \<and> length (n_sdap st) = 1 \<and> distinct (map (\<lambda>e. (sd_ue_id e, sd_pdusession_id e)) (n_sdap st))"
proof -
  obtain st1 where 1: "nr_sdap_addmod_entity (example_l2_env True) 0 True 9 example_config node_init = Inr st1" "length (n_sdap st1) = 1"
      "n_pdcp st1 = n_pdcp node_init"
    using example_addmod by blast
  obtain st ue e where 2: "nr_pdcp_add_drb True 9 example_pdcp_config example_config example_keys st1 = Inr st"
      "pm_ue_list (n_pdcp st) = [ue]" "nr_pdcp_get_rb ue 7 False = Some e" "n_sdap st = n_sdap st1"
    using example_add_drb [OF 1(3)] by blast
  have r: "node_reach (example_l2_env True) st"
    by (rule node_reach.step [OF node_reach.step [OF node_reach.init node_step.addmod [OF 1(1)]] node_step.add_drb [OF 2(1)]])
  from reachable_nodes_well_formed [OF r] show ?thesis using r 1(2) 2(2-4) by (intro exI [of _ st] exI [of _ ue] exI [of _ e]) auto
qed

text \<open>
  C31. Downlink: IP packets given to SDAP of a gNB are written to the TUN device of the PDU session by the UE,
  all of them, in order and unchanged. The QoS flows of the packets are mapped to the bearer at the gNB with
  SDAP header, the UE expects the header for them, and the two PDCP entities of the bearer have the same
  configuration, with or without ciphering and integrity. The packets are not empty and shorter than 9000
  bytes.
\<close>

theorem downlink_delivers:
  assumes "node_link d g kg u ku" and "secu_ok (le_secu env_g)" and "le_secu env_u = le_secu env_g"
    and "drb_of g kg d = Some x" and "pe_is_gnb x" and "sender_ok env_g g kg True"
    and "drb_of u ku d = Some y" and "nr_sdap_get_entity (n_sdap u) ku (pe_pdusession_id y) = Some j"
    and "\<And>qfi rqi sdu. (qfi, rqi, sdu) \<in> set packets \<Longrightarrow> sdu \<noteq> [] \<and> length sdu < SDAP_MAX_PDU
      \<and> (\<exists>q. flow_rule g kg s qfi = Some q \<and> q_drb_id q = d \<and> has_role (q_entity_role q) SDAP_DL_TX)
      \<and> (\<exists>q. flow_rule u ku (pe_pdusession_id y) qfi = Some q \<and> has_role (q_entity_role q) SDAP_DL_RX)"
  shows "\<exists>g' u'. node_transfer env_g env_u True kg ku s packets g u = Inr (g', u')
    \<and> n_out u' = n_out u @ map (\<lambda>(qfi, rqi, sdu). Tun_Write (sd_pdusession_sock (n_sdap u ! j)) sdu) packets
    \<and> node_link d g' kg u' ku"
proof (rule link_transfer [OF assms(1-3) _ assms(6,7)])
  show "map_option pe_is_gnb (drb_of g kg d) = Some True" using assms(4,5) by simp
  have y: "\<not> pe_is_gnb y" using assms(1,4,5,7) peersD(8) [of x y] by (simp add: node_link_def)
  fix qfi rqi sdu assume m: "(qfi, rqi, sdu) \<in> set packets"
  obtain q r where q: "sdu \<noteq> []" "length sdu < SDAP_MAX_PDU" "flow_rule g kg s qfi = Some q" "q_drb_id q = d"
      "has_role (q_entity_role q) SDAP_DL_TX"
    and r: "flow_rule u ku (pe_pdusession_id y) qfi = Some r" "has_role (q_entity_role r) SDAP_DL_RX"
    using assms(9) [OF m] by blast
  have "deliver_sdu_drb env_u ku i y' sd st = Inr (emit (Tun_Write (sd_pdusession_sock (n_sdap u ! j)) sdu) st)"
    if "node_ok st" "n_sdap st = n_sdap u" "same_rb y y'" "pe_has_sdap_rx y'" "ps_buffer sd = sdap_hdr q qfi rqi # sdu" for st y' sd i
    using ue_delivery [OF that(1) _ r(2) that(4), of ku qfi sd rqi sdu j env_u i] that r(1) y assms(8) q(5) flow_rule_same [OF that(2)]
    by (simp add: same_rb_def sdap_hdr_def)
  then show "sdu \<noteq> [] \<and> length sdu < SDAP_MAX_PDU \<and> (\<exists>q. flow_rule g kg s qfi = Some q \<and> q_drb_id q = d \<and> has_header q
      \<and> (\<forall>st y' sd i. node_ok st \<longrightarrow> n_sdap st = n_sdap u \<longrightarrow> same_rb y y' \<longrightarrow> pe_has_sdap_rx y' \<longrightarrow> ps_buffer sd = sdap_hdr q qfi rqi # sdu
        \<longrightarrow> deliver_sdu_drb env_u ku i y' sd st = Inr (emit (Tun_Write (sd_pdusession_sock (n_sdap u ! j)) sdu) st)))"
    using q by (auto simp: has_header_def intro!: exI [of _ q])
qed

theorem downlink_delivers_witness:
  "\<exists>g' u'. node_transfer (example_l2_env True) (example_l2_env False) True 100 200 1 [(5, True, [69, 1]), (5, False, [69, 2, 3])]
      (example_node True 100) (example_node False 200) = Inr (g', u')
    \<and> n_out u' = [Tun_Write 33 [69, 1], Tun_Write 33 [69, 2, 3]]"
proof -
  have s: "sender_ok (example_l2_env True) (example_node True 100) 100 True"
    by (simp add: sender_ok_def example_l2_env_def example_node_def)
  have x: "pe_is_gnb (example_bearer True)" "pe_pdusession_id (example_bearer g) = 1" for g
    by (simp_all add: example_bearer_def example_entity_def)
  have e: "secu_ok (le_secu (example_l2_env True))" "le_secu (example_l2_env False) = le_secu (example_l2_env True)"
    by (simp_all add: example_l2_env_def example_env_ok)
  define packets :: "(u8 \<times> bool \<times> bytes) list" where "packets = [(5, True, [69, 1]), (5, False, [69, 2, 3])]"
  have p: "sdu \<noteq> [] \<and> length sdu < SDAP_MAX_PDU
      \<and> (\<exists>q. flow_rule (example_node True 100) 100 1 qfi = Some q \<and> q_drb_id q = 1 \<and> has_role (q_entity_role q) SDAP_DL_TX)
      \<and> (\<exists>q. flow_rule (example_node False 200) 200 (pe_pdusession_id (example_bearer False)) qfi = Some q
            \<and> has_role (q_entity_role q) SDAP_DL_RX)" if "(qfi, rqi, sdu) \<in> set packets" for qfi rqi sdu
    using that by (auto simp: packets_def x example_flow SDAP_MAX_PDU_def example_roles)
  have j: "nr_sdap_get_entity (n_sdap (example_node False 200)) 200 (pe_pdusession_id (example_bearer False)) = Some 0"
    by (simp add: x example_flow(2))
  have "\<exists>g' u'. node_transfer (example_l2_env True) (example_l2_env False) True 100 200 1 packets
      (example_node True 100) (example_node False 200) = Inr (g', u')
    \<and> n_out u' = n_out (example_node False 200)
        @ map (\<lambda>(qfi, rqi, sdu). Tun_Write (sd_pdusession_sock (n_sdap (example_node False 200) ! 0)) sdu) packets
    \<and> node_link 1 g' 100 u' 200"
    by (rule downlink_delivers [OF example_link [of True 100 200, simplified] e example_drb x(1) s example_drb j]) (rule p)
  then show ?thesis by (auto simp: packets_def example_out example_flow(3) example_sdap_def simp del: node_transfer.simps)
qed

text \<open>
  C32. Uplink: IP packets given to SDAP of a UE leave the gNB through the GTP-U tunnel of the PDU session, all of
  them, in order and unchanged, under the same conditions.
\<close>

theorem uplink_delivers:
  assumes "node_link d u ku g kg" and "secu_ok (le_secu env_u)" and "le_secu env_g = le_secu env_u"
    and "drb_of u ku d = Some x" and "\<not> pe_is_gnb x" and "drb_of g kg d = Some y"
    and "le_n3gtpu env_g" and "\<not> le_nos1 env_g" and "\<not> le_nas_use_tun env_g"
    and "\<And>qfi rqi sdu. (qfi, rqi, sdu) \<in> set packets \<Longrightarrow> sdu \<noteq> [] \<and> length sdu < SDAP_MAX_PDU
      \<and> (\<exists>q. flow_rule u ku s qfi = Some q \<and> q_drb_id q = d \<and> has_role (q_entity_role q) SDAP_UL_TX)
      \<and> (\<exists>q. flow_rule g kg (pe_pdusession_id y) qfi = Some q \<and> has_role (q_entity_role q) SDAP_UL_RX)"
  shows "\<exists>u' g'. node_transfer env_u env_g False ku kg s packets u g = Inr (u', g')
    \<and> n_out g' = n_out g @ map (\<lambda>(qfi, rqi, sdu). Gtp_Session kg (pe_pdusession_id y) sdu) packets
    \<and> node_link d u' ku g' kg"
proof (rule link_transfer [OF assms(1-3) _ _ assms(6)])
  show "map_option pe_is_gnb (drb_of u ku d) = Some False" "sender_ok env_u u ku False" using assms(4,5) by (simp_all add: sender_ok_def)
  have y: "pe_is_gnb y" using assms(1,4-6) peersD(8) [of x y] by (simp add: node_link_def)
  fix qfi rqi sdu assume m: "(qfi, rqi, sdu) \<in> set packets"
  obtain q r where q: "sdu \<noteq> []" "length sdu < SDAP_MAX_PDU" "flow_rule u ku s qfi = Some q" "q_drb_id q = d"
      "has_role (q_entity_role q) SDAP_UL_TX"
    and r: "flow_rule g kg (pe_pdusession_id y) qfi = Some r" "has_role (q_entity_role r) SDAP_UL_RX"
    using assms(10) [OF m] by blast
  have "deliver_sdu_drb env_g kg i y' sd st = Inr (emit (Gtp_Session kg (pe_pdusession_id y) sdu) st)"
    if "node_ok st" "n_sdap st = n_sdap g" "same_rb y y'" "pe_has_sdap_rx y'" "ps_buffer sd = sdap_hdr q qfi rqi # sdu" for st y' sd i
  proof -
    note T = that
    obtain f6 f7 where "ps_buffer sd = hdr_byte (ucast qfi) f6 f7 # sdu" using T(5) by (auto simp: sdap_hdr_def split: if_splits)
    then show ?thesis
      using gnb_delivery [OF T(1) _ r(2) T(4), of kg qfi sd f6 f7 sdu env_g i] T(3) r(1) y assms(7-9) flow_rule_same [OF T(2)]
      by (simp add: same_rb_def)
  qed
  then show "sdu \<noteq> [] \<and> length sdu < SDAP_MAX_PDU \<and> (\<exists>q. flow_rule u ku s qfi = Some q \<and> q_drb_id q = d \<and> has_header q
      \<and> (\<forall>st y' sd i. node_ok st \<longrightarrow> n_sdap st = n_sdap g \<longrightarrow> same_rb y y' \<longrightarrow> pe_has_sdap_rx y' \<longrightarrow> ps_buffer sd = sdap_hdr q qfi rqi # sdu
        \<longrightarrow> deliver_sdu_drb env_g kg i y' sd st = Inr (emit (Gtp_Session kg (pe_pdusession_id y) sdu) st)))"
    using q by (auto simp: has_header_def intro!: exI [of _ q])
qed

theorem uplink_delivers_witness:
  "\<exists>u' g'. node_transfer (example_l2_env False) (example_l2_env True) False 200 100 1 [(5, True, [69, 1]), (5, True, [69, 2, 3])]
      (example_node False 200) (example_node True 100) = Inr (u', g')
    \<and> n_out g' = [Gtp_Session 100 1 [69, 1], Gtp_Session 100 1 [69, 2, 3]]"
proof -
  have x: "\<not> pe_is_gnb (example_bearer False)" "pe_pdusession_id (example_bearer g) = 1" for g
    by (simp_all add: example_bearer_def example_entity_def)
  have e: "secu_ok (le_secu (example_l2_env False))" "le_secu (example_l2_env True) = le_secu (example_l2_env False)"
      "le_n3gtpu (example_l2_env True)" "\<not> le_nos1 (example_l2_env True)" "\<not> le_nas_use_tun (example_l2_env True)"
    by (simp_all add: example_l2_env_def example_env_ok)
  define packets :: "(u8 \<times> bool \<times> bytes) list" where "packets = [(5, True, [69, 1]), (5, True, [69, 2, 3])]"
  have p: "sdu \<noteq> [] \<and> length sdu < SDAP_MAX_PDU
      \<and> (\<exists>q. flow_rule (example_node False 200) 200 1 qfi = Some q \<and> q_drb_id q = 1 \<and> has_role (q_entity_role q) SDAP_UL_TX)
      \<and> (\<exists>q. flow_rule (example_node True 100) 100 (pe_pdusession_id (example_bearer True)) qfi = Some q
            \<and> has_role (q_entity_role q) SDAP_UL_RX)" if "(qfi, rqi, sdu) \<in> set packets" for qfi rqi sdu
    using that by (auto simp: packets_def x example_flow SDAP_MAX_PDU_def example_roles)
  have "\<exists>u' g'. node_transfer (example_l2_env False) (example_l2_env True) False 200 100 1 packets
      (example_node False 200) (example_node True 100) = Inr (u', g')
    \<and> n_out g' = n_out (example_node True 100)
        @ map (\<lambda>(qfi, rqi, sdu). Gtp_Session 100 (pe_pdusession_id (example_bearer True)) sdu) packets
    \<and> node_link 1 u' 200 g' 100"
    by (rule uplink_delivers [OF example_link [of False 200 100, simplified] e(1,2) example_drb x(1) example_drb e(3-5)]) (rule p)
  then show ?thesis by (auto simp: packets_def example_out x simp del: node_transfer.simps)
qed

end
