(* ===== verification/Node_Mgmt.thy ===== *)
theory Node_Mgmt
  imports Node_Props
begin

unbundle bit_operations_syntax

text \<open>
  The properties of the management of a node: the timer thread of PDCP, removal of UEs and of PDU sessions,
  and the configuration that both ends of a bearer derive from one message.
\<close>

section \<open>The timer thread\<close>

definition gnb_ue :: "nr_pdcp_ue_t \<Rightarrow> bool" where
  "gnb_ue ue \<longleftrightarrow> length (pu_srb ue) = 3 \<and> length (pu_drb ue) = MAX_DRBS_PER_UE
     \<and> (\<forall>e. Some e \<in> set (pu_srb ue) \<union> set (pu_drb ue) \<longrightarrow> pe_is_gnb e)"

text \<open>A gNB that sends to the core network delivers without any effect on PDCP.\<close>

lemma gnb_deliver_frame:
  assumes "\<not> le_nos1 env" and "\<not> le_nas_use_tun env" and "pe_is_gnb e"
  shows "postR (\<lambda>st'. n_pdcp st' = n_pdcp st) (deliver_sdu_cb env k s i e sdu st)"
  using assms
  by (auto simp: deliver_sdu_cb_def deliver_sdu_srb_def deliver_sdu_drb_def sdap_data_ind_def nr_sdap_rx_entity_def sdap_rx_gnb_def
      postR_def Let_def bindR_eq_Inr emit_def split: option.splits if_splits)

definition tick_slot :: "u64 \<Rightarrow> bool \<Rightarrow> nat \<Rightarrow> nr_pdcp_ue_t \<Rightarrow> nr_pdcp_ue_t" where
  "tick_slot now s i ue = (case slot_of s i ue of None \<Rightarrow> ue
     | Some e \<Rightarrow> set_rb (int i + 1) s (Some (nr_pdcp_entity_set_time e now)) ue)"

lemma tick_run:
  assumes env: "\<not> le_nos1 env" "\<not> le_nas_use_tun env" and g: "\<And>e. slot_of s i (node_ues st ! u) = Some e \<Longrightarrow> pe_is_gnb e"
    and u: "u < length (node_ues st)" and r: "run_rb env u s i (\<lambda>rb. Inr (nr_pdcp_entity_set_time rb now)) st = Inr st'"
  shows "node_ues st' = (node_ues st)[u := tick_slot now s i (node_ues st ! u)]"
proof (cases "slot_of s i (node_ues st ! u)")
  case None
  then show ?thesis using r by (simp add: run_rb_def tick_slot_def)
next
  case (Some e)
  let ?st = "store_ue u (set_rb (int i + 1) s (Some (nr_pdcp_entity_set_time e now)) (node_ues st ! u)) st"
  have "postR (\<lambda>st'. n_pdcp st' = n_pdcp ?st) (foldR (deliver_sdu_cb env k s i e) xs ?st)" for k xs
    by (rule foldR_postR [where K = "\<lambda>a b. n_pdcp b = n_pdcp a", OF gnb_deliver_frame [OF env g [OF Some]]]) simp_all
  then have "n_pdcp st' = n_pdcp ?st" using r Some by (simp add: run_rb_def postR_def Let_def)
  then show ?thesis using Some by (simp add: tick_slot_def store_ue_def)
qed

lemma gnb_slot:
  assumes "gnb_ue ue" and "i < (if s then 3 else MAX_DRBS_PER_UE)" and "slot_of s i ue = Some e"
  shows "pe_is_gnb e"
proof -
  have "Some e \<in> set (if s then pu_srb ue else pu_drb ue)" using assms by (auto simp: slot_of_def gnb_ue_def in_set_conv_nth split: if_splits)
  then show ?thesis using assms(1) by (auto simp: gnb_ue_def split: if_splits)
qed

lemma tick_gnb:
  assumes "gnb_ue ue" and "i < (if s then 3 else MAX_DRBS_PER_UE)"
  shows "gnb_ue (tick_slot now s i ue)"
proof (cases "slot_of s i ue")
  case (Some e)
  have "pe_is_gnb (nr_pdcp_entity_set_time e now)"
    using gnb_slot [OF assms Some] same_rb_set_time [of e now] by (simp add: same_rb_def)
  then show ?thesis using assms Some
    by (auto simp: gnb_ue_def tick_slot_def set_rb_def dest!: set_update_subset_insert [THEN subsetD])
qed (use assms in \<open>simp add: tick_slot_def\<close>)

lemma tick_slots:
  assumes env: "\<not> le_nos1 env" "\<not> le_nas_use_tun env"
  shows "foldR (\<lambda>j. run_rb env u s j (\<lambda>rb. Inr (nr_pdcp_entity_set_time rb now))) js st = Inr st' \<Longrightarrow> u < length (node_ues st)
    \<Longrightarrow> gnb_ue (node_ues st ! u) \<Longrightarrow> \<forall>j \<in> set js. j < (if s then 3 else MAX_DRBS_PER_UE)
    \<Longrightarrow> node_ues st' = (node_ues st)[u := fold (tick_slot now s) js (node_ues st ! u)]
        \<and> gnb_ue (fold (tick_slot now s) js (node_ues st ! u))"
proof (induction js arbitrary: st)
  case (Cons j js)
  obtain st1 where 1: "run_rb env u s j (\<lambda>rb. Inr (nr_pdcp_entity_set_time rb now)) st = Inr st1"
      "foldR (\<lambda>j. run_rb env u s j (\<lambda>rb. Inr (nr_pdcp_entity_set_time rb now))) js st1 = Inr st'"
    using Cons.prems(1) by (auto simp: bindR_eq_Inr)
  let ?ue = "node_ues st ! u"
  have j: "j < (if s then 3 else MAX_DRBS_PER_UE)" using Cons.prems(4) by simp
  have 2: "node_ues st1 = (node_ues st)[u := tick_slot now s j ?ue]"
    by (rule tick_run [OF env gnb_slot [OF Cons.prems(3) j] Cons.prems(2) 1(1)])
  then show ?case using Cons.IH [OF 1(2)] Cons.prems(2,4) tick_gnb [OF Cons.prems(3) j] by simp
qed simp

definition tick :: "u64 \<Rightarrow> nr_pdcp_ue_t \<Rightarrow> nr_pdcp_ue_t" where
  "tick now ue = fold (tick_slot now False) [0 ..< 5] (fold (tick_slot now True) [0 ..< 2] ue)"

lemma tick_slot_nth:
  assumes "i < 3" "i' < length (pu_drb ue)" "length (pu_srb ue) = 3"
  shows "pu_ue_id (tick_slot now s j ue) = pu_ue_id ue"
    and "length (pu_srb (tick_slot now s j ue)) = length (pu_srb ue)" and "length (pu_drb (tick_slot now s j ue)) = length (pu_drb ue)"
    and "pu_srb (tick_slot now s j ue) ! i
      = (if s \<and> i = j then map_option (\<lambda>e. nr_pdcp_entity_set_time e now) (pu_srb ue ! i) else pu_srb ue ! i)"
    and "pu_drb (tick_slot now s j ue) ! i'
      = (if \<not> s \<and> i' = j then map_option (\<lambda>e. nr_pdcp_entity_set_time e now) (pu_drb ue ! i') else pu_drb ue ! i')"
  using assms by (auto simp: tick_slot_def slot_of_def set_rb_def nth_list_update split: option.split)

lemma tick_fold_nth:
  assumes "i < 3" "i' < length (pu_drb ue)" "length (pu_srb ue) = 3" "distinct js"
  shows "pu_ue_id (fold (tick_slot now s) js ue) = pu_ue_id ue
    \<and> length (pu_srb (fold (tick_slot now s) js ue)) = 3 \<and> length (pu_drb (fold (tick_slot now s) js ue)) = length (pu_drb ue)
    \<and> pu_srb (fold (tick_slot now s) js ue) ! i
      = (if s \<and> i \<in> set js then map_option (\<lambda>e. nr_pdcp_entity_set_time e now) (pu_srb ue ! i) else pu_srb ue ! i)
    \<and> pu_drb (fold (tick_slot now s) js ue) ! i'
      = (if \<not> s \<and> i' \<in> set js then map_option (\<lambda>e. nr_pdcp_entity_set_time e now) (pu_drb ue ! i') else pu_drb ue ! i')"
  using assms
proof (induction js arbitrary: ue)
  case (Cons j js)
  note T = tick_slot_nth [OF Cons.prems(1-3)]
  show ?case using Cons.IH [of "tick_slot now s j ue", unfolded T] Cons.prems by auto
qed simp

lemma tick_nth:
  assumes "gnb_ue ue" "i < 3" "i' < MAX_DRBS_PER_UE"
  shows "pu_ue_id (tick now ue) = pu_ue_id ue"
    and "pu_srb (tick now ue) ! i = (if i < 2 then map_option (\<lambda>e. nr_pdcp_entity_set_time e now) (pu_srb ue ! i) else pu_srb ue ! i)"
    and "pu_drb (tick now ue) ! i' = (if i' < 5 then map_option (\<lambda>e. nr_pdcp_entity_set_time e now) (pu_drb ue ! i') else pu_drb ue ! i')"
proof -
  let ?ue = "fold (tick_slot now True) [0 ..< 2] ue"
  have l: "i' < length (pu_drb ue)" "length (pu_srb ue) = 3" using assms(1,3) by (simp_all add: gnb_ue_def)
  note 1 = tick_fold_nth [OF assms(2) l distinct_upt, of now True 0 2]
  then have l': "i' < length (pu_drb ?ue)" "length (pu_srb ?ue) = 3" using l by simp_all
  note 2 = tick_fold_nth [OF assms(2) l' distinct_upt, of now False 0 5]
  show "pu_ue_id (tick now ue) = pu_ue_id ue"
    "pu_srb (tick now ue) ! i = (if i < 2 then map_option (\<lambda>e. nr_pdcp_entity_set_time e now) (pu_srb ue ! i) else pu_srb ue ! i)"
    "pu_drb (tick now ue) ! i' = (if i' < 5 then map_option (\<lambda>e. nr_pdcp_entity_set_time e now) (pu_drb ue ! i') else pu_drb ue ! i')"
    using 1 2 unfolding tick_def by (simp_all del: upt_rec_numeral)
qed

lemma tick_all:
  assumes env: "\<not> le_nos1 env" "\<not> le_nas_use_tun env"
  shows "foldR (\<lambda>u st. bindR (foldR (\<lambda>j. run_rb env u True j (\<lambda>rb. Inr (nr_pdcp_entity_set_time rb now))) [0 ..< 2] st)
              (foldR (\<lambda>j. run_rb env u False j (\<lambda>rb. Inr (nr_pdcp_entity_set_time rb now))) [0 ..< 5])) [n ..< length (node_ues st)] st = Inr st'
    \<Longrightarrow> \<forall>ue \<in> set (drop n (node_ues st)). gnb_ue ue
    \<Longrightarrow> node_ues st' = take n (node_ues st) @ map (tick now) (drop n (node_ues st))"
proof (induction "length (node_ues st) - n" arbitrary: n st)
  case (Suc m)
  then have n: "n < length (node_ues st)" by simp
  let ?f = "\<lambda>s js u. foldR (\<lambda>j. run_rb env u s j (\<lambda>rb. Inr (nr_pdcp_entity_set_time rb now))) js" and ?l = "length (node_ues st)"
  obtain st1 st2 where r: "?f True [0 ..< 2] n st = Inr st1" "?f False [0 ..< 5] n st1 = Inr st2"
      "foldR (\<lambda>u st. bindR (?f True [0 ..< 2] u st) (?f False [0 ..< 5] u)) [Suc n ..< ?l] st2 = Inr st'"
    using Suc.prems(1) unfolding upt_conv_Cons [OF n] foldR.simps by (elim bindR_InrE) blast
  have "gnb_ue (node_ues st ! n)" using Suc.prems(2) n by (auto simp: Cons_nth_drop_Suc [symmetric])
  note 1 = tick_slots [OF env r(1) n this]
  then have 2: "node_ues st2 = (node_ues st)[n := tick now (node_ues st ! n)]"
    using tick_slots [OF env r(2)] n by (simp add: tick_def MAX_DRBS_PER_UE_def del: upt_rec_numeral)
  then have "node_ues st' = take (Suc n) (node_ues st2) @ map (tick now) (drop (Suc n) (node_ues st2))"
    using Suc.hyps(1) [of st2 "Suc n"] Suc.hyps(2) Suc.prems(2) r(3) n by (simp add: Cons_nth_drop_Suc [symmetric])
  then show ?case using n by (simp add: 2 take_Suc_conv_app_nth Cons_nth_drop_Suc [symmetric])
qed simp

section \<open>SDAP entities\<close>

lemma get_entity_find: "nr_sdap_get_entity es k s = find_index (is_session k s) es"
  by (induction es) auto

lemma delete_loop_find:
  "length rest + n \<le> SDAP_MAX_NUM_OF_ENTITIES \<Longrightarrow> delete_entity_loop n k s e rest
     = map_option (\<lambda>i. ((e # rest) ! i, take i (e # rest) @ drop (Suc i) (e # rest))) (find_index (is_session k s) (e # rest))"
proof (induction rest arbitrary: n e)
  case Nil
  then show ?case by (subst delete_entity_loop.simps) auto
next
  case (Cons e' rest)
  then have "delete_entity_loop (n + 1) k s e' rest
    = map_option (\<lambda>i. ((e' # rest) ! i, take i (e' # rest) @ drop (Suc i) (e' # rest))) (find_index (is_session k s) (e' # rest))"
    "n < SDAP_MAX_NUM_OF_ENTITIES" by simp_all
  then show ?case
    by (subst delete_entity_loop.simps) (simp add: option.map_comp comp_def del: find_index.simps, simp add: option.map_comp comp_def)
qed

lemma drop_index_filter:
  "distinct (map f es) \<Longrightarrow> i < length es \<Longrightarrow> take i es @ drop (Suc i) es = filter (\<lambda>e. f e \<noteq> f (es ! i)) es"
proof (induction es arbitrary: i)
  case (Cons e es)
  show ?case
  proof (cases i)
    case 0
    have "f x \<noteq> f e" if "x \<in> set es" for x using Cons.prems(1) imageI [OF that, of f] by auto
    then have "filter (\<lambda>x. f x \<noteq> f e) es = es" by (intro filter_True) simp
    then show ?thesis using 0 by simp
  next
    case (Suc j)
    then have "f (es ! j) \<in> f ` set es" using Cons.prems(2) by simp
    then have "f e \<noteq> f (es ! j)" using Cons.prems(1) by force
    then show ?thesis using Cons.IH [of j] Cons.prems Suc by simp
  qed
qed simp

lemmas sdap_roles = SDAP_UL_TX_def SDAP_UL_RX_def SDAP_DL_TX_def SDAP_DL_RX_def

lemma add_flows_table:
  assumes "sc_drb_id c = d" and "sc_mappedQFIs2Add c = flows" and "0 < d" and "d \<le> 32"
    and "length (sd_qfi2drb_table e) = SDAP_MAX_QFI" and "\<forall>q \<in> set flows. 0 \<le> q \<and> q < 64"
  shows "\<exists>e'. nr_sdap_add_qos_flows_to_drb c e = Inr e'
    \<and> (\<forall>q \<in> set flows. sd_qfi2drb_table e' ! nat q = \<lparr> q_drb_id = d, q_entity_role = sc_role c mod 256 \<rparr>)"
proof -
  let ?f = "\<lambda>q e. let qfi = (word_of_int q :: u8)
        in if unat qfi < SDAP_MAX_QFI \<and> sc_drb_id c > 0 \<and> sc_drb_id c \<le> int MAX_DRBS_PER_UE
           then nr_sdap_qfi2drb_map_add e qfi (word_of_int (sc_drb_id c)) (word_of_int (sc_role c)) else Inr e"
    and ?r = "\<lparr> q_drb_id = d, q_entity_role = sc_role c mod 256 \<rparr>"
  have step: "?f q e = Inr (e\<lparr>sd_qfi2drb_table := (sd_qfi2drb_table e)[nat q := ?r]\<rparr>)"
    if "0 \<le> q" "q < 64" "length (sd_qfi2drb_table e) = SDAP_MAX_QFI" for q e
  proof -
    have u: "unat (word_of_int q :: u8) = nat q" "uint (word_of_int d :: u8) = d" "uint (word_of_int (sc_role c) :: u8) = sc_role c mod 256"
      using that assms(3,4) by (simp_all add: unsigned_of_int uint_word_of_int take_bit_int_eq_self take_bit_eq_mod)
    show ?thesis using that assms(1,3,4)
      by (simp add: u Let_def nr_sdap_qfi2drb_map_add_def table_set_def table_at_def MAX_DRBS_PER_UE_def SDAP_MAX_QFI_def)
        (cases "sd_qfi2drb_table e ! nat q", simp)
  qed
  have "\<exists>e'. foldR ?f fs e = Inr e' \<and> length (sd_qfi2drb_table e') = SDAP_MAX_QFI
      \<and> (\<forall>q. sd_qfi2drb_table e' ! nat q = (if q \<in> set fs then ?r else sd_qfi2drb_table e ! nat q) \<or> q < 0)"
    if "length (sd_qfi2drb_table e) = SDAP_MAX_QFI" "\<forall>q \<in> set fs. 0 \<le> q \<and> q < 64" for fs e
    using that
  proof (induction fs arbitrary: e)
    case (Cons q fs)
    let ?e = "e\<lparr>sd_qfi2drb_table := (sd_qfi2drb_table e)[nat q := ?r]\<rparr>"
    obtain e' where e': "foldR ?f fs ?e = Inr e'" "length (sd_qfi2drb_table e') = SDAP_MAX_QFI"
        "\<And>q. sd_qfi2drb_table e' ! nat q = (if q \<in> set fs then ?r else sd_qfi2drb_table ?e ! nat q) \<or> q < 0"
      using Cons.IH [of ?e] Cons.prems by auto
    have "foldR ?f (q # fs) e = Inr e'" using step [of q e] Cons.prems e'(1) by simp
    moreover have "sd_qfi2drb_table e' ! nat p = (if p \<in> set (q # fs) then ?r else sd_qfi2drb_table e ! nat p) \<or> p < 0" for p
      using e'(3) [of p] Cons.prems by (auto simp: nth_list_update SDAP_MAX_QFI_def)
    ultimately show ?case using e'(2) by blast
  qed simp
  from this [OF assms(5,6)] obtain e' where e': "foldR ?f flows e = Inr e'"
      "\<And>q. sd_qfi2drb_table e' ! nat q = (if q \<in> set flows then ?r else sd_qfi2drb_table e ! nat q) \<or> q < 0" by blast
  have "sd_qfi2drb_table e' ! nat q = ?r" if "q \<in> set flows" for q using e'(2) [of q] that assms(6) by auto
  then show ?thesis using e'(1) unfolding nr_sdap_add_qos_flows_to_drb_def assms(2) by blast
qed

section \<open>Examples\<close>

text \<open>DRB 6 holds back an SDU since time 1, with 100 milliseconds for reordering.\<close>

definition example_held_entity :: nr_pdcp_entity_t where
  "example_held_entity = (example_entity True)\<lparr>pe_rb_id := 6, pe_rx_next := 2, pe_rx_reord := 2, pe_t_reordering_start := 1,
     pe_rx_list := [nr_pdcp_new_sdu 1 [9] (pdcp_msg_integrity (example_entity True) [] 0)]\<rparr>"

definition example_timer_node :: l2_node where
  "example_timer_node =
     \<lparr> n_pdcp = \<lparr> pm_ue_list = [(new_pdcp_ue 9)\<lparr>pu_drb := (replicate MAX_DRBS_PER_UE None)
                    [0 := Some (example_entity True), 5 := Some example_held_entity]\<rparr>], pm_enb_flag = True \<rparr>,
       n_sdap = [], n_cu2du = (\<lambda>_. None), n_out = [] \<rparr>"

lemma example_timer_gnb: "\<forall>ue \<in> set (pm_ue_list (n_pdcp example_timer_node)). gnb_ue ue"
  by (auto simp: example_timer_node_def gnb_ue_def new_pdcp_ue_def example_held_entity_def example_entity_def
      dest!: set_update_subset_insert [THEN subsetD])

lemma example_timer_runs: "\<exists>st'. nr_pdcp_timer_round (example_l2_env True) 1000 example_timer_node = Inr st'"
proof -
  have n: "[0 ..< 2] = [0, 1 :: nat]" "[0 ..< 5] = [0, 1, 2, 3, 4 :: nat]" by (simp_all add: upt_rec)
  have d: "pe_delivered (nr_pdcp_entity_set_time (example_entity True) 1000) = []" "pe_delivered (example_entity True) = []"
    by (simp_all add: nr_pdcp_entity_set_time_def check_t_reordering_def example_entity_def)
  show ?thesis
    by (simp add: nr_pdcp_timer_round_def n example_timer_node_def nr_pdcp_manager_get_ue_count_def run_rb_def slot_of_def
        new_pdcp_ue_def MAX_DRBS_PER_UE_def store_ue_def set_rb_def d Let_def)
qed

section \<open>Properties\<close>

text \<open>
  C33. A round of the timer thread on a gNB connected to a core network gives the time to the entities of SRB 1
  and 2 and of DRB 1 to 5 of every UE, and leaves everything else of PDCP as it is. So the reordering timer of
  DRB 6 to 32, which the node creates and serves as well, never runs.
\<close>

theorem timer_thread_effect:
  assumes "\<not> le_nos1 env" and "\<not> le_nas_use_tun env" and "\<forall>ue \<in> set (pm_ue_list (n_pdcp st)). gnb_ue ue"
    and "nr_pdcp_timer_round env now st = Inr st'"
  shows "length (pm_ue_list (n_pdcp st')) = length (pm_ue_list (n_pdcp st))
    \<and> (\<forall>u < length (pm_ue_list (n_pdcp st)).
         let ue = pm_ue_list (n_pdcp st) ! u; ue' = pm_ue_list (n_pdcp st') ! u
         in pu_ue_id ue' = pu_ue_id ue
           \<and> (\<forall>i < 3. pu_srb ue' ! i = (if i < 2 then map_option (\<lambda>e. nr_pdcp_entity_set_time e now) (pu_srb ue ! i) else pu_srb ue ! i))
           \<and> (\<forall>i < 32. pu_drb ue' ! i = (if i < 5 then map_option (\<lambda>e. nr_pdcp_entity_set_time e now) (pu_drb ue ! i) else pu_drb ue ! i)))"
proof -
  have m: "node_ues st' = map (tick now) (node_ues st)"
    using tick_all [OF assms(1,2), where n = 0 and st = st and st' = st'] assms(3,4)
    by (simp add: nr_pdcp_timer_round_def nr_pdcp_manager_get_ue_count_def)
  have g: "gnb_ue (node_ues st ! u)" if "u < length (node_ues st)" for u using assms(3) that by simp
  have "i < 32 \<Longrightarrow> i < MAX_DRBS_PER_UE" "0 < MAX_DRBS_PER_UE" for i by (simp_all add: MAX_DRBS_PER_UE_def)
  then show ?thesis
    using tick_nth(1) [OF g, of _ 0 0] tick_nth(2) [OF g, of _ _ 0] tick_nth(3) [OF g, of _ 0] unfolding m Let_def
    by (intro conjI allI impI) simp_all
qed

theorem timer_thread_effect_witness:
  "\<exists>st'. nr_pdcp_timer_round (example_l2_env True) 1000 example_timer_node = Inr st'
    \<and> map_option pe_t_current (pu_drb (pm_ue_list (n_pdcp st') ! 0) ! 0) = Some 1000
    \<and> pu_drb (pm_ue_list (n_pdcp st') ! 0) ! 5 = Some example_held_entity"
proof -
  obtain st' where r: "nr_pdcp_timer_round (example_l2_env True) 1000 example_timer_node = Inr st'" using example_timer_runs by blast
  have e: "\<not> le_nos1 (example_l2_env True)" "\<not> le_nas_use_tun (example_l2_env True)" by (simp_all add: example_l2_env_def)
  have g: "\<forall>ue \<in> set (pm_ue_list (n_pdcp example_timer_node)). gnb_ue ue" by (rule example_timer_gnb)
  have t: "pe_t_current (nr_pdcp_entity_set_time (example_entity True) 1000) = 1000"
    by (simp add: nr_pdcp_entity_set_time_def check_t_reordering_def example_entity_def)
  from timer_thread_effect [OF e g r] show ?thesis using r t by (simp add: example_timer_node_def MAX_DRBS_PER_UE_def Let_def)
qed

text \<open>
  C34. Removal of a UE: afterwards the UE is unknown and all other UEs are found as before, in PDCP and in RLC. RLC
  deletes every entity of the UE. PDCP deletes exactly the entities of SRB 1 and 2 and of DRB 1 to 5, so the ones
  of DRB 6 to 32 are lost without being deleted.
\<close>

theorem remove_ue_effect:
  assumes "distinct (map pu_ue_id (pm_ue_list p))" and "distinct (map ru_ue_id (rm_ue_list r))"
    and "ue_map pu_ue_id (pm_ue_list p) k = Some ue" and "ue_map ru_ue_id (rm_ue_list r) k' = Some ue'"
    and "nr_pdcp_manager_remove_ue p k = (d, p')" and "nr_rlc_manager_remove_ue r k' = (d', r')"
  shows "ue_map pu_ue_id (pm_ue_list p') = (ue_map pu_ue_id (pm_ue_list p))(k := None)
    \<and> ue_map ru_ue_id (rm_ue_list r') = (ue_map ru_ue_id (rm_ue_list r))(k' := None)
    \<and> (\<forall>e. e \<in> set d' \<longleftrightarrow> ru_srb0 ue' = Some e \<or> (\<exists>i < 3. ru_srb ue' ! i = Some e) \<or> (\<exists>i < 32. ru_drb ue' ! i = Some e))
    \<and> (\<forall>e. e \<in> set d \<longleftrightarrow> (\<exists>i < 2. pu_srb ue ! i = Some e) \<or> (\<exists>i < 5. pu_drb ue ! i = Some e))"
proof -
  have mf: "e \<in> set (List.map_filter id xs) \<longleftrightarrow> Some e \<in> set xs" for e :: 'x and xs
    by (force simp: List.map_filter_def)
  obtain i where i: "find_index (\<lambda>u. pu_ue_id u = k) (pm_ue_list p) = Some i" "pm_ue_list p ! i = ue"
    using assms(3) by (auto simp: ue_map_def find_index_find)
  obtain j where j: "find_index (\<lambda>u. ru_ue_id u = k') (rm_ue_list r) = Some j" "rm_ue_list r ! j = ue'"
    using assms(4) by (auto simp: ue_map_def find_index_find)
  have "d = List.map_filter id (map ((!) (pu_srb ue)) [0 ..< 2]) @ List.map_filter id (map ((!) (pu_drb ue)) [0 ..< 5])"
    using assms(5) i by (simp add: nr_pdcp_manager_remove_ue_def Let_def)
  then have 1: "e \<in> set d \<longleftrightarrow> (\<exists>i < 2. pu_srb ue ! i = Some e) \<or> (\<exists>i < 5. pu_drb ue ! i = Some e)" for e
    by (simp only: set_append Un_iff mf) (auto simp: image_iff eq_commute)
  have "d' = List.map_filter id ([ru_srb0 ue'] @ map ((!) (ru_srb ue')) [0 ..< 3] @ map ((!) (ru_drb ue')) [0 ..< MAX_DRBS_PER_UE])"
    using assms(6) j by (simp add: nr_rlc_manager_remove_ue_def Let_def)
  then have 2: "e \<in> set d' \<longleftrightarrow> ru_srb0 ue' = Some e \<or> (\<exists>i < 3. ru_srb ue' ! i = Some e) \<or> (\<exists>i < 32. ru_drb ue' ! i = Some e)" for e
    by (simp only: mf) (auto simp: image_iff eq_commute MAX_DRBS_PER_UE_def)
  show ?thesis
    using 1 2 pdcp_ues.remove_ue_spec(2) [of p k] rlc_ues.remove_ue_spec(2) [of r k'] assms(1,2,5,6)
    by (simp add: pdcp_ues.unique_def rlc_ues.unique_def)
qed

theorem remove_ue_effect_witness:
  "\<exists>e d p' d' r'. new_nr_rlc_entity_tm 4 = Inr e
     \<and> nr_pdcp_manager_remove_ue (n_pdcp example_timer_node) 9 = (d, p')
     \<and> nr_rlc_manager_remove_ue \<lparr> rm_ue_list = [(new_rlc_ue 9)\<lparr>ru_srb0 := Some (Rlc_TM e)\<rparr>], rm_mode = NR_RLC_OP_MODE_MONO_GNB \<rparr> 9 = (d', r')
     \<and> Rlc_TM e \<in> set d' \<and> example_entity True \<in> set d \<and> example_held_entity \<notin> set d \<and> ue_map pu_ue_id (pm_ue_list p') 9 = None"
proof -
  obtain e where e: "new_nr_rlc_entity_tm 4 = Inr e" by (rule tm_new_ok [of 4]) simp_all
  let ?p = "n_pdcp example_timer_node"
    and ?r = "\<lparr> rm_ue_list = [(new_rlc_ue 9)\<lparr>ru_srb0 := Some (Rlc_TM e)\<rparr>], rm_mode = NR_RLC_OP_MODE_MONO_GNB \<rparr>"
  obtain d p' d' r' where r: "nr_pdcp_manager_remove_ue ?p 9 = (d, p')" "nr_rlc_manager_remove_ue ?r 9 = (d', r')" by fastforce
  define ue where "ue = pm_ue_list ?p ! 0"
  have p: "distinct (map pu_ue_id (pm_ue_list ?p))" "ue_map pu_ue_id (pm_ue_list ?p) 9 = Some ue"
    by (simp_all add: ue_def example_timer_node_def new_pdcp_ue_def ue_map_def)
  have q: "distinct (map ru_ue_id (rm_ue_list ?r))" "ue_map ru_ue_id (rm_ue_list ?r) 9 = Some ((new_rlc_ue 9)\<lparr>ru_srb0 := Some (Rlc_TM e)\<rparr>)"
    by (simp_all add: new_rlc_ue_def ue_map_def)
  have "(\<exists>i < 5. pu_drb ue ! i = Some (example_entity True))"
    by (rule exI [of _ 0]) (simp add: ue_def example_timer_node_def MAX_DRBS_PER_UE_def)
  moreover have "\<not> (\<exists>i < 5. pu_drb ue ! i = Some example_held_entity)" "\<not> (\<exists>i < 2. pu_srb ue ! i = Some example_held_entity)"
    by (auto simp: ue_def example_timer_node_def new_pdcp_ue_def MAX_DRBS_PER_UE_def nth_list_update example_held_entity_def example_entity_def
        split: if_splits)
  ultimately show ?thesis using remove_ue_effect [OF p(1) q(1) p(2) q(2) r] r e
    by (intro exI [of _ e] exI [of _ d] exI [of _ p'] exI [of _ d'] exI [of _ r']) simp
qed

text \<open>
  C35. Deletion of a PDU session with a valid identifier from a list of SDAP entities that is not longer than the
  bound of the loop: the entity of the session is unlinked and all others stay in their order; without such an
  entity nothing changes. With no SDAP entity at all the function dereferences the null pointer, although its
  first test is meant for this case.
\<close>

theorem sdap_delete_entity_exact:
  assumes "distinct (map (\<lambda>e. (sd_ue_id e, sd_pdusession_id e)) es)" and "0 \<le> s" and "s \<le> 256" and "length es \<le> 1280"
  shows "nr_sdap_delete_entity es k s
    = (if es = [] then Inl Null_Deref
       else case nr_sdap_get_entity es k s of
         None \<Rightarrow> Inr (None, es)
       | Some i \<Rightarrow> Inr (Some (es ! i), filter (\<lambda>e. \<not> (sd_ue_id e = k \<and> sd_pdusession_id e = s)) es))"
proof (cases es)
  case Nil
  have "\<not> s * (s - 256) > 0" using assms(2,3) by (simp add: mult_nonneg_nonpos not_less)
  then show ?thesis using Nil by (simp add: nr_sdap_delete_entity_def NGAP_MAX_PDU_SESSION_def)
next
  case (Cons e rest)
  have "length rest + 0 \<le> SDAP_MAX_NUM_OF_ENTITIES"
    using assms(4) Cons by (simp add: SDAP_MAX_NUM_OF_ENTITIES_def MAX_DRBS_PER_UE_def MAX_MOBILES_PER_ENB_def)
  from delete_loop_find [OF this, of k s e] have L: "delete_entity_loop 0 k s e rest
      = map_option (\<lambda>i. (es ! i, take i es @ drop (Suc i) es)) (find_index (is_session k s) es)" by (simp only: Cons)
  show ?thesis
  proof (cases "find_index (is_session k s) es")
    case None
    then show ?thesis using Cons L by (simp add: nr_sdap_delete_entity_def get_entity_find del: find_index.simps)
  next
    case (Some i)
    then have i: "i < length es" "sd_ue_id (es ! i) = k" "sd_pdusession_id (es ! i) = s"
      using find_index_SomeD [OF Some] by (auto simp: is_session_def)
    have "nr_sdap_delete_entity es k s = Inr (Some (es ! i), take i es @ drop (Suc i) es)"
      using L Some by (simp add: Cons nr_sdap_delete_entity_def del: find_index.simps)
    then show ?thesis using Cons Some drop_index_filter [OF assms(1) i(1)] i(2,3) by (simp add: get_entity_find del: find_index.simps)
  qed
qed

theorem sdap_delete_entity_exact_witness:
  "nr_sdap_delete_entity [example_sdap True 1, example_sdap True 2, example_sdap True 3] 2 1
     = Inr (Some (example_sdap True 2), [example_sdap True 1, example_sdap True 3])
   \<and> nr_sdap_delete_entity [] 2 1 = Inl Null_Deref"
  using sdap_delete_entity_exact [of "[example_sdap True 1, example_sdap True 2, example_sdap True 3]" 1 2]
    sdap_delete_entity_exact [of "[]" 1 2]
  by (simp_all add: example_sdap_def is_session_def)

text \<open>
  C36. The two ends of a bearer derive dual roles from the same SDAP configuration: for every QoS flow that the
  configuration adds (as many as its eight bit number of flows says, which is all of them for the up to 64 flows of
  the protocol), both ends map the flow to the bearer; the gNB sends a header exactly when the UE expects
  one, and the UE sends a header exactly when the gNB expects one. The same holds for what the two PDCP entities
  leave unciphered.
\<close>

theorem sdap_roles_dual:
  assumes "nr_sdap_get_config True c d = Inr cg" and "nr_sdap_get_config False c d = Inr cu" and "0 < d" and "d \<le> 32"
    and "length (sd_qfi2drb_table eg) = SDAP_MAX_QFI" and "length (sd_qfi2drb_table eu) = SDAP_MAX_QFI"
    and "rc_mappedQoS_FlowsToAdd c = Some flows" and "\<forall>q \<in> set flows. 0 \<le> q \<and> q < 64"
  shows "\<exists>eg' eu'. nr_sdap_add_qos_flows_to_drb cg eg = Inr eg' \<and> nr_sdap_add_qos_flows_to_drb cu eu = Inr eu'
    \<and> (\<forall>q \<in> set (take (length flows mod 256) flows). let rg = sd_qfi2drb_table eg' ! nat q; ru = sd_qfi2drb_table eu' ! nat q
         in q_drb_id rg = d \<and> q_drb_id ru = d
           \<and> has_role (q_entity_role rg) SDAP_DL_TX = rc_sdap_HeaderDL_present c
           \<and> has_role (q_entity_role ru) SDAP_DL_RX = rc_sdap_HeaderDL_present c
           \<and> has_role (q_entity_role ru) SDAP_UL_TX = rc_sdap_HeaderUL_present c
           \<and> has_role (q_entity_role rg) SDAP_UL_RX = rc_sdap_HeaderUL_present c)
    \<and> has_role (sc_role cg) (SDAP_UL_TX OR SDAP_DL_TX) = has_role (sc_role cu) (SDAP_UL_RX OR SDAP_DL_RX)
    \<and> has_role (sc_role cu) (SDAP_UL_TX OR SDAP_DL_TX) = has_role (sc_role cg) (SDAP_UL_RX OR SDAP_DL_RX)"
proof -
  let ?flows = "take (length flows mod 256) flows"
  have q: "\<forall>q \<in> set ?flows. 0 \<le> q \<and> q < 64" using assms(8) by (auto dest: in_set_takeD)
  have cg: "sc_drb_id cg = d" "sc_mappedQFIs2Add cg = ?flows" "sc_role cg = get_sdap_role True c"
    and cu: "sc_drb_id cu = d" "sc_mappedQFIs2Add cu = ?flows" "sc_role cu = get_sdap_role False c"
    using assms(1,2,7) by (auto simp: nr_sdap_get_config_def Let_def split: if_splits)
  obtain eg' where g: "nr_sdap_add_qos_flows_to_drb cg eg = Inr eg'"
      "\<forall>q \<in> set ?flows. sd_qfi2drb_table eg' ! nat q = \<lparr> q_drb_id = d, q_entity_role = sc_role cg mod 256 \<rparr>"
    using add_flows_table [OF cg(1,2) assms(3-5) q] by blast
  obtain eu' where u: "nr_sdap_add_qos_flows_to_drb cu eu = Inr eu'"
      "\<forall>q \<in> set ?flows. sd_qfi2drb_table eu' ! nat q = \<lparr> q_drb_id = d, q_entity_role = sc_role cu mod 256 \<rparr>"
    using add_flows_table [OF cu(1,2) assms(3,4,6) q] by blast
  show ?thesis using g u
    by (cases "rc_sdap_HeaderUL_present c"; cases "rc_sdap_HeaderDL_present c")
      (simp_all add: cg(3) cu(3) get_sdap_role_def Let_def sdap_roles has_role_def)
qed

theorem sdap_roles_dual_witness:
  "\<exists>eg' cg. nr_sdap_get_config True \<lparr> rc_pdu_Session = 1, rc_sdap_HeaderDL_present = True, rc_sdap_HeaderUL_present = False,
       rc_defaultDRB = True, rc_mappedQoS_FlowsToAdd = Some [5, 9], rc_mappedQoS_FlowsToRelease = None \<rparr> 4 = Inr cg
     \<and> nr_sdap_add_qos_flows_to_drb cg (example_sdap True 1) = Inr eg' \<and> q_drb_id (sd_qfi2drb_table eg' ! 9) = 4
     \<and> has_role (q_entity_role (sd_qfi2drb_table eg' ! 9)) SDAP_DL_TX \<and> \<not> has_role (q_entity_role (sd_qfi2drb_table eg' ! 9)) SDAP_UL_RX"
proof -
  let ?c = "\<lparr> rc_pdu_Session = 1, rc_sdap_HeaderDL_present = True, rc_sdap_HeaderUL_present = False,
       rc_defaultDRB = True, rc_mappedQoS_FlowsToAdd = Some [5, 9], rc_mappedQoS_FlowsToRelease = None \<rparr>"
  have "\<exists>cg. nr_sdap_get_config g ?c 4 = Inr cg" for g by (simp add: nr_sdap_get_config_def SDAP_MAX_QFI_def Let_def)
  then obtain cg cu where c: "nr_sdap_get_config True ?c 4 = Inr cg" "nr_sdap_get_config False ?c 4 = Inr cu" by blast
  have l: "length (sd_qfi2drb_table (example_sdap g 1)) = SDAP_MAX_QFI" for g by (simp add: example_sdap_def)
  from sdap_roles_dual [OF c _ _ l l, of "[5, 9]" True False] show ?thesis using c(1) by (auto simp: Let_def)
qed

text \<open>
  C37. The enumerations of the configuration messages of PDCP and RLC: in every table, encoding a value and
  decoding its index are inverse to each other, and decoding fails exactly outside of the table.
\<close>

theorem config_tables_roundtrip:
  assumes "tab \<in> set config_tables"
  shows "(tab_decode tab v = Inr x \<longleftrightarrow> tab_encode tab x = Inr v) \<and> (tab_decode tab v = Inl Abort \<longleftrightarrow> v < 0 \<or> int (length tab) \<le> v)"
  using tab_roundtrip [of tab v x] config_tables_distinct assms by (auto simp: tab_decode_def)

theorem config_tables_roundtrip_witness:
  "tab_decode VALUES_NR_PDCP_SN_SIZE 1 = Inr 18 \<and> tab_encode VALUES_NR_PDCP_SN_SIZE 18 = Inr 1 \<and> tab_decode VALUES_NR_PDCP_SN_SIZE 2 = Inl Abort"
  using config_tables_roundtrip [of VALUES_NR_PDCP_SN_SIZE 1 18] config_tables_roundtrip [of VALUES_NR_PDCP_SN_SIZE 2 0]
  by (simp add: config_tables_def) (simp add: VALUES_NR_PDCP_SN_SIZE_def tab_decode_def)

end
