(* ===== verification/Spec2Isabelle.thy ===== *)
theory Spec2Isabelle
  imports Time_Stat Rlc_Pdu Rlc_Sdu Rlc_Tm Rlc_Um_Tx Rlc_Rx_Manager Rlc_Am_Props Snow3g_Spec Pdcp_Props Pdcp_Queue Node_Mgmt
begin

text \<open>
  Verification of the layer 2 data plane of the 5G gNB and UE of OpenAirInterface: RLC
  (\<^verbatim>\<open>openair2/LAYER2/nr_rlc\<close>), PDCP (\<^verbatim>\<open>openair2/LAYER2/nr_pdcp\<close>) with the SNOW 3G code of \<^verbatim>\<open>openair3/SECU\<close>, and SDAP
  (\<^verbatim>\<open>openair2/SDAP/nr_sdap\<close>).

  The program. An IP packet enters a node through SDAP, which finds the data radio bearer of its QoS flow and
  writes a header. PDCP numbers the SDU with a COUNT value, protects and ciphers it, and leaves the PDU in a work
  queue from which a thread gives it to RLC. RLC cuts it into the grants of the MAC scheduler, in one of three
  modes: transparent, unacknowledged, or acknowledged with status reports and retransmission. The other node does
  the reverse: RLC reassembles, a second work queue leads to PDCP, PDCP deciphers, checks and reorders, and SDAP
  delivers to a TUN device or a GTP-U tunnel. Configuration comes from RRC, time from a timer thread.

  How C is read (\<open>Prelude\<close>). A structure is a record, a function that changes it takes and returns the record. A
  computation that can end the process or touch memory it must not touch has a value of type \<open>'a res\<close>: a fault
  (\<open>Abort\<close>, \<open>Null_Deref\<close>, \<open>Use_After_Free\<close>, \<open>Out_Of_Bounds\<close>, \<open>Hang\<close>) or a result. Unsigned machine integers are words of
  their width and wrap; the \<^verbatim>\<open>int\<close> quantities of RLC (sequence numbers, offsets, sizes) are integers, which their
  invariants keep small. A linked list is a list; where the code compares or shares pointers there are addresses
  (\<open>Rlc_Sdu\<close>: SDUs shared by their segments are in a store, with reference counts). A callback out of an entity is
  recorded in a list of events. The prelude also has the generic lemmas on results (\<open>bindR\<close>, \<open>postR\<close>), ordered
  insertion (locale \<open>ordered_list\<close>) and sequence numbers.

  The theories and what they show.

  \<open>Time_Stat\<close> is \<^verbatim>\<open>common/utils/time_stat.c\<close>: the ring of samples behaves as a queue with a sum.

  \<open>Rlc_Pdu\<close>, \<open>Rlc_Sdu\<close>, \<open>Rlc_Entity\<close>, \<open>Rlc_Reassembly\<close> and \<open>Rlc_Rx_Manager\<close> are the parts that RLC entities share: the
  bit codec (what is written is read back), segments with reference counts, statistics and buffer status,
  reassembly, and the circular buffer of received PDUs, which implements the table of the locale \<open>rx_store\<close>.

  \<open>Rlc_Tm\<close> is \<^verbatim>\<open>nr_rlc_entity_tm.c\<close>: any sequence of calls is one on a bounded FIFO queue.

  \<open>Rlc_Um\<close> and \<open>Rlc_Um_Tx\<close> are \<^verbatim>\<open>nr_rlc_entity_um.c\<close>: the generator of PDUs refines a step on a queue of pending parts
  and the next sequence number; buffer status, occupancy and references in the states of \<open>um_reach\<close>; the SDU that
  a two byte grant loses.

  \<open>Rlc_Am\<close>, \<open>Rlc_Am_Status\<close>, \<open>Rlc_Am_Tx\<close> and \<open>Rlc_Am_Control\<close> are \<^verbatim>\<open>nr_rlc_entity_am.c\<close> in the order of the source;
  \<open>Rlc_Am_Wire\<close> has the PDUs on the wire, \<open>Rlc_Am_Lists\<close> the invariant \<open>am_tx_ok\<close> of the three lists of segments,
  \<open>Rlc_Am_Ops\<close>, \<open>Rlc_Am_Gen\<close>, \<open>Rlc_Am_Ack\<close> and \<open>Rlc_Am_Feedback\<close> that the operations keep it, \<open>Rlc_Am_Reach\<close> the reachable
  states and \<open>Rlc_Am_Props\<close> the properties: accounting, generation, status PDUs, the calls that return, progress of
  retransmission, and two defects. The window arithmetic is the locale \<open>sn_window\<close>.

  \<open>Snow3g_Tables\<close>, \<open>Snow3g\<close> and \<open>Snow3g_Spec\<close> are \<^verbatim>\<open>openair3/SECU/snow3g.c\<close>: the optimised register and multiplication
  equal the plain ones, ciphering twice is the identity, the integrity function is the evaluation of a polynomial.

  \<open>Pdcp_Security\<close> has NEA1, NEA2, NIA1 and NIA2 (locales \<open>pdcp_cipher\<close> and \<open>pdcp_integrity\<close>); \<open>Pdcp_Sdu\<close> and \<open>Pdcp_Entity\<close> are
  \<^verbatim>\<open>nr_pdcp_sdu.c\<close> and \<^verbatim>\<open>nr_pdcp_entity.c\<close>; \<open>Pdcp_Count\<close>, \<open>Pdcp_Link\<close>, \<open>Pdcp_Order\<close> and \<open>Pdcp_Transfer\<close> have COUNT values, two
  peers, reordering (\<open>rx_ok\<close>) and transfer; \<open>Pdcp_Props\<close> the properties: order of delivery, expiry of the reordering
  timer, transfer in and out of order, COUNT values, integrity, and the faults of reception.

  \<open>Pdcp_Queue\<close> has the two work queues of \<^verbatim>\<open>nr_pdcp_oai_api.c\<close> with their threads as an interleaving of the sections that
  hold the mutex (locale \<open>bounded_queue\<close>, interpreted on both): they are FIFO and no wake-up is lost.

  \<open>Platform\<close>, \<open>Asn1_Tables\<close>, \<open>Ue_Managers\<close> (locale \<open>ue_table\<close>), \<open>Sdap_Table\<close>, \<open>Sdap\<close>, \<open>Pdcp_Layer\<close> and \<open>Pdcp_Api\<close> are the node above
  RLC: \<^verbatim>\<open>nr_pdcp_ue_manager.c\<close>, \<^verbatim>\<open>nr_rlc_ue_manager.c\<close>, both \<^verbatim>\<open>asn1_utils.c\<close>, \<^verbatim>\<open>nr_sdap_entity.c\<close>, \<^verbatim>\<open>nr_pdcp_oai_api.c\<close> and
  \<^verbatim>\<open>nr_pdcp_timer_thread.c\<close>. \<open>Pdcp_Frame\<close>, \<open>Node_Inv\<close> and \<open>Node_Reach\<close> show that every operation keeps the node well-formed;
  \<open>Node_Link\<close> and \<open>Node_Props\<close> that IP packets pass from SDAP of one node to SDAP of the other in both directions;
  \<open>Node_Mgmt\<close> the timer thread, removal of UEs and PDU sessions, and the configuration of both ends.

  Conditions. The states over which an invariant of an entity is shown are those of an inductive predicate, whose
  text names the calls it leaves out. \<open>um_reach\<close>: no grant that drops an SDU, no empty SDU, no change of the
  sequence number length. \<open>am_reach\<close>: accepted status PDUs are those of a peer that follows the protocol, no empty
  SDU, no change of the sequence number length. \<open>pdcp_reach\<close>: all calls, with the reordering timer only where
  the time was known at every reception; the last COUNT value is not received, and the numbering does not start
  anew while SDUs are held back without a timer. AES in counter mode and its CMAC are library code: they
  are arguments (\<open>secu_env\<close>), and \<open>secu_ok\<close> states that the former keeps the length and undoes itself and that the
  latter has 16 bytes.

  Bounds and fuel. Loops over lists are structural recursion. The reader of a status PDU has fuel from the length
  of the PDU; that it suffices is shown with its totality, which excludes \<open>Hang\<close>. The loops over the sequence numbers
  of the receiving side are partial functions to \<open>option\<close>, without fuel: not ending is \<open>None\<close>, which the operation
  turns into the fault \<open>Hang\<close>; \<open>Rlc_Reassembly\<close> shows when the search for the first number not delivered ends.

  Not modelled. The dispatch from MAC, PDCP and F1-U to the entities of a UE (\<^verbatim>\<open>nr_rlc_oai_api.c\<close>), locking of the
  managers (their operations are sequences), logging and LTTng/JBPF hooks, TUN devices, sockets and threads as system
  objects (a packet handed out is an output of the node). The layers around are not modelled: MAC, PHY, RRC, F1AP,
  E1AP, NGAP, NAS, GTP-U, nFAPI, the LTE stack and the radio drivers; RRC structures that the build generates from
  ASN.1 appear as records with the fields that are read.
\<close>

end
